(* ===== verification/Prelude.thy ===== *)
theory Prelude
  imports Main "HOL-Library.Word" "HOL-Library.Sublist"
begin

text \<open>
  Shared vocabulary of the development: the widths of the machine integers of the
  LP64 build, the C and C++ string operations the sources use (\<open>strstr\<close>,
  \<open>std::string::find\<close>, \<open>starts_with\<close>, \<open>ends_with\<close>, \<open>strnlen\<close>), bounds-checked
  little-endian reads from a byte buffer, and the fault values that stand for a
  C++ program leaving its normal control flow.  The collections declared here
  gather the facts the component theories hand to the simplifier.
\<close>

unbundle bit_operations_syntax

named_theorems frame_simps \<open>state fields an operation leaves alone\<close>
named_theorems call_simps \<open>the operating system calls an operation issues\<close>
named_theorems str_simps \<open>string search and slicing\<close>

section \<open>Machine integers\<close>

type_synonym u8 = "8 word"
type_synonym u16 = "16 word"
type_synonym u32 = "32 word"
type_synonym u64 = "64 word"

section \<open>Leaving normal control flow\<close>

text \<open>
  What a C++ process does when it cannot go on: an exception nobody catches
  (\<open>std::length_error\<close> of a container), a read outside a mapping or through a null
  pointer, an integer division by zero, a write past the end of a buffer.  A computation that can do so returns
  \<open>Inl\<close> of one of these, and \<open>Inr\<close> of its result otherwise.
\<close>

datatype fault = Uncaught_exception | Bad_read | Null_deref | Div_by_zero | Buffer_overflow

type_synonym 'a res = "fault + 'a"

fun bind_res :: "'e + 'a \<Rightarrow> ('a \<Rightarrow> 'e + 'b) \<Rightarrow> 'e + 'b" where
  "bind_res (Inl e) f = Inl e"
| "bind_res (Inr x) f = f x"

lemma bind_res_Inr_iff [simp]:
  "bind_res m f = Inr y \<longleftrightarrow> (\<exists>x. m = Inr x \<and> f x = Inr y)"
  by (cases m) auto

lemma bind_res_cong [fundef_cong]:
  "m = m' \<Longrightarrow> (\<And>x. m' = Inr x \<Longrightarrow> f x = f' x) \<Longrightarrow> bind_res m f = bind_res m' f'"
  by (cases m') auto

lemma bind_res_assoc: "bind_res (bind_res m f) g = bind_res m (\<lambda>x. bind_res (f x) g)"
  by (cases m) auto

section \<open>Strings\<close>

text \<open>\<open>std::string::find\<close> and \<open>strstr\<close>: the offset of the first occurrence.\<close>

fun str_find :: "'a list \<Rightarrow> 'a list \<Rightarrow> nat option" where
  "str_find pat [] = (if pat = [] then Some 0 else None)"
| "str_find pat (c # cs) =
     (if take (length pat) (c # cs) = pat then Some 0
      else map_option Suc (str_find pat cs))"

definition str_contains :: "'a list \<Rightarrow> 'a list \<Rightarrow> bool" where
  "str_contains s pat \<longleftrightarrow> str_find pat s \<noteq> None"

definition starts_with :: "'a list \<Rightarrow> 'a list \<Rightarrow> bool" where
  "starts_with s p \<longleftrightarrow> take (length p) s = p"

definition ends_with :: "'a list \<Rightarrow> 'a list \<Rightarrow> bool" where
  "ends_with s p \<longleftrightarrow> length p \<le> length s \<and> drop (length s - length p) s = p"

lemma starts_with_append [simp]: "starts_with (p @ s) p"
  by (simp add: starts_with_def)

lemma starts_with_iff [str_simps]: "starts_with s p \<longleftrightarrow> (\<exists>t. s = p @ t)"
  by (metis append_take_drop_id append_eq_conv_conj starts_with_def)

lemma str_find_Some:
  "str_find pat s = Some k \<Longrightarrow>
     k + length pat \<le> length s \<and> take (length pat) (drop k s) = pat"
proof (induction pat s arbitrary: k rule: str_find.induct)
  case (1 pat)
  then show ?case by (auto split: if_splits)
next
  case (2 pat c cs)
  show ?case
  proof (cases "take (length pat) (c # cs) = pat")
    case True
    with "2.prems" have "k = 0" by simp
    have "length (take (length pat) (c # cs)) = length pat" using True by simp
    then have "length pat \<le> Suc (length cs)" by simp
    with True \<open>k = 0\<close> show ?thesis by simp
  next
    case False
    with "2.prems" obtain j where "str_find pat cs = Some j" "k = Suc j" by auto
    with "2.IH" False show ?thesis by simp
  qed
qed

lemma str_find_first:
  "str_find pat s = Some k \<Longrightarrow> j < k \<Longrightarrow> take (length pat) (drop j s) \<noteq> pat"
proof (induction pat s arbitrary: k j rule: str_find.induct)
  case (1 pat)
  then show ?case by (auto split: if_splits)
next
  case (2 pat c cs)
  then show ?case by (cases j) (auto split: if_splits)
qed

lemma str_find_None:
  "str_find pat s = None \<Longrightarrow> take (length pat) (drop j s) \<noteq> pat"
proof (induction pat s arbitrary: j rule: str_find.induct)
  case (1 pat)
  then show ?case by (auto split: if_splits)
next
  case (2 pat c cs)
  then show ?case by (cases j) (auto split: if_splits)
qed

lemma str_contains_iff [str_simps]: "str_contains s pat \<longleftrightarrow> (\<exists>a b. s = a @ pat @ b)"
proof
  assume "str_contains s pat"
  then obtain k where k: "str_find pat s = Some k" by (auto simp: str_contains_def)
  from str_find_Some [OF this] have t: "take (length pat) (drop k s) = pat" by simp
  have "s = take k s @ take (length pat) (drop k s) @ drop (length pat) (drop k s)"
    by (simp only: append_take_drop_id)
  with t show "\<exists>a b. s = a @ pat @ b" by metis
next
  assume "\<exists>a b. s = a @ pat @ b"
  then obtain a b where "s = a @ pat @ b" by blast
  then have "take (length pat) (drop (length a) s) = pat" by simp
  then show "str_contains s pat"
    using str_find_None [of pat s] by (auto simp: str_contains_def)
qed

lemma str_contains_sublist: "str_contains s pat \<longleftrightarrow> sublist pat s"
  by (simp add: str_contains_iff sublist_def)

text \<open>\<open>strnlen\<close>: the number of characters before the first NUL, at most all of them.\<close>

definition nul :: char where
  "nul = CHR 0x00"

definition cstrnlen :: "string \<Rightarrow> nat" where
  "cstrnlen s = length (takeWhile (\<lambda>c. c \<noteq> nul) s)"

lemma cstrnlen_le: "cstrnlen s \<le> length s"
  by (simp add: cstrnlen_def length_takeWhile_le)

lemma cstrnlen_append:
  "nul \<notin> set s \<Longrightarrow> cstrnlen (s @ nul # t) = length s"
  unfolding cstrnlen_def by (induction s) auto

section \<open>Numbers as text\<close>

text \<open>Digits most significant first, in a base up to sixteen, as an output stream prints them.\<close>

definition digit_char :: "nat \<Rightarrow> char" where
  "digit_char d = (if d < 10 then char_of (48 + d) else char_of (87 + d))"

fun nat_string :: "nat \<Rightarrow> nat \<Rightarrow> string" where
  "nat_string b n =
     (if n < b \<or> b < 2 then [digit_char n] else nat_string b (n div b) @ [digit_char (n mod b)])"

declare nat_string.simps [simp del]

definition int_string :: "int \<Rightarrow> string" where
  "int_string i = (if i < 0 then ''-'' @ nat_string 10 (nat (- i)) else nat_string 10 (nat i))"

lemma nat_string_nonempty [simp]: "nat_string b n \<noteq> []"
  by (subst nat_string.simps) simp

text \<open>
  \<open>strtol\<close> in base 10 on a 64-bit \<open>long\<close>: the value, whether it was out of range
  (\<open>ERANGE\<close>), and what follows the number; with no digits the end pointer is the start.
\<close>

definition is_space :: "char \<Rightarrow> bool" where
  "is_space c \<longleftrightarrow> c = CHR 0x20 \<or> (9 \<le> (of_char c :: nat) \<and> (of_char c :: nat) \<le> 13)"

definition is_digit :: "char \<Rightarrow> bool" where
  "is_digit c \<longleftrightarrow> 48 \<le> (of_char c :: nat) \<and> (of_char c :: nat) \<le> 57"

definition digits_value :: "string \<Rightarrow> int" where
  "digits_value ds = foldl (\<lambda>v c. v * 10 + (int (of_char c) - 48)) 0 ds"

definition strtol :: "string \<Rightarrow> int \<times> bool \<times> string" where
  "strtol s =
     (let t = dropWhile is_space s;
          neg = (case t of c # _ \<Rightarrow> c = CHR 0x2D | [] \<Rightarrow> False);
          u = (case t of c # r \<Rightarrow> if c = CHR 0x2D \<or> c = CHR 0x2B then r else t | [] \<Rightarrow> t);
          ds = takeWhile is_digit u;
          v = (if neg then - digits_value ds else digits_value ds)
      in if ds = [] then (0, False, s)
         else if v < - (2 ^ 63) then (- (2 ^ 63), True, dropWhile is_digit u)
         else if 2 ^ 63 - 1 < v then (2 ^ 63 - 1, True, dropWhile is_digit u)
         else (v, False, dropWhile is_digit u))"

text \<open>The signed value of the low 32 bits, as a conversion to \<open>int\<close> yields it.\<close>

definition to_int32 :: "int \<Rightarrow> int" where
  "to_int32 v = (v + 2 ^ 31) mod 2 ^ 32 - 2 ^ 31"

lemma to_int32_id: "- (2 ^ 31) \<le> v \<Longrightarrow> v < 2 ^ 31 \<Longrightarrow> to_int32 v = v"
  by (simp add: to_int32_def mod_pos_pos_trivial)

section \<open>Lists as C arrays\<close>

lemma filter_replicate_False [simp]: "\<not> P x \<Longrightarrow> filter P (replicate n x) = []"
  by (induction n) auto

text \<open>\<open>std::vector::resize\<close> of a byte vector, and a write over the front of a buffer.\<close>

definition buf_resize :: "nat \<Rightarrow> u8 list \<Rightarrow> u8 list" where
  "buf_resize n b = take n b @ replicate (n - length b) 0"

definition overlay :: "'a list \<Rightarrow> 'a list \<Rightarrow> 'a list" where
  "overlay xs b = xs @ drop (length xs) b"

lemma length_buf_resize [simp]: "length (buf_resize n b) = n"
  by (simp add: buf_resize_def)

lemma overlay_take [simp]: "n \<le> length xs \<Longrightarrow> take n (overlay xs b) = take n xs"
  by (simp add: overlay_def)

section \<open>Little-endian reads from a byte buffer\<close>

fun le_value :: "u8 list \<Rightarrow> nat" where
  "le_value [] = 0"
| "le_value (b # bs) = unat b + 256 * le_value bs"

fun le_bytes :: "nat \<Rightarrow> nat \<Rightarrow> u8 list" where
  "le_bytes 0 v = []"
| "le_bytes (Suc n) v = of_nat (v mod 256) # le_bytes n (v div 256)"

lemma length_le_bytes [simp]: "length (le_bytes n v) = n"
  by (induction n arbitrary: v) auto

lemma unat_of_nat_byte: "unat (of_nat (v mod 256) :: u8) = v mod 256"
  by (simp add: unat_of_nat)

lemma le_value_le_bytes: "le_value (le_bytes n v) = v mod 256 ^ n"
proof (induction n arbitrary: v)
  case 0
  then show ?case by simp
next
  case (Suc n)
  have "v mod 256 ^ Suc n = v mod 256 + 256 * (v div 256 mod 256 ^ n)"
    by (simp add: mod_mult2_eq)
  with Suc show ?case by (simp add: unat_of_nat_byte)
qed

lemma le_value_bound: "le_value bs < 256 ^ length bs"
proof (induction bs)
  case Nil
  then show ?case by simp
next
  case (Cons b bs)
  have "unat b < 256" using unsigned_less [of b, where ?'a = nat] by simp
  with Cons show ?case by simp
qed

text \<open>Reading \<open>n\<close> bytes at an offset: \<open>None\<close> outside the buffer.\<close>

definition read_at :: "nat \<Rightarrow> u8 list \<Rightarrow> nat \<Rightarrow> nat option" where
  "read_at n buf off =
     (if off + n \<le> length buf then Some (le_value (take n (drop off buf))) else None)"

lemma read_at_bound: "read_at n buf off = Some v \<Longrightarrow> off + n \<le> length buf \<and> v < 256 ^ n"
proof -
  assume a: "read_at n buf off = Some v"
  then have "off + n \<le> length buf" and v: "v = le_value (take n (drop off buf))"
    by (auto simp: read_at_def split: if_splits)
  moreover from this have "length (take n (drop off buf)) = n" by simp
  with le_value_bound [of "take n (drop off buf)"] v have "v < 256 ^ n" by simp
  ultimately show ?thesis by simp
qed

end
