(* ===== verification/Os.thy ===== *)
theory Os
  imports Prelude
begin

text \<open>
  The operating system as the loader sees it.  Linux is not part of the repository, so
  its answers are a parameter: a \<open>kernel\<close> is a record of functions that give the result
  of each system call, and every one of them may depend on the whole history of calls
  the process has issued.  Any behaviour of the system, including any failure at any
  point, is such a record.  A modelled process keeps that history (\<open>hist\<close>), so theorems
  can speak about which calls it issues and in which order.

  The decoding of wait statuses is bionic's (\<open>sys/wait.h\<close>), together with
  \<open>stopped_with\<close> of \<open>monitor.hpp\<close>, and \<open>parse_status\<close>, \<open>parse_ptrace_event\<close> and
  \<open>get_program\<close> of \<open>ptracer/utils.cpp\<close> and \<open>utils.hpp\<close>.
\<close>

section \<open>Constants of the Linux ABI\<close>

abbreviation (input) SIGKILL :: int where "SIGKILL \<equiv> 9"
abbreviation (input) SIGSEGV :: int where "SIGSEGV \<equiv> 11"
abbreviation (input) SIGCHLD :: int where "SIGCHLD \<equiv> 17"
abbreviation (input) SIGCONT :: int where "SIGCONT \<equiv> 18"
abbreviation (input) SIGSTOP :: int where "SIGSTOP \<equiv> 19"
abbreviation (input) SIGTSTP :: int where "SIGTSTP \<equiv> 20"
abbreviation (input) SIGTTIN :: int where "SIGTTIN \<equiv> 21"
abbreviation (input) SIGTTOU :: int where "SIGTTOU \<equiv> 22"
abbreviation (input) SIGTRAP :: int where "SIGTRAP \<equiv> 5"

abbreviation (input) PTRACE_EVENT_FORK :: int where "PTRACE_EVENT_FORK \<equiv> 1"
abbreviation (input) PTRACE_EVENT_EXEC :: int where "PTRACE_EVENT_EXEC \<equiv> 4"
abbreviation (input) PTRACE_EVENT_SECCOMP :: int where "PTRACE_EVENT_SECCOMP \<equiv> 7"
abbreviation (input) PTRACE_EVENT_STOP :: int where "PTRACE_EVENT_STOP \<equiv> 128"

abbreviation (input) PTRACE_O_TRACEFORK :: int where "PTRACE_O_TRACEFORK \<equiv> 2"
abbreviation (input) PTRACE_O_TRACEEXEC :: int where "PTRACE_O_TRACEEXEC \<equiv> 16"
abbreviation (input) PTRACE_O_EXITKILL :: int where "PTRACE_O_EXITKILL \<equiv> 1048576"

abbreviation (input) EIO :: int where "EIO \<equiv> 5"

section \<open>Wait statuses\<close>

definition WTERMSIG :: "int \<Rightarrow> int" where
  "WTERMSIG status = status mod 128"

definition WEXITSTATUS :: "int \<Rightarrow> int" where
  "WEXITSTATUS status = status div 256 mod 256"

definition WSTOPSIG :: "int \<Rightarrow> int" where
  "WSTOPSIG status = WEXITSTATUS status"

definition WIFEXITED :: "int \<Rightarrow> bool" where
  "WIFEXITED status \<longleftrightarrow> WTERMSIG status = 0"

definition WIFSTOPPED :: "int \<Rightarrow> bool" where
  "WIFSTOPPED status \<longleftrightarrow> WTERMSIG status = 127"

definition WIFSIGNALED :: "int \<Rightarrow> bool" where
  "WIFSIGNALED status \<longleftrightarrow> 2 \<le> WTERMSIG (status + 1)"

text \<open>\<open>WPTEVENT(x)\<close> is \<open>x >> 16\<close>, an arithmetic shift.\<close>

definition WPTEVENT :: "int \<Rightarrow> int" where
  "WPTEVENT status = status div 65536"

definition stopped_with :: "int \<Rightarrow> int \<Rightarrow> int \<Rightarrow> bool" where
  "stopped_with status sig event \<longleftrightarrow>
     WIFSTOPPED status \<and> status div 256 = or sig (event * 256)"

text \<open>The status the kernel reports for a stop by \<open>sig\<close> with a ptrace event.\<close>

definition stop_status :: "int \<Rightarrow> int \<Rightarrow> int" where
  "stop_status sig event = 127 + 256 * sig + 65536 * event"

lemma WTERMSIG_Suc: "WTERMSIG (s + 1) = (if WTERMSIG s = 127 then 0 else WTERMSIG s + 1)"
proof -
  have b: "0 \<le> s mod 128" "s mod 128 < 128" by simp_all
  have "(s + 1) mod 128 = (s mod 128 + 1) mod 128" by (simp add: mod_add_left_eq)
  also have "\<dots> = (if s mod 128 = 127 then 0 else s mod 128 + 1)"
    using b by (auto intro: mod_pos_pos_trivial)
  finally show ?thesis by (simp add: WTERMSIG_def)
qed

lemma WTERMSIG_nonneg: "0 \<le> WTERMSIG s"
  by (simp add: WTERMSIG_def)

lemma WIF_exclusive:
  "WIFSTOPPED s \<Longrightarrow> \<not> WIFEXITED s" "WIFSTOPPED s \<Longrightarrow> \<not> WIFSIGNALED s"
  "WIFEXITED s \<Longrightarrow> \<not> WIFSIGNALED s"
  by (auto simp: WIFSTOPPED_def WIFEXITED_def WIFSIGNALED_def WTERMSIG_Suc)

lemma WIF_complete: "WIFSTOPPED s \<or> WIFEXITED s \<or> WIFSIGNALED s"
  using WTERMSIG_nonneg [of s]
  by (auto simp: WIFSTOPPED_def WIFEXITED_def WIFSIGNALED_def WTERMSIG_Suc)

lemma stopped_with_WIFSTOPPED: "stopped_with s sig ev \<Longrightarrow> WIFSTOPPED s"
  by (simp add: stopped_with_def)

section \<open>System calls, the kernel and the history of calls\<close>

datatype ptrace_req =
    PTRACE_SEIZE | PTRACE_INTERRUPT | PTRACE_CONT | PTRACE_DETACH | PTRACE_SETOPTIONS
  | PTRACE_GETEVENTMSG | PTRACE_SYSCALL | PTRACE_ATTACH

text \<open>
  \<open>Child cs\<close> records that a forked child runs the calls \<open>cs\<close> on its own: after a
  \<open>fork\<close> the modelled process is the parent.  A successful \<open>execl\<close> does not return, so
  what follows an \<open>Execl\<close> is what the process does when the call fails.
\<close>

datatype call =
    Ptrace ptrace_req int int
  | Kill int int
  | Waitpid int
  | Fork
  | Child "call list"
  | Execl "string list"
  | Exit_process int
  | Readlink string
  | Fopen string
  | Fwrite string string
  | Clock_gettime
  | Recv

record kernel =
  k_ptrace :: "call list \<Rightarrow> ptrace_req \<Rightarrow> int \<Rightarrow> int \<Rightarrow> int"
  k_waitpid :: "call list \<Rightarrow> int \<Rightarrow> int \<times> int"
  k_fork :: "call list \<Rightarrow> int"
  k_readlink :: "call list \<Rightarrow> string \<Rightarrow> string option"
  k_fopen_w :: "call list \<Rightarrow> string \<Rightarrow> bool"
  k_clock_sec :: "call list \<Rightarrow> int"
  k_clock_nsec :: "call list \<Rightarrow> int"
  k_signame :: "int \<Rightarrow> string"

section \<open>Text for the log and for module.prop\<close>

definition parse_ptrace_event :: "int \<Rightarrow> string" where
  "parse_ptrace_event status =
     (let e = status div 65536 in
      if e = 1 then ''PTRACE_EVENT_FORK'' else if e = 2 then ''PTRACE_EVENT_VFORK''
      else if e = 3 then ''PTRACE_EVENT_CLONE'' else if e = 4 then ''PTRACE_EVENT_EXEC''
      else if e = 5 then ''PTRACE_EVENT_VFORK_DONE'' else if e = 6 then ''PTRACE_EVENT_EXIT''
      else if e = 7 then ''PTRACE_EVENT_SECCOMP'' else if e = 128 then ''PTRACE_EVENT_STOP''
      else ''(no event)'')"

definition sigabbrev_np :: "kernel \<Rightarrow> int \<Rightarrow> string" where
  "sigabbrev_np K sig = (if 0 < sig \<and> sig < 65 then k_signame K sig else ''(unknown)'')"

text \<open>A stream in hexadecimal mode prints an \<open>int\<close> as its 32-bit unsigned value.\<close>

definition parse_status :: "kernel \<Rightarrow> int \<Rightarrow> string" where
  "parse_status K status =
     ''0x'' @ nat_string 16 (nat (status mod 2 ^ 32)) @ '' '' @
     (if WIFEXITED status then ''exited with '' @ int_string (WEXITSTATUS status)
      else if WIFSIGNALED status then
        ''signaled with '' @ sigabbrev_np K (WTERMSIG status) @ ''('' @
        int_string (WTERMSIG status) @ '')''
      else if WIFSTOPPED status then
        ''stopped by '' @ ''signal='' @ sigabbrev_np K (WSTOPSIG status) @ ''('' @
        int_string (WSTOPSIG status) @ ''),'' @ ''event='' @ parse_ptrace_event status
      else ''unknown'')"

definition exe_path :: "int \<Rightarrow> string" where
  "exe_path pid = ''/proc/'' @ int_string pid @ ''/exe''"

text \<open>\<open>readlink\<close> fills at most 256 bytes; the result ends at the first NUL.\<close>

definition get_program :: "kernel \<Rightarrow> call list \<Rightarrow> int \<Rightarrow> string" where
  "get_program K h pid =
     (case k_readlink K h (exe_path pid) of
        None \<Rightarrow> []
      | Some t \<Rightarrow> takeWhile (\<lambda>c. c \<noteq> nul) (take 256 t))"

text \<open>
  \<open>fork_dont_care\<close>: the original parent reaps the first child, which has forked the
  detached grandchild, and returns the first child's pid.  Only a failure of the first
  \<open>fork\<close> is reported; \<open>grandchild\<close> is what the caller does when it gets 0.
\<close>

definition fork_dont_care :: "kernel \<Rightarrow> call list \<Rightarrow> call list \<Rightarrow> int \<times> call list" where
  "fork_dont_care K h grandchild =
     (let pid = k_fork K h in
      if pid < 0 then (- 1, h @ [Fork])
      else let grandchild_pid = k_fork K (h @ [Fork]);
               first_child =
                 (if grandchild_pid < 0 then [Fork, Exit_process 1]
                  else [Fork, Child grandchild, Exit_process 0])
           in (pid, h @ [Fork, Child first_child, Waitpid pid]))"

lemma parse_status_nonempty [simp]: "parse_status K s \<noteq> []"
  by (simp add: parse_status_def)

end
