(* ===== verification/Zygote_Abi.thy ===== *)
theory Zygote_Abi
  imports Os
begin

text \<open>
  \<open>ptracer/types.hpp\<close> and \<open>ptracer/zygote_abi.cpp\<close>: what the monitor keeps about one
  architecture.  The daemon's life, the injection flag and the crash-loop counter are
  the state; \<open>check_and_prepare_injection\<close> and \<open>handle_daemon_exit_if_match\<close>, which call
  back into the monitor, are in \<open>Monitor\<close>.
\<close>

section \<open>State\<close>

datatype TracingState = TRACING | STOPPING | STOPPED | EXITING

record abi_status =
  supported :: bool
  zygote_injected :: bool
  daemon_running :: bool
  daemon_pid :: int
  daemon_info :: string
  daemon_error_info :: string

record start_counter =
  last_start_sec :: int
  last_start_nsec :: int
  start_count :: int

record zygote_abi =
  abi_name :: string
  program_path :: string
  tracer_path :: string
  abi_state :: abi_status
  abi_counter :: start_counter

definition Status :: abi_status where
  "Status = \<lparr> supported = False, zygote_injected = False, daemon_running = False,
              daemon_pid = - 1, daemon_info = [], daemon_error_info = [] \<rparr>"

definition StartCounter :: start_counter where
  "StartCounter = \<lparr> last_start_sec = 0, last_start_nsec = 0, start_count = 0 \<rparr>"

definition ZygoteAbiManager :: "bool \<Rightarrow> zygote_abi" where
  "ZygoteAbiManager is_64bit =
     \<lparr> abi_name = (if is_64bit then ''64'' else ''32''),
       program_path = (if is_64bit then ''/system/bin/app_process64''
                       else ''/system/bin/app_process32''),
       tracer_path = (if is_64bit then ''./bin/zygisk-ptrace64''
                      else ''./bin/zygisk-ptrace32''),
       abi_state = Status, abi_counter = StartCounter \<rparr>"

section \<open>Operations\<close>

definition notify_injected :: "zygote_abi \<Rightarrow> zygote_abi" where
  "notify_injected z =
     z\<lparr> abi_state := (abi_state z)\<lparr> zygote_injected := True \<rparr>,
        abi_counter := \<lparr> last_start_sec = 0, last_start_nsec = 0, start_count = 0 \<rparr> \<rparr>"

definition set_daemon_info :: "string \<Rightarrow> zygote_abi \<Rightarrow> zygote_abi" where
  "set_daemon_info info z = z\<lparr> abi_state := (abi_state z)\<lparr> daemon_info := info \<rparr> \<rparr>"

definition set_daemon_crashed :: "string \<Rightarrow> zygote_abi \<Rightarrow> zygote_abi" where
  "set_daemon_crashed error z =
     z\<lparr> abi_state := (abi_state z)\<lparr> daemon_running := False, daemon_error_info := error \<rparr> \<rparr>"

definition CRASH_LOOP_RETRY_COUNT :: int where "CRASH_LOOP_RETRY_COUNT = 5"
definition CRASH_LOOP_WINDOW_SECONDS :: int where "CRASH_LOOP_WINDOW_SECONDS = 30"

text \<open>The clock is read first; its value is the argument \<open>now\<close> (seconds, nanoseconds).\<close>

definition is_in_crash_loop :: "int \<times> int \<Rightarrow> zygote_abi \<Rightarrow> bool \<times> zygote_abi" where
  "is_in_crash_loop now z =
     (let c = abi_counter z;
          c' = (if zygote_injected (abi_state z) then
                  \<lparr> last_start_sec = fst now, last_start_nsec = snd now,
                    start_count =
                      (if fst now - last_start_sec c < CRASH_LOOP_WINDOW_SECONDS
                       then start_count c + 1 else 1) \<rparr>
                else c)
      in (CRASH_LOOP_RETRY_COUNT \<le> start_count c', z\<lparr> abi_counter := c' \<rparr>))"

definition daemon_exec :: "string \<Rightarrow> zygote_abi \<Rightarrow> call list" where
  "daemon_exec tmp z =
     [Execl [''./bin/zygiskd'' @ abi_name z, ''./bin/zygiskd'' @ abi_name z, ''--workdir'', tmp],
      Exit_process 1]"

definition ensure_daemon_created ::
  "kernel \<Rightarrow> string \<Rightarrow> call list \<Rightarrow> zygote_abi \<Rightarrow> bool \<times> zygote_abi \<times> call list" where
  "ensure_daemon_created K tmp h z =
     (let s = abi_state z in
      if daemon_pid s = - 1 then
        let s1 = s\<lparr> zygote_injected := False \<rparr>; pid = k_fork K h in
        if pid < 0 then (False, z\<lparr> abi_state := s1 \<rparr>, h @ [Fork])
        else
          let s2 = s1\<lparr> supported := True, daemon_pid := pid, daemon_running := True \<rparr>
          in (daemon_running s2, z\<lparr> abi_state := s2 \<rparr>, h @ [Fork, Child (daemon_exec tmp z)])
      else (daemon_running s, z, h))"

section \<open>Crash-loop detection\<close>

lemma is_in_crash_loop_status [simp]:
  "abi_state (snd (is_in_crash_loop now z)) = abi_state z"
  "abi_name (snd (is_in_crash_loop now z)) = abi_name z"
  "program_path (snd (is_in_crash_loop now z)) = program_path z"
  "tracer_path (snd (is_in_crash_loop now z)) = tracer_path z"
  by (simp_all add: is_in_crash_loop_def Let_def)

lemma ensure_daemon_created_frame [simp]:
  "abi_counter (fst (snd (ensure_daemon_created K tmp h z))) = abi_counter z"
  "abi_name (fst (snd (ensure_daemon_created K tmp h z))) = abi_name z"
  "program_path (fst (snd (ensure_daemon_created K tmp h z))) = program_path z"
  "tracer_path (fst (snd (ensure_daemon_created K tmp h z))) = tracer_path z"
  by (simp_all add: ensure_daemon_created_def Let_def)

text \<open>
  The restarts the counter sees: the times of successive calls, no injection being
  reported in between (the daemon stays up, so the flag set by the last injection
  stays set too).
\<close>

fun restarts :: "(int \<times> int) list \<Rightarrow> zygote_abi \<Rightarrow> bool \<times> zygote_abi" where
  "restarts [] z = (CRASH_LOOP_RETRY_COUNT \<le> start_count (abi_counter z), z)"
| "restarts (t # ts) z =
     (let (looped, z') = is_in_crash_loop t z
      in if ts = [] then (looped, z') else restarts ts z')"

text \<open>The specification: the length of the last run of restarts less than 30 s apart.\<close>

fun burst :: "int \<Rightarrow> int \<Rightarrow> (int \<times> int) list \<Rightarrow> int" where
  "burst n prev [] = n"
| "burst n prev (t # ts) =
     burst (if fst t - prev < CRASH_LOOP_WINDOW_SECONDS then n + 1 else 1) (fst t) ts"

lemma restarts_burst:
  "zygote_injected (abi_state z) \<Longrightarrow>
     restarts ts z =
       (let n = burst (start_count (abi_counter z)) (last_start_sec (abi_counter z)) ts in
        (CRASH_LOOP_RETRY_COUNT \<le> n,
         if ts = [] then z
         else z\<lparr> abi_counter := \<lparr> last_start_sec = fst (last ts), last_start_nsec = snd (last ts),
                                  start_count = n \<rparr> \<rparr>))"
proof (induction ts arbitrary: z)
  case Nil
  then show ?case by simp
next
  case (Cons t ts)
  obtain l z' where r: "is_in_crash_loop t z = (l, z')" by fastforce
  have z': "z' = snd (is_in_crash_loop t z)" using r by simp
  have inj: "zygote_injected (abi_state z')" using Cons.prems z' by simp
  show ?case
  proof (cases "ts = []")
    case True
    with Cons.prems show ?thesis by (simp add: is_in_crash_loop_def Let_def)
  next
    case False
    have "restarts (t # ts) z = restarts ts z'" using False r by simp
    then show ?thesis
      using Cons.IH [OF inj] Cons.prems False
      by (simp add: z' is_in_crash_loop_def Let_def)
  qed
qed

text \<open>
  A zygote generation that gets injected: the monitor asks for the injector, and the
  injector reports back.
\<close>

fun injected_generations :: "(int \<times> int) list \<Rightarrow> zygote_abi \<Rightarrow> bool list \<times> zygote_abi" where
  "injected_generations [] z = ([], z)"
| "injected_generations (t # ts) z =
     (let (looped, z1) = is_in_crash_loop t z;
          (ls, z2) = injected_generations ts (notify_injected z1)
      in (looped # ls, z2))"

lemma notify_injected_count [simp]:
  "start_count (abi_counter (notify_injected z)) = 0"
  "zygote_injected (abi_state (notify_injected z))"
  "daemon_pid (abi_state (notify_injected z)) = daemon_pid (abi_state z)"
  "daemon_running (abi_state (notify_injected z)) = daemon_running (abi_state z)"
  "supported (abi_state (notify_injected z)) = supported (abi_state z)"
  by (simp_all add: notify_injected_def)

lemma is_in_crash_loop_below:
  "start_count (abi_counter z) \<le> 3 \<Longrightarrow> \<not> fst (is_in_crash_loop now z)"
  by (simp add: is_in_crash_loop_def CRASH_LOOP_RETRY_COUNT_def Let_def)

lemma injected_generations_all:
  "start_count (abi_counter z) \<le> 3 \<Longrightarrow> True \<notin> set (fst (injected_generations ts z))"
proof (induction ts arbitrary: z)
  case Nil
  then show ?case by simp
next
  case (Cons t ts)
  obtain l z1 where r: "is_in_crash_loop t z = (l, z1)" by fastforce
  obtain ls z2 where r2: "injected_generations ts (notify_injected z1) = (ls, z2)" by fastforce
  have "\<not> l" using is_in_crash_loop_below [OF Cons.prems, of t] r by simp
  moreover have "True \<notin> set ls" using Cons.IH [of "notify_injected z1"] r2 by simp
  ultimately show ?case using r r2 by simp
qed

end
