(* ===== verification/Monitor.thy ===== *)
theory Monitor
  imports Zygote_Abi
begin

text \<open>
  \<open>AppMonitor\<close> of \<open>ptracer/monitor_impl.cpp\<close>: its state, the status file, the state
  changes other parts request, and the two operations of \<open>ZygoteAbiManager\<close> that call
  back into it.  \<open>hist\<close> is the history of system calls of the monitor process; \<open>running\<close>
  is the flag of its event loop; \<open>buf\<close> is \<open>buf_\<close> of the socket handler; \<open>traced\<close> and
  \<open>stubs\<close> are \<open>process_\<close> and \<open>stub_processes_\<close> of the SIGCHLD handler.
\<close>

section \<open>State\<close>

record monitor =
  zygote :: zygote_abi
  tracing_state :: TracingState
  stop_reason :: string
  prop_path :: string
  pre_section :: string
  running :: bool
  buf :: "u8 list"
  traced :: "int set"
  stubs :: "int set"
  tmp_path :: string
  hist :: "call list"

definition AppMonitor :: "bool \<Rightarrow> string \<Rightarrow> monitor" where
  "AppMonitor lp64 tmp =
     \<lparr> zygote = ZygoteAbiManager lp64, tracing_state = TRACING, stop_reason = [],
       prop_path = [], pre_section = [], running = False, buf = [],
       traced = {}, stubs = {}, tmp_path = tmp, hist = [] \<rparr>"

abbreviation zstat :: "monitor \<Rightarrow> abi_status" where
  "zstat m \<equiv> abi_state (zygote m)"

definition record_call :: "call list \<Rightarrow> monitor \<Rightarrow> monitor" where
  "record_call cs m = m\<lparr> hist := hist m @ cs \<rparr>"

text \<open>A \<open>ptrace\<close> whose result the code does not look at.\<close>

abbreviation issue_ptrace :: "ptrace_req \<Rightarrow> int \<Rightarrow> int \<Rightarrow> monitor \<Rightarrow> monitor" where
  "issue_ptrace req pid data m \<equiv> record_call [Ptrace req pid data] m"

lemma record_call_simps [simp]:
  "zygote (record_call cs m) = zygote m"
  "tracing_state (record_call cs m) = tracing_state m"
  "stop_reason (record_call cs m) = stop_reason m"
  "prop_path (record_call cs m) = prop_path m"
  "pre_section (record_call cs m) = pre_section m"
  "running (record_call cs m) = running m"
  "buf (record_call cs m) = buf m"
  "traced (record_call cs m) = traced m"
  "stubs (record_call cs m) = stubs m"
  "tmp_path (record_call cs m) = tmp_path m"
  "hist (record_call cs m) = hist m @ cs"
  by (simp_all add: record_call_def)

section \<open>The status file\<close>

definition write_abi_status_section :: "monitor \<Rightarrow> string" where
  "write_abi_status_section m =
     (let s = zstat m; abi = abi_name (zygote m) in
      if \<not> supported s then []
      else
        [CHR 0x09] @ ''zygote'' @ abi @ '':'' @ [CHR 0x09] @
        (if tracing_state m \<noteq> TRACING then ''unknown''
         else if zygote_injected s then ''injected'' else ''not injected'') @
        [CHR 0x0A, CHR 0x09] @ ''daemon'' @ abi @ '':'' @ [CHR 0x09] @
        (if daemon_running s then
           ''running'' @ (if daemon_info s = [] then [] else CHR 0x0A # daemon_info s)
         else
           ''crashed'' @
           (if daemon_error_info s = [] then [] else ''('' @ daemon_error_info s @ '')'')))"

definition status_word :: "TracingState \<Rightarrow> string" where
  "status_word t =
     (case t of TRACING \<Rightarrow> ''tracing'' | STOPPING \<Rightarrow> ''stopped'' | STOPPED \<Rightarrow> ''stopped''
      | EXITING \<Rightarrow> ''exited'')"

definition status_text :: "monitor \<Rightarrow> string" where
  "status_text m =
     [CHR 0x09] @ ''monitor: '' @ [CHR 0x09] @ status_word (tracing_state m) @
     (if tracing_state m \<noteq> TRACING \<and> stop_reason m \<noteq> []
      then ''('' @ stop_reason m @ '')'' else [])"

definition module_prop :: "monitor \<Rightarrow> string" where
  "module_prop m =
     pre_section m @ [CHR 0x0A] @ status_text m @ [CHR 0x0A, CHR 0x0A] @
     write_abi_status_section m @ [CHR 0x0A, CHR 0x0A]"

definition update_status :: "kernel \<Rightarrow> monitor \<Rightarrow> monitor" where
  "update_status K m =
     (if k_fopen_w K (hist m) (prop_path m)
      then record_call [Fopen (prop_path m), Fwrite (prop_path m) (module_prop m)] m
      else record_call [Fopen (prop_path m)] m)"

lemma update_status_frame [simp]:
  "zygote (update_status K m) = zygote m"
  "tracing_state (update_status K m) = tracing_state m"
  "stop_reason (update_status K m) = stop_reason m"
  "prop_path (update_status K m) = prop_path m"
  "pre_section (update_status K m) = pre_section m"
  "running (update_status K m) = running m"
  "buf (update_status K m) = buf m"
  "traced (update_status K m) = traced m"
  "stubs (update_status K m) = stubs m"
  "tmp_path (update_status K m) = tmp_path m"
  by (simp_all add: update_status_def)

section \<open>State changes\<close>

definition request_start :: "kernel \<Rightarrow> monitor \<Rightarrow> monitor" where
  "request_start K m =
     update_status K
       (if tracing_state m = STOPPING then m\<lparr> tracing_state := TRACING \<rparr>
        else if tracing_state m = STOPPED then
          (issue_ptrace PTRACE_SEIZE 1 PTRACE_O_TRACEFORK m)\<lparr> tracing_state := TRACING \<rparr>
        else m)"

definition request_stop :: "kernel \<Rightarrow> string \<Rightarrow> monitor \<Rightarrow> monitor" where
  "request_stop K reason m =
     (if tracing_state m = TRACING then
        update_status K
          (issue_ptrace PTRACE_INTERRUPT 1 0 (m\<lparr> tracing_state := STOPPING, stop_reason := reason \<rparr>))
      else m)"

definition request_exit :: "kernel \<Rightarrow> monitor \<Rightarrow> monitor" where
  "request_exit K m =
     (update_status K (m\<lparr> tracing_state := EXITING, stop_reason := ''user requested'' \<rparr>))
       \<lparr> running := False \<rparr>"

definition notify_init_detached :: "monitor \<Rightarrow> monitor" where
  "notify_init_detached m = m\<lparr> tracing_state := STOPPED \<rparr>"

section \<open>The architecture manager's calls into the monitor\<close>

definition crash_loop_check :: "kernel \<Rightarrow> monitor \<Rightarrow> bool \<times> monitor" where
  "crash_loop_check K m =
     (let now = (k_clock_sec K (hist m), k_clock_nsec K (hist m));
          (looped, z) = is_in_crash_loop now (zygote m)
      in (looped, record_call [Clock_gettime] (m\<lparr> zygote := z \<rparr>)))"

definition daemon_check :: "kernel \<Rightarrow> monitor \<Rightarrow> bool \<times> monitor" where
  "daemon_check K m =
     (let (ok, z, h) = ensure_daemon_created K (tmp_path m) (hist m) (zygote m)
      in (ok, m\<lparr> zygote := z, hist := h \<rparr>))"

text \<open>\<open>None\<close> is the null pointer; otherwise the injector's path.\<close>

definition check_and_prepare_injection :: "kernel \<Rightarrow> monitor \<Rightarrow> string option \<times> monitor" where
  "check_and_prepare_injection K m =
     (let (looped, m1) = crash_loop_check K m in
      if looped then (None, request_stop K ''zygote crashed'' m1)
      else let (ok, m2) = daemon_check K m1 in
        if \<not> ok then (None, request_stop K ''daemon not running'' m2)
        else (Some (tracer_path (zygote m2)), m2))"

definition handle_daemon_exit_if_match :: "kernel \<Rightarrow> int \<Rightarrow> int \<Rightarrow> monitor \<Rightarrow> bool \<times> monitor" where
  "handle_daemon_exit_if_match K pid wstatus m =
     (let s = zstat m in
      if supported s \<and> pid = daemon_pid s then
        let s1 = s\<lparr> daemon_running := False, daemon_pid := - 1,
                    daemon_error_info := (if daemon_error_info s = []
                                          then parse_status K wstatus
                                          else daemon_error_info s) \<rparr>
        in (True, update_status K (m\<lparr> zygote := (zygote m)\<lparr> abi_state := s1 \<rparr> \<rparr>))
      else (False, m))"

section \<open>What the operations leave alone\<close>

lemma request_start_frame [simp]:
  "zygote (request_start K m) = zygote m"
  "traced (request_start K m) = traced m"
  "stubs (request_start K m) = stubs m"
  "running (request_start K m) = running m"
  "tracing_state (request_start K m) =
     (if tracing_state m = EXITING then EXITING else TRACING)"
  by (auto simp: request_start_def intro: TracingState.exhaust [of "tracing_state m"])

lemma request_stop_frame [simp]:
  "zygote (request_stop K r m) = zygote m"
  "traced (request_stop K r m) = traced m"
  "stubs (request_stop K r m) = stubs m"
  "running (request_stop K r m) = running m"
  "tracing_state (request_stop K r m) =
     (if tracing_state m = TRACING then STOPPING else tracing_state m)"
  by (auto simp: request_stop_def)

lemma request_exit_frame [simp]:
  "zygote (request_exit K m) = zygote m"
  "traced (request_exit K m) = traced m"
  "stubs (request_exit K m) = stubs m"
  "running (request_exit K m) = False"
  "tracing_state (request_exit K m) = EXITING"
  by (auto simp: request_exit_def)

lemma notify_init_detached_frame [simp]:
  "zygote (notify_init_detached m) = zygote m"
  "traced (notify_init_detached m) = traced m"
  "stubs (notify_init_detached m) = stubs m"
  "running (notify_init_detached m) = running m"
  "hist (notify_init_detached m) = hist m"
  "tracing_state (notify_init_detached m) = STOPPED"
  by (auto simp: notify_init_detached_def)

lemma crash_loop_check_frame [simp]:
  "tracing_state (snd (crash_loop_check K m)) = tracing_state m"
  "traced (snd (crash_loop_check K m)) = traced m"
  "stubs (snd (crash_loop_check K m)) = stubs m"
  "running (snd (crash_loop_check K m)) = running m"
  "hist (snd (crash_loop_check K m)) = hist m @ [Clock_gettime]"
  "zstat (snd (crash_loop_check K m)) = zstat m"
  "tracer_path (zygote (snd (crash_loop_check K m))) = tracer_path (zygote m)"
  "program_path (zygote (snd (crash_loop_check K m))) = program_path (zygote m)"
  "abi_name (zygote (snd (crash_loop_check K m))) = abi_name (zygote m)"
  "tmp_path (snd (crash_loop_check K m)) = tmp_path m"
  by (simp_all add: crash_loop_check_def Let_def split_beta)

lemma daemon_check_frame [simp]:
  "tracing_state (snd (daemon_check K m)) = tracing_state m"
  "traced (snd (daemon_check K m)) = traced m"
  "stubs (snd (daemon_check K m)) = stubs m"
  "running (snd (daemon_check K m)) = running m"
  "tracer_path (zygote (snd (daemon_check K m))) = tracer_path (zygote m)"
  "program_path (zygote (snd (daemon_check K m))) = program_path (zygote m)"
  "abi_name (zygote (snd (daemon_check K m))) = abi_name (zygote m)"
  "abi_counter (zygote (snd (daemon_check K m))) = abi_counter (zygote m)"
  by (simp_all add: daemon_check_def Let_def split_beta)

lemma check_and_prepare_frame [simp]:
  "traced (snd (check_and_prepare_injection K m)) = traced m"
  "stubs (snd (check_and_prepare_injection K m)) = stubs m"
  "running (snd (check_and_prepare_injection K m)) = running m"
  by (simp_all add: check_and_prepare_injection_def Let_def split_beta)

lemma check_and_prepare_Some:
  "fst (check_and_prepare_injection K m) = Some p \<Longrightarrow>
     p = tracer_path (zygote m) \<and> tracing_state (snd (check_and_prepare_injection K m)) = tracing_state m"
  by (auto simp: check_and_prepare_injection_def Let_def split_beta split: if_splits)

lemma handle_daemon_exit_frame [simp]:
  "tracing_state (snd (handle_daemon_exit_if_match K pid st m)) = tracing_state m"
  "traced (snd (handle_daemon_exit_if_match K pid st m)) = traced m"
  "stubs (snd (handle_daemon_exit_if_match K pid st m)) = stubs m"
  "running (snd (handle_daemon_exit_if_match K pid st m)) = running m"
  "abi_counter (zygote (snd (handle_daemon_exit_if_match K pid st m))) = abi_counter (zygote m)"
  by (simp_all add: handle_daemon_exit_if_match_def Let_def)

end
