(* ===== verification/Monitor_Socket.thy ===== *)
theory Monitor_Socket
  imports Monitor
begin

text \<open>
  The control socket: \<open>AppMonitor::SocketHandler::HandleEvent\<close> byte by byte, the peeked
  header that stays in \<open>buf_\<close> between messages included, and \<open>send_control_command\<close> of
  \<open>main.cpp\<close>, which is the other end.  \<open>parse_message\<close> is the specification of the
  datagram format that the handler is shown to implement.
\<close>

section \<open>The handler\<close>

datatype Command =
    START | STOP | EXIT | ZYGOTE_INJECTED | DAEMON_SET_INFO | DAEMON_SET_ERROR_INFO
  | SYSTEM_SERVER_STARTED

fun command_value :: "Command \<Rightarrow> nat" where
  "command_value START = 1"
| "command_value STOP = 2"
| "command_value EXIT = 3"
| "command_value ZYGOTE_INJECTED = 4"
| "command_value DAEMON_SET_INFO = 5"
| "command_value DAEMON_SET_ERROR_INFO = 6"
| "command_value SYSTEM_SERVER_STARTED = 7"

instantiation Command :: linorder
begin

definition less_eq_Command :: "Command \<Rightarrow> Command \<Rightarrow> bool" where
  "less_eq_Command a b \<longleftrightarrow> command_value a \<le> command_value b"

definition less_Command :: "Command \<Rightarrow> Command \<Rightarrow> bool" where
  "less_Command a b \<longleftrightarrow> command_value a < command_value b"

instance
proof
  fix a b c :: Command
  show "a < b \<longleftrightarrow> a \<le> b \<and> \<not> b \<le> a" by (auto simp: less_eq_Command_def less_Command_def)
  show "a \<le> a" by (simp add: less_eq_Command_def)
  show "a \<le> b \<Longrightarrow> b \<le> c \<Longrightarrow> a \<le> c" by (simp add: less_eq_Command_def)
  show "a \<le> b \<Longrightarrow> b \<le> a \<Longrightarrow> a = b"
    by (cases a; cases b; simp add: less_eq_Command_def)
  show "a \<le> b \<or> b \<le> a" by (auto simp: less_eq_Command_def)
qed

end

definition bytes_string :: "u8 list \<Rightarrow> string" where
  "bytes_string bs = map (\<lambda>b. char_of (unat b)) bs"

definition msg_cmd :: "u8 list \<Rightarrow> nat" where
  "msg_cmd b = le_value (take 4 b)"

definition msg_length :: "u8 list \<Rightarrow> int" where
  "msg_length b = to_int32 (int (le_value (take 4 (drop 4 b))))"

text \<open>
  What reading the socket gives: an error other than \<open>EAGAIN\<close> at the peek, or a datagram,
  with whether the second \<open>recv\<close> (which takes it off the queue) succeeds.  The handler
  returns at \<open>EAGAIN\<close>, the end of the list.
\<close>

datatype sock_event = Peek_error | Datagram "u8 list" bool

text \<open>
  The \<open>switch\<close> over a message that was received in full.  A negative length becomes a
  \<open>string_view\<close> of almost \<open>2 ^ 64\<close> characters, whose assignment to a \<open>std::string\<close>
  throws \<open>std::length_error\<close>.
\<close>

definition dispatch_message :: "kernel \<Rightarrow> u8 list \<Rightarrow> monitor \<Rightarrow> monitor res" where
  "dispatch_message K msg m =
     (let cmd = msg_cmd msg; len = msg_length msg; data = drop 8 msg in
      if cmd = command_value START then Inr (request_start K m)
      else if cmd = command_value STOP then Inr (request_stop K ''user requested'' m)
      else if cmd = command_value EXIT then Inr (request_exit K m)
      else if cmd = command_value ZYGOTE_INJECTED then
        Inr (update_status K (m\<lparr> zygote := notify_injected (zygote m) \<rparr>))
      else if cmd = command_value DAEMON_SET_INFO then
        (if len < 0 then Inl Uncaught_exception
         else Inr (update_status K
                (m\<lparr> zygote := set_daemon_info (bytes_string (take (nat len) data)) (zygote m) \<rparr>)))
      else if cmd = command_value DAEMON_SET_ERROR_INFO then
        (if len < 0 then Inl Uncaught_exception
         else Inr (update_status K
                (m\<lparr> zygote := set_daemon_crashed (bytes_string (take (nat len) data)) (zygote m) \<rparr>)))
      else Inr m)"

text \<open>
  The second half of an iteration: \<open>resize\<close> (which throws when the size computed from a
  negative length is negative), the second \<open>recv\<close>, the size check and the switch.  Below
  the requested size the vector's storage still holds the peeked header.
\<close>

definition receive_message :: "kernel \<Rightarrow> u8 list \<Rightarrow> bool \<Rightarrow> u8 list \<Rightarrow> int \<Rightarrow> monitor \<Rightarrow> monitor res" where
  "receive_message K d read_ok hdr real_size m =
     (if real_size < 0 then Inl Uncaught_exception
      else
        let n = nat real_size; space = buf_resize n hdr; m1 = record_call [Recv] m in
        if \<not> read_ok then Inr (m1\<lparr> buf := space \<rparr>)
        else
          let got = take n d; full = overlay got space; m2 = m1\<lparr> buf := full \<rparr> in
          if int (length got) \<noteq> real_size then Inr m2
          else dispatch_message K (overlay full hdr) m2)"

definition socket_datagram :: "kernel \<Rightarrow> u8 list \<Rightarrow> bool \<Rightarrow> monitor \<Rightarrow> monitor res" where
  "socket_datagram K d read_ok m =
     (let hdr = overlay (take 8 d) (buf_resize 8 (buf m));
          m1 = record_call [Recv] (m\<lparr> buf := hdr \<rparr>)
      in if command_value DAEMON_SET_INFO \<le> msg_cmd hdr
            \<and> msg_cmd hdr \<noteq> command_value SYSTEM_SERVER_STARTED then
           (if length d < 8 then Inr (record_call [Recv] m1)
            else receive_message K d read_ok hdr (8 + msg_length hdr) m1)
         else
           (if length d \<noteq> 4 then Inr (record_call [Recv] m1)
            else receive_message K d read_ok hdr 4 m1))"

fun SocketHandler_HandleEvent :: "kernel \<Rightarrow> sock_event list \<Rightarrow> monitor \<Rightarrow> monitor res" where
  "SocketHandler_HandleEvent K [] m = Inr (record_call [Recv] (m\<lparr> buf := buf_resize 8 (buf m) \<rparr>))"
| "SocketHandler_HandleEvent K (Peek_error # evs) m =
     SocketHandler_HandleEvent K evs (record_call [Recv] (m\<lparr> buf := buf_resize 8 (buf m) \<rparr>))"
| "SocketHandler_HandleEvent K (Datagram d read_ok # evs) m =
     bind_res (socket_datagram K d read_ok m) (SocketHandler_HandleEvent K evs)"

section \<open>The format it accepts\<close>

datatype message =
    Control Command | Set_info string | Set_error string | Unknown | Malformed | Negative

definition parse_message :: "u8 list \<Rightarrow> message" where
  "parse_message d =
     (if length d = 4 then
        (if msg_cmd d = 1 then Control START else if msg_cmd d = 2 then Control STOP
         else if msg_cmd d = 3 then Control EXIT
         else if msg_cmd d = 4 then Control ZYGOTE_INJECTED
         else if msg_cmd d = 7 then Control SYSTEM_SERVER_STARTED
         else if msg_cmd d = 0 then Unknown else Malformed)
      else if length d < 8 \<or> msg_cmd d < 5 \<or> msg_cmd d = 7 then Malformed
      else if msg_length d < 0 then
        (if 8 \<le> msg_cmd d \<and> - 8 \<le> msg_length d then Unknown else Negative)
      else if length d < 8 + nat (msg_length d) then Malformed
      else if msg_cmd d = 5 then Set_info (bytes_string (take (nat (msg_length d)) (drop 8 d)))
      else if msg_cmd d = 6 then Set_error (bytes_string (take (nat (msg_length d)) (drop 8 d)))
      else Unknown)"

fun apply_message :: "kernel \<Rightarrow> message \<Rightarrow> monitor \<Rightarrow> monitor res" where
  "apply_message K (Control START) m = Inr (request_start K m)"
| "apply_message K (Control STOP) m = Inr (request_stop K ''user requested'' m)"
| "apply_message K (Control EXIT) m = Inr (request_exit K m)"
| "apply_message K (Control ZYGOTE_INJECTED) m =
     Inr (update_status K (m\<lparr> zygote := notify_injected (zygote m) \<rparr>))"
| "apply_message K (Set_info s) m =
     Inr (update_status K (m\<lparr> zygote := set_daemon_info s (zygote m) \<rparr>))"
| "apply_message K (Set_error s) m =
     Inr (update_status K (m\<lparr> zygote := set_daemon_crashed s (zygote m) \<rparr>))"
| "apply_message K Negative m = Inl Uncaught_exception"
| "apply_message K _ m = Inr m"

definition no_buf :: "monitor \<Rightarrow> monitor" where
  "no_buf m = m\<lparr> buf := [] \<rparr>"

text \<open>No operation of the monitor looks at the buffer.\<close>

lemma no_buf_fields [simp]:
  "tracing_state (no_buf m) = tracing_state m" "zygote (no_buf m) = zygote m"
  "stop_reason (no_buf m) = stop_reason m" "hist (no_buf m) = hist m"
  "prop_path (no_buf m) = prop_path m" "pre_section (no_buf m) = pre_section m"
  "running (no_buf m) = running m" "traced (no_buf m) = traced m" "stubs (no_buf m) = stubs m"
  by (simp_all add: no_buf_def)

lemma no_buf_update:
  "no_buf (m\<lparr> buf := b \<rparr>) = no_buf m"
  "no_buf (m\<lparr> zygote := z \<rparr>) = (no_buf m)\<lparr> zygote := z \<rparr>"
  "no_buf (m\<lparr> tracing_state := t \<rparr>) = (no_buf m)\<lparr> tracing_state := t \<rparr>"
  "no_buf (m\<lparr> running := r \<rparr>) = (no_buf m)\<lparr> running := r \<rparr>"
  "no_buf (m\<lparr> stop_reason := s \<rparr>) = (no_buf m)\<lparr> stop_reason := s \<rparr>"
  "no_buf (record_call cs m) = record_call cs (no_buf m)"
  by (simp_all add: no_buf_def record_call_def)

lemma module_prop_no_buf [simp]: "module_prop (no_buf m) = module_prop m"
  by (simp add: module_prop_def status_text_def write_abi_status_section_def Let_def)

lemma no_buf_ops:
  "no_buf (update_status K m) = update_status K (no_buf m)"
  "no_buf (request_start K m) = request_start K (no_buf m)"
  "no_buf (request_stop K r m) = request_stop K r (no_buf m)"
  "no_buf (request_exit K m) = request_exit K (no_buf m)"
proof -
  have u: "no_buf (update_status K m) = update_status K (no_buf m)" for m
    by (simp add: update_status_def no_buf_update)
  show "no_buf (update_status K m) = update_status K (no_buf m)"
    and "no_buf (request_start K m) = request_start K (no_buf m)"
    and "no_buf (request_stop K r m) = request_stop K r (no_buf m)"
    and "no_buf (request_exit K m) = request_exit K (no_buf m)"
    by (simp_all add: u request_start_def request_stop_def request_exit_def no_buf_update)
qed

lemma msg_cmd_prefix:
  "4 \<le> length xs \<Longrightarrow> msg_cmd (overlay xs b) = msg_cmd xs"
  "4 \<le> n \<Longrightarrow> msg_cmd (take n d) = msg_cmd d"
  by (simp_all add: msg_cmd_def min_def)

lemma msg_length_take: "8 \<le> n \<Longrightarrow> msg_length (take n d) = msg_length d"
  by (simp add: msg_length_def drop_take min_def)

lemma overlay_full: "length b \<le> length xs \<Longrightarrow> overlay xs b = xs"
  by (simp add: overlay_def)

lemma overlay_prefix: "n \<le> length h \<Longrightarrow> overlay (take n h) h = h"
  by (simp add: overlay_def min_def)

lemma dispatch_control:
  "length d = 4 \<Longrightarrow> msg_cmd msg = msg_cmd d \<Longrightarrow> msg_cmd d < 5 \<or> msg_cmd d = 7 \<Longrightarrow>
     map_sum id no_buf (dispatch_message K msg m) =
       apply_message K (parse_message d) (no_buf m)"
  by (auto simp: dispatch_message_def parse_message_def no_buf_ops no_buf_update Let_def)

lemma dispatch_data:
  "8 \<le> length d \<Longrightarrow> 5 \<le> msg_cmd d \<Longrightarrow> msg_cmd d \<noteq> 7 \<Longrightarrow> msg_cmd msg = msg_cmd d \<Longrightarrow>
     msg_length msg = msg_length d \<Longrightarrow> 8 + msg_length d \<le> int (length d) \<Longrightarrow>
     - 8 \<le> msg_length d \<Longrightarrow>
     take (nat (msg_length d)) (drop 8 msg) = take (nat (msg_length d)) (drop 8 d) \<Longrightarrow>
     map_sum id no_buf (dispatch_message K msg m) =
       apply_message K (parse_message d) (no_buf m)"
  by (auto simp: dispatch_message_def parse_message_def no_buf_ops no_buf_update Let_def)

lemma receive_control:
  assumes "length d = 4" "msg_cmd hdr = msg_cmd d" "msg_cmd d < 5 \<or> msg_cmd d = 7"
  shows "map_sum id no_buf (receive_message K d True hdr 4 m) =
           apply_message K (parse_message d) (record_call [Recv] (no_buf m))"
proof -
  have g: "take (nat 4) d = d" "length (take (nat 4) d) = 4" using assms(1) by simp_all
  have c: "msg_cmd (overlay (overlay d b) h) = msg_cmd d" for b h
    using assms(1) by (simp add: msg_cmd_def overlay_def)
  show ?thesis
    unfolding receive_message_def Let_def g
    using dispatch_control [OF assms(1) c assms(3)] assms(1)
    by (simp add: no_buf_update)
qed

lemma receive_data:
  assumes "8 \<le> length d" "5 \<le> msg_cmd d" "msg_cmd d \<noteq> 7"
  shows "map_sum id no_buf (receive_message K d True (take 8 d) (8 + msg_length d) m) =
           apply_message K (parse_message d) (record_call [Recv] (no_buf m))"
proof -
  let ?n = "nat (8 + msg_length d)" and ?h = "take 8 d"
  consider (abort) "msg_length d < - 8" | (short) "- 8 \<le> msg_length d" "length d < ?n"
    | (small) "- 8 \<le> msg_length d" "msg_length d < 0" "?n \<le> length d"
    | (full) "0 \<le> msg_length d" "?n \<le> length d" by linarith
  then show ?thesis
  proof cases
    case abort
    then show ?thesis using assms by (simp add: receive_message_def parse_message_def)
  next
    case short
    then have "length d < 8 + nat (msg_length d)" using assms(1) by linarith
    with short assms show ?thesis
      by (auto simp: receive_message_def parse_message_def Let_def no_buf_update)
  next
    case small
    then have n: "?n < 8" by linarith
    have "overlay (overlay (take ?n d) (buf_resize ?n ?h)) ?h = ?h"
      using overlay_prefix [of ?n ?h] n assms(1) small(3)
      by (simp add: overlay_full min_def)
    then show ?thesis
      using dispatch_data [OF assms, of ?h] assms small n
      by (simp add: receive_message_def Let_def no_buf_update msg_cmd_prefix msg_length_take)
  next
    case full
    let ?m = "take ?n d"
    have n: "8 \<le> ?n" using full(1) by linarith
    have "overlay (overlay ?m (buf_resize ?n ?h)) ?h = ?m"
      using n full(2) by (simp add: overlay_full)
    moreover have "take (nat (msg_length d)) (drop 8 ?m) = take (nat (msg_length d)) (drop 8 d)"
      using n full(1) by (simp add: drop_take nat_add_distrib min_def)
    ultimately show ?thesis
      using dispatch_data [OF assms, of ?m] full n
      by (simp add: receive_message_def Let_def no_buf_update msg_cmd_prefix msg_length_take)
  qed
qed

lemma socket_datagram_refines:
  "map_sum id no_buf (socket_datagram K d True m) =
     apply_message K (parse_message d) (record_call [Recv, Recv] (no_buf m))"
proof -
  define hdr where "hdr = overlay (take 8 d) (buf_resize 8 (buf m))"
  define m1 where "m1 = record_call [Recv] (m\<lparr> buf := hdr \<rparr>)"
  have n1: "no_buf (record_call [Recv] m1) = record_call [Recv, Recv] (no_buf m)"
    "record_call [Recv] (no_buf m1) = record_call [Recv, Recv] (no_buf m)"
    by (simp_all add: m1_def no_buf_update)
  have sd: "socket_datagram K d True m =
     (if 5 \<le> msg_cmd hdr \<and> msg_cmd hdr \<noteq> 7 then
        if length d < 8 then Inr (record_call [Recv] m1)
        else receive_message K d True hdr (8 + msg_length hdr) m1
      else if length d \<noteq> 4 then Inr (record_call [Recv] m1)
        else receive_message K d True hdr 4 m1)"
    by (simp add: socket_datagram_def Let_def flip: hdr_def m1_def)
  consider (tiny) "length d < 4" | (mid) "4 \<le> length d" "length d < 8" | (big) "8 \<le> length d"
    by linarith
  then show ?thesis
  proof cases
    case tiny
    then have "parse_message d = Malformed" by (simp add: parse_message_def)
    with tiny n1 show ?thesis by (simp add: sd)
  next
    case mid
    then have c: "msg_cmd hdr = msg_cmd d" by (simp add: hdr_def msg_cmd_prefix)
    show ?thesis
    proof (cases "length d = 4 \<and> (msg_cmd d < 5 \<or> msg_cmd d = 7)")
      case True
      with receive_control [of d hdr K m1] c n1 show ?thesis by (auto simp: sd)
    next
      case False
      with mid have "parse_message d = Malformed" by (auto simp: parse_message_def)
      with False mid c n1 show ?thesis by (auto simp: sd)
    qed
  next
    case big
    then have h: "hdr = take 8 d" by (simp add: hdr_def overlay_full)
    then have c: "msg_cmd hdr = msg_cmd d" "msg_length hdr = msg_length d"
      by (simp_all add: msg_cmd_prefix msg_length_take)
    show ?thesis
    proof (cases "5 \<le> msg_cmd d \<and> msg_cmd d \<noteq> 7")
      case True
      with receive_data [OF big, of K m1] big c n1 h show ?thesis by (simp add: sd)
    next
      case False
      with big have "parse_message d = Malformed" by (auto simp: parse_message_def)
      with False big c n1 show ?thesis by (auto simp: sd)
    qed
  qed
qed

end
