(* ===== verification/Monitor_Sigchld.thy ===== *)
theory Monitor_Sigchld
  imports Monitor_Socket
begin

text \<open>
  \<open>AppMonitor::SigChldHandler\<close>: the dispatch of a reaped status to the role its process
  has (parent, daemon, candidate, new), the parent shield, the candidates waiting for
  \<open>execve\<close>, and the hand-off of a zygote to the injector.  Handlers that take the status
  by reference return it.
\<close>

section \<open>The handlers\<close>

definition job_control :: "int \<Rightarrow> bool" where
  "job_control sig \<longleftrightarrow> sig = SIGSTOP \<or> sig = SIGTSTP \<or> sig = SIGTTIN \<or> sig = SIGTTOU"

definition resume_parent :: "int \<Rightarrow> int \<Rightarrow> monitor \<Rightarrow> monitor" where
  "resume_parent pid st m =
     (if WIFSTOPPED st then
        (let sig = WSTOPSIG st in
         if WPTEVENT st = 0 \<and> \<not> job_control sig \<and> \<not> (pid \<noteq> 1 \<and> sig = SIGCHLD)
         then issue_ptrace PTRACE_CONT pid sig m
         else issue_ptrace PTRACE_CONT pid 0 m)
      else m)"

definition handleParentEvent :: "int \<Rightarrow> int \<Rightarrow> monitor \<Rightarrow> monitor" where
  "handleParentEvent pid st m =
     (if stopped_with st SIGTRAP PTRACE_EVENT_FORK then
        resume_parent pid st (issue_ptrace PTRACE_GETEVENTMSG pid 0 m)
      else if pid = 1 \<and> stopped_with st SIGTRAP PTRACE_EVENT_STOP
              \<and> tracing_state m = STOPPING then
        notify_init_detached (issue_ptrace PTRACE_DETACH 1 0 m)
      else if pid \<noteq> 1 \<and> (WIFEXITED st \<or> WIFSIGNALED st) then
        m\<lparr> stubs := stubs m - {pid} \<rparr>
      else resume_parent pid st m)"

definition handleNewProcess :: "int \<Rightarrow> monitor \<Rightarrow> monitor" where
  "handleNewProcess pid m =
     issue_ptrace PTRACE_CONT pid 0
       (issue_ptrace PTRACE_SETOPTIONS pid PTRACE_O_TRACEEXEC
         (m\<lparr> traced := insert pid (traced m) \<rparr>))"

definition path_basename :: "string \<Rightarrow> string" where
  "path_basename p = rev (takeWhile (\<lambda>c. c \<noteq> CHR 0x2F) (rev p))"

text \<open>What the detached grandchild does: become the injector, or kill the target.\<close>

definition injector_calls :: "string \<Rightarrow> int \<Rightarrow> call list" where
  "injector_calls tracer pid =
     [Execl [tracer, path_basename tracer, ''trace'', int_string pid, ''--restart''],
      Kill pid SIGKILL, Exit_process 1]"

definition spawn_injector :: "kernel \<Rightarrow> string \<Rightarrow> int \<Rightarrow> monitor \<Rightarrow> monitor" where
  "spawn_injector K tracer pid m =
     (let (p, h) = fork_dont_care K (hist m) (injector_calls tracer pid);
          m1 = m\<lparr> hist := h \<rparr>
      in if p = - 1 then record_call [Kill pid SIGKILL] m1 else m1)"

text \<open>
  The hand-over sequence: \<open>SIGSTOP\<close>, resume, wait; when the stop is the expected one,
  detach leaving it frozen and start the injector.  A failed \<open>waitpid\<close> leaves the status.
\<close>

definition hand_over :: "kernel \<Rightarrow> string \<Rightarrow> int \<Rightarrow> int \<Rightarrow> monitor \<Rightarrow> bool \<times> int \<times> monitor" where
  "hand_over K tracer pid st m =
     (let m1 = record_call [Kill pid SIGSTOP, Ptrace PTRACE_CONT pid 0] m;
          (r, w) = k_waitpid K (hist m1) pid;
          st' = (if r = - 1 then st else w);
          m2 = record_call [Waitpid pid] m1
      in if stopped_with st' SIGSTOP 0 then
           (True, st', spawn_injector K tracer pid (issue_ptrace PTRACE_DETACH pid SIGSTOP m2))
         else (False, st', m2))"

definition exec_target :: "kernel \<Rightarrow> string \<Rightarrow> int \<Rightarrow> int \<Rightarrow> monitor \<Rightarrow> bool \<times> int \<times> monitor" where
  "exec_target K program pid st m =
     (if str_contains program ''stub_zygote'' then
        (True, st, record_call
           [Ptrace PTRACE_SETOPTIONS pid (or PTRACE_O_TRACEFORK PTRACE_O_TRACEEXEC),
            Ptrace PTRACE_CONT pid 0] (m\<lparr> stubs := insert pid (stubs m) \<rparr>))
      else if tracing_state m \<noteq> TRACING then (False, st, m)
      else if program \<noteq> program_path (zygote m) then (False, st, m)
      else case check_and_prepare_injection K m of
             (None, m1) \<Rightarrow> (False, st, m1)
           | (Some tracer, m1) \<Rightarrow> hand_over K tracer pid st m1)"

definition handleExecEvent :: "kernel \<Rightarrow> int \<Rightarrow> int \<Rightarrow> monitor \<Rightarrow> bool \<times> int \<times> monitor" where
  "handleExecEvent K pid st m =
     (let program = get_program K (hist m) pid;
          (handled, st', m1) = exec_target K program pid st (record_call [Readlink (exe_path pid)] m)
      in (handled, st', update_status K m1))"

definition route_candidate :: "bool \<Rightarrow> int \<Rightarrow> int \<Rightarrow> monitor \<Rightarrow> int \<times> monitor" where
  "route_candidate keep_attached pid st m =
     (if keep_attached then
        (if stopped_with st SIGTRAP PTRACE_EVENT_EXEC
         then (st, m\<lparr> traced := traced m - {pid} \<rparr>) else (st, m))
      else
        (let m1 = m\<lparr> traced := traced m - {pid} \<rparr>
         in if WIFSTOPPED st then (st, issue_ptrace PTRACE_DETACH pid 0 m1) else (st, m1)))"

definition handleTracedProcess :: "kernel \<Rightarrow> int \<Rightarrow> int \<Rightarrow> monitor \<Rightarrow> int \<times> monitor" where
  "handleTracedProcess K pid st m =
     (if stopped_with st SIGTRAP PTRACE_EVENT_EXEC then
        (let (handled, st', m1) = handleExecEvent K pid st m
         in route_candidate handled pid st' m1)
      else if stopped_with st SIGTRAP PTRACE_EVENT_STOP then
        route_candidate True pid st
          (record_call [Ptrace PTRACE_SETOPTIONS pid PTRACE_O_TRACEEXEC,
                        Ptrace PTRACE_CONT pid 0] m)
      else route_candidate False pid st m)"

definition handleChildEvent :: "kernel \<Rightarrow> int \<Rightarrow> int \<Rightarrow> monitor \<Rightarrow> monitor" where
  "handleChildEvent K pid st m =
     (if pid = 1 \<or> pid \<in> stubs m then handleParentEvent pid st m
      else let (matched, m1) = handle_daemon_exit_if_match K pid st m in
        if matched then m1
        else if pid \<in> traced m1 then snd (handleTracedProcess K pid st m1)
        else handleNewProcess pid m1)"

text \<open>
  One \<open>read\<close> of the signalfd: an error other than \<open>EAGAIN\<close>, something that is not a
  \<open>SIGCHLD\<close> record, or a \<open>SIGCHLD\<close> with the statuses \<open>waitpid(-1, WNOHANG)\<close> then gives
  one by one.
\<close>

datatype sig_event = Signalfd_error | Other_signal | Sigchld "(int \<times> int) list"

definition reap :: "kernel \<Rightarrow> int \<times> int \<Rightarrow> monitor \<Rightarrow> monitor" where
  "reap K ev m = handleChildEvent K (fst ev) (snd ev) (record_call [Waitpid (- 1)] m)"

fun sigchld_event :: "kernel \<Rightarrow> sig_event \<Rightarrow> monitor \<Rightarrow> monitor" where
  "sigchld_event K (Sigchld evs) m = record_call [Waitpid (- 1)] (fold (reap K) evs m)"
| "sigchld_event K _ m = m"

definition SigChldHandler_HandleEvent :: "kernel \<Rightarrow> sig_event list \<Rightarrow> monitor \<Rightarrow> monitor" where
  "SigChldHandler_HandleEvent K evs m = fold (sigchld_event K) evs m"

section \<open>Frames\<close>

lemmas sigchld_handlers =
  resume_parent_def handleParentEvent_def handleNewProcess_def spawn_injector_def hand_over_def
  exec_target_def handleExecEvent_def route_candidate_def handleTracedProcess_def Let_def split_beta

lemma resume_parent_frame [simp]:
  "zygote (resume_parent pid st m) = zygote m" "traced (resume_parent pid st m) = traced m"
  "stubs (resume_parent pid st m) = stubs m" "running (resume_parent pid st m) = running m"
  "tracing_state (resume_parent pid st m) = tracing_state m"
  by (simp_all add: resume_parent_def Let_def)

lemma spawn_injector_frame [simp]:
  "zygote (spawn_injector K t pid m) = zygote m" "traced (spawn_injector K t pid m) = traced m"
  "stubs (spawn_injector K t pid m) = stubs m" "running (spawn_injector K t pid m) = running m"
  "tracing_state (spawn_injector K t pid m) = tracing_state m"
  by (simp_all add: spawn_injector_def split_beta Let_def)

lemma hand_over_frame [simp]:
  "zygote (snd (snd (hand_over K t pid st m))) = zygote m"
  "traced (snd (snd (hand_over K t pid st m))) = traced m"
  "stubs (snd (snd (hand_over K t pid st m))) = stubs m"
  "running (snd (snd (hand_over K t pid st m))) = running m"
  "tracing_state (snd (snd (hand_over K t pid st m))) = tracing_state m"
  by (simp_all add: hand_over_def split_beta Let_def)

lemma exec_target_frame [simp]:
  "traced (snd (snd (exec_target K p pid st m))) = traced m"
  "running (snd (snd (exec_target K p pid st m))) = running m"
  "stubs (snd (snd (exec_target K p pid st m))) =
     (if str_contains p ''stub_zygote'' then insert pid (stubs m) else stubs m)"
proof -
  obtain o' m1 where c: "check_and_prepare_injection K m = (o', m1)" by fastforce
  have f: "traced m1 = traced m" "running m1 = running m" "stubs m1 = stubs m"
    using check_and_prepare_frame [of K m] c by simp_all
  show "traced (snd (snd (exec_target K p pid st m))) = traced m"
    "running (snd (snd (exec_target K p pid st m))) = running m"
    "stubs (snd (snd (exec_target K p pid st m))) =
       (if str_contains p ''stub_zygote'' then insert pid (stubs m) else stubs m)"
    using f c by (auto simp: exec_target_def split: option.splits)
qed

lemma handleExecEvent_frame [simp]:
  "traced (snd (snd (handleExecEvent K pid st m))) = traced m"
  "running (snd (snd (handleExecEvent K pid st m))) = running m"
  "stubs (snd (snd (handleExecEvent K pid st m))) =
     (if str_contains (get_program K (hist m) pid) ''stub_zygote''
      then insert pid (stubs m) else stubs m)"
  by (simp_all add: handleExecEvent_def split_beta Let_def)

lemma route_candidate_frame [simp]:
  "zygote (snd (route_candidate k pid st m)) = zygote m"
  "stubs (snd (route_candidate k pid st m)) = stubs m"
  "running (snd (route_candidate k pid st m)) = running m"
  "tracing_state (snd (route_candidate k pid st m)) = tracing_state m"
  by (simp_all add: route_candidate_def Let_def)

end
