(* ===== verification/Transitions.thy ===== *)
theory Transitions
  imports Prelude
begin

text \<open>
  Reachable states of a transition system and the contract of an inductive invariant: a
  component proves that its operations keep a predicate, and obtains it for every
  reachable state and along every run.
\<close>

inductive reach :: "('s \<Rightarrow> bool) \<Rightarrow> ('s \<Rightarrow> 's \<Rightarrow> bool) \<Rightarrow> 's \<Rightarrow> bool"
  for initial :: "'s \<Rightarrow> bool" and step :: "'s \<Rightarrow> 's \<Rightarrow> bool" where
  reach_init: "initial s \<Longrightarrow> reach initial step s"
| reach_step: "reach initial step s \<Longrightarrow> step s t \<Longrightarrow> reach initial step t"

inductive steps :: "('s \<Rightarrow> 's \<Rightarrow> bool) \<Rightarrow> 's \<Rightarrow> 's \<Rightarrow> bool"
  for step :: "'s \<Rightarrow> 's \<Rightarrow> bool" where
  steps_refl: "steps step s s"
| steps_snoc: "steps step s t \<Longrightarrow> step t u \<Longrightarrow> steps step s u"

lemma steps_trans: "steps step t u \<Longrightarrow> steps step s t \<Longrightarrow> steps step s u"
  by (induction rule: steps.induct) (auto intro: steps_snoc)

lemma steps_one: "step s t \<Longrightarrow> steps step s t"
  by (rule steps_snoc [OF steps_refl])

lemma reach_steps: "steps step s t \<Longrightarrow> reach initial step s \<Longrightarrow> reach initial step t"
  by (induction rule: steps.induct) (auto intro: reach_step)

locale step_invariant =
  fixes initial :: "'s \<Rightarrow> bool" and step :: "'s \<Rightarrow> 's \<Rightarrow> bool" and inv :: "'s \<Rightarrow> bool"
  assumes inv_init: "initial s \<Longrightarrow> inv s"
    and inv_step: "inv s \<Longrightarrow> step s t \<Longrightarrow> inv t"
begin

lemma inv_reach: "reach initial step s \<Longrightarrow> inv s"
  by (induction rule: reach.induct) (auto intro: inv_init inv_step)

lemma inv_steps: "steps step s t \<Longrightarrow> inv s \<Longrightarrow> inv t"
  by (induction rule: steps.induct) (auto intro: inv_step)

end

text \<open>
  A second invariant that needs the first one to be inductive; together they are an
  invariant of their own.
\<close>

locale relative_invariant = step_invariant +
  fixes more :: "'s \<Rightarrow> bool"
  assumes more_init: "initial s \<Longrightarrow> more s"
    and more_step: "inv s \<Longrightarrow> more s \<Longrightarrow> step s t \<Longrightarrow> more t"
begin

lemma more_reach: "reach initial step s \<Longrightarrow> more s"
proof (induction rule: reach.induct)
  case (reach_init s)
  then show ?case by (rule more_init)
next
  case (reach_step s t)
  then show ?case by (blast intro: more_step inv_reach)
qed

end

sublocale relative_invariant \<subseteq> both: step_invariant initial step "\<lambda>s. inv s \<and> more s"
  by unfold_locales (auto intro: inv_init inv_step more_init more_step)

end
