(* ===== verification/Monitor_Run.thy ===== *)
theory Monitor_Run
  imports Monitor_Sigchld Transitions
begin

text \<open>
  The life of the monitor: \<open>prepare_environment\<close>, \<open>run\<close> with the one-time kill of a
  stale zygote, and the event loop of \<open>event_loop.cpp\<close>; then the monitor as a transition
  system whose steps are the datagrams it reads and the statuses it reaps.
\<close>

section \<open>Start\<close>

text \<open>\<open>lines\<close> is the installed \<open>module.prop\<close> as \<open>getline\<close> gives it, or \<open>None\<close> if it cannot
  be opened.  A line that reaches the callback ends at its first NUL.\<close>

definition prop_line :: "string \<Rightarrow> string" where
  "prop_line l =
     (let s = takeWhile (\<lambda>c. c \<noteq> nul) l in
      if starts_with s ''updateJson='' then []
      else if starts_with s ''description='' then [] else CHR 0x09 # s)"

definition prepare_environment :: "kernel \<Rightarrow> string list option \<Rightarrow> monitor \<Rightarrow> bool \<times> monitor" where
  "prepare_environment K lines m =
     (let path = tmp_path m @ ''/module.prop'';
          m1 = record_call [Fopen path, Fopen ''./module.prop''] (m\<lparr> prop_path := path \<rparr>)
      in case lines of
           None \<Rightarrow> (False, m1)
         | Some ls \<Rightarrow>
             (True, update_status K (m1\<lparr> pre_section := pre_section m1 @ concat (map prop_line ls) \<rparr>)))"

definition proc_exe_matches :: "kernel \<Rightarrow> int \<Rightarrow> string \<Rightarrow> monitor \<Rightarrow> bool" where
  "proc_exe_matches K pid target m =
     (case k_readlink K (hist m) (exe_path pid) of
        None \<Rightarrow> False
      | Some t \<Rightarrow> t \<noteq> [] \<and> target = takeWhile (\<lambda>c. c \<noteq> nul) (take 255 t))"

text \<open>The directory entries in the order \<open>readdir\<close> gives them; \<open>None\<close> when \<open>opendir\<close> fails.\<close>

fun kill_stale_entries :: "kernel \<Rightarrow> string \<Rightarrow> string list \<Rightarrow> monitor \<Rightarrow> monitor" where
  "kill_stale_entries K target [] m = m"
| "kill_stale_entries K target (e # es) m =
     (let (pid, _, rest) = strtol e in
      if rest = e \<or> rest \<noteq> [] \<or> pid \<le> 0 then kill_stale_entries K target es m
      else
        let p = to_int32 pid; m1 = record_call [Readlink (exe_path p)] m in
        if proc_exe_matches K p target m then record_call [Kill p SIGKILL] m1
        else kill_stale_entries K target es m1)"

definition kill_stale_zygote_if_running :: "kernel \<Rightarrow> string list option \<Rightarrow> string \<Rightarrow> monitor \<Rightarrow> monitor" where
  "kill_stale_zygote_if_running K entries target m =
     (case entries of None \<Rightarrow> m | Some es \<Rightarrow> kill_stale_entries K target es m)"

section \<open>The event loop\<close>

datatype ready = Socket_ready "sock_event list" | Sigchld_ready "sig_event list"

text \<open>One return of \<open>epoll_wait\<close>: an error, or at most \<open>MAX_EVENTS\<close> ready handlers.\<close>

datatype epoll_round = Epoll_failed | Ready "ready list"

fun HandleEvent :: "kernel \<Rightarrow> ready \<Rightarrow> monitor \<Rightarrow> monitor res" where
  "HandleEvent K (Socket_ready evs) m = SocketHandler_HandleEvent K evs m"
| "HandleEvent K (Sigchld_ready evs) m = Inr (SigChldHandler_HandleEvent K evs m)"

fun dispatch_ready :: "kernel \<Rightarrow> ready list \<Rightarrow> monitor \<Rightarrow> monitor res" where
  "dispatch_ready K [] m = Inr m"
| "dispatch_ready K (r # rs) m =
     bind_res (HandleEvent K r m)
       (\<lambda>m1. if \<not> running m1 then Inr m1 else dispatch_ready K rs m1)"

text \<open>The list is the returns of \<open>epoll_wait\<close> so far; the loop blocks at its end.\<close>

fun loop_rounds :: "kernel \<Rightarrow> epoll_round list \<Rightarrow> monitor \<Rightarrow> monitor res" where
  "loop_rounds K [] m = Inr m"
| "loop_rounds K (r # rs) m =
     (if \<not> running m then Inr m
      else case r of
             Epoll_failed \<Rightarrow> loop_rounds K rs m
           | Ready hs \<Rightarrow> bind_res (dispatch_ready K hs m) (loop_rounds K rs))"

definition EventLoop_Loop :: "kernel \<Rightarrow> epoll_round list \<Rightarrow> monitor \<Rightarrow> monitor res" where
  "EventLoop_Loop K rounds m = loop_rounds K rounds (m\<lparr> running := True \<rparr>)"

text \<open>What the set-up calls of \<open>run\<close> return; the \<open>PTRACE_SEIZE\<close> of init is in the kernel.\<close>

record boot =
  sock_ok :: bool
  sigmask_ok :: bool
  signalfd_ok :: bool
  proc_entries :: "string list option"
  epoll_ok :: bool
  register_ok :: bool

definition SigChldHandler_Init :: "kernel \<Rightarrow> boot \<Rightarrow> monitor \<Rightarrow> bool \<times> monitor" where
  "SigChldHandler_Init K b m =
     (if \<not> sigmask_ok b then (False, m)
      else if \<not> signalfd_ok b then (False, m)
      else (k_ptrace K (hist m) PTRACE_SEIZE 1 PTRACE_O_TRACEFORK \<noteq> - 1,
            issue_ptrace PTRACE_SEIZE 1 PTRACE_O_TRACEFORK m))"

definition run :: "kernel \<Rightarrow> boot \<Rightarrow> epoll_round list \<Rightarrow> monitor \<Rightarrow> monitor res" where
  "run K b rounds m =
     (if \<not> sock_ok b then Inr (request_exit K m)
      else let (ok, m1) = SigChldHandler_Init K b m in
        if \<not> ok then Inr (request_exit K m1)
        else
          let m2 = kill_stale_zygote_if_running K (proc_entries b) (program_path (zygote m1)) m1 in
          if \<not> epoll_ok b \<or> \<not> register_ok b then Inr (request_exit K m2)
          else EventLoop_Loop K rounds m2)"

text \<open>\<open>init_monitor\<close> of \<open>main.cpp\<close>: the fail-safe flag, then the monitor.  \<open>Inr None\<close>: it
  returned without one; \<open>Inr (Some m)\<close>: the monitor ran, or failed to prepare (exit code 1).\<close>

definition init_monitor ::
  "kernel \<Rightarrow> string \<Rightarrow> bool \<Rightarrow> string list option \<Rightarrow> boot \<Rightarrow> epoll_round list \<Rightarrow> monitor option res" where
  "init_monitor K tmp failsafe lines b rounds =
     (if failsafe then Inr None
      else let (ok, m) = prepare_environment K lines (AppMonitor True tmp) in
        if \<not> ok then Inr (Some (record_call [Exit_process 1] m))
        else bind_res (run K b rounds m) (\<lambda>m1. Inr (Some m1)))"

section \<open>The monitor as a transition system\<close>

text \<open>Whether the last \<open>PTRACE_SEIZE\<close> or \<open>PTRACE_DETACH\<close> of init in a history is a seize.\<close>

fun seize_effect :: "bool \<Rightarrow> call \<Rightarrow> bool" where
  "seize_effect b (Ptrace PTRACE_SEIZE p d) = (p = 1 \<or> b)"
| "seize_effect b (Ptrace PTRACE_DETACH p d) = (p \<noteq> 1 \<and> b)"
| "seize_effect b _ = b"

definition init_seized :: "call list \<Rightarrow> bool" where
  "init_seized h = foldl seize_effect False h"

text \<open>Where the loop starts: nothing known yet, tracing, init seized.\<close>

definition mon_init :: "monitor \<Rightarrow> bool" where
  "mon_init m \<longleftrightarrow>
     tracing_state m = TRACING \<and> running m \<and> traced m = {} \<and> stubs m = {} \<and>
     abi_state (zygote m) = Status \<and> abi_counter (zygote m) = StartCounter \<and>
     init_seized (hist m)"

inductive mon_step :: "kernel \<Rightarrow> monitor \<Rightarrow> monitor \<Rightarrow> bool" for K :: kernel where
  step_peek: "mon_step K m (record_call [Recv] (m\<lparr> buf := buf_resize 8 (buf m) \<rparr>))"
| step_datagram: "socket_datagram K d ok m = Inr m' \<Longrightarrow> mon_step K m m'"
| step_reap: "mon_step K m (reap K (pid, st) m)"
| step_reaped: "mon_step K m (record_call [Waitpid (- 1)] m)"

abbreviation mon_reach :: "kernel \<Rightarrow> monitor \<Rightarrow> bool" where
  "mon_reach K \<equiv> reach mon_init (mon_step K)"

inductive_cases mon_stepE: "mon_step K m m'"

text \<open>Every run of the code is a run of the system.\<close>

lemma one_step:
  "steps (mon_step K) m (record_call [Recv] (m\<lparr> buf := buf_resize 8 (buf m) \<rparr>))"
  "steps (mon_step K) m (reap K ev m)"
  "socket_datagram K d ok m = Inr m' \<Longrightarrow> steps (mon_step K) m m'"
  using step_reap [of K m "fst ev" "snd ev"] by (auto intro: steps_one mon_step.intros)

lemma socket_steps:
  "SocketHandler_HandleEvent K evs m = Inr m' \<Longrightarrow> steps (mon_step K) m m'"
proof (induction K evs m rule: SocketHandler_HandleEvent.induct)
  case (1 K m)
  then show ?case by (auto intro: one_step)
next
  case (2 K evs m)
  then show ?case by (auto intro: steps_trans [OF _ one_step(1)] one_step)
next
  case (3 K d read_ok evs m)
  then show ?case by (auto elim!: steps_trans intro: one_step)
qed

lemma reap_steps: "steps (mon_step K) m (fold (reap K) evs m)"
  by (induction evs arbitrary: m)
    (auto intro: steps_refl steps_trans [OF _ one_step(2)])

lemma sigchld_event_steps: "steps (mon_step K) m (sigchld_event K ev m)"
  by (cases ev) (auto intro: steps_refl steps_snoc reap_steps step_reaped)

lemma sigchld_steps: "steps (mon_step K) m (SigChldHandler_HandleEvent K evs m)"
  unfolding SigChldHandler_HandleEvent_def
  by (induction evs arbitrary: m)
    (auto intro: steps_refl steps_trans [OF _ sigchld_event_steps])

lemma HandleEvent_steps: "HandleEvent K r m = Inr m' \<Longrightarrow> steps (mon_step K) m m'"
  by (cases r) (auto intro: socket_steps sigchld_steps)

lemma dispatch_ready_steps: "dispatch_ready K rs m = Inr m' \<Longrightarrow> steps (mon_step K) m m'"
  by (induction rs arbitrary: m)
    (auto split: if_splits intro: steps_refl HandleEvent_steps
      steps_trans [OF _ HandleEvent_steps])

lemma loop_rounds_steps: "loop_rounds K rounds m = Inr m' \<Longrightarrow> steps (mon_step K) m m'"
  by (induction rounds arbitrary: m)
    (auto split: if_splits epoll_round.splits
      intro: steps_refl steps_trans [OF _ dispatch_ready_steps])

lemma init_seized_simps [simp]:
  "init_seized [] = False"
  "init_seized (h @ cs) = foldl seize_effect (init_seized h) cs"
  by (simp_all add: init_seized_def)

section \<open>What each operation does to the seizure of init\<close>

lemma update_status_seized [simp]:
  "init_seized (hist (update_status K m)) = init_seized (hist m)"
  by (simp add: update_status_def)

lemma request_seized [simp]:
  "init_seized (hist (request_start K m)) = (init_seized (hist m) \<or> tracing_state m = STOPPED)"
  "init_seized (hist (request_stop K r m)) = init_seized (hist m)"
  "init_seized (hist (request_exit K m)) = init_seized (hist m)"
  by (simp_all add: request_start_def request_stop_def request_exit_def)

lemma resume_parent_seized [simp]:
  "init_seized (hist (resume_parent pid st m)) = init_seized (hist m)"
  by (simp add: resume_parent_def Let_def)

lemma crash_loop_check_seized [simp]:
  "init_seized (hist (snd (crash_loop_check K m))) = init_seized (hist m)"
  by simp

lemma daemon_check_seized [simp]:
  "init_seized (hist (snd (daemon_check K m))) = init_seized (hist m)"
  by (simp add: daemon_check_def ensure_daemon_created_def split_beta Let_def)

lemma check_and_prepare_seized [simp]:
  "init_seized (hist (snd (check_and_prepare_injection K m))) = init_seized (hist m)"
  unfolding check_and_prepare_injection_def split_beta Let_def
  by (simp del: crash_loop_check_frame)

lemma spawn_injector_seized [simp]:
  "init_seized (hist (spawn_injector K t pid m)) = init_seized (hist m)"
  by (simp add: spawn_injector_def fork_dont_care_def Let_def)

lemma hand_over_seized [simp]:
  "pid \<noteq> 1 \<Longrightarrow> init_seized (hist (snd (snd (hand_over K t pid st m)))) = init_seized (hist m)"
  by (simp add: hand_over_def split_beta Let_def)

lemma exec_target_seized [simp]:
  "pid \<noteq> 1 \<Longrightarrow>
     init_seized (hist (snd (snd (exec_target K p pid st m)))) = init_seized (hist m)"
proof -
  assume "pid \<noteq> 1"
  obtain r m1 where c: "check_and_prepare_injection K m = (r, m1)" by fastforce
  have "init_seized (hist m1) = init_seized (hist m)"
    using check_and_prepare_seized [of K m] c by simp
  with \<open>pid \<noteq> 1\<close> c show ?thesis by (auto simp: exec_target_def split: option.splits)
qed

lemma handleExecEvent_seized [simp]:
  "pid \<noteq> 1 \<Longrightarrow>
     init_seized (hist (snd (snd (handleExecEvent K pid st m)))) = init_seized (hist m)"
  by (simp add: handleExecEvent_def split_beta Let_def)

lemma route_candidate_seized [simp]:
  "pid \<noteq> 1 \<Longrightarrow>
     init_seized (hist (snd (route_candidate k pid st m))) = init_seized (hist m)"
  by (simp add: route_candidate_def Let_def)

lemma handleTracedProcess_seized [simp]:
  "pid \<noteq> 1 \<Longrightarrow>
     init_seized (hist (snd (handleTracedProcess K pid st m))) = init_seized (hist m)"
  by (simp add: handleTracedProcess_def split_beta Let_def)

lemma handle_daemon_exit_seized [simp]:
  "init_seized (hist (snd (handle_daemon_exit_if_match K pid st m))) = init_seized (hist m)"
  by (simp add: handle_daemon_exit_if_match_def Let_def)

section \<open>Invariants\<close>

text \<open>A candidate is never also a parent, and init is neither.\<close>

definition roles_disjoint :: "monitor \<Rightarrow> bool" where
  "roles_disjoint m \<longleftrightarrow> traced m \<inter> stubs m = {} \<and> 1 \<notin> traced m \<and> 1 \<notin> stubs m"

text \<open>The tracing state says what the loop and init are doing.\<close>

definition state_consistent :: "monitor \<Rightarrow> bool" where
  "state_consistent m \<longleftrightarrow>
     (running m \<longleftrightarrow> tracing_state m \<noteq> EXITING) \<and>
     (tracing_state m \<noteq> EXITING \<longrightarrow> (init_seized (hist m) \<longleftrightarrow> tracing_state m \<noteq> STOPPED))"

text \<open>A running daemon has a pid, and a pid is only ever set together with support.\<close>

definition daemon_consistent :: "monitor \<Rightarrow> bool" where
  "daemon_consistent m \<longleftrightarrow>
     (let s = zstat m in
      (daemon_running s \<longrightarrow> daemon_pid s \<noteq> - 1) \<and> (daemon_pid s \<noteq> - 1 \<longrightarrow> supported s))"

lemma no_stub_traced:
  "stopped_with st SIGTRAP PTRACE_EVENT_EXEC \<Longrightarrow> fst (exec_target K p pid st m) \<Longrightarrow>
     str_contains p ''stub_zygote'' \<Longrightarrow>
     fst (snd (exec_target K p pid st m)) = st"
  by (simp add: exec_target_def)

lemma handleTracedProcess_roles:
  assumes "roles_disjoint m" "pid \<noteq> 1"
  shows "roles_disjoint (snd (handleTracedProcess K pid st m))"
proof (cases "stopped_with st SIGTRAP PTRACE_EVENT_EXEC")
  case True
  obtain b st' m1 where e: "handleExecEvent K pid st m = (b, st', m1)" by (metis prod_cases3)
  have t: "traced m1 = traced m" using handleExecEvent_frame(1) [of K pid st m] e by simp
  have s: "stubs m1 = (if str_contains (get_program K (hist m) pid) ''stub_zygote''
                       then insert pid (stubs m) else stubs m)"
    using handleExecEvent_frame(3) [of K pid st m] e by simp
  have b: "b \<and> st' = st" if "str_contains (get_program K (hist m) pid) ''stub_zygote''"
    using that e by (auto simp: handleExecEvent_def exec_target_def split_beta Let_def)
  show ?thesis
    using assms True e t s b
    by (auto simp: handleTracedProcess_def route_candidate_def roles_disjoint_def Let_def
        split: if_splits)
next
  case False
  with assms show ?thesis
    by (auto simp: handleTracedProcess_def route_candidate_def roles_disjoint_def Let_def)
qed

lemma handleParentEvent_roles:
  "roles_disjoint m \<Longrightarrow> roles_disjoint (handleParentEvent pid st m)"
  by (auto simp: handleParentEvent_def roles_disjoint_def)

lemma handleChildEvent_roles:
  assumes "roles_disjoint m"
  shows "roles_disjoint (handleChildEvent K pid st m)"
proof -
  obtain b m1 where d: "handle_daemon_exit_if_match K pid st m = (b, m1)" by fastforce
  have "traced m1 = traced m" "stubs m1 = stubs m"
    using handle_daemon_exit_frame(2,3) [of K pid st m] d by simp_all
  moreover from this assms have "roles_disjoint m1" by (simp add: roles_disjoint_def)
  ultimately show ?thesis
    using assms d handleTracedProcess_roles [of m1 pid K st] handleParentEvent_roles [of m pid st]
    by (cases "pid = 1 \<or> pid \<in> stubs m")
      (auto simp: handleChildEvent_def handleNewProcess_def roles_disjoint_def)
qed

lemma dispatch_frame:
  "dispatch_message K msg m = Inr m' \<Longrightarrow> traced m' = traced m \<and> stubs m' = stubs m"
  by (auto simp: dispatch_message_def Let_def split: if_splits)

lemma socket_datagram_cases:
  assumes "socket_datagram K d ok m = Inr m'"
  obtains (drop) b cs where "m' = record_call cs (m\<lparr> buf := b \<rparr>)" "set cs \<subseteq> {Recv}"
  | (dispatch) b cs msg where
      "dispatch_message K msg (record_call cs (m\<lparr> buf := b \<rparr>)) = Inr m'" "set cs \<subseteq> {Recv}"
proof -
  have c: "record_call cs (record_call cs' x) = record_call (cs' @ cs) x" for cs cs' x
    by (simp add: record_call_def)
  have u: "(record_call cs x)\<lparr> buf := b \<rparr> = record_call cs (x\<lparr> buf := b \<rparr>)" for cs x b
    by (simp add: record_call_def)
  have r: thesis if "receive_message K d ok hdr n (record_call cs (m\<lparr> buf := b \<rparr>)) = Inr m'"
    "set cs \<subseteq> {Recv}" for hdr n cs b
    using that drop [of "cs @ [Recv]"] dispatch [of _ "cs @ [Recv]"]
    by (auto simp: receive_message_def Let_def c u split: if_splits)
  show thesis
    using assms drop [of "[Recv, Recv]"] r [of _ _ "[Recv]"]
    by (auto simp: socket_datagram_def Let_def c u split: if_splits)
qed

lemma recv_seized: "set cs \<subseteq> {Recv} \<Longrightarrow> foldl seize_effect b cs = b"
  by (induction cs arbitrary: b) auto

lemma exec_target_state:
  "tracing_state (snd (snd (exec_target K p pid st m))) = tracing_state m \<or>
   tracing_state m = TRACING \<and> tracing_state (snd (snd (exec_target K p pid st m))) = STOPPING"
proof -
  obtain r m1 where c: "check_and_prepare_injection K m = (r, m1)" by fastforce
  have "tracing_state m1 = tracing_state m \<or>
        tracing_state m = TRACING \<and> tracing_state m1 = STOPPING"
    using c by (auto simp: check_and_prepare_injection_def split_beta Let_def split: if_splits)
  with c show ?thesis by (auto simp: exec_target_def split: option.splits)
qed

lemma handleTracedProcess_state:
  "running (snd (handleTracedProcess K pid st m)) = running m"
  "tracing_state (snd (handleTracedProcess K pid st m)) = tracing_state m \<or>
   tracing_state m = TRACING \<and> tracing_state (snd (handleTracedProcess K pid st m)) = STOPPING"
  using exec_target_state [of K "get_program K (hist m) pid" pid st
      "record_call [Readlink (exe_path pid)] m"]
  by (auto simp: handleTracedProcess_def handleExecEvent_def split_beta Let_def)

lemma handleParentEvent_state:
  "state_consistent m \<Longrightarrow> state_consistent (handleParentEvent pid st m)"
  by (auto simp: handleParentEvent_def state_consistent_def)

lemma handleChildEvent_state:
  assumes "state_consistent m" "roles_disjoint m"
  shows "state_consistent (handleChildEvent K pid st m)"
proof (cases "pid = 1 \<or> pid \<in> stubs m")
  case True
  with assms show ?thesis by (simp add: handleChildEvent_def handleParentEvent_state)
next
  case False
  obtain b m1 where d: "handle_daemon_exit_if_match K pid st m = (b, m1)" by fastforce
  have m1: "state_consistent m1"
    using assms(1) handle_daemon_exit_frame [of K pid st m] handle_daemon_exit_seized [of K pid st m] d
    by (simp add: state_consistent_def)
  from False have p: "pid \<noteq> 1" by simp
  have t: "state_consistent (snd (handleTracedProcess K pid st m1))"
    using m1 handleTracedProcess_state [of K pid st m1] handleTracedProcess_seized [OF p, of K st m1]
    by (auto simp: state_consistent_def)
  have n: "state_consistent (handleNewProcess pid m1)"
    using m1 by (simp add: handleNewProcess_def state_consistent_def record_call_def)
  from False m1 t n d show ?thesis by (auto simp: handleChildEvent_def)
qed

lemma dispatch_state:
  "state_consistent m \<Longrightarrow> dispatch_message K msg m = Inr m' \<Longrightarrow> state_consistent m'"
  by (auto simp: dispatch_message_def Let_def state_consistent_def split: if_splits)

lemma record_recv_state:
  "set cs \<subseteq> {Recv} \<Longrightarrow>
     state_consistent (record_call cs (m\<lparr> buf := b \<rparr>)) \<longleftrightarrow> state_consistent m"
  by (simp add: state_consistent_def recv_seized)

lemma record_recv_roles: "roles_disjoint (record_call cs (m\<lparr> buf := b \<rparr>)) \<longleftrightarrow> roles_disjoint m"
  by (simp add: roles_disjoint_def)

lemma mon_step_roles: "roles_disjoint m \<Longrightarrow> mon_step K m m' \<Longrightarrow> roles_disjoint m'"
  by (erule mon_step.cases)
    (auto simp: reap_def record_recv_roles roles_disjoint_def dest!: dispatch_frame
      elim!: socket_datagram_cases intro!: handleChildEvent_roles [unfolded roles_disjoint_def, simplified])

lemma mon_step_state:
  assumes "roles_disjoint m" "state_consistent m" "mon_step K m m'"
  shows "state_consistent m'"
  using assms(3)
proof (cases rule: mon_step.cases)
  case step_peek
  with assms(2) show ?thesis using record_recv_state [of "[Recv]" _ m] by simp
next
  case (step_datagram d ok)
  from step_datagram(1) show ?thesis
  proof (cases rule: socket_datagram_cases)
    case (drop b cs)
    with assms(2) show ?thesis by (simp add: record_recv_state)
  next
    case (dispatch b cs msg)
    show ?thesis
      by (rule dispatch_state [OF _ dispatch(1)])
        (use assms(2) dispatch(2) in \<open>simp only: record_recv_state\<close>)
  qed
next
  case (step_reap pid st)
  then show ?thesis
    using assms handleChildEvent_state [of "record_call [Waitpid (- 1)] m"]
    by (simp add: reap_def state_consistent_def roles_disjoint_def)
next
  case step_reaped
  with assms(2) show ?thesis by (simp add: state_consistent_def)
qed

lemma mon_init_consistent: "mon_init m \<Longrightarrow> roles_disjoint m \<and> state_consistent m"
  by (simp add: mon_init_def roles_disjoint_def state_consistent_def)

interpretation roles: step_invariant mon_init "mon_step K" roles_disjoint for K
  by unfold_locales (auto dest: mon_init_consistent mon_step_roles)

interpretation states: relative_invariant mon_init "mon_step K" roles_disjoint state_consistent for K
  by unfold_locales (auto dest: mon_init_consistent mon_step_state)

text \<open>EXITING is never left.\<close>

lemma exiting_step:
  assumes "tracing_state m = EXITING \<and> \<not> running m \<and> roles_disjoint m" "mon_step K m m'"
  shows "tracing_state m' = EXITING \<and> \<not> running m' \<and> roles_disjoint m'"
proof -
  have parent: "tracing_state (handleParentEvent pid st n) = EXITING \<and>
      \<not> running (handleParentEvent pid st n)"
    if "tracing_state n = EXITING" "\<not> running n" for pid st n
    using that by (simp add: handleParentEvent_def)
  have child: "tracing_state (handleChildEvent K pid st n) = EXITING \<and>
      \<not> running (handleChildEvent K pid st n)"
    if n: "tracing_state n = EXITING" "\<not> running n" for pid st n
  proof -
    obtain b n1 where d: "handle_daemon_exit_if_match K pid st n = (b, n1)" by fastforce
    with n have "tracing_state n1 = EXITING" "\<not> running n1"
      using handle_daemon_exit_frame [of K pid st n] by simp_all
    with n d handleTracedProcess_state [of K pid st n1] parent show ?thesis
      by (auto simp: handleChildEvent_def handleNewProcess_def)
  qed
  have dispatch: "tracing_state n' = EXITING \<and> \<not> running n'"
    if "dispatch_message K msg n = Inr n'" "tracing_state n = EXITING" "\<not> running n" for msg n n'
    using that by (auto simp: dispatch_message_def Let_def split: if_splits)
  have "roles_disjoint m'" using assms mon_step_roles by blast
  with assms show ?thesis
    by (auto elim!: mon_step.cases socket_datagram_cases dest!: dispatch simp: reap_def child)
qed

interpretation exiting: step_invariant
  "\<lambda>m. tracing_state m = EXITING \<and> \<not> running m \<and> roles_disjoint m" "mon_step K"
  "\<lambda>m. tracing_state m = EXITING \<and> \<not> running m \<and> roles_disjoint m" for K
  by unfold_locales (assumption, rule exiting_step)

section \<open>The daemon\<close>

lemma daemon_consistent_cong:
  "zstat m' = zstat m \<Longrightarrow> daemon_consistent m' = daemon_consistent m"
  by (simp add: daemon_consistent_def)

lemma daemon_consistent_simps [simp]:
  "daemon_consistent (record_call cs m) = daemon_consistent m"
  "daemon_consistent (m\<lparr> buf := b \<rparr>) = daemon_consistent m"
  "daemon_consistent (m\<lparr> traced := t \<rparr>) = daemon_consistent m"
  "daemon_consistent (m\<lparr> stubs := t \<rparr>) = daemon_consistent m"
  "daemon_consistent (m\<lparr> hist := h \<rparr>) = daemon_consistent m"
  "daemon_consistent (update_status K m) = daemon_consistent m"
  "daemon_consistent (request_start K m) = daemon_consistent m"
  "daemon_consistent (request_stop K r m) = daemon_consistent m"
  "daemon_consistent (request_exit K m) = daemon_consistent m"
  "daemon_consistent (notify_init_detached m) = daemon_consistent m"
  "daemon_consistent (resume_parent pid st m) = daemon_consistent m"
  "daemon_consistent (snd (crash_loop_check K m)) = daemon_consistent m"
  by (simp_all add: daemon_consistent_def)

lemma daemon_check_consistent [simp]:
  "daemon_consistent m \<Longrightarrow> daemon_consistent (snd (daemon_check K m))"
  by (auto simp: daemon_check_def ensure_daemon_created_def daemon_consistent_def Let_def
      split: if_splits)

lemma exec_target_daemon:
  assumes "daemon_consistent m"
  shows "daemon_consistent (snd (snd (exec_target K p pid st m)))"
proof -
  obtain r m1 where c: "check_and_prepare_injection K m = (r, m1)" by fastforce
  have "daemon_consistent m1"
    using c assms
    by (auto simp: check_and_prepare_injection_def split_beta Let_def
        simp del: crash_loop_check_frame split: if_splits)
  with c assms show ?thesis
    by (auto simp: exec_target_def hand_over_def spawn_injector_def split_beta Let_def
        split: option.splits)
qed

lemma handleChildEvent_daemon:
  assumes "daemon_consistent m"
  shows "daemon_consistent (handleChildEvent K pid st m)"
proof -
  have parent: "daemon_consistent (handleParentEvent pid st m)"
    using assms by (simp add: handleParentEvent_def)
  obtain b m1 where d: "handle_daemon_exit_if_match K pid st m = (b, m1)" by fastforce
  have m1: "daemon_consistent m1"
    using d assms
    by (auto simp: handle_daemon_exit_if_match_def daemon_consistent_def Let_def split: if_splits)
  have "daemon_consistent (snd (handleTracedProcess K pid st m1))"
    using m1 exec_target_daemon [of "record_call [Readlink (exe_path pid)] m1" K _ pid st]
    by (simp add: handleTracedProcess_def handleExecEvent_def route_candidate_def split_beta Let_def)
  with m1 d parent show ?thesis
    by (auto simp: handleChildEvent_def handleNewProcess_def)
qed

lemma dispatch_daemon:
  "daemon_consistent m \<Longrightarrow> dispatch_message K msg m = Inr m' \<Longrightarrow> daemon_consistent m'"
  by (auto simp: dispatch_message_def daemon_consistent_def notify_injected_def
      set_daemon_info_def set_daemon_crashed_def Let_def split: if_splits)

lemma mon_step_daemon: "daemon_consistent m \<Longrightarrow> mon_step K m m' \<Longrightarrow> daemon_consistent m'"
  by (erule mon_step.cases)
    (auto simp: reap_def elim!: socket_datagram_cases
      intro: dispatch_daemon [rotated] handleChildEvent_daemon)

interpretation daemon: step_invariant mon_init "mon_step K" daemon_consistent for K
proof unfold_locales
  show "mon_init m \<Longrightarrow> daemon_consistent m" for m
    by (simp add: mon_init_def daemon_consistent_def Status_def)
qed (rule mon_step_daemon)

section \<open>The status file is current\<close>

fun write_effect :: "string option \<Rightarrow> call \<Rightarrow> string option" where
  "write_effect w (Fwrite f s) = Some s"
| "write_effect w _ = w"

text \<open>What the status file holds after a history: it is opened with truncation.\<close>

definition last_written :: "call list \<Rightarrow> string option" where
  "last_written h = foldl write_effect None h"

definition prop_current :: "monitor \<Rightarrow> bool" where
  "prop_current m \<longleftrightarrow> last_written (hist m) = Some (module_prop m)"

definition can_write :: "kernel \<Rightarrow> bool" where
  "can_write K \<longleftrightarrow> (\<forall>h f. k_fopen_w K h f)"

lemma last_written_append [simp]:
  "last_written (h @ cs) = foldl write_effect (last_written h) cs"
  by (simp add: last_written_def)

lemma module_prop_record_call [simp]: "module_prop (record_call cs m) = module_prop m"
  by (simp add: module_prop_def status_text_def write_abi_status_section_def Let_def)

lemma module_prop_other [simp]:
  "module_prop (m\<lparr> buf := b \<rparr>) = module_prop m"
  "module_prop (m\<lparr> traced := t \<rparr>) = module_prop m"
  "module_prop (m\<lparr> stubs := t \<rparr>) = module_prop m"
  "module_prop (m\<lparr> running := r \<rparr>) = module_prop m"
  "module_prop (m\<lparr> hist := h \<rparr>) = module_prop m"
  by (simp_all add: module_prop_def status_text_def write_abi_status_section_def Let_def)

lemma prop_current_update [simp]: "can_write K \<Longrightarrow> prop_current (update_status K m)"
  by (simp add: prop_current_def update_status_def can_write_def)

lemma prop_current_record [simp]:
  "prop_current (record_call [] m) = prop_current m"
  "prop_current (record_call (Ptrace r p d # cs) m) =
     prop_current (record_call cs m)"
  "prop_current (record_call (Kill p s # cs) m) = prop_current (record_call cs m)"
  "prop_current (record_call (Waitpid p # cs) m) = prop_current (record_call cs m)"
  "prop_current (record_call (Recv # cs) m) = prop_current (record_call cs m)"
  "prop_current (m\<lparr> buf := b \<rparr>) = prop_current m"
  "prop_current (m\<lparr> traced := t \<rparr>) = prop_current m"
  "prop_current (m\<lparr> stubs := t \<rparr>) = prop_current m"
  "prop_current (m\<lparr> running := on \<rparr>) = prop_current m"
  by (simp_all add: prop_current_def)

lemma prop_current_requests [simp]:
  "can_write K \<Longrightarrow> prop_current (request_start K m)"
  "can_write K \<Longrightarrow> prop_current m \<Longrightarrow> prop_current (request_stop K r m)"
  "can_write K \<Longrightarrow> prop_current (request_exit K m)"
  by (simp_all add: request_start_def request_stop_def request_exit_def)

lemma prop_current_resume [simp]:
  "prop_current (resume_parent pid st m) = prop_current m"
  by (simp add: resume_parent_def Let_def)

lemma prop_current_detached:
  "tracing_state m = STOPPING \<Longrightarrow> prop_current m \<Longrightarrow>
     prop_current (notify_init_detached m)"
  by (simp add: prop_current_def notify_init_detached_def module_prop_def status_text_def
      status_word_def write_abi_status_section_def Let_def)

lemma handleChildEvent_prop:
  assumes "can_write K" "prop_current m"
  shows "prop_current (handleChildEvent K pid st m)"
proof -
  have parent: "prop_current (handleParentEvent pid st m)"
    using assms by (simp add: handleParentEvent_def prop_current_detached)
  obtain b m1 where d: "handle_daemon_exit_if_match K pid st m = (b, m1)" by fastforce
  have m1: "prop_current m1"
    using d assms by (auto simp: handle_daemon_exit_if_match_def Let_def split: if_splits)
  have "prop_current (snd (handleTracedProcess K pid st m1))"
    using m1 assms(1)
    by (simp add: handleTracedProcess_def handleExecEvent_def route_candidate_def split_beta Let_def)
  with m1 d parent show ?thesis
    by (auto simp: handleChildEvent_def handleNewProcess_def)
qed

lemma recv_prop:
  "set cs \<subseteq> {Recv} \<Longrightarrow> prop_current (record_call cs m) = prop_current m"
  by (induction cs) auto

lemma dispatch_prop:
  "can_write K \<Longrightarrow> prop_current m \<Longrightarrow> dispatch_message K msg m = Inr m' \<Longrightarrow> prop_current m'"
  by (auto simp: dispatch_message_def Let_def split: if_splits)

lemma mon_step_prop:
  "can_write K \<Longrightarrow> prop_current m \<Longrightarrow> mon_step K m m' \<Longrightarrow> prop_current m'"
  by (erule mon_step.cases)
    (auto simp: reap_def recv_prop elim!: socket_datagram_cases
      intro: dispatch_prop [rotated 2] handleChildEvent_prop)

interpretation prop_file:
  step_invariant "\<lambda>m. can_write K \<and> mon_init m \<and> prop_current m" "mon_step K"
    "\<lambda>m. can_write K \<and> prop_current m" for K
  by unfold_locales (auto intro: mon_step_prop)

section \<open>The loop starts in an initial state\<close>

definition reads_only :: "call list \<Rightarrow> bool" where
  "reads_only cs \<longleftrightarrow> (\<forall>c \<in> set cs. \<exists>f. c = Readlink f)"

text \<open>What the scan for a stale zygote may do: look at \<open>/proc/*/exe\<close>, and kill the first
  process whose link is the zygote's program.\<close>

definition scan_calls :: "kernel \<Rightarrow> string \<Rightarrow> monitor \<Rightarrow> call list \<Rightarrow> bool" where
  "scan_calls K t m cs \<longleftrightarrow>
     reads_only cs \<or>
     (\<exists>ds p. cs = ds @ [Readlink (exe_path p), Kill p SIGKILL] \<and> reads_only ds \<and>
             proc_exe_matches K p t (record_call ds m))"

lemma record_call_record [simp]: "record_call ds (record_call cs m) = record_call (cs @ ds) m"
  by (simp add: record_call_def)

lemma scan_calls_Cons:
  "scan_calls K t (record_call [Readlink f] m) cs \<Longrightarrow> scan_calls K t m (Readlink f # cs)"
proof (unfold scan_calls_def, elim disjE exE conjE)
  fix ds p
  assume "cs = ds @ [Readlink (exe_path p), Kill p SIGKILL]" "reads_only ds"
    "proc_exe_matches K p t (record_call ds (record_call [Readlink f] m))"
  then show "reads_only (Readlink f # cs) \<or>
      (\<exists>ds p. Readlink f # cs = ds @ [Readlink (exe_path p), Kill p SIGKILL] \<and> reads_only ds \<and>
              proc_exe_matches K p t (record_call ds m))"
    by (intro disjI2 exI [of _ "Readlink f # ds"] exI [of _ p]) (auto simp: reads_only_def)
qed (simp add: reads_only_def)

lemma kill_stale_entries_scan:
  "\<exists>cs. kill_stale_entries K t es m = record_call cs m \<and> scan_calls K t m cs"
proof (induction es arbitrary: m)
  case Nil
  then show ?case
    by (intro exI [of _ "[]"]) (simp add: record_call_def scan_calls_def reads_only_def)
next
  case (Cons e es)
  obtain pid x rest where s: "strtol e = (pid, x, rest)" by (metis prod_cases3)
  let ?p = "to_int32 pid"
  let ?m1 = "record_call [Readlink (exe_path ?p)] m"
  consider (skip) "rest = e \<or> rest \<noteq> [] \<or> pid \<le> 0"
    | (hit) "\<not> (rest = e \<or> rest \<noteq> [] \<or> pid \<le> 0)" "proc_exe_matches K ?p t m"
    | (miss) "\<not> (rest = e \<or> rest \<noteq> [] \<or> pid \<le> 0)" "\<not> proc_exe_matches K ?p t m"
    by blast
  then show ?case
  proof cases
    case skip
    with Cons.IH [of m] s show ?thesis by auto
  next
    case hit
    have "scan_calls K t m [Readlink (exe_path ?p), Kill ?p SIGKILL]"
      unfolding scan_calls_def using hit(2)
      by (intro disjI2 exI [of _ "[]"] exI [of _ ?p])
        (simp add: reads_only_def record_call_def)
    with hit s show ?thesis
      by (intro exI [of _ "[Readlink (exe_path ?p), Kill ?p SIGKILL]"]) (simp add: Let_def)
  next
    case miss
    from Cons.IH [of ?m1] obtain cs where
      "kill_stale_entries K t es ?m1 = record_call cs ?m1" "scan_calls K t ?m1 cs" by blast
    with miss s show ?thesis
      by (intro exI [of _ "Readlink (exe_path ?p) # cs"])
        (auto simp: Let_def intro: scan_calls_Cons)
  qed
qed

lemma kill_stale_scan:
  "\<exists>cs. kill_stale_zygote_if_running K es t m = record_call cs m \<and> scan_calls K t m cs"
proof (cases es)
  case None
  then show ?thesis
    by (intro exI [of _ "[]"])
      (simp add: kill_stale_zygote_if_running_def record_call_def scan_calls_def reads_only_def)
next
  case (Some l)
  then show ?thesis
    using kill_stale_entries_scan [of K t l m] by (simp add: kill_stale_zygote_if_running_def)
qed

text \<open>Such calls leave the seizure of init and the status file alone.\<close>

lemma scan_effects:
  assumes "scan_calls K t m cs"
  shows "foldl seize_effect b cs = b" "foldl write_effect w cs = w"
proof -
  have r: "foldl seize_effect b ds = b" "foldl write_effect w ds = w" if "reads_only ds" for ds b w
    using that by (induction ds arbitrary: b w) (auto simp: reads_only_def)
  from assms show "foldl seize_effect b cs = b" "foldl write_effect w cs = w"
    unfolding scan_calls_def by (elim disjE exE conjE; simp add: r)+
qed

end
