(* ===== verification/Cli.thy ===== *)
theory Cli
  imports Monitor_Socket
begin

text \<open>
  The command line of the tracer, \<open>ptracer/main.cpp\<close>: what \<open>main\<close> does with its
  arguments.  \<open>traced_ok\<close> is the result of \<open>trace_zygote\<close>, modelled on its own.
\<close>

datatype cli_effect =
    Monitor_started | Zygote_restart | Trace_zygote int | Sent "u8 list" | Kill_process int int

text \<open>The exit code and the effects, in order.\<close>

type_synonym cli_result = "int \<times> cli_effect list"

abbreviation cli_effects :: "cli_result \<Rightarrow> cli_effect list" where
  "cli_effects \<equiv> snd"

definition send_control_command :: "Command \<Rightarrow> cli_effect list" where
  "send_control_command cmd = [Sent (le_bytes 4 (command_value cmd))]"

definition handle_monitor :: cli_result where
  "handle_monitor = (0, [Monitor_started])"

definition handle_trace :: "string list \<Rightarrow> bool \<Rightarrow> cli_result" where
  "handle_trace argv traced_ok =
     (if length argv < 3 then (1, [])
      else
        let (pid_val, out_of_range, rest) = strtol (argv ! 2) in
        if rest \<noteq> [] \<or> out_of_range \<or> pid_val \<le> 0 then (1, [])
        else
          let pid = to_int32 pid_val;
              restart = (if 4 \<le> length argv \<and> argv ! 3 = ''--restart'' then [Zygote_restart] else [])
          in if \<not> traced_ok then (1, restart @ [Trace_zygote pid, Kill_process pid SIGKILL])
             else (0, restart @ [Trace_zygote pid]))"

definition handle_ctl :: "string list \<Rightarrow> cli_result" where
  "handle_ctl argv =
     (if length argv < 3 then (1, [])
      else
        let action = argv ! 2 in
        if action = ''start'' then (0, send_control_command START)
        else if action = ''stop'' then (0, send_control_command STOP)
        else if action = ''exit'' then (0, send_control_command EXIT)
        else (1, []))"

definition handle_version :: cli_result where
  "handle_version = (0, [])"

definition cli_main :: "string list \<Rightarrow> bool \<Rightarrow> cli_result" where
  "cli_main argv traced_ok =
     (if length argv < 2 then (1, [])
      else if argv ! 1 = ''monitor'' then handle_monitor
      else if argv ! 1 = ''trace'' then handle_trace argv traced_ok
      else if argv ! 1 = ''ctl'' then handle_ctl argv
      else if argv ! 1 = ''version'' then handle_version
      else (1, []))"

lemma command_bytes:
  "length (le_bytes 4 (command_value c)) = 4" "msg_cmd (le_bytes 4 (command_value c)) = command_value c"
  by (cases c; simp add: msg_cmd_def le_value_le_bytes)+

lemma control_message:
  "parse_message (le_bytes 4 (command_value START)) = Control START"
  "parse_message (le_bytes 4 (command_value STOP)) = Control STOP"
  "parse_message (le_bytes 4 (command_value EXIT)) = Control EXIT"
  by (simp_all add: parse_message_def command_bytes del: command_value.simps)
    (simp_all)

text \<open>
  A pid above the range of \<open>int\<close> passes the checks and is truncated, so that when the
  injection then fails something else is killed: here every process, by \<open>kill(-1)\<close>.
\<close>

lemma trace_pid_truncated:
  "cli_main [tool, ''trace'', ''4294967295''] False =
     (1, [Trace_zygote (- 1), Kill_process (- 1) SIGKILL])"
proof -
  have "strtol ''4294967295'' = (4294967295, False, [])" by code_simp
  moreover have "to_int32 4294967295 = - 1" by (simp add: to_int32_def)
  ultimately show ?thesis by (simp add: cli_main_def handle_trace_def Let_def)
qed

end
