(* ===== verification/Monitor_Properties.thy ===== *)
theory Monitor_Properties
  imports Monitor_Run Cli
begin

text \<open>
  What the monitor guarantees, over every kernel, every sequence of datagrams and every
  sequence of reaped statuses.
\<close>

section \<open>A concrete kernel and run\<close>

text \<open>Every call succeeds, every waited-for process has stopped by \<open>SIGSTOP\<close>, and every
  process runs the zygote's program.\<close>

definition sample_kernel :: kernel where
  "sample_kernel =
     \<lparr> k_ptrace = (\<lambda>h r p d. 0), k_waitpid = (\<lambda>h p. (p, stop_status 19 0)),
       k_fork = (\<lambda>h. 1000), k_readlink = (\<lambda>h f. Some ''/system/bin/app_process64''),
       k_fopen_w = (\<lambda>h f. True), k_clock_sec = (\<lambda>h. 100), k_clock_nsec = (\<lambda>h. 0),
       k_signame = (\<lambda>s. ''SIG'') \<rparr>"

definition sample_boot :: boot where
  "sample_boot = \<lparr> sock_ok = True, sigmask_ok = True, signalfd_ok = True,
                   proc_entries = None, epoll_ok = True, register_ok = True \<rparr>"

definition sample_rounds :: "epoll_round list" where
  "sample_rounds =
     [Ready [Sigchld_ready [Sigchld [(500, stop_status 5 128), (500, stop_status 5 4)]]],
      Ready [Socket_ready [Datagram (le_bytes 4 2) True]]]"

abbreviation booted :: "kernel \<Rightarrow> string list option \<Rightarrow> string \<Rightarrow> monitor" where
  "booted K lines tmp \<equiv> snd (prepare_environment K lines (AppMonitor True tmp))"

section \<open>From the code's start to the transition system\<close>

definition fresh :: "monitor \<Rightarrow> bool" where
  "fresh m \<longleftrightarrow>
     tracing_state m = TRACING \<and> traced m = {} \<and> stubs m = {} \<and>
     abi_state (zygote m) = Status \<and> abi_counter (zygote m) = StartCounter"

lemma booted_fresh: "fresh (booted K lines tmp)"
  by (simp add: prepare_environment_def fresh_def AppMonitor_def ZygoteAbiManager_def
      Let_def split: option.splits)

lemma booted_prop: "can_write K \<Longrightarrow> prop_current (booted K (Some ls) tmp)"
  by (simp add: prepare_environment_def Let_def)

text \<open>How a run ends: the set-up failed and the monitor exits, or the loop ran from an
  initial state of the transition system.\<close>

lemma run_cases:
  assumes "run K b rounds m0 = Inr m" "fresh m0"
  obtains (exited) m1 where "m = request_exit K m1" "fresh m1"
  | (looped) m1 where "mon_init m1" "steps (mon_step K) m1 m"
      "prop_current m0 \<Longrightarrow> prop_current m1"
proof -
  let ?t = "program_path (zygote m0)"
  obtain cs where k: "kill_stale_zygote_if_running K (proc_entries b) ?t
      (issue_ptrace PTRACE_SEIZE 1 PTRACE_O_TRACEFORK m0) =
      record_call cs (issue_ptrace PTRACE_SEIZE 1 PTRACE_O_TRACEFORK m0)"
    and c: "scan_calls K ?t (issue_ptrace PTRACE_SEIZE 1 PTRACE_O_TRACEFORK m0) cs"
    using kill_stale_scan by blast
  let ?m1 = "record_call (Ptrace PTRACE_SEIZE 1 PTRACE_O_TRACEFORK # cs) m0"
  have f: "fresh (record_call ds m0)" for ds using assms(2) by (simp add: fresh_def)
  have i: "mon_init (?m1\<lparr> running := True \<rparr>)"
    using assms(2) scan_effects(1) [OF c] by (simp add: mon_init_def fresh_def)
  have p: "prop_current m0 \<Longrightarrow> prop_current (?m1\<lparr> running := True \<rparr>)"
    using scan_effects(2) [OF c] by (simp add: prop_current_def)
  show thesis
    using assms exited [of m0] exited [of "record_call _ m0"] f k
      looped [OF i _ p] loop_rounds_steps [of K rounds "?m1\<lparr> running := True \<rparr>" m]
    by (auto simp: run_def SigChldHandler_Init_def EventLoop_Loop_def Let_def split: if_splits)
qed

lemma sample_run:
  "\<exists>m. run sample_kernel sample_boot sample_rounds (booted sample_kernel (Some []) ''/t'') = Inr m"
proof -
  have "\<not> isl (run sample_kernel sample_boot sample_rounds
                (booted sample_kernel (Some []) ''/t''))"
    by code_simp
  then show ?thesis by (cases "run sample_kernel sample_boot sample_rounds
                (booted sample_kernel (Some []) ''/t'')") simp_all
qed

section \<open>Properties\<close>

text \<open>
  whatever happens, a process the monitor is still identifying is never at the same
  time one of the parents it shields, and init is never either of them.
\<close>

theorem monitor_roles:
  assumes "run K b rounds (booted K lines tmp) = Inr m"
  shows "traced m \<inter> stubs m = {} \<and> 1 \<notin> traced m \<and> 1 \<notin> stubs m"
proof (rule run_cases [OF assms booted_fresh])
  fix m1 assume "m = request_exit K m1" "fresh m1"
  then show ?thesis by (simp add: fresh_def)
next
  fix m1 assume "mon_init m1" "steps (mon_step K) m1 m"
  then have "mon_reach K m" by (auto intro: reach_steps reach_init)
  then show ?thesis using roles.inv_reach by (simp add: roles_disjoint_def)
qed

lemma monitor_roles_witness:
  "\<exists>m. run sample_kernel sample_boot sample_rounds (booted sample_kernel (Some []) ''/t'') = Inr m \<and>
       traced m \<inter> stubs m = {} \<and> 1 \<notin> traced m \<and> 1 \<notin> stubs m"
  using sample_run monitor_roles [of sample_kernel sample_boot sample_rounds "Some []" "''/t''"]
  by blast



text \<open>
  as long as \<open>module.prop\<close> can be opened, it is current in every reachable state: what
  was last written is the text of the present state, although the handlers write it at
  different points and not after every change.
\<close>

theorem status_file_current:
  assumes "run K b rounds (booted K (Some ls) tmp) = Inr m" "can_write K"
  shows "last_written (hist m) = Some (module_prop m)"
proof (rule run_cases [OF assms(1) booted_fresh])
  fix m1 assume "m = request_exit K m1" "fresh m1"
  then show ?thesis using prop_current_requests(3) [OF assms(2)] by (simp add: prop_current_def)
next
  fix m1 assume "mon_init m1" "steps (mon_step K) m1 m"
    and "prop_current (booted K (Some ls) tmp) \<Longrightarrow> prop_current m1"
  then have "prop_current m"
    using prop_file.inv_steps [of K m1 m] booted_prop [OF assms(2)] assms(2) by blast
  then show ?thesis by (simp add: prop_current_def)
qed

lemma status_file_current_witness:
  "\<exists>m. run sample_kernel sample_boot sample_rounds (booted sample_kernel (Some []) ''/t'') = Inr m \<and>
       last_written (hist m) = Some (module_prop m)"
proof -
  have "can_write sample_kernel" by (simp add: can_write_def sample_kernel_def)
  with sample_run
    status_file_current [of sample_kernel sample_boot sample_rounds "[]" "''/t''"]
  show ?thesis by blast
qed

text \<open>
  a running daemon always has a pid, and an architecture with a daemon pid has been
  marked supported, so no exit of the daemon can go unrecognised.
\<close>

theorem daemon_known:
  assumes "run K b rounds (booted K lines tmp) = Inr m"
  shows "(daemon_running (zstat m) \<longrightarrow> daemon_pid (zstat m) \<noteq> - 1) \<and>
         (daemon_pid (zstat m) \<noteq> - 1 \<longrightarrow> supported (zstat m))"
proof (rule run_cases [OF assms booted_fresh])
  fix m1 assume "m = request_exit K m1" "fresh m1"
  then show ?thesis by (simp add: fresh_def Status_def)
next
  fix m1 assume "mon_init m1" "steps (mon_step K) m1 m"
  then have "mon_reach K m" by (auto intro: reach_steps reach_init)
  then show ?thesis
    using daemon.inv_reach by (simp add: daemon_consistent_def Let_def)
qed

lemma daemon_known_witness:
  "\<exists>m. run sample_kernel sample_boot sample_rounds (booted sample_kernel (Some []) ''/t'') = Inr m \<and>
       (daemon_running (zstat m) \<longrightarrow> daemon_pid (zstat m) \<noteq> - 1) \<and>
       (daemon_pid (zstat m) \<noteq> - 1 \<longrightarrow> supported (zstat m))"
  using sample_run daemon_known [of sample_kernel sample_boot sample_rounds "Some []" "''/t''"]
  by blast

section \<open>No stop is forgotten\<close>

text \<open>Whether, at the end of a history, a process has not been resumed or let go since the
  monitor last waited for it (\<open>waitpid(-1)\<close> may have reported it).\<close>

fun stop_effect :: "int \<Rightarrow> bool \<Rightarrow> call \<Rightarrow> bool" where
  "stop_effect pid b (Ptrace PTRACE_CONT p d) = (p \<noteq> pid \<and> b)"
| "stop_effect pid b (Ptrace PTRACE_DETACH p d) = (p \<noteq> pid \<and> b)"
| "stop_effect pid b (Waitpid p) = (p = - 1 \<or> p = pid \<or> b)"
| "stop_effect pid b _ = b"

definition held :: "int \<Rightarrow> call list \<Rightarrow> bool" where
  "held pid h = foldl (stop_effect pid) True h"

lemma held_append [simp]: "held pid (h @ cs) = foldl (stop_effect pid) (held pid h) cs"
  by (simp add: held_def)

lemma held_update_status [simp]: "held pid (hist (update_status K m)) = held pid (hist m)"
  by (simp add: update_status_def)

lemma held_request_stop [simp]: "held pid (hist (request_stop K r m)) = held pid (hist m)"
  by (simp add: request_stop_def)

lemma held_prepare [simp]:
  "held pid (hist (snd (check_and_prepare_injection K m))) = held pid (hist m)"
  by (simp add: check_and_prepare_injection_def daemon_check_def ensure_daemon_created_def
      split_beta Let_def)

lemma held_resume_parent:
  "WIFSTOPPED st \<Longrightarrow> \<not> held pid (hist (resume_parent pid st m))"
  by (simp add: resume_parent_def Let_def)

lemma parent_not_held: "WIFSTOPPED st \<Longrightarrow> \<not> held pid (hist (handleParentEvent pid st m))"
  by (simp add: handleParentEvent_def held_resume_parent WIF_exclusive)

lemma hand_over_held:
  assumes "\<forall>h. k_fork K h \<noteq> pid" "fst (hand_over K t pid st m)"
  shows "\<not> held pid (hist (snd (snd (hand_over K t pid st m))))"
  using assms
  by (auto simp: hand_over_def spawn_injector_def fork_dont_care_def split_beta Let_def
      split: if_splits)

lemma hand_over_status:
  "\<forall>h. WIFSTOPPED (snd (k_waitpid K h pid)) \<Longrightarrow> WIFSTOPPED st \<Longrightarrow>
     WIFSTOPPED (fst (snd (hand_over K t pid st m)))"
  by (simp add: hand_over_def split_beta Let_def)

lemma exec_target_held:
  assumes "\<forall>h. k_fork K h \<noteq> pid" "fst (exec_target K p pid st m)"
  shows "\<not> held pid (hist (snd (snd (exec_target K p pid st m))))"
proof -
  obtain r m1 where c: "check_and_prepare_injection K m = (r, m1)" by fastforce
  with assms hand_over_held [OF assms(1), of _ st m1] show ?thesis
    by (auto simp: exec_target_def split: option.splits if_splits)
qed

lemma exec_target_status:
  "\<forall>h. WIFSTOPPED (snd (k_waitpid K h pid)) \<Longrightarrow> WIFSTOPPED st \<Longrightarrow>
     WIFSTOPPED (fst (snd (exec_target K p pid st m)))"
  by (auto simp: exec_target_def hand_over_status split: prod.splits option.splits)

lemma candidate_not_held:
  assumes "\<forall>h. k_fork K h \<noteq> pid" "\<forall>h. WIFSTOPPED (snd (k_waitpid K h pid))" "WIFSTOPPED st"
  shows "\<not> held pid (hist (snd (handleTracedProcess K pid st m)))"
  using assms exec_target_held [OF assms(1)] exec_target_status [OF assms(2,3)]
  by (auto simp: handleTracedProcess_def handleExecEvent_def route_candidate_def split_beta Let_def)

text \<open>
  C1: no process is left stopped by mistake.  After the monitor has dealt with a stop of
  any process but its own daemon, the last thing it did to that process since waiting for
  it was to resume it or to let it go, provided the process does not die in the
  hand-over's own wait and \<open>fork\<close> does not return the pid of a live process.
\<close>

theorem no_stop_forgotten:
  assumes "WIFSTOPPED st" "\<not> (supported (zstat m) \<and> pid = daemon_pid (zstat m))"
    and "\<forall>h. k_fork K h \<noteq> pid" "\<forall>h. WIFSTOPPED (snd (k_waitpid K h pid))"
  shows "\<not> held pid (hist (reap K (pid, st) m))"
  using assms candidate_not_held [OF assms(3,4,1)] parent_not_held [OF assms(1)]
  by (auto simp: reap_def handleChildEvent_def handle_daemon_exit_if_match_def
      handleNewProcess_def Let_def)

lemma no_stop_forgotten_witness:
  "\<not> held 500 (hist (reap sample_kernel (500, stop_status 5 4) (AppMonitor True ''/t'')))"
proof (rule no_stop_forgotten)
  show "WIFSTOPPED (stop_status 5 4)" by code_simp
  show "\<not> (supported (zstat (AppMonitor True ''/t'')) \<and>
           500 = daemon_pid (zstat (AppMonitor True ''/t'')))" by code_simp
  show "\<forall>h. k_fork sample_kernel h \<noteq> 500" by (simp add: sample_kernel_def)
  have "WIFSTOPPED (stop_status 19 0)" by code_simp
  then show "\<forall>h. WIFSTOPPED (snd (k_waitpid sample_kernel h 500))"
    by (simp add: sample_kernel_def)
qed

text \<open>
  C28: the parent shield.  A stopped parent is resumed at once, with a signal only when
  that very signal stopped it, never a job-control signal, and never a SIGCHLD for a stub;
  the one exception is init during a requested stop, which is detached.
\<close>

theorem parent_shield:
  assumes "WIFSTOPPED st"
  shows "(\<exists>pre sig. hist (handleParentEvent pid st m) =
              hist m @ pre @ [Ptrace PTRACE_CONT pid sig] \<and>
            pre \<in> {[], [Ptrace PTRACE_GETEVENTMSG pid 0]} \<and>
            (sig = 0 \<or> WPTEVENT st = 0 \<and> sig = WSTOPSIG st \<and> \<not> job_control sig \<and>
                       (pid = 1 \<or> sig \<noteq> SIGCHLD))) \<or>
         (pid = 1 \<and> tracing_state m = STOPPING \<and>
          tracing_state (handleParentEvent pid st m) = STOPPED \<and>
          hist (handleParentEvent pid st m) = hist m @ [Ptrace PTRACE_DETACH 1 0])"
  using assms
  by (auto simp: handleParentEvent_def resume_parent_def WIF_exclusive Let_def split: if_splits)

lemma parent_shield_witness:
  "(\<exists>pre sig. hist (handleParentEvent 1 (stop_status 19 0) (AppMonitor True ''/t'')) =
              hist (AppMonitor True ''/t'') @ pre @ [Ptrace PTRACE_CONT 1 sig] \<and>
            pre \<in> {[], [Ptrace PTRACE_GETEVENTMSG 1 0]} \<and>
            (sig = 0 \<or> WPTEVENT (stop_status 19 0) = 0 \<and> sig = WSTOPSIG (stop_status 19 0) \<and>
               \<not> job_control sig \<and> ((1::int) = 1 \<or> sig \<noteq> SIGCHLD))) \<or>
         ((1::int) = 1 \<and> tracing_state (AppMonitor True ''/t'') = STOPPING \<and>
          tracing_state (handleParentEvent 1 (stop_status 19 0) (AppMonitor True ''/t'')) = STOPPED \<and>
          hist (handleParentEvent 1 (stop_status 19 0) (AppMonitor True ''/t'')) =
            hist (AppMonitor True ''/t'') @ [Ptrace PTRACE_DETACH 1 0])"
proof (rule parent_shield)
  show "WIFSTOPPED (stop_status 19 0)" by code_simp
qed

section \<open>Injection\<close>

text \<open>
  C18: the injection gate.  The injector is prepared exactly when the crash-loop check
  passes and a daemon is there: one that runs, or a new one that could be forked, which
  happens only if none is known.  Otherwise tracing is told to stop.
\<close>

theorem injection_gate:
  shows "(fst (check_and_prepare_injection K m) = Some (tracer_path (zygote m))) =
           (\<not> fst (is_in_crash_loop (k_clock_sec K (hist m), k_clock_nsec K (hist m)) (zygote m)) \<and>
            (if daemon_pid (zstat m) = - 1 then 0 \<le> k_fork K (hist m @ [Clock_gettime])
             else daemon_running (zstat m))) \<and>
         tracing_state (snd (check_and_prepare_injection K m)) =
           (if fst (check_and_prepare_injection K m) = None \<and> tracing_state m = TRACING
            then STOPPING else tracing_state m) \<and>
         count_list (hist (snd (check_and_prepare_injection K m))) Fork =
           count_list (hist m) Fork +
           (if daemon_pid (zstat m) = - 1 \<and>
               \<not> fst (is_in_crash_loop (k_clock_sec K (hist m), k_clock_nsec K (hist m)) (zygote m))
            then 1 else 0)"
proof -
  let ?now = "(k_clock_sec K (hist m), k_clock_nsec K (hist m))"
  let ?L = "fst (is_in_crash_loop ?now (zygote m))"
  let ?m1 = "snd (crash_loop_check K m)"
  have u: "count_list (hist (update_status K x)) Fork = count_list (hist x) Fork" for x
    by (simp add: update_status_def)
  have s: "count_list (hist (request_stop K r x)) Fork = count_list (hist x) Fork" for r x
    by (simp add: request_stop_def u)
  have l: "fst (crash_loop_check K m) = ?L"
    by (simp add: crash_loop_check_def Let_def split_beta)
  have d: "fst (daemon_check K ?m1) =
      (if daemon_pid (zstat m) = - 1 then 0 \<le> k_fork K (hist m @ [Clock_gettime])
       else daemon_running (zstat m))"
    by (auto simp: daemon_check_def ensure_daemon_created_def split_beta Let_def)
  have f: "count_list (hist (snd (daemon_check K ?m1))) Fork =
      count_list (hist m) Fork + (if daemon_pid (zstat m) = - 1 then 1 else 0)"
    by (simp add: daemon_check_def ensure_daemon_created_def split_beta Let_def)
  show ?thesis
    unfolding check_and_prepare_injection_def split_beta Let_def l
    using d f by (auto simp: s)
qed

text \<open>
  the hand-over.  A candidate that executes the zygote's program while tracing is on,
  with the injector prepared, is stopped, resumed into the stop, waited for, detached
  still stopped, and only then is the injector forked: through a child that exits at
  once, with the target's pid and \<open>--restart\<close>.
\<close>

lemma program_not_stub: "\<not> str_contains (program_path (ZygoteAbiManager b)) ''stub_zygote''"
proof -
  have "\<not> str_contains (program_path (ZygoteAbiManager True)) ''stub_zygote''"
    "\<not> str_contains (program_path (ZygoteAbiManager False)) ''stub_zygote''" by code_simp+
  then show ?thesis by (cases b) (simp_all only: simp_thms)
qed



text \<open>
  a candidate that was handed over is not forgotten: the hand-over replaces the status
  by that of its own wait, so the test for an \<open>execve\<close> stop that guards the removal from
  the candidates fails.
\<close>

theorem handed_over_stays_candidate:
  assumes "stopped_with st SIGTRAP PTRACE_EVENT_EXEC" "pid \<in> traced m"
    and "fst (handleExecEvent K pid st m)"
    and "stopped_with (fst (snd (handleExecEvent K pid st m))) SIGSTOP 0"
  shows "pid \<in> traced (snd (handleTracedProcess K pid st m))"
proof -
  have "\<not> stopped_with w SIGTRAP PTRACE_EVENT_EXEC" if "stopped_with w SIGSTOP 0" for w
    using that by (simp add: stopped_with_def)
  with assms show ?thesis
    by (auto simp: handleTracedProcess_def route_candidate_def split_beta Let_def)
qed

definition sample_candidate :: monitor where
  "sample_candidate = (AppMonitor True ''/t'')\<lparr> traced := {500} \<rparr>"

lemma handed_over_stays_candidate_witness:
  "500 \<in> traced (snd (handleTracedProcess sample_kernel 500 (stop_status 5 4) sample_candidate))"
proof (rule handed_over_stays_candidate)
  show "stopped_with (stop_status 5 4) 5 4" by code_simp
  show "500 \<in> traced sample_candidate" by (simp add: sample_candidate_def)
  show "fst (handleExecEvent sample_kernel 500 (stop_status 5 4) sample_candidate)" by code_simp
  show "stopped_with (fst (snd (handleExecEvent sample_kernel 500 (stop_status 5 4)
          sample_candidate))) 19 0" by code_simp
qed

section \<open>Crash loops\<close>



text \<open>
  but a zygote that crashes after each successful injection is never reported as a
  crash loop, however often and fast it does: every reported injection clears the counter.
\<close>

theorem injected_crash_loop_unseen:
  "True \<notin> set (fst (injected_generations ts (ZygoteAbiManager b)))"
  by (rule injected_generations_all)
    (simp add: ZygoteAbiManager_def StartCounter_def)

section \<open>The control socket\<close>

text \<open>
  C12: the socket handler implements the datagram format.  Whatever the datagram, and
  whatever header earlier ones left in the buffer, the handler does exactly what the
  parsed message says, and a malformed datagram changes nothing but the buffer.
\<close>

theorem socket_refines_format:
  "map_sum id no_buf (socket_datagram K d True m) =
     apply_message K (parse_message d) (record_call [Recv, Recv] (no_buf m))"
  by (rule socket_datagram_refines)

text \<open>
  a status message from the daemon whose length field is negative kills the monitor,
  from any state: the exception of the string assignment, or of the resize, is not caught.
\<close>

theorem negative_length_aborts:
  assumes "8 \<le> length d" "msg_cmd d = 5 \<or> msg_cmd d = 6" "msg_length d < 0"
  shows "socket_datagram K d True m = Inl Uncaught_exception"
proof -
  define m1 where "m1 = record_call [Recv] (m\<lparr> buf := take 8 d \<rparr>)"
  have p: "parse_message d = Negative" using assms by (auto simp: parse_message_def)
  have h: "overlay (take 8 d) (buf_resize 8 (buf m)) = take 8 d"
    using assms(1) by (simp add: overlay_full)
  have c: "msg_cmd (take 8 d) = msg_cmd d" "msg_length (take 8 d) = msg_length d"
    by (simp_all add: msg_cmd_prefix msg_length_take)
  have "socket_datagram K d True m =
      receive_message K d True (take 8 d) (8 + msg_length d) m1"
    using assms(1,2) by (auto simp: socket_datagram_def Let_def h c simp flip: m1_def)
  moreover have "map_sum id no_buf
      (receive_message K d True (take 8 d) (8 + msg_length d) m1) = Inl Uncaught_exception"
    using receive_data [of d K m1] assms p by auto
  ultimately show ?thesis
    by (cases "receive_message K d True (take 8 d) (8 + msg_length d) m1") auto
qed

lemma negative_length_aborts_witness:
  "socket_datagram sample_kernel [5, 0, 0, 0, 255, 255, 255, 255] True (AppMonitor True ''/t'') =
     Inl Uncaught_exception"
proof (rule negative_length_aborts)
  show "msg_cmd [5, 0, 0, 0, 255, 255, 255, 255] = 5 \<or>
        msg_cmd [5, 0, 0, 0, 255, 255, 255, 255] = 6" by (simp add: msg_cmd_def)
  show "msg_length [5, 0, 0, 0, 255, 255, 255, 255] < 0"
    by (simp add: msg_length_def to_int32_def)
qed simp

text \<open>
  \<open>ctl start|stop|exit\<close> reaches the monitor: the one datagram the tool sends is
  exactly the message that makes the handler start, stop or exit tracing, whatever the
  state of its buffer.
\<close>

theorem ctl_reaches_monitor:
  assumes "(action, f) \<in> {(''start'', request_start K), (''stop'', request_stop K ''user requested''),
                          (''exit'', request_exit K)}"
  shows "\<exists>d. cli_main [tool, ''ctl'', action] ok = (0, [Sent d]) \<and>
             map_sum id no_buf (socket_datagram K d True m) =
               Inr (f (record_call [Recv, Recv] (no_buf m)))"
  using assms
  by (auto simp: cli_main_def handle_ctl_def send_control_command_def socket_datagram_refines
      control_message simp del: command_value.simps)

lemma ctl_reaches_monitor_witness:
  "\<exists>d. cli_main [''z'', ''ctl'', ''stop''] True = (0, [Sent d]) \<and>
       map_sum id no_buf (socket_datagram sample_kernel d True (AppMonitor True ''/t'')) =
         Inr (request_stop sample_kernel ''user requested''
                (record_call [Recv, Recv] (no_buf (AppMonitor True ''/t''))))"
  by (rule ctl_reaches_monitor) simp

text \<open>
  the scan for a zygote that predates the monitor kills at most one process, as its
  last action, and only one whose \<open>/proc/<pid>/exe\<close> it has just read to be the zygote's
  program; otherwise it only reads links.
\<close>

theorem stale_zygote_kill:
  "\<exists>cs. hist (kill_stale_zygote_if_running K entries target m) = hist m @ cs \<and>
     (set cs \<subseteq> range Readlink \<or>
      (\<exists>ds p link. cs = ds @ [Readlink (exe_path p), Kill p SIGKILL] \<and>
         set ds \<subseteq> range Readlink \<and>
         k_readlink K (hist m @ ds) (exe_path p) = Some link \<and>
         takeWhile (\<lambda>c. c \<noteq> nul) (take 255 link) = target))"
proof -
  obtain cs where k: "kill_stale_zygote_if_running K entries target m = record_call cs m"
    and c: "scan_calls K target m cs" using kill_stale_scan by blast
  have r: "set ds \<subseteq> range Readlink" if "reads_only ds" for ds
    using that by (auto simp: reads_only_def)
  from c show ?thesis
    unfolding scan_calls_def
  proof (elim disjE exE conjE)
    assume "reads_only cs"
    then have "set cs \<subseteq> range Readlink" by (rule r)
    then show ?thesis by (intro exI [of _ cs]) (simp add: k)
  next
    fix ds p
    assume cs: "cs = ds @ [Readlink (exe_path p), Kill p SIGKILL]" and ro: "reads_only ds"
      and mt: "proc_exe_matches K p target (record_call ds m)"
    from mt obtain link where "k_readlink K (hist m @ ds) (exe_path p) = Some link"
      "takeWhile (\<lambda>c. c \<noteq> nul) (take 255 link) = target"
      by (auto simp: proc_exe_matches_def split: option.splits)
    with cs r [OF ro] have "\<exists>ds p link. cs = ds @ [Readlink (exe_path p), Kill p SIGKILL] \<and>
         set ds \<subseteq> range Readlink \<and>
         k_readlink K (hist m @ ds) (exe_path p) = Some link \<and>
         takeWhile (\<lambda>c. c \<noteq> nul) (take 255 link) = target" by blast
    moreover have "hist (kill_stale_zygote_if_running K entries target m) = hist m @ cs"
      by (simp add: k)
    ultimately show ?thesis by blast
  qed
qed

text \<open>
  the stop protocol completes.  When a requested stop is followed by init's own
  ptrace stop, init is detached and the state is STOPPED; a start request that comes
  first cancels the stop, and the same ptrace stop then only resumes init.
\<close>

theorem stop_protocol:
  assumes "tracing_state m = TRACING"
  shows "tracing_state (reap K (1, stop_status 5 128) (request_stop K r m)) = STOPPED \<and>
         last (hist (reap K (1, stop_status 5 128) (request_stop K r m))) =
           Ptrace PTRACE_DETACH 1 0 \<and>
         tracing_state (reap K (1, stop_status 5 128) (request_start K (request_stop K r m))) =
           TRACING \<and>
         last (hist (reap K (1, stop_status 5 128) (request_start K (request_stop K r m)))) =
           Ptrace PTRACE_CONT 1 0"
proof -
  have s: "stopped_with (stop_status 5 128) 5 128" "\<not> stopped_with (stop_status 5 128) 5 1"
    "WIFSTOPPED (stop_status 5 128)" "WPTEVENT (stop_status 5 128) \<noteq> 0" by code_simp+
  show ?thesis
    using assms s
    by (simp add: reap_def handleChildEvent_def handleParentEvent_def resume_parent_def Let_def)
qed

lemma stop_protocol_witness:
  "tracing_state (reap sample_kernel (1, stop_status 5 128)
     (request_stop sample_kernel ''user requested'' (AppMonitor True ''/t''))) = STOPPED"
  by (rule stop_protocol [THEN conjunct1]) code_simp

text \<open>
  EXITING is final: no datagram and no process event leads out of it.
\<close>

theorem exiting_final:
  assumes "steps (mon_step K) m m'" "tracing_state m = EXITING" "\<not> running m" "roles_disjoint m"
  shows "tracing_state m' = EXITING \<and> \<not> running m'"
  using exiting.inv_steps [OF assms(1)] assms(2-4) by simp

lemma exiting_final_witness:
  "tracing_state (reap sample_kernel (1, stop_status 5 128)
     (request_exit sample_kernel (AppMonitor True ''/t''))) = EXITING"
proof -
  have "steps (mon_step sample_kernel) (request_exit sample_kernel (AppMonitor True ''/t''))
      (reap sample_kernel (1, stop_status 5 128) (request_exit sample_kernel (AppMonitor True ''/t'')))"
    by (rule one_step)
  from exiting_final [OF this] show ?thesis
    by (simp add: roles_disjoint_def AppMonitor_def)
qed

end
