(* ===== verification/Elf_Image.thy ===== *)
theory Elf_Image
  imports Prelude
begin

text \<open>
  \<open>ElfParser::ElfImage\<close> (\<open>common/elf_parser.cpp\<close>, \<open>include/elf_parser.hpp\<close>): the parsing
  of a mapped 64-bit ELF file and the three symbol lookups.  The mapping is the list
  \<open>img\<close> of its bytes; a pointer into it is an offset, a null pointer \<open>None\<close>.  The parser
  trusts the file: a read outside the mapping is \<open>Bad_read\<close>, a division by a zero taken
  from the file \<open>Div_by_zero\<close>, and both end the process.
\<close>

section \<open>Reading the mapping\<close>

type_synonym bytes = "u8 list"

definition rd :: "nat \<Rightarrow> bytes \<Rightarrow> nat \<Rightarrow> nat res" where
  "rd n img off = (case read_at n img off of None \<Rightarrow> Inl Bad_read | Some v \<Rightarrow> Inr v)"

definition ptr :: "nat option \<Rightarrow> nat res" where
  "ptr p = (case p of None \<Rightarrow> Inl Null_deref | Some a \<Rightarrow> Inr a)"

text \<open>A C string as \<open>std::string_view\<close> measures it, and \<open>strcmp\<close> against a literal.\<close>

function cstr_at :: "bytes \<Rightarrow> nat \<Rightarrow> bytes res" where
  "cstr_at img off =
     (if off < length img then
        (if img ! off = 0 then Inr []
         else bind_res (cstr_at img (Suc off)) (\<lambda>s. Inr (img ! off # s)))
      else Inl Bad_read)"
  by pat_completeness auto
termination by (relation "measure (\<lambda>(img, off). length img - off)") auto

declare cstr_at.simps [simp del]

fun cstr_eq :: "bytes \<Rightarrow> nat \<Rightarrow> bytes \<Rightarrow> bool res" where
  "cstr_eq img off [] = bind_res (rd 1 img off) (\<lambda>b. Inr (b = 0))"
| "cstr_eq img off (c # cs) =
     bind_res (rd 1 img off)
       (\<lambda>b. if b \<noteq> unat c then Inr False else cstr_eq img (Suc off) cs)"

definition ascii :: "string \<Rightarrow> bytes" where
  "ascii s = map (\<lambda>c. of_nat (of_char c)) s"

section \<open>The structures of the file\<close>

definition e_phoff :: "bytes \<Rightarrow> nat res" where "e_phoff img = rd 8 img 32"
definition e_shoff :: "bytes \<Rightarrow> nat res" where "e_shoff img = rd 8 img 40"
definition e_phnum :: "bytes \<Rightarrow> nat res" where "e_phnum img = rd 2 img 56"
definition e_shnum :: "bytes \<Rightarrow> nat res" where "e_shnum img = rd 2 img 60"
definition e_shstrndx :: "bytes \<Rightarrow> nat res" where "e_shstrndx img = rd 2 img 62"

abbreviation (input) PHDR_SIZE :: nat where "PHDR_SIZE \<equiv> 56"
abbreviation (input) SHDR_SIZE :: nat where "SHDR_SIZE \<equiv> 64"
abbreviation (input) SYM_SIZE :: nat where "SYM_SIZE \<equiv> 24"

definition p_type :: "bytes \<Rightarrow> nat \<Rightarrow> nat res" where "p_type img ph = rd 4 img ph"
definition p_offset :: "bytes \<Rightarrow> nat \<Rightarrow> nat res" where "p_offset img ph = rd 8 img (ph + 8)"
definition p_vaddr :: "bytes \<Rightarrow> nat \<Rightarrow> nat res" where "p_vaddr img ph = rd 8 img (ph + 16)"

definition sh_name :: "bytes \<Rightarrow> nat \<Rightarrow> nat res" where "sh_name img sh = rd 4 img sh"
definition sh_type :: "bytes \<Rightarrow> nat \<Rightarrow> nat res" where "sh_type img sh = rd 4 img (sh + 4)"
definition sh_offset :: "bytes \<Rightarrow> nat \<Rightarrow> nat res" where "sh_offset img sh = rd 8 img (sh + 24)"
definition sh_size :: "bytes \<Rightarrow> nat \<Rightarrow> nat res" where "sh_size img sh = rd 8 img (sh + 32)"
definition sh_entsize :: "bytes \<Rightarrow> nat \<Rightarrow> nat res" where "sh_entsize img sh = rd 8 img (sh + 56)"

definition st_name :: "bytes \<Rightarrow> nat \<Rightarrow> nat res" where "st_name img sy = rd 4 img sy"
definition st_info :: "bytes \<Rightarrow> nat \<Rightarrow> nat res" where "st_info img sy = rd 1 img (sy + 4)"
definition st_value :: "bytes \<Rightarrow> nat \<Rightarrow> nat res" where "st_value img sy = rd 8 img (sy + 8)"
definition st_size :: "bytes \<Rightarrow> nat \<Rightarrow> nat res" where "st_size img sy = rd 8 img (sy + 16)"

section \<open>State\<close>

record elf_image =
  library_path :: string
  base_address :: u64
  header :: bool
  bias :: u64
  dynsym :: "nat option"
  dynstr :: "nat option"
  symtab :: "nat option"
  strtab :: "nat option"
  symtab_count :: nat
  sysv_nbucket :: u32
  sysv_bucket :: "nat option"
  sysv_chain :: "nat option"
  gnu_nbucket :: u32
  gnu_symindx :: u32
  gnu_bloom_size :: u32
  gnu_shift2 :: u32
  gnu_bloom_filter :: "nat option"
  gnu_bucket :: "nat option"
  gnu_chain :: "nat option"
  symbol_cache :: "(bytes \<times> nat) list"

definition empty_image :: elf_image where
  "empty_image =
     \<lparr> library_path = [], base_address = 0, header = False, bias = - 1,
       dynsym = None, dynstr = None, symtab = None, strtab = None, symtab_count = 0,
       sysv_nbucket = 0, sysv_bucket = None, sysv_chain = None,
       gnu_nbucket = 0, gnu_symindx = 0, gnu_bloom_size = 0, gnu_shift2 = 0,
       gnu_bloom_filter = None, gnu_bucket = None, gnu_chain = None, symbol_cache = [] \<rparr>"

definition isValid :: "elf_image \<Rightarrow> bool" where
  "isValid e \<longleftrightarrow> base_address e \<noteq> 0 \<and> header e"

section \<open>Construction\<close>

text \<open>The objects \<open>dl_iterate_phdr\<close> visits, in order: the name, if any, and the load address.\<close>

fun findLoadedLibraryInfo ::
  "string \<Rightarrow> (string option \<times> u64) list \<Rightarrow> elf_image \<Rightarrow> bool \<times> elf_image" where
  "findLoadedLibraryInfo lib [] e = (False, e)"
| "findLoadedLibraryInfo lib ((nm, addr) # os) e =
     (case nm of
        Some n \<Rightarrow> if str_contains n lib then (True, e\<lparr> library_path := n, base_address := addr \<rparr>)
                  else findLoadedLibraryInfo lib os e
      | None \<Rightarrow> findLoadedLibraryInfo lib os e)"

abbreviation (input) PT_LOAD :: nat where "PT_LOAD \<equiv> 1"
abbreviation (input) SHT_SYMTAB :: nat where "SHT_SYMTAB \<equiv> 2"
abbreviation (input) SHT_STRTAB :: nat where "SHT_STRTAB \<equiv> 3"
abbreviation (input) SHT_HASH :: nat where "SHT_HASH \<equiv> 5"
abbreviation (input) SHT_DYNSYM :: nat where "SHT_DYNSYM \<equiv> 11"
abbreviation (input) SHT_GNU_HASH :: nat where "SHT_GNU_HASH \<equiv> 1879048182"

text \<open>The bias comes from the first loadable segment; without one it keeps its value.\<close>

fun find_bias :: "bytes \<Rightarrow> nat \<Rightarrow> nat \<Rightarrow> elf_image \<Rightarrow> elf_image res" where
  "find_bias img ph 0 e = Inr e"
| "find_bias img ph (Suc n) e =
     bind_res (p_type img ph) (\<lambda>t.
       if t = PT_LOAD then
         bind_res (p_vaddr img ph) (\<lambda>v. bind_res (p_offset img ph) (\<lambda>off.
           Inr (e\<lparr> bias := of_nat v - of_nat off \<rparr>)))
       else find_bias img (ph + PHDR_SIZE) n e)"

definition scan_section :: "bytes \<Rightarrow> nat \<Rightarrow> nat \<Rightarrow> elf_image \<Rightarrow> elf_image res" where
  "scan_section img shstrtab sh e =
     bind_res (sh_type img sh) (\<lambda>t.
       if t = SHT_DYNSYM then
         bind_res (sh_offset img sh) (\<lambda>off. Inr (e\<lparr> dynsym := Some off \<rparr>))
       else if t = SHT_SYMTAB then
         bind_res (sh_offset img sh) (\<lambda>off. bind_res (sh_size img sh) (\<lambda>size.
           bind_res (sh_entsize img sh) (\<lambda>ent.
             if ent = 0 then Inl Div_by_zero
             else Inr (e\<lparr> symtab := Some off, symtab_count := size div ent \<rparr>))))
       else if t = SHT_STRTAB then
         bind_res (sh_name img sh) (\<lambda>nm.
           bind_res (cstr_eq img (shstrtab + nm) (ascii ''.strtab'')) (\<lambda>is_strtab.
             if is_strtab then
               bind_res (sh_offset img sh) (\<lambda>off. Inr (e\<lparr> strtab := Some off \<rparr>))
             else bind_res (cstr_eq img (shstrtab + nm) (ascii ''.dynstr'')) (\<lambda>is_dynstr.
               if is_dynstr then
                 bind_res (sh_offset img sh) (\<lambda>off. Inr (e\<lparr> dynstr := Some off \<rparr>))
               else Inr e)))
       else if t = SHT_HASH then
         bind_res (sh_offset img sh) (\<lambda>off. bind_res (rd 4 img off) (\<lambda>nb.
           Inr (e\<lparr> sysv_nbucket := of_nat nb, sysv_bucket := Some (off + 8),
                   sysv_chain := Some (off + 8 + 4 * nb) \<rparr>)))
       else if t = SHT_GNU_HASH then
         bind_res (sh_offset img sh) (\<lambda>off. bind_res (rd 4 img off) (\<lambda>nb.
           bind_res (rd 4 img (off + 4)) (\<lambda>symindx. bind_res (rd 4 img (off + 8)) (\<lambda>bloom.
             bind_res (rd 4 img (off + 12)) (\<lambda>shift.
               Inr (e\<lparr> gnu_nbucket := of_nat nb, gnu_symindx := of_nat symindx,
                       gnu_bloom_size := of_nat bloom, gnu_shift2 := of_nat shift,
                       gnu_bloom_filter := Some (off + 16),
                       gnu_bucket := Some (off + 16 + 8 * bloom),
                       gnu_chain := Some (off + 16 + 8 * bloom + 4 * nb) \<rparr>))))))
       else Inr e)"

fun scan_sections :: "bytes \<Rightarrow> nat \<Rightarrow> nat \<Rightarrow> nat \<Rightarrow> elf_image \<Rightarrow> elf_image res" where
  "scan_sections img shstrtab sh 0 e = Inr e"
| "scan_sections img shstrtab sh (Suc n) e =
     bind_res (scan_section img shstrtab sh e) (scan_sections img shstrtab (sh + SHDR_SIZE) n)"

text \<open>The constructor; \<open>mapped\<close> is the mapping, \<open>None\<close> when \<open>open\<close>, \<open>fstat\<close> or \<open>mmap\<close> fails.\<close>

definition ElfImage :: "string \<Rightarrow> (string option \<times> u64) list \<Rightarrow> bytes option \<Rightarrow> elf_image res" where
  "ElfImage lib objects mapped =
     (let (found, e) = findLoadedLibraryInfo lib objects empty_image in
      if \<not> found then Inr e
      else case mapped of
        None \<Rightarrow> Inr e
      | Some img \<Rightarrow>
          bind_res (e_phoff img) (\<lambda>phoff. bind_res (e_phnum img) (\<lambda>phnum.
          bind_res (find_bias img phoff phnum (e\<lparr> header := True \<rparr>)) (\<lambda>e1.
          bind_res (e_shoff img) (\<lambda>shoff. bind_res (e_shstrndx img) (\<lambda>ndx.
          bind_res (sh_offset img (shoff + SHDR_SIZE * ndx)) (\<lambda>shstrtab.
          bind_res (e_shnum img) (\<lambda>shnum.
            scan_sections img shstrtab shoff shnum e1))))))))"

section \<open>Hashes\<close>

definition sysv_step :: "u32 \<Rightarrow> u8 \<Rightarrow> u32" where
  "sysv_step h c =
     (let h1 = push_bit 4 h + ucast c;
          g = h1 AND 0xf0000000;
          h2 = (if g \<noteq> 0 then h1 XOR drop_bit 24 g else h1)
      in h2 AND NOT g)"

definition calculateSysvHash :: "bytes \<Rightarrow> u32" where
  "calculateSysvHash name = foldl sysv_step 0 name"

definition calculateGnuHash :: "bytes \<Rightarrow> u32" where
  "calculateGnuHash name = foldl (\<lambda>h c. push_bit 5 h + h + ucast c) 5381 name"

section \<open>Lookups\<close>

text \<open>The name and the value of entry \<open>i\<close> of a symbol table.\<close>

definition sym_name :: "bytes \<Rightarrow> nat option \<Rightarrow> nat option \<Rightarrow> nat \<Rightarrow> bytes res" where
  "sym_name img tab str i =
     bind_res (ptr tab) (\<lambda>t. bind_res (st_name img (t + SYM_SIZE * i)) (\<lambda>nm.
       bind_res (ptr str) (\<lambda>s. cstr_at img (s + nm))))"

definition sym_value :: "bytes \<Rightarrow> nat option \<Rightarrow> nat \<Rightarrow> nat res" where
  "sym_value img tab i = bind_res (ptr tab) (\<lambda>t. st_value img (t + SYM_SIZE * i))"

text \<open>
  The chain of the GNU hash table, from the chain entry at \<open>chain\<close> and the symbol \<open>i\<close>.
  The index is a \<open>uint32_t\<close>; the walk ends at the mark, at a hit, or outside the mapping.
\<close>

function gnu_walk :: "bytes \<Rightarrow> elf_image \<Rightarrow> bytes \<Rightarrow> u32 \<Rightarrow> nat \<Rightarrow> u32 \<Rightarrow> nat res" where
  "gnu_walk img e nm h chain i =
     bind_res (rd 4 img chain) (\<lambda>c.
       let next = (\<lambda>_::unit. if even c then gnu_walk img e nm h (chain + 4) (i + 1) else Inr 0) in
       if drop_bit 1 (of_nat c XOR h) = 0 then
         bind_res (sym_name img (dynsym e) (dynstr e) (unat i)) (\<lambda>n.
           if n = nm then sym_value img (dynsym e) (unat i) else next ())
       else next ())"
  by pat_completeness auto
termination
  by (relation "measure (\<lambda>(img, e, nm, h, chain, i). length img - chain)")
    (auto simp: rd_def read_at_def split: option.splits if_splits)

declare gnu_walk.simps [simp del]

definition findSymbolByGnuHash :: "bytes \<Rightarrow> elf_image \<Rightarrow> bytes \<Rightarrow> u32 \<Rightarrow> nat res" where
  "findSymbolByGnuHash img e nm h =
     (case gnu_bloom_filter e of
        None \<Rightarrow> Inr 0
      | Some bloom \<Rightarrow>
          if gnu_bloom_size e = 0 then Inl Div_by_zero
          else
            bind_res (rd 8 img (bloom + 8 * unat (h div 64 mod gnu_bloom_size e))) (\<lambda>word.
              let mask = push_bit (unat (h mod 64)) (1 :: u64) OR
                         push_bit (unat (drop_bit (unat (gnu_shift2 e)) h mod 64)) 1 in
              if of_nat word AND mask \<noteq> mask then Inr 0
              else if gnu_nbucket e = 0 then Inl Div_by_zero
              else
                bind_res (ptr (gnu_bucket e)) (\<lambda>b.
                bind_res (rd 4 img (b + 4 * unat (h mod gnu_nbucket e))) (\<lambda>i.
                  if (of_nat i :: u32) < gnu_symindx e then Inr 0
                  else
                    bind_res (ptr (gnu_chain e)) (\<lambda>ch.
                      gnu_walk img e nm h (ch + 4 * unat (of_nat i - gnu_symindx e)) (of_nat i))))))"

text \<open>
  The chain of the System V table is linked by index, so it may be cyclic in a damaged
  file; then the search does not return, which is \<open>None\<close>.
\<close>

partial_function (option) sysv_walk :: "bytes \<Rightarrow> elf_image \<Rightarrow> bytes \<Rightarrow> nat \<Rightarrow> nat res option" where
  "sysv_walk img e nm n =
     (if n = 0 then Some (Inr 0)
      else
        case sym_name img (dynsym e) (dynstr e) n of
          Inl f \<Rightarrow> Some (Inl f)
        | Inr s \<Rightarrow>
            if s = nm then Some (sym_value img (dynsym e) n)
            else case bind_res (ptr (sysv_chain e)) (\<lambda>c. rd 4 img (c + 4 * n)) of
                   Inl f \<Rightarrow> Some (Inl f)
                 | Inr n' \<Rightarrow> sysv_walk img e nm n')"

definition findSymbolBySysvHash :: "bytes \<Rightarrow> elf_image \<Rightarrow> bytes \<Rightarrow> u32 \<Rightarrow> nat res option" where
  "findSymbolBySysvHash img e nm h =
     (case sysv_bucket e of
        None \<Rightarrow> Some (Inr 0)
      | Some b \<Rightarrow>
          if sysv_nbucket e = 0 then Some (Inl Div_by_zero)
          else case rd 4 img (b + 4 * unat (h mod sysv_nbucket e)) of
                 Inl f \<Rightarrow> Some (Inl f)
               | Inr n \<Rightarrow> sysv_walk img e nm n)"

text \<open>The cache is filled in table order, and \<open>emplace\<close> keeps the first entry of a name.\<close>

definition emplace :: "bytes \<Rightarrow> nat \<Rightarrow> (bytes \<times> nat) list \<Rightarrow> (bytes \<times> nat) list" where
  "emplace k v c = (if map_of c k = None then c @ [(k, v)] else c)"

fun cache_symbols :: "bytes \<Rightarrow> nat \<Rightarrow> nat \<Rightarrow> nat \<Rightarrow> (bytes \<times> nat) list \<Rightarrow> (bytes \<times> nat) list res" where
  "cache_symbols img sy str 0 c = Inr c"
| "cache_symbols img sy str (Suc n) c =
     bind_res (st_info img sy) (\<lambda>info.
       if info mod 16 = 2 \<or> info mod 16 = 1 then
         bind_res (st_size img sy) (\<lambda>size.
           if 0 < size then
             bind_res (st_name img sy) (\<lambda>nm. bind_res (cstr_at img (str + nm)) (\<lambda>s.
               cache_symbols img (sy + SYM_SIZE) str n (emplace s sy c)))
           else cache_symbols img (sy + SYM_SIZE) str n c)
       else cache_symbols img (sy + SYM_SIZE) str n c)"

definition buildSymbolCache :: "bytes \<Rightarrow> elf_image \<Rightarrow> elf_image res" where
  "buildSymbolCache img e =
     (case (symtab e, strtab e) of
        (Some sy, Some str) \<Rightarrow>
          if symbol_cache e = [] then
            bind_res (cache_symbols img sy str (symtab_count e) []) (\<lambda>c. Inr (e\<lparr> symbol_cache := c \<rparr>))
          else Inr e
      | _ \<Rightarrow> Inr e)"

definition findSymbolByLinearScan :: "bytes \<Rightarrow> elf_image \<Rightarrow> bytes \<Rightarrow> (nat \<times> elf_image) res" where
  "findSymbolByLinearScan img e nm =
     bind_res (buildSymbolCache img e) (\<lambda>e1.
       case map_of (symbol_cache e1) nm of
         None \<Rightarrow> Inr (0, e1)
       | Some sy \<Rightarrow> bind_res (st_value img sy) (\<lambda>v. Inr (v, e1)))"

text \<open>The order in which an \<open>unordered_map\<close> is traversed is not specified: \<open>order\<close>.\<close>

definition findSymbolNameByPrefix ::
  "((bytes \<times> nat) list \<Rightarrow> (bytes \<times> nat) list) \<Rightarrow> bytes \<Rightarrow> elf_image \<Rightarrow> bytes \<Rightarrow> (bytes \<times> elf_image) res" where
  "findSymbolNameByPrefix order img e pre =
     bind_res (buildSymbolCache img e) (\<lambda>e1.
       Inr (case find (\<lambda>p. starts_with (fst p) pre) (order (symbol_cache e1)) of
              None \<Rightarrow> [] | Some p \<Rightarrow> fst p, e1))"

definition findSymbolOffset ::
  "bytes \<Rightarrow> elf_image \<Rightarrow> bytes \<Rightarrow> u32 \<Rightarrow> u32 \<Rightarrow> (nat \<times> elf_image) res option" where
  "findSymbolOffset img e nm gh sh =
     (case findSymbolByGnuHash img e nm gh of
        Inl f \<Rightarrow> Some (Inl f)
      | Inr v \<Rightarrow>
          if 0 < v then Some (Inr (v, e))
          else case findSymbolBySysvHash img e nm sh of
            None \<Rightarrow> None
          | Some (Inl f) \<Rightarrow> Some (Inl f)
          | Some (Inr v) \<Rightarrow>
              if 0 < v then Some (Inr (v, e)) else Some (findSymbolByLinearScan img e nm))"

definition findSymbolAddress :: "bytes \<Rightarrow> elf_image \<Rightarrow> bytes \<Rightarrow> (u64 \<times> elf_image) res option" where
  "findSymbolAddress img e nm =
     map_option (\<lambda>r. bind_res r (\<lambda>(off, e1).
         Inr (if 0 < off \<and> base_address e1 \<noteq> 0 then base_address e1 + of_nat off - bias e1 else 0, e1)))
       (findSymbolOffset img e nm (calculateGnuHash nm) (calculateSysvHash nm))"

end
