(* ===== verification/Elf_Lookup.thy ===== *)
theory Elf_Lookup
  imports Elf_Image
begin

text \<open>
  What a symbol lookup promises, as an interface: a non-zero answer is the value of an
  entry with exactly the name that was asked for.  The GNU hash, System V hash and linear
  lookups all provide it, a lookup that falls back on another inherits it, and so
  \<open>findSymbolAddress\<close> does.  The GNU hash lookup is also complete on a well-formed table.
\<close>

section \<open>The interface\<close>

locale symbol_source =
  fixes lookup :: "bytes \<Rightarrow> nat res option" and entry :: "bytes \<Rightarrow> nat \<Rightarrow> bool"
  assumes sound: "lookup nm = Some (Inr v) \<Longrightarrow> 0 < v \<Longrightarrow> entry nm v"
begin

lemma absent: "lookup nm = Some (Inr v) \<Longrightarrow> (\<And>w. 0 < w \<Longrightarrow> \<not> entry nm w) \<Longrightarrow> v = 0"
  using sound by blast

end

text \<open>Trying one lookup, and another one when the first finds nothing.\<close>

definition first_hit ::
  "(bytes \<Rightarrow> nat res option) \<Rightarrow> (bytes \<Rightarrow> nat res option) \<Rightarrow> bytes \<Rightarrow> nat res option" where
  "first_hit l1 l2 nm =
     (case l1 nm of Some (Inr v) \<Rightarrow> if 0 < v then Some (Inr v) else l2 nm | r \<Rightarrow> r)"

locale lookup_chain = first: symbol_source lookup entry + second: symbol_source fallback entry
  for lookup :: "bytes \<Rightarrow> nat res option" and entry :: "bytes \<Rightarrow> nat \<Rightarrow> bool"
    and fallback :: "bytes \<Rightarrow> nat res option"
begin

lemma chain_sound: "first_hit lookup fallback nm = Some (Inr v) \<Longrightarrow> 0 < v \<Longrightarrow> entry nm v"
  using first.sound second.sound
  by (auto simp: first_hit_def split: option.splits sum.splits if_splits)

end

sublocale lookup_chain \<subseteq> chained: symbol_source "first_hit lookup fallback" entry
  by unfold_locales (rule chain_sound)

section \<open>The providers\<close>

definition dyn_entry :: "bytes \<Rightarrow> elf_image \<Rightarrow> bytes \<Rightarrow> nat \<Rightarrow> bool" where
  "dyn_entry img e nm v \<longleftrightarrow>
     (\<exists>i. sym_name img (dynsym e) (dynstr e) i = Inr nm \<and> sym_value img (dynsym e) i = Inr v)"

definition cached_entry :: "bytes \<Rightarrow> elf_image \<Rightarrow> bytes \<Rightarrow> nat \<Rightarrow> bool" where
  "cached_entry img e nm sy \<longleftrightarrow>
     (\<exists>t i. symtab e = Some t \<and> i < symtab_count e \<and> sy = t + SYM_SIZE * i \<and>
            sym_name img (symtab e) (strtab e) i = Inr nm)"

definition symtab_entry :: "bytes \<Rightarrow> elf_image \<Rightarrow> bytes \<Rightarrow> nat \<Rightarrow> bool" where
  "symtab_entry img e nm v \<longleftrightarrow> (\<exists>sy. cached_entry img e nm sy \<and> st_value img sy = Inr v)"

definition all_cached :: "bytes \<Rightarrow> elf_image \<Rightarrow> (bytes \<times> nat) list \<Rightarrow> bool" where
  "all_cached img e c \<longleftrightarrow> (\<forall>p \<in> set c. cached_entry img e (fst p) (snd p))"

definition cache_ok :: "bytes \<Rightarrow> elf_image \<Rightarrow> bool" where
  "cache_ok img e \<longleftrightarrow> all_cached img e (symbol_cache e)"

lemma gnu_walk_sound:
  "gnu_walk img e nm h chain i = Inr v \<Longrightarrow> 0 < v \<Longrightarrow> dyn_entry img e nm v"
proof (induction img e nm h chain i rule: gnu_walk.induct)
  case (1 img e nm h chain i)
  from "1.prems" show ?case
    by (subst (asm) gnu_walk.simps)
      (auto simp: Let_def dyn_entry_def split: if_splits dest: "1.IH" [unfolded dyn_entry_def])
qed

lemma findSymbolByGnuHash_sound:
  "findSymbolByGnuHash img e nm h = Inr v \<Longrightarrow> 0 < v \<Longrightarrow> dyn_entry img e nm v"
  by (auto simp: findSymbolByGnuHash_def Let_def split: option.splits if_splits
      intro: gnu_walk_sound)

lemma sysv_walk_sound:
  "sysv_walk img e nm n = Some r \<Longrightarrow> r = Inr v \<Longrightarrow> 0 < v \<Longrightarrow> dyn_entry img e nm v"
proof (induction rule: sysv_walk.raw_induct [rotated 1, consumes 1])
  case (1 walk img e nm n r)
  then show ?case
    by (auto simp: dyn_entry_def split: if_splits sum.splits)
qed

lemma findSymbolBySysvHash_sound:
  "findSymbolBySysvHash img e nm h = Some (Inr v) \<Longrightarrow> 0 < v \<Longrightarrow> dyn_entry img e nm v"
  by (auto simp: findSymbolBySysvHash_def split: option.splits if_splits sum.splits
      intro: sysv_walk_sound)

lemma emplace_set: "set (emplace k v c) \<subseteq> insert (k, v) (set c)"
  by (auto simp: emplace_def)

lemma cache_symbols_sound:
  assumes "cache_symbols img (t + SYM_SIZE * j) str n c = Inr c'"
    and "symtab e = Some t" "strtab e = Some str" "j + n = symtab_count e"
    and "all_cached img e c"
  shows "all_cached img e c'"
  using assms
proof (induction n arbitrary: j c)
  case 0
  then show ?case by simp
next
  case (Suc n)
  let ?sy = "t + SYM_SIZE * j"
  have next_sy: "?sy + SYM_SIZE = t + SYM_SIZE * Suc j" by simp
  have step: "all_cached img e c'"
    if "cache_symbols img (?sy + SYM_SIZE) str n d = Inr c'"
      "all_cached img e d" for d
    using Suc.IH [of "Suc j" d] Suc.prems(2-4) that unfolding next_sy by simp
  have add: "all_cached img e (emplace s ?sy c)"
    if "st_name img ?sy = Inr nm" "cstr_at img (str + nm) = Inr s" for nm s
  proof -
    have "cached_entry img e s ?sy"
      using that Suc.prems(2-4)
      by (auto simp: cached_entry_def sym_name_def ptr_def intro!: exI [of _ j])
    with Suc.prems(5) emplace_set [of s ?sy c] show ?thesis by (auto simp: all_cached_def)
  qed
  from Suc.prems(1) show ?case
    using step add Suc.prems(5) by (auto split: if_splits)
qed

lemma buildSymbolCache_ok:
  "buildSymbolCache img e = Inr e' \<Longrightarrow> cache_ok img e \<Longrightarrow>
     cache_ok img e' \<and> symtab e' = symtab e \<and> strtab e' = strtab e \<and>
     symtab_count e' = symtab_count e"
proof -
  assume b: "buildSymbolCache img e = Inr e'" and ok: "cache_ok img e"
  have mono: "cache_ok img (e\<lparr> symbol_cache := c \<rparr>)"
    if "all_cached img e c" for c
    using that by (auto simp: cache_ok_def all_cached_def cached_entry_def)
  have z: "all_cached img e []" by (simp add: all_cached_def)
  show ?thesis
    using b ok z cache_symbols_sound [of img _ 0 _ "symtab_count e" "[]" _ e]
    by (auto simp: buildSymbolCache_def split: option.splits if_splits intro!: mono)
qed

lemma findSymbolByLinearScan_sound:
  assumes "findSymbolByLinearScan img e nm = Inr (v, e')" "0 < v" "cache_ok img e"
  shows "symtab_entry img e nm v"
proof -
  from assms(1) obtain e1 where b: "buildSymbolCache img e = Inr e1"
    and f: "(case map_of (symbol_cache e1) nm of None \<Rightarrow> Inr (0, e1)
             | Some sy \<Rightarrow> bind_res (st_value img sy) (\<lambda>v. Inr (v, e1))) = Inr (v, e')"
    unfolding findSymbolByLinearScan_def bind_res_Inr_iff by blast
  from buildSymbolCache_ok [OF b assms(3)] have ok: "cache_ok img e1"
    and s: "symtab e1 = symtab e" "strtab e1 = strtab e" "symtab_count e1 = symtab_count e"
    by simp_all
  from f assms(2) obtain sy where m: "map_of (symbol_cache e1) nm = Some sy"
    and v: "st_value img sy = Inr v" by (auto split: option.splits)
  from m have "(nm, sy) \<in> set (symbol_cache e1)" by (rule map_of_SomeD)
  with ok have "cached_entry img e1 nm sy" by (force simp: cache_ok_def all_cached_def)
  with v s show ?thesis by (auto simp: symtab_entry_def cached_entry_def)
qed

text \<open>An entry of either table; the second needs a cache that was built from this file.\<close>

definition symbol_entry :: "bytes \<Rightarrow> elf_image \<Rightarrow> bytes \<Rightarrow> nat \<Rightarrow> bool" where
  "symbol_entry img e nm v \<longleftrightarrow>
     dyn_entry img e nm v \<or> \<not> cache_ok img e \<or> symtab_entry img e nm v"

definition linear_value :: "bytes \<Rightarrow> elf_image \<Rightarrow> bytes \<Rightarrow> nat res option" where
  "linear_value img e nm =
     Some (bind_res (findSymbolByLinearScan img e nm) (\<lambda>r. Inr (fst r)))"

interpretation sysv_linear:
  lookup_chain "\<lambda>nm. findSymbolBySysvHash img e nm sh" "symbol_entry img e" "linear_value img e"
  for img e sh
proof unfold_locales
  show "findSymbolBySysvHash img e nm sh = Some (Inr v) \<Longrightarrow> 0 < v \<Longrightarrow> symbol_entry img e nm v"
    for nm v by (simp add: symbol_entry_def findSymbolBySysvHash_sound)
  show "linear_value img e nm = Some (Inr v) \<Longrightarrow> 0 < v \<Longrightarrow> symbol_entry img e nm v" for nm v
    using findSymbolByLinearScan_sound by (auto simp: symbol_entry_def linear_value_def)
qed

interpretation all_lookups:
  lookup_chain "\<lambda>nm. Some (findSymbolByGnuHash img e nm gh)" "symbol_entry img e"
    "first_hit (\<lambda>nm. findSymbolBySysvHash img e nm sh) (linear_value img e)" for img e gh sh
proof unfold_locales
  show "Some (findSymbolByGnuHash img e nm gh) = Some (Inr v) \<Longrightarrow> 0 < v \<Longrightarrow> symbol_entry img e nm v"
    for nm v by (simp add: symbol_entry_def findSymbolByGnuHash_sound)
qed

lemma findSymbolOffset_first_hit:
  "findSymbolOffset img e nm gh sh = Some (Inr (v, e')) \<Longrightarrow>
     first_hit (\<lambda>nm. Some (findSymbolByGnuHash img e nm gh))
       (first_hit (\<lambda>nm. findSymbolBySysvHash img e nm sh) (linear_value img e)) nm =
       Some (Inr v)"
  by (auto simp: findSymbolOffset_def first_hit_def linear_value_def
      split: option.splits sum.splits if_splits)

lemma findSymbolOffset_sound:
  "findSymbolOffset img e nm gh sh = Some (Inr (v, e')) \<Longrightarrow> 0 < v \<Longrightarrow> cache_ok img e \<Longrightarrow>
     dyn_entry img e nm v \<or> symtab_entry img e nm v"
  using all_lookups.chain_sound [OF findSymbolOffset_first_hit] by (auto simp: symbol_entry_def)

section \<open>Hashes and completeness\<close>

lemma gnu_hash_poly:
  "calculateGnuHash name = of_nat (foldl (\<lambda>h c. 33 * h + unat c) 5381 name)"
proof -
  have "foldl (\<lambda>h c. push_bit 5 h + h + ucast c) (of_nat a :: u32) name =
        of_nat (foldl (\<lambda>h c. 33 * h + unat c) a name)" for a
  proof (induction name arbitrary: a)
    case Nil
    then show ?case by simp
  next
    case (Cons c name)
    have "push_bit 5 (of_nat a :: u32) + of_nat a + ucast c = of_nat (33 * a + unat c)"
      by (simp add: push_bit_eq_mult)
    then show ?case using Cons.IH [of "33 * a + unat c"] by (simp only: foldl_Cons)
  qed
  from this [of 5381] show ?thesis by (simp add: calculateGnuHash_def)
qed

lemma high_nibble: "bit (0xf0000000 :: u32) n \<longleftrightarrow> 28 \<le> n \<and> n < 32"
proof -
  have "(0xf0000000 :: u32) = push_bit 28 (mask 4)" by (simp add: mask_eq_exp_minus_1)
  then have "bit (0xf0000000 :: u32) n \<longleftrightarrow> bit (push_bit 28 (mask 4) :: u32) n" by (simp only:)
  then show ?thesis by (auto simp: bit_simps)
qed

lemma sysv_step_nibble: "28 \<le> n \<Longrightarrow> \<not> bit (sysv_step h c) n"
proof
  assume n: "28 \<le> n" and b: "bit (sysv_step h c) n"
  define h1 where "h1 = push_bit 4 h + (ucast c :: u32)"
  define M where "M = (0xf0000000 :: u32)"
  define h2 where "h2 = (if h1 AND M \<noteq> 0 then h1 XOR drop_bit 24 (h1 AND M) else h1)"
  have s: "sysv_step h c = h2 AND NOT (h1 AND M)"
    by (simp add: sysv_step_def Let_def h1_def h2_def M_def)
  have n32: "n < 32" using bit_imp_le_length [OF b] by simp
  have M: "bit M i \<longleftrightarrow> 28 \<le> i \<and> i < 32" for i unfolding M_def by (rule high_nibble)
  have "bit h2 n = bit h1 n"
    using n by (auto simp: h2_def bit_simps M)
  with b n n32 show False by (auto simp: s bit_simps M)
qed

lemma no_high_bits: "(\<And>n. 28 \<le> n \<Longrightarrow> \<not> bit x n) \<Longrightarrow> unat (x :: u32) < 268435456"
proof -
  assume a: "\<And>n. 28 \<le> n \<Longrightarrow> \<not> bit x n"
  have "take_bit 28 x = x"
  proof (rule bit_eqI)
    fix n show "bit (take_bit 28 x) n \<longleftrightarrow> bit x n"
      using a [of n] by (auto simp: bit_take_bit_iff not_less [symmetric])
  qed
  then have "unat x = unat (take_bit 28 x)" by simp
  also have "\<dots> = take_bit 28 (unat x)" by (simp add: unsigned_take_bit_eq)
  also have "\<dots> < 2 ^ 28" by (rule take_bit_nat_less_exp)
  finally show ?thesis by simp
qed

lemma sysv_hash_bound: "unat (calculateSysvHash name) < 268435456"
proof (cases name rule: rev_cases)
  case Nil
  then show ?thesis by (simp add: calculateSysvHash_def)
next
  case (snoc cs c)
  then have "calculateSysvHash name = sysv_step (calculateSysvHash cs) c"
    by (simp add: calculateSysvHash_def)
  then show ?thesis by (simp only: no_high_bits sysv_step_nibble not_False_eq_True)
qed

text \<open>
  A symbol is listed when its entry is reached along an unbroken chain of entries, each of
  which is not the last and has another hash or another name; \<open>n\<close> entries come before it.
\<close>

fun hashed_at :: "bytes \<Rightarrow> elf_image \<Rightarrow> bytes \<Rightarrow> u32 \<Rightarrow> nat \<Rightarrow> u32 \<Rightarrow> nat \<Rightarrow> nat \<Rightarrow> bool" where
  "hashed_at img e nm h chain i 0 v \<longleftrightarrow>
     (\<exists>c. rd 4 img chain = Inr c \<and> drop_bit 1 (of_nat c XOR h) = 0) \<and>
     sym_name img (dynsym e) (dynstr e) (unat i) = Inr nm \<and>
     sym_value img (dynsym e) (unat i) = Inr v"
| "hashed_at img e nm h chain i (Suc n) v \<longleftrightarrow>
     (\<exists>c. rd 4 img chain = Inr c \<and> even c \<and>
          (drop_bit 1 (of_nat c XOR h) = 0 \<longrightarrow>
             (\<exists>s. sym_name img (dynsym e) (dynstr e) (unat i) = Inr s \<and> s \<noteq> nm))) \<and>
     hashed_at img e nm h (chain + 4) (i + 1) n v"

lemma gnu_walk_complete:
  "hashed_at img e nm h chain i n v \<Longrightarrow> gnu_walk img e nm h chain i = Inr v"
proof (induction n arbitrary: chain i)
  case 0
  then show ?case by (subst gnu_walk.simps) auto
next
  case (Suc n)
  then show ?case by (subst gnu_walk.simps) (auto simp: Let_def)
qed

text \<open>A well-formed GNU hash table lists the symbol: filter bits, bucket and chain agree.\<close>

definition gnu_lists :: "bytes \<Rightarrow> elf_image \<Rightarrow> bytes \<Rightarrow> u32 \<Rightarrow> nat \<Rightarrow> bool" where
  "gnu_lists img e nm h v \<longleftrightarrow>
     (\<exists>bloom b ch w i n.
        gnu_bloom_filter e = Some bloom \<and> gnu_bucket e = Some b \<and> gnu_chain e = Some ch \<and>
        gnu_bloom_size e \<noteq> 0 \<and> gnu_nbucket e \<noteq> 0 \<and>
        rd 8 img (bloom + 8 * unat (h div 64 mod gnu_bloom_size e)) = Inr w \<and>
        bit (of_nat w :: u64) (unat (h mod 64)) \<and>
        bit (of_nat w :: u64) (unat (drop_bit (unat (gnu_shift2 e)) h mod 64)) \<and>
        rd 4 img (b + 4 * unat (h mod gnu_nbucket e)) = Inr i \<and> gnu_symindx e \<le> of_nat i \<and>
        hashed_at img e nm h (ch + 4 * unat (of_nat i - gnu_symindx e)) (of_nat i) n v)"

lemma bits_mask:
  "bit w a \<Longrightarrow> bit w b \<Longrightarrow> w AND (push_bit a 1 OR push_bit b (1 :: u64)) = push_bit a 1 OR push_bit b 1"
  by (rule bit_eqI) (auto simp: bit_simps)

lemma findSymbolByGnuHash_complete:
  assumes "gnu_lists img e nm h v"
  shows "findSymbolByGnuHash img e nm h = Inr v"
proof -
  from assms obtain bloom b ch w i n where
    f: "gnu_bloom_filter e = Some bloom" "gnu_bucket e = Some b" "gnu_chain e = Some ch"
      "gnu_bloom_size e \<noteq> 0" "gnu_nbucket e \<noteq> 0"
      "rd 8 img (bloom + 8 * unat (h div 64 mod gnu_bloom_size e)) = Inr w"
      "rd 4 img (b + 4 * unat (h mod gnu_nbucket e)) = Inr i" "gnu_symindx e \<le> of_nat i"
    and bits: "bit (of_nat w :: u64) (unat (h mod 64))"
      "bit (of_nat w :: u64) (unat (drop_bit (unat (gnu_shift2 e)) h mod 64))"
    and chain: "hashed_at img e nm h (ch + 4 * unat (of_nat i - gnu_symindx e)) (of_nat i) n v"
    unfolding gnu_lists_def by blast
  from f(8) have "\<not> (of_nat i :: u32) < gnu_symindx e" by simp
  with f bits_mask [OF bits] gnu_walk_complete [OF chain] show ?thesis
    by (simp add: findSymbolByGnuHash_def ptr_def Let_def)
qed
section \<open>Properties\<close>

text \<open>A file with one hashed symbol, \<open>a\<close> of value \<open>0x1234\<close>, and the image parsed from it.\<close>

definition sample_file :: bytes where
  "sample_file =
     [255, 255, 255, 255, 255, 255, 255, 255] @ [1, 0, 0, 0] @ [7, 182, 2, 0] @ replicate 24 0 @
     [1, 0, 0, 0, 18, 0, 1, 0, 52, 18, 0, 0, 0, 0, 0, 0, 8, 0, 0, 0, 0, 0, 0, 0] @ [0, 97, 0]"

definition sample_image :: elf_image where
  "sample_image = empty_image\<lparr> base_address := 4096, header := True, bias := 0,
     dynsym := Some 16, dynstr := Some 64, gnu_nbucket := 1, gnu_symindx := 1,
     gnu_bloom_size := 1, gnu_shift2 := 5, gnu_bloom_filter := Some 0, gnu_bucket := Some 8,
     gnu_chain := Some 12 \<rparr>"

lemma sample_reads:
  "calculateGnuHash [97] = 177670"
  "rd 4 sample_file 12 = Inr 177671" "rd 4 sample_file 8 = Inr 1"
  "rd 8 sample_file 0 = Inr 18446744073709551615"
  by (simp_all add: rd_def read_at_def sample_file_def calculateGnuHash_def)

lemma sample_symbol:
  "sym_name sample_file (Some 16) (Some 64) (Suc 0) = Inr [97]"
  "sym_value sample_file (Some 16) (Suc 0) = Inr 4660"
  by code_simp+

lemma sample_fields:
  "gnu_bloom_filter sample_image = Some 0" "gnu_bucket sample_image = Some 8"
  "gnu_chain sample_image = Some 12" "gnu_bloom_size sample_image = 1"
  "gnu_nbucket sample_image = 1" "gnu_symindx sample_image = 1" "gnu_shift2 sample_image = 5"
  by (simp_all add: sample_image_def empty_image_def)

lemma sample_lists: "gnu_lists sample_file sample_image [97] 177670 4660"
proof -
  have "bit (word_of_nat 18446744073709551615 :: u64) (unat ((177670 :: u32) mod 64))"
    "bit (word_of_nat 18446744073709551615 :: u64) (unat (drop_bit 5 (177670 :: u32) mod 64))"
    by simp_all
  moreover have "hashed_at sample_file sample_image [97] 177670 12 1 0 4660"
    by (simp add: sample_image_def empty_image_def sample_reads sample_symbol)
  moreover have "unat (5 :: u32) = 5" "(177670 :: u32) div 64 mod 1 = 0" "(177670 :: u32) mod 1 = 0" by simp_all
  ultimately show ?thesis
    unfolding gnu_lists_def sample_fields
    by (intro exI [of _ 0] exI [of _ 8] exI [of _ 12] exI [of _ 18446744073709551615]
        exI [of _ 1] exI [of _ 0] conjI) (simp_all only: sample_reads mult_0_right add_0_right
        unsigned_0 of_nat_1 diff_self one_neq_zero not_False_eq_True order_refl)
qed

text \<open>
  C38: symbol lookup is sound.  A non-zero address is the load address plus the value,
  less the bias, of an entry of the dynamic or the full symbol table whose name is exactly
  the one asked for, whichever of the three lookups found it and however damaged the
  hash tables are.
\<close>

theorem symbol_address_sound:
  assumes "findSymbolAddress img e nm = Some (Inr (a, e'))" "a \<noteq> 0" "cache_ok img e"
  shows "\<exists>v. 0 < v \<and> (dyn_entry img e nm v \<or> symtab_entry img e nm v) \<and>
             a = base_address e + of_nat v - bias e"
proof -
  let ?off = "findSymbolOffset img e nm (calculateGnuHash nm) (calculateSysvHash nm)"
  from assms(1,2) obtain v e1 where o: "?off = Some (Inr (v, e1))" and v: "0 < v"
    and a: "a = base_address e1 + of_nat v - bias e1"
    by (auto simp: findSymbolAddress_def split: if_splits)
  have "base_address e1 = base_address e \<and> bias e1 = bias e"
    using o by (auto simp: findSymbolOffset_def findSymbolByLinearScan_def buildSymbolCache_def
        split: sum.splits option.splits if_splits)
  with a v findSymbolOffset_sound [OF o v assms(3)] show ?thesis by auto
qed

lemma symbol_address_sound_witness:
  "\<exists>v. 0 < v \<and> (dyn_entry sample_file sample_image [97] v \<or> symtab_entry sample_file sample_image [97] v) \<and>
       (8756 :: u64) = base_address sample_image + of_nat v - bias sample_image"
proof (rule symbol_address_sound)
  show "findSymbolAddress sample_file sample_image [97] = Some (Inr (8756, sample_image))"
    using findSymbolByGnuHash_complete [OF sample_lists]
    by (simp add: findSymbolAddress_def findSymbolOffset_def sample_reads sample_image_def
        empty_image_def)
  show "cache_ok sample_file sample_image"
    by (simp add: cache_ok_def all_cached_def sample_image_def empty_image_def)
qed simp

text \<open>
  the GNU hash lookup is complete.  Every symbol that a well-formed table lists is
  found, with its value, and the slower lookups are not consulted.
\<close>

theorem gnu_lookup_complete:
  assumes "gnu_lists img e nm gh v" "0 < v"
  shows "findSymbolOffset img e nm gh sh = Some (Inr (v, e))"
  using findSymbolByGnuHash_complete [OF assms(1)] assms(2) by (simp add: findSymbolOffset_def)

lemma gnu_lookup_complete_witness:
  "findSymbolOffset sample_file sample_image [97] 177670 0 = Some (Inr (4660, sample_image))"
  by (rule gnu_lookup_complete [OF sample_lists]) simp

text \<open>
  the hash functions.  The GNU hash is the base-33 polynomial with seed 5381 modulo
  \<open>2 ^ 32\<close>, and the System V hash never exceeds 28 bits, as the ELF ABI requires.
\<close>

theorem hash_functions:
  "calculateGnuHash name = of_nat (foldl (\<lambda>h c. 33 * h + unat c) 5381 name) \<and>
   unat (calculateSysvHash name) < 268435456"
  using gnu_hash_poly sysv_hash_bound by blast

end
