(* ===== verification/Sanitize_Lines.thy ===== *)
theory Sanitize_Lines
  imports Sanitize
begin

text \<open>
  The sanitizers as functions of lines.  A buffer of complete lines is sanitized line by
  line; the contract the injected \<open>read\<close> relies on, that a filter never changes the
  length of the buffer, is an interface that both provide and that composition keeps.
\<close>

section \<open>Length-preserving filters\<close>

locale buffer_filter =
  fixes san :: "string \<Rightarrow> string"
  assumes same_length: "length (san b) = length b"
begin

lemma nil [simp]: "san [] = []"
  using same_length [of "[]"] by simp

lemma nil_iff: "san b = [] \<longleftrightarrow> b = []"
  using same_length [of b] by (metis length_0_conv)

end

locale filter_pair = first: buffer_filter san1 + second: buffer_filter san2
  for san1 :: "string \<Rightarrow> string" and san2 :: "string \<Rightarrow> string"

sublocale filter_pair \<subseteq> both: buffer_filter "\<lambda>b. san2 (san1 b)"
  by unfold_locales (simp add: first.same_length second.same_length)

lemma tracer_scan_length: "length (tracer_scan buf i) = length buf"
proof (induction buf i rule: tracer_scan.induct)
  case (1 buf i)
  obtain b j where m: "tracer_match buf i = (b, j)" by fastforce
  with tracer_match_length [of i buf] have "i + length needle < length buf \<Longrightarrow> length b = length buf"
    by simp
  with 1 m show ?case by (subst tracer_scan.simps) auto
qed

lemma maps_scan_length: "length (maps_scan buf i) = length buf"
proof (induction buf i rule: maps_scan.induct)
  case (1 buf i)
  obtain b j where m: "maps_line buf i = (b, j)" by fastforce
  with maps_line_length [of buf i] have "length b = length buf" by simp
  with 1 m show ?case by (subst maps_scan.simps) auto
qed

interpretation read_filters: filter_pair sanitize_tracer_pid_in_buffer sanitize_maps_in_buffer
  by unfold_locales
    (simp_all add: sanitize_tracer_pid_in_buffer_def sanitize_maps_in_buffer_def
      tracer_scan_length maps_scan_length)

section \<open>TracerPid, line by line\<close>

definition tracer_line :: "string \<Rightarrow> string" where
  "tracer_line l =
     (let blanks = takeWhile is_blank (drop 10 l);
          value = takeWhile is_digit (dropWhile is_blank (drop 10 l))
      in if take 10 l = needle \<and> list_ex (\<lambda>c. c \<noteq> CHR 0x30) value
         then needle @ blanks @ CHR 0x30 # replicate (length l - (11 + length blanks)) CHR 0x20
         else l)"

text \<open>A line of \<open>/proc/*/status\<close>: the keyword, if at all, only at its start.\<close>

definition status_line :: "string \<Rightarrow> bool" where
  "status_line l \<longleftrightarrow>
     newline \<notin> set l \<and> (\<forall>k. 0 < k \<longrightarrow> k < length l \<longrightarrow> take 10 (drop k l) \<noteq> needle)"

definition text_lines :: "string list \<Rightarrow> string" where
  "text_lines ls = concat (map (\<lambda>l. l @ [newline]) ls)"

text \<open>The scan as a function of the rest of the buffer.\<close>

function rest_scan :: "string \<Rightarrow> string" where
  "rest_scan s =
     (if 10 < length s then
        (if take 10 s \<noteq> needle then hd s # rest_scan (tl s)
         else let (s', j) = tracer_match s 0 in take (j + 1) s' @ rest_scan (drop (j + 1) s'))
      else s)"
  by pat_completeness auto
termination
proof (relation "measure length", goal_cases)
  case (3 s x s' j)
  then have "fst (tracer_match s 0) = s'" by (metis fst_conv)
  with 3(1) tracer_match_length [of 0 s] show ?case by auto
qed auto

declare rest_scan.simps [simp del]

lemma skip_while_shift:
  "skip_while P buf (i + k) = i + skip_while P (drop i buf) k"
  by (simp add: skip_while_def add.commute)

lemma write_at_shift:
  "i \<le> length buf \<Longrightarrow> write_at (i + k) xs buf = take i buf @ write_at k xs (drop i buf)"
  by (simp add: write_at_def take_add add.commute add.left_commute)

lemma tracer_match_shift:
  assumes "i \<le> length buf"
  shows "fst (tracer_match buf i) = take i buf @ fst (tracer_match (drop i buf) 0)"
    and "snd (tracer_match buf i) = i + snd (tracer_match (drop i buf) 0)"
  using assms
  by (auto simp: tracer_match_def Let_def skip_while_shift write_at_shift add.commute
      add.left_commute drop_drop)

lemma tracer_scan_rest: "tracer_scan buf i = take i buf @ rest_scan (drop i buf)"
proof (induction buf i rule: tracer_scan.induct)
  case (1 buf i)
  show ?case
  proof (cases "i + 10 < length buf")
    case False
    then show ?thesis by (simp add: tracer_scan.simps [of buf] rest_scan.simps [of "drop i buf"])
  next
    case in_range: True
    show ?thesis
    proof (cases "take 10 (drop i buf) = needle")
      case False
      have d: "drop i buf = buf ! i # drop (Suc i) buf"
        using in_range by (simp add: Cons_nth_drop_Suc)
      have "tracer_scan buf i = take (i + 1) buf @ rest_scan (drop (i + 1) buf)"
        using "1.IH"(1) in_range False by (simp add: tracer_scan.simps [of buf])
      also have "\<dots> = take i buf @ buf ! i # rest_scan (drop (Suc i) buf)"
        using in_range by (simp add: take_Suc_conv_app_nth)
      also have "buf ! i # rest_scan (drop (Suc i) buf) = rest_scan (drop i buf)"
        using in_range False by (simp add: d rest_scan.simps [of "buf ! i # drop (Suc i) buf"])
      finally show ?thesis .
    next
      case True
      obtain b j where m: "tracer_match buf i = (b, j)" by fastforce
      obtain s' j0 where m0: "tracer_match (drop i buf) 0 = (s', j0)" by fastforce
      from tracer_match_shift [of i buf] in_range m m0 have b: "b = take i buf @ s'" "j = i + j0"
        by simp_all
      have l: "length (take i buf) = i" using in_range by simp
      have "tracer_scan buf i = take (j + 1) b @ rest_scan (drop (j + 1) b)"
        using "1.IH"(2) in_range True m by (simp add: tracer_scan.simps [of buf i])
      also have "\<dots> = take i buf @ take (j0 + 1) s' @ rest_scan (drop (j0 + 1) s')"
        using l by (simp add: b)
      also have "\<dots> = take i buf @ rest_scan (drop i buf)"
        using in_range True m0 by (simp add: rest_scan.simps [of "drop i buf"])
      finally show ?thesis .
    qed
  qed
qed

lemma needle_no_newline: "newline \<notin> set needle"
  by (simp add: needle_def newline_def)

text \<open>A match cannot extend over the end of a line.\<close>

lemma match_within_line:
  assumes "take 10 (l @ newline # r) = needle"
  shows "take 10 l = needle"
proof (rule ccontr)
  assume "take 10 l \<noteq> needle"
  then have "length l < 10" using assms by (cases "10 \<le> length l") simp_all
  then have "newline \<in> set (take 10 (l @ newline # r))"
    by (auto simp: take_Cons')
  with assms needle_no_newline show False by simp
qed

lemma rest_scan_copy:
  assumes "\<And>k. k < length l \<Longrightarrow> take 10 (drop k l) \<noteq> needle"
  shows "rest_scan (l @ newline # r) = l @ newline # rest_scan r"
  using assms
proof (induction l)
  case Nil
  have "take 10 (newline # r) \<noteq> needle"
    using match_within_line [of "[]" r] by (auto simp: needle_def)
  then show ?case
    by (simp add: rest_scan.simps [of "newline # r"] rest_scan.simps [of r])
next
  case (Cons c l)
  have n: "take 10 (c # l @ newline # r) \<noteq> needle"
    using match_within_line [of "c # l" r] Cons.prems [of 0] by auto
  have ih: "rest_scan (l @ newline # r) = l @ newline # rest_scan r"
    using Cons.IH Cons.prems [of "Suc _"] by fastforce
  show ?case
  proof (cases "10 < length (c # l @ newline # r)")
    case True
    with n ih show ?thesis by (simp add: rest_scan.simps [of "c # l @ newline # r"])
  next
    case False
    then show ?thesis
      by (simp add: rest_scan.simps [of "c # l @ newline # r"] rest_scan.simps [of r])
  qed
qed

lemma takeWhile_before_newline:
  "\<not> P newline \<Longrightarrow> takeWhile P (t @ newline # r) = takeWhile P t"
  by (induction t) auto

lemma dropWhile_before_newline:
  "\<not> P newline \<Longrightarrow> dropWhile P (t @ newline # r) = dropWhile P t @ newline # r"
  by (induction t) auto

lemma newline_class [simp]: "\<not> is_blank newline" "\<not> is_digit newline"
  by (simp_all add: is_blank_def is_digit_def newline_def)

lemma rest_scan_match:
  assumes l: "l = needle @ t" and nl: "newline \<notin> set l"
    and once: "\<And>k. 0 < k \<Longrightarrow> k < length l \<Longrightarrow> take 10 (drop k l) \<noteq> needle"
  shows "rest_scan (l @ newline # r) = tracer_line l @ newline # rest_scan r"
proof -
  define b where "b = takeWhile is_blank t"
  define u where "u = dropWhile is_blank t"
  define v where "v = takeWhile is_digit u"
  define w where "w = dropWhile is_digit u"
  have t: "t = b @ v @ w" by (simp add: b_def v_def w_def u_def)
  have uvw: "u = v @ w" by (simp add: v_def w_def)
  define S where "S = l @ newline # r"
  have s: "S = needle @ b @ v @ w @ newline # r" using l t by (simp add: S_def)
  have dropt: "drop 10 S = t @ newline # r" using l by (simp add: S_def)
  have vs: "skip_while is_blank S 10 = 10 + length b"
    by (simp only: skip_while_def dropt) (simp add: takeWhile_before_newline b_def)
  have dropu: "drop (10 + length b) S = u @ newline # r"
    unfolding s by (simp add: u_def v_def w_def)
  have ve: "skip_while is_digit S (10 + length b) = 10 + length b + length v"
    by (simp only: skip_while_def dropu) (simp add: takeWhile_before_newline v_def)
  have dropw: "drop (10 + length b + length v) S = w @ newline # r"
    unfolding s by simp
  have w_nl: "newline \<notin> set w" using nl l t by simp
  then have w_all: "takeWhile (\<lambda>c. c \<noteq> newline) (w @ newline # r) = w"
    by (induction w) auto
  have le: "skip_while (\<lambda>c. c \<noteq> newline) S (10 + length b + length v) = length l"
    by (simp only: skip_while_def dropw w_all) (simp add: l t)
  have digits: "take (length v) (drop (10 + length b) S) = v"
    by (simp only: dropu uvw) simp
  have guard: "10 < length S" "take 10 S = needle" using l by (simp_all add: S_def)
  have blanks: "takeWhile is_blank t = b" "takeWhile is_digit (dropWhile is_blank t) = v"
    by (simp_all add: b_def v_def u_def)
  let ?nz = "list_ex (\<lambda>c. c \<noteq> CHR 0x30) v"
  show ?thesis
  proof (cases ?nz)
    case True
    then have "v \<noteq> []" by auto
    let ?z = "CHR 0x30 # replicate (length l - (11 + length b)) CHR 0x20"
    have len: "10 + length b + length ?z = length l"
      using \<open>v \<noteq> []\<close> l t by (cases v) simp_all
    have m: "tracer_match S 0 = (write_at (10 + length b) ?z S, length l)"
      unfolding tracer_match_def Let_def
      using True by (simp add: vs ve le digits)
    have "write_at (10 + length b) ?z S = needle @ b @ ?z @ newline # r"
      using len l t by (simp add: write_at_def S_def)
    also have "\<dots> = tracer_line l @ newline # r"
      using True l by (simp add: tracer_line_def Let_def blanks)
    finally have wr: "write_at (10 + length b) ?z S = tracer_line l @ newline # r" .
    have tl: "length (tracer_line l) = length l"
      using True l len by (simp add: tracer_line_def Let_def blanks)
    have "rest_scan S = tracer_line l @ newline # rest_scan r"
      using guard tl by (simp add: rest_scan.simps [of S] m wr)
    then show ?thesis by (simp only: S_def)
  next
    case False
    have m: "tracer_match S 0 = (S, 10 + length b + length v)"
      unfolding tracer_match_def Let_def using False by (simp add: vs ve digits)
    have tl: "tracer_line l = l" using False l by (simp add: tracer_line_def Let_def blanks)
    have "rest_scan S = take (11 + length b + length v) S @
        rest_scan (drop (11 + length b + length v) S)"
      using guard by (simp add: rest_scan.simps [of S] m add.assoc)
    also have "\<dots> = l @ newline # rest_scan r"
    proof (cases w)
      case Nil
      with l t show ?thesis by (simp add: s)
    next
      case (Cons c w')
      have "rest_scan (w' @ newline # r) = w' @ newline # rest_scan r"
      proof (rule rest_scan_copy)
        fix k assume k: "k < length w'"
        have "drop k w' = drop (11 + length b + length v + k) l"
          using l t Cons by simp
        then show "take 10 (drop k w') \<noteq> needle"
          using once [of "11 + length b + length v + k"] k l t Cons by simp
      qed
      with l t Cons show ?thesis by (simp add: s)
    qed
    finally show ?thesis by (simp only: tl S_def)
  qed
qed

lemma rest_scan_line:
  assumes "status_line l"
  shows "rest_scan (l @ newline # r) = tracer_line l @ newline # rest_scan r"
proof (cases "take 10 l = needle")
  case True
  then have "l = needle @ drop 10 l" by (metis append_take_drop_id)
  with assms show ?thesis
    using rest_scan_match [of l "drop 10 l" r] by (auto simp: status_line_def)
next
  case False
  have "take 10 (drop k l) \<noteq> needle" if "k < length l" for k
    using assms False that by (cases k) (auto simp: status_line_def)
  from rest_scan_copy [OF this] False show ?thesis by (simp add: tracer_line_def)
qed

lemma rest_scan_lines:
  "\<forall>l \<in> set ls. status_line l \<Longrightarrow> rest_scan (text_lines ls) = text_lines (map tracer_line ls)"
proof (induction ls)
  case Nil
  then show ?case by (simp add: text_lines_def rest_scan.simps)
next
  case (Cons l ls)
  then show ?case
    using rest_scan_line [of l "text_lines ls"] by (simp add: text_lines_def)
qed

lemma sanitize_tracer_lines:
  "\<forall>l \<in> set ls. status_line l \<Longrightarrow>
     sanitize_tracer_pid_in_buffer (text_lines ls) = text_lines (map tracer_line ls)"
  using rest_scan_lines [of ls] tracer_scan_rest [of "text_lines ls" 0]
  by (auto simp: sanitize_tracer_pid_in_buffer_def text_lines_def)

section \<open>Maps, line by line\<close>

definition path_offset :: "string \<Rightarrow> nat" where
  "path_offset l = snd (snd (scan_fields l 0 0 0))"

definition field_count :: "string \<Rightarrow> nat" where
  "field_count l = fst (snd (scan_fields l 0 0 0))"

definition hide_line :: "string \<Rightarrow> string" where
  "hide_line l =
     (if 5 \<le> field_count l \<and> marked (drop (path_offset l) l)
      then take (path_offset l) l @ replicate (length l - path_offset l) CHR 0x20 else l)"

lemma skip_blank_within:
  "k \<le> length l \<Longrightarrow>
     skip_while is_blank (pre @ l @ newline # r) (length pre + k) =
       length pre + skip_while is_blank l k"
  by (simp add: skip_while_def takeWhile_before_newline)

lemma scan_fields_within:
  assumes "newline \<notin> set l" "k \<le> length l"
  shows "scan_fields (pre @ l @ newline # r) (length pre + k) f (length pre + p) =
           (length pre + length l, fst (snd (scan_fields l k f p)),
            length pre + snd (snd (scan_fields l k f p)))"
  using assms
proof (induction l k f p rule: scan_fields.induct)
  case (1 l k f p)
  let ?B = "pre @ l @ newline # r"
  show ?case
  proof (cases "k < length l")
    case False
    with "1.prems" show ?thesis
      by (simp add: scan_fields.simps [of ?B] scan_fields.simps [of l "length l"])
  next
    case True
    have c: "?B ! (length pre + k) = l ! k" using True by (simp add: nth_append)
    have n: "l ! k \<noteq> newline" using True "1.prems"(1) nth_mem by metis
    show ?thesis
    proof (cases "is_blank (l ! k)")
      case True
      note blank = this
      let ?k = "skip_while is_blank l k"
      have k: "?k \<le> length l" using "1.prems"(2) by (rule skip_while_le)
      have "scan_fields ?B (length pre + k) f (length pre + p) =
          scan_fields ?B (length pre + ?k) (f + 1) (length pre + (if f + 1 = 5 then ?k else p))"
        using \<open>k < length l\<close> c n blank "1.prems"(2)
        by (simp add: scan_fields.simps [of ?B "length pre + k"] skip_blank_within Let_def)
      also have "\<dots> = (length pre + length l,
          fst (snd (scan_fields l ?k (f + 1) (if f + 1 = 5 then ?k else p))),
          length pre + snd (snd (scan_fields l ?k (f + 1) (if f + 1 = 5 then ?k else p))))"
        using "1.IH"(1) \<open>k < length l\<close> n blank "1.prems"(1) k by blast
      also have "scan_fields l ?k (f + 1) (if f + 1 = 5 then ?k else p) = scan_fields l k f p"
        using \<open>k < length l\<close> n blank by (simp add: scan_fields.simps [of l k] Let_def)
      finally show ?thesis .
    next
      case False
      have "scan_fields ?B (length pre + k) f (length pre + p) =
          scan_fields ?B (length pre + (k + 1)) f (length pre + p)"
        using \<open>k < length l\<close> c n False by (simp add: scan_fields.simps [of ?B "length pre + k"])
      also have "\<dots> = (length pre + length l, fst (snd (scan_fields l (k + 1) f p)),
          length pre + snd (snd (scan_fields l (k + 1) f p)))"
        using "1.IH"(2) \<open>k < length l\<close> n False "1.prems"(1) by fastforce
      also have "scan_fields l (k + 1) f p = scan_fields l k f p"
        using \<open>k < length l\<close> n False by (simp add: scan_fields.simps [of l k])
      finally show ?thesis .
    qed
  qed
qed

lemma path_offset_bound_aux:
  "p \<le> k \<Longrightarrow> k \<le> length l \<Longrightarrow>
     snd (snd (scan_fields l k f p)) \<le> fst (scan_fields l k f p) \<and>
     fst (scan_fields l k f p) \<le> length l"
proof (induction l k f p rule: scan_fields.induct)
  case (1 l k f p)
  have s: "k \<le> skip_while is_blank l k" "skip_while is_blank l k \<le> length l"
    using "1.prems"(2) skip_while_ge skip_while_le by blast+
  show ?case
    using "1.IH" "1.prems" s by (subst (1 2 3) scan_fields.simps) (auto simp: Let_def)
qed

lemma path_offset_bound: "path_offset l \<le> length l"
  using path_offset_bound_aux [of 0 0 l 0] by (simp add: path_offset_def)

lemma hide_line_length [simp]: "length (hide_line l) = length l"
  using path_offset_bound [of l] by (simp add: hide_line_def)

lemma maps_line_within:
  assumes "newline \<notin> set l"
  shows "maps_line (pre @ l @ newline # r) (length pre) =
           (pre @ hide_line l @ newline # r, length pre + length l + 1)"
proof -
  let ?p = "path_offset l"
  have s: "scan_fields (pre @ l @ newline # r) (length pre) 0 (length pre) =
      (length pre + length l, field_count l, length pre + ?p)"
    using scan_fields_within [OF assms, of 0 pre r 0 0]
    by (simp add: path_offset_def field_count_def)
  have p: "?p \<le> length l" by (rule path_offset_bound)
  have path: "take (length pre + length l - (length pre + ?p))
      (drop (length pre + ?p) (pre @ l @ newline # r)) = drop ?p l"
    using p by simp
  have wr: "write_at (length pre + ?p) (replicate (length pre + length l - (length pre + ?p)) CHR 0x20)
      (pre @ l @ newline # r) = pre @ (take ?p l @ replicate (length l - ?p) CHR 0x20) @ newline # r"
    using p by (simp add: write_at_def)
  show ?thesis
    unfolding maps_line_def s Let_def split path wr by (simp add: hide_line_def)
qed

lemma scan_fields_partial:
  "newline \<notin> set (drop j b) \<Longrightarrow> length b \<le> fst (scan_fields b j f p)"
proof (induction b j f p rule: scan_fields.induct)
  case (1 b j f p)
  show ?case
  proof (cases "j < length b")
    case False
    then show ?thesis by (simp add: scan_fields.simps [of b])
  next
    case True
    have n: "b ! j \<noteq> newline"
      using True "1.prems" by (metis Cons_nth_drop_Suc list.set_intros(1))
    have later: "newline \<notin> set (drop k b)" if "j \<le> k" for k
      using "1.prems" set_drop_subset_set_drop [OF that, of b] by blast
    have "length b \<le> fst (scan_fields b (skip_while is_blank b j) (f + 1)
        (if f + 1 = 5 then skip_while is_blank b j else p))" if "is_blank (b ! j)"
      using "1.IH"(1) [OF True n that refl] later [OF skip_while_ge] by blast
    moreover have "length b \<le> fst (scan_fields b (j + 1) f p)" if "\<not> is_blank (b ! j)"
      using "1.IH"(2) [OF True n that] later [of "j + 1"] by simp
    ultimately show ?thesis
      using True n by (subst scan_fields.simps) (simp add: Let_def)
  qed
qed

lemma maps_line_partial:
  "newline \<notin> set l \<Longrightarrow> \<exists>i. maps_line (pre @ l) (length pre) = (pre @ l, i) \<and> length (pre @ l) \<le> i"
  using scan_fields_partial [of "length pre" "pre @ l" 0 "length pre"]
  by (cases "scan_fields (pre @ l) (length pre) 0 (length pre)")
    (auto simp: maps_line_def not_less)

lemma maps_scan_lines:
  assumes "\<forall>l \<in> set ls. newline \<notin> set l" "newline \<notin> set tail"
  shows "maps_scan (pre @ text_lines ls @ tail) (length pre) =
           pre @ text_lines (map hide_line ls) @ tail"
  using assms(1)
proof (induction ls arbitrary: pre)
  case Nil
  from maps_line_partial [OF assms(2), of pre] obtain i where
    "maps_line (pre @ tail) (length pre) = (pre @ tail, i)" "length (pre @ tail) \<le> i" by blast
  then show ?case
    by (simp add: text_lines_def maps_scan.simps [of "pre @ tail" "length pre"]
        maps_scan.simps [of "pre @ tail" i])
next
  case (Cons l ls)
  let ?r = "text_lines ls @ tail"
  have s: "pre @ text_lines (l # ls) @ tail = pre @ l @ newline # ?r"
    by (simp add: text_lines_def)
  have "maps_scan (pre @ l @ newline # ?r) (length pre) =
      maps_scan (pre @ hide_line l @ newline # ?r) (length pre + length l + 1)"
    using maps_line_within [of l pre ?r] Cons.prems
    by (simp add: maps_scan.simps [of "pre @ l @ newline # ?r"])
  also have "\<dots> = maps_scan ((pre @ hide_line l @ [newline]) @ ?r)
      (length (pre @ hide_line l @ [newline]))" by simp
  also have "\<dots> = (pre @ hide_line l @ [newline]) @ text_lines (map hide_line ls) @ tail"
    by (rule Cons.IH) (use Cons.prems in simp)
  finally show ?case unfolding s by (simp add: text_lines_def)
qed

lemma sanitize_maps_lines:
  assumes "\<forall>l \<in> set ls. newline \<notin> set l" "newline \<notin> set tail"
  shows "sanitize_maps_in_buffer (text_lines ls @ tail) = text_lines (map hide_line ls) @ tail"
  using maps_scan_lines [OF assms, of "[]"]
  by (cases "text_lines ls @ tail = []")
    (auto simp: sanitize_maps_in_buffer_def text_lines_def)

lemma spaces_unmarked: "\<not> marked (replicate n CHR 0x20)"
proof
  assume "marked (replicate n CHR 0x20)"
  then obtain m a b where m: "m \<in> set kMarkers" "replicate n CHR 0x20 = a @ m @ b"
    by (auto simp: marked_def list_ex_iff str_contains_iff)
  then have "set m \<subseteq> {CHR 0x20}"
    by (metis Un_iff set_append set_replicate_conv_if empty_iff subsetI)
  with m(1) show False by (auto simp: kMarkers_def)
qed

lemma hide_line_hides:
  assumes "5 \<le> field_count l"
  shows "\<not> marked (drop (path_offset l) (hide_line l)) \<and>
         take (path_offset l) (hide_line l) = take (path_offset l) l"
  using assms path_offset_bound [of l] spaces_unmarked by (simp add: hide_line_def)

section \<open>Properties\<close>

definition pid_value :: "string \<Rightarrow> string" where
  "pid_value l = takeWhile is_digit (dropWhile is_blank (drop 10 l))"

lemma tracer_line_value:
  "take 10 l = needle \<Longrightarrow> \<not> list_ex (\<lambda>c. c \<noteq> CHR 0x30) (pid_value (tracer_line l))"
proof -
  assume n: "take 10 l = needle"
  let ?b = "takeWhile is_blank (drop 10 l)"
  let ?z = "CHR 0x30 # replicate (length l - (11 + length ?b)) CHR 0x20"
  have c: "is_digit CHR 0x30" "\<not> is_blank CHR 0x30" "\<not> is_digit CHR 0x20" by code_simp+
  have d: "takeWhile is_digit (replicate k CHR 0x20) = []" for k using c(3) by (cases k) simp_all
  have b: "dropWhile is_blank (?b @ ?z) = ?z"
    using c(2) by (subst dropWhile_append2) (auto dest: set_takeWhileD)
  show ?thesis
    using n c d b by (auto simp: tracer_line_def pid_value_def Let_def)
qed

lemma tracer_line_length: "length (tracer_line l) = length l"
proof -
  have lt: "length (takeWhile is_blank (drop 10 l)) < length (drop 10 l)"
    if "list_ex P (takeWhile is_digit (dropWhile is_blank (drop 10 l)))" for P
  proof -
    from that have "dropWhile is_blank (drop 10 l) \<noteq> []" by (cases "dropWhile is_blank (drop 10 l)") auto
    then show ?thesis
      by (metis length_takeWhile_le le_neq_implies_less append_self_conv2 takeWhile_dropWhile_id
          append_eq_conv_conj append_Nil2 same_append_eq takeWhile_eq_take take_all_iff order_refl)
  qed
  show ?thesis using lt [of "\<lambda>c. c \<noteq> CHR 0x30"] by (auto simp: tracer_line_def Let_def)
qed

text \<open>
  C21: the \<open>TracerPid\<close> of every line of a status file is hidden.  A buffer of complete
  lines comes out line by line: lines whose value is zero, and all other lines, unchanged,
  and a non-zero value replaced by a zero padded with blanks.
\<close>

theorem tracer_pid_hidden:
  assumes "\<forall>l \<in> set ls. status_line l"
  shows "sanitize_tracer_pid_in_buffer (text_lines ls) = text_lines (map tracer_line ls) \<and>
         list_all (\<lambda>l. take 10 l \<noteq> needle \<or> \<not> list_ex (\<lambda>c. c \<noteq> CHR 0x30) (pid_value l))
           (map tracer_line ls)"
proof
  show "sanitize_tracer_pid_in_buffer (text_lines ls) = text_lines (map tracer_line ls)"
    using assms by (rule sanitize_tracer_lines)
  have "take 10 (tracer_line l) \<noteq> needle \<or> \<not> list_ex (\<lambda>c. c \<noteq> CHR 0x30) (pid_value (tracer_line l))"
    for l
  proof (cases "take 10 l = needle")
    case True
    then show ?thesis using tracer_line_value by blast
  next
    case False
    then show ?thesis by (simp add: tracer_line_def)
  qed
  then show "list_all (\<lambda>l. take 10 l \<noteq> needle \<or> \<not> list_ex (\<lambda>c. c \<noteq> CHR 0x30) (pid_value l))
      (map tracer_line ls)"
    by (simp add: list_all_iff)
qed

definition sample_status :: "string list" where
  "sample_status = [''Pid: 7'', ''TracerPid: 42'']"

lemma tracer_pid_hidden_witness:
  "sanitize_tracer_pid_in_buffer (text_lines sample_status) =
     text_lines (map tracer_line sample_status)"
proof -
  have "status_line ''Pid: 7''" "status_line ''TracerPid: 42''"
    by (auto simp: status_line_def newline_def needle_def less_Suc_eq numeral_eq_Suc)
  then have "\<forall>l \<in> set sample_status. status_line l" by (simp add: sample_status_def)
  from tracer_pid_hidden [OF this] show ?thesis by blast
qed


definition sample_maps :: "string list" where
  "sample_maps = [''1-2 r-xp 0 0:0 7 /memfd:x'']"


text \<open>
  the injected \<open>read\<close> is transparent but for the content: errors, end of file and the
  number of bytes of every read are those of the real one.
\<close>

theorem read_hook_transparent:
  "new_read (Read_error e) = Read_error e \<and>
   (\<exists>b'. new_read (Read_bytes b) = Read_bytes b' \<and> length b' = length b)"
  using read_filters.both.same_length [of b] by auto

text \<open>
  what is split over two reads is not hidden.  Two reads that split a maps line in
  its pathname leave it as it is, and so do two that split the keyword \<open>TracerPid\<close>.
\<close>

theorem split_reads_leak:
  assumes "newline \<notin> set a" "newline \<notin> set b" "field_count b < 5"
  shows "sanitize_maps_in_buffer a @ sanitize_maps_in_buffer (b @ [newline]) = a @ b @ [newline] \<and>
         sanitize_tracer_pid_in_buffer ''Trac'' @ sanitize_tracer_pid_in_buffer ''erPid: 42'' =
           ''TracerPid: 42''"
proof -
  have "sanitize_maps_in_buffer a = a"
    using sanitize_maps_lines [of "[]" a] assms(1) by (simp add: text_lines_def)
  moreover have "sanitize_maps_in_buffer (b @ [newline]) = b @ [newline]"
    using sanitize_maps_lines [of "[b]" "[]"] assms(2,3) by (simp add: text_lines_def hide_line_def)
  moreover have "sanitize_tracer_pid_in_buffer ''Trac'' = ''Trac''"
    "sanitize_tracer_pid_in_buffer ''erPid: 42'' = ''erPid: 42''"
    by (simp_all add: sanitize_tracer_pid_in_buffer_def tracer_scan.simps)
  ultimately show ?thesis by simp
qed

lemma split_reads_leak_witness:
  "sanitize_maps_in_buffer ''1-2 r-xp 0 0:0 7 /mem'' @ sanitize_maps_in_buffer (''fd:x'' @ [newline]) =
     ''1-2 r-xp 0 0:0 7 /mem'' @ ''fd:x'' @ [newline]"
proof (rule split_reads_leak [THEN conjunct1])
  show "field_count ''fd:x'' < 5" by code_simp
qed (simp_all add: newline_def)

end
