(* ===== verification/Seccomp_Filter.thy ===== *)
theory Seccomp_Filter
  imports Prelude
begin

text \<open>
  \<open>injector/seccomp.cpp\<close>: the filter that makes one system call of zygote stop at its
  tracer.  The classic BPF machine it runs on is the kernel's; the instructions the
  program uses are modelled with their documented meaning (loads of a 32-bit word of
  \<open>struct seccomp_data\<close>, forward conditional jumps, return).
\<close>

section \<open>The machine\<close>

datatype bpf =
    Ld_abs nat            \<comment> \<open>\<open>BPF_LD | BPF_W | BPF_ABS\<close>\<close>
  | Jeq u32 nat nat       \<comment> \<open>\<open>BPF_JMP | BPF_JEQ | BPF_K\<close>: constant, true and false offset\<close>
  | Ret u32               \<comment> \<open>\<open>BPF_RET | BPF_K\<close>\<close>

text \<open>
  A run from an accumulator over the instructions ahead; the data is the value of the
  word at each offset.  \<open>None\<close>: the run leaves the program, which the kernel's checker
  excludes.
\<close>

function bpf_run :: "(nat \<Rightarrow> u32) \<Rightarrow> u32 \<Rightarrow> bpf list \<Rightarrow> u32 option" where
  "bpf_run dat a [] = None"
| "bpf_run dat a (Ld_abs off # is) = bpf_run dat (dat off) is"
| "bpf_run dat a (Jeq k jt jf # is) = bpf_run dat a (drop (if a = k then jt else jf) is)"
| "bpf_run dat a (Ret v # is) = Some v"
  by pat_completeness auto
termination by (relation "measure (\<lambda>(dat, a, is). length is)") auto

text \<open>\<open>struct seccomp_data\<close>: \<open>nr\<close>, \<open>arch\<close>, \<open>instruction_pointer\<close> and six 64-bit arguments.\<close>

record seccomp_data =
  nr :: u32
  arch :: u32
  instruction_pointer :: u64
  sargs :: "u64 list"

definition data_word :: "seccomp_data \<Rightarrow> nat \<Rightarrow> u32" where
  "data_word d off =
     (if off = 0 then nr d else if off = 4 then arch d
      else if off = 8 then ucast (instruction_pointer d)
      else if off = 12 then ucast (drop_bit 32 (instruction_pointer d))
      else let i = (off - 16) div 8 in
           if (off - 16) mod 8 = 0 then ucast (sargs d ! i) else ucast (drop_bit 32 (sargs d ! i)))"

definition arg_offset :: "nat \<Rightarrow> nat" where
  "arg_offset i = 16 + 8 * i"

section \<open>The program\<close>

definition SECCOMP_RET_TRACE :: u32 where "SECCOMP_RET_TRACE = 0x7ff00000"
definition SECCOMP_RET_ALLOW :: u32 where "SECCOMP_RET_ALLOW = 0x7fff0000"

definition seccomp_filter :: "u32 \<Rightarrow> u32 list \<Rightarrow> bpf list" where
  "seccomp_filter NR_exit_group args =
     [Ld_abs 0, Jeq NR_exit_group 0 9,
      Ld_abs (arg_offset 0), Jeq (args ! 0) 0 7,
      Ld_abs (arg_offset 1), Jeq (args ! 1) 0 5,
      Ld_abs (arg_offset 2), Jeq (args ! 2) 0 3,
      Ld_abs (arg_offset 3), Jeq (args ! 3) 0 1,
      Ret SECCOMP_RET_TRACE, Ret SECCOMP_RET_ALLOW]"

text \<open>The lines of \<open>/proc/self/status\<close>, or \<open>None\<close> when it cannot be opened.\<close>

definition should_skip_seccomp_injection :: "string list option \<Rightarrow> bool" where
  "should_skip_seccomp_injection status =
     (case status of
        None \<Rightarrow> True
      | Some lines \<Rightarrow> list_ex (\<lambda>l. starts_with l ''Seccomp_filters:'') lines)"

datatype seccomp_action = Install "bpf list" | Exit_group "u32 list"

text \<open>\<open>random\<close> is the 16 bytes read as four words, \<open>None\<close> when the device fails.\<close>

definition send_seccomp_event_if_needed ::
  "u32 \<Rightarrow> string list option \<Rightarrow> u32 list option \<Rightarrow> bool \<Rightarrow> seccomp_action list" where
  "send_seccomp_event_if_needed NR status random install_ok =
     (if should_skip_seccomp_injection status then []
      else case random of
        None \<Rightarrow> []
      | Some r \<Rightarrow>
          let args = r[0 := r ! 0 OR 0x10000]; filter = seccomp_filter NR args
          in if \<not> install_ok then [Install filter] else [Install filter, Exit_group args])"

section \<open>Properties\<close>

text \<open>
  the filter traps exactly one call.  It always returns a decision, and the decision
  is to stop at the tracer just when the call is \<open>exit_group\<close> and the low halves of its
  first four arguments are the random signature; every other call is allowed.
\<close>

theorem filter_exact:
  "bpf_run (data_word d) a (seccomp_filter NR args) =
     Some (if nr d = NR \<and> ucast (sargs d ! 0) = args ! 0 \<and> ucast (sargs d ! 1) = args ! 1 \<and>
              ucast (sargs d ! 2) = args ! 2 \<and> ucast (sargs d ! 3) = args ! 3
           then SECCOMP_RET_TRACE else SECCOMP_RET_ALLOW)"
  by (simp add: seccomp_filter_def arg_offset_def data_word_def)

text \<open>
  when the event is sent, the call that is made is the one the installed filter
  traps, so zygote does not exit by it; and it is made only after the filter is in place.
\<close>

theorem event_is_trapped:
  assumes "send_seccomp_event_if_needed NR status random install_ok = as" "Exit_group args \<in> set as"
    and "nr d = NR" "length (sargs d) = 6" "take 4 (sargs d) = map ucast args" "length args = 4"
  shows "as = [Install (seccomp_filter NR args), Exit_group args] \<and> bit (args ! 0) 16 \<and>
         bpf_run (data_word d) 0 (seccomp_filter NR args) = Some SECCOMP_RET_TRACE"
proof -
  have a: "sargs d ! i = ucast (args ! i)" if "i < 4" for i
    using assms(5,6) that by (metis nth_take nth_map)
  have u: "ucast (ucast (w :: u32) :: u64) = w" for w
    by (rule bit_eqI) (auto simp: bit_simps dest: bit_imp_le_length)
  have "bpf_run (data_word d) 0 (seccomp_filter NR args) = Some SECCOMP_RET_TRACE"
    using assms(3) a u by (simp add: seccomp_filter_def arg_offset_def data_word_def)
  moreover have "as = [Install (seccomp_filter NR args), Exit_group args]"
    using assms(1,2)
    by (auto simp: send_seccomp_event_if_needed_def Let_def split: if_splits option.splits)
  moreover have "bit (args ! 0) 16"
  proof -
    from assms(1,2) obtain r where "args = r[0 := r ! 0 OR 0x10000]"
      by (auto simp: send_seccomp_event_if_needed_def Let_def split: if_splits option.splits)
    with assms(6) have "args ! 0 = r ! 0 OR 0x10000" by simp
    moreover have "bit (0x10000 :: u32) 16" by simp
    ultimately show ?thesis by (simp add: bit_or_iff)
  qed
  ultimately show ?thesis by blast
qed

lemma event_is_trapped_witness:
  "bpf_run (data_word \<lparr> nr = 94, arch = 0, instruction_pointer = 0,
              sargs = [65537, 2, 3, 4, 0, 0] \<rparr>) 0 (seccomp_filter 94 [65537, 2, 3, 4]) =
     Some SECCOMP_RET_TRACE"
proof -
  let ?r = "Some [1, 2, 3, 4] :: u32 list option"
  have "send_seccomp_event_if_needed 94 (Some []) ?r True =
      [Install (seccomp_filter 94 [65537, 2, 3, 4]), Exit_group [65537, 2, 3, 4]]"
    by (simp add: send_seccomp_event_if_needed_def should_skip_seccomp_injection_def Let_def)
  from event_is_trapped [OF this] show ?thesis by simp
qed

end
