(* ===== verification/Paging.thy ===== *)
theory Paging
  imports Prelude
begin

text \<open>
  Page arithmetic, as \<open>include/atexit.hpp\<close> and \<open>ptracer/remote_csoloader.cpp\<close> have it:
  masks of a power of two on 64-bit addresses.  The interface gathers what rounding
  promises; it is interpreted on the code's masks for the page sizes of Android.
\<close>

definition page_start :: "u64 \<Rightarrow> u64 \<Rightarrow> u64" where
  "page_start ps x = x AND NOT (ps - 1)"

definition page_offset :: "u64 \<Rightarrow> u64 \<Rightarrow> u64" where
  "page_offset ps x = x AND (ps - 1)"

definition page_end :: "u64 \<Rightarrow> u64 \<Rightarrow> u64" where
  "page_end ps x = page_start ps (x + ps - 1)"

lemma page_mask: "k < 64 \<Longrightarrow> (2 ^ k - 1 :: u64) = mask k"
  by (simp add: mask_eq_exp_minus_1)

lemma unat_page_offset: "k < 64 \<Longrightarrow> unat (page_offset (2 ^ k) x) = unat x mod 2 ^ k"
proof -
  assume "k < 64"
  then have "page_offset (2 ^ k) x = take_bit k x"
    by (simp add: page_offset_def page_mask take_bit_eq_mask)
  then have "unat (page_offset (2 ^ k) x) = take_bit k (unat x)"
    by (simp only: unsigned_take_bit_eq)
  then show ?thesis by (simp only: take_bit_eq_mod)
qed

lemma unat_power_of_two: "k < 64 \<Longrightarrow> unat (2 ^ k :: u64) = 2 ^ k"
proof -
  assume "k < 64"
  then have "(2 ^ k :: nat) < 2 ^ LENGTH(64)" by (intro power_strict_increasing) simp_all
  then have "unat (of_nat (2 ^ k) :: u64) = 2 ^ k" by (simp only: unat_of_nat mod_less)
  then show ?thesis by simp
qed

lemma unat_page_start:
  assumes "k < 64"
  shows "unat (page_start (2 ^ k) x) = unat x div 2 ^ k * 2 ^ k"
proof -
  have "x = page_start (2 ^ k) x OR page_offset (2 ^ k) x"
    unfolding page_start_def page_offset_def
    by (rule bit_eqI) (auto simp: bit_simps)
  moreover have "page_start (2 ^ k) x AND page_offset (2 ^ k) x = 0"
    unfolding page_start_def page_offset_def
    by (rule bit_eqI) (auto simp: bit_simps)
  ultimately have "x = page_start (2 ^ k) x + page_offset (2 ^ k) x"
    using disjunctive_add_eq_or by metis
  then have s: "page_start (2 ^ k) x = x - page_offset (2 ^ k) x" by (metis add_diff_cancel_right')
  have "page_offset (2 ^ k) x \<le> x"
    by (simp add: word_le_nat_alt unat_page_offset assms)
  then have "unat (page_start (2 ^ k) x) = unat x - unat x mod 2 ^ k"
    by (simp add: s unat_sub unat_page_offset assms)
  then show ?thesis by (metis minus_mod_eq_div_mult)
qed

lemma unat_page_end:
  assumes "k < 64" "unat x + 2 ^ k \<le> 2 ^ 64"
  shows "unat (page_end (2 ^ k) x) = (unat x + (2 ^ k - 1)) div 2 ^ k * 2 ^ k"
proof -
  have p: "unat (2 ^ k :: u64) = 2 ^ k" using assms(1) by (rule unat_power_of_two)
  have "x + 2 ^ k - 1 = of_nat (unat x + (2 ^ k - 1))"
  proof -
    have "(of_nat (2 ^ k - 1) :: u64) = 2 ^ k - 1" by (simp add: of_nat_diff)
    then show ?thesis by (simp only: of_nat_add) simp
  qed
  moreover have "unat x + (2 ^ k - 1) < 2 ^ LENGTH(64)"
  proof -
    have "(0::nat) < 2 ^ k" by simp
    then show ?thesis using assms(2) by simp
  qed
  ultimately have "unat (x + 2 ^ k - 1) = unat x + (2 ^ k - 1)" by (simp only: unat_of_nat mod_less)
  then show ?thesis by (simp add: page_end_def unat_page_start assms(1))
qed

text \<open>What rounding to pages promises, on the values of addresses.\<close>

locale page_rounding =
  fixes ps :: nat and down :: "u64 \<Rightarrow> u64" and up :: "u64 \<Rightarrow> u64"
  assumes ps_pos: "0 < ps"
    and down_value: "unat (down x) = unat x div ps * ps"
    and up_value: "unat x + ps \<le> 2 ^ 64 \<Longrightarrow> unat (up x) = (unat x + (ps - 1)) div ps * ps"
begin

lemma down_le: "unat (down x) \<le> unat x"
  by (simp add: down_value)

lemma down_aligned: "ps dvd unat (down x)"
  by (simp add: down_value)

lemma down_near: "unat x < unat (down x) + ps"
proof -
  have "unat x = unat x div ps * ps + unat x mod ps" by simp
  moreover have "unat x mod ps < ps" using ps_pos by simp
  ultimately show ?thesis using down_value [of x] by linarith
qed

lemma up_ge: "unat x + ps \<le> 2 ^ 64 \<Longrightarrow> unat x \<le> unat (up x)"
proof -
  assume a: "unat x + ps \<le> 2 ^ 64"
  let ?y = "unat x + (ps - 1)"
  have "?y = ?y div ps * ps + ?y mod ps" by simp
  moreover have "?y mod ps \<le> ps - 1" using ps_pos by (simp add: Suc_leI less_Suc_eq_le [symmetric])
  ultimately show ?thesis using up_value [OF a] by linarith
qed

lemma up_aligned: "unat x + ps \<le> 2 ^ 64 \<Longrightarrow> ps dvd unat (up x)"
  by (simp add: up_value)

lemma up_near: "unat x + ps \<le> 2 ^ 64 \<Longrightarrow> unat (up x) < unat x + ps"
proof -
  assume a: "unat x + ps \<le> 2 ^ 64"
  have "(unat x + (ps - 1)) div ps * ps \<le> unat x + (ps - 1)" by (simp add: mult.commute)
  with up_value [OF a] ps_pos show ?thesis by linarith
qed

lemma up_mono:
  "unat x \<le> unat y \<Longrightarrow> unat y + ps \<le> 2 ^ 64 \<Longrightarrow> unat (up x) \<le> unat (up y)"
  by (simp add: up_value mult_le_mono1 div_le_mono)

end

interpretation pages_4k: page_rounding 4096 "page_start 4096" "page_end 4096"
  using unat_page_start [of 12] unat_page_end [of 12] by unfold_locales simp_all

interpretation pages_16k: page_rounding 16384 "page_start 16384" "page_end 16384"
  using unat_page_start [of 14] unat_page_end [of 14] by unfold_locales simp_all

end
