(* ===== verification/Atexit.thy ===== *)
theory Atexit
  imports Paging
begin

text \<open>
  \<open>injector/atexit.cpp\<close> and \<open>include/atexit.hpp\<close>: the array of exit handlers inside libc,
  which is compacted after modules are unloaded.  The array's memory is the list of its
  entries; page protection and advice are recorded as calls.
\<close>

section \<open>State\<close>

record atexit_entry =
  ae_fn :: u64
  ae_arg :: u64
  ae_dso :: u64

record atexit_array =
  aa_array :: "atexit_entry list option"   \<comment> \<open>\<open>array_\<close>, null before the first registration\<close>
  aa_size :: u64
  aa_extracted_count :: u64
  aa_capacity :: u64
  aa_total_appends :: u64

datatype page_call = Mprotect u64 u64 bool | Madvise_dontneed u64 u64

definition null_entry :: atexit_entry where
  "null_entry = \<lparr> ae_fn = 0, ae_arg = 0, ae_dso = 0 \<rparr>"

definition live :: "atexit_entry \<Rightarrow> bool" where
  "live e \<longleftrightarrow> ae_fn e \<noteq> 0"

definition page_start_of_index :: "u64 \<Rightarrow> u64 \<Rightarrow> u64" where
  "page_start_of_index ps idx = page_start ps (idx * 24)"

definition page_end_of_index :: "u64 \<Rightarrow> u64 \<Rightarrow> u64" where
  "page_end_of_index ps idx = page_end ps (idx * 24)"

definition needs_recompaction :: "u64 \<Rightarrow> atexit_array \<Rightarrow> bool" where
  "needs_recompaction ps a \<longleftrightarrow>
     page_end_of_index ps (aa_size a - aa_extracted_count a) < page_end_of_index ps (aa_size a)"

definition set_writable :: "u64 \<Rightarrow> bool \<Rightarrow> u64 \<Rightarrow> u64 \<Rightarrow> atexit_array \<Rightarrow> page_call list" where
  "set_writable ps writable start_idx num_entries a =
     (if aa_array a = None then []
      else let start_byte = page_start_of_index ps start_idx;
               stop_byte = page_end_of_index ps (start_idx + num_entries)
           in [Mprotect start_byte (stop_byte - start_byte) writable])"

section \<open>Compaction\<close>

text \<open>The loop over the rest of the array: \<open>src\<close> reads, \<open>dst\<close> is where live entries go.\<close>

function shift_entries :: "atexit_entry list \<Rightarrow> nat \<Rightarrow> nat \<Rightarrow> nat \<Rightarrow> atexit_entry list \<times> nat" where
  "shift_entries es sz src dst =
     (if src < sz then
        let e = es ! src; es1 = es[src := null_entry] in
        if live e then shift_entries (es1[dst := e]) sz (src + 1) (dst + 1)
        else shift_entries es1 sz (src + 1) dst
      else (es, dst))"
  by pat_completeness auto
termination by (relation "measure (\<lambda>(es, sz, src, dst). sz - src)") (auto simp: Let_def)

declare shift_entries.simps [simp del]

definition compact :: "atexit_entry list \<Rightarrow> nat \<Rightarrow> atexit_entry list \<times> nat" where
  "compact es sz =
     (let k = length (takeWhile live (take sz es)) in shift_entries es sz k k)"

text \<open>The test at the start only logs; a read past the array or through null faults.\<close>

definition recompact :: "u64 \<Rightarrow> atexit_array \<Rightarrow> (atexit_array \<times> page_call list) res" where
  "recompact ps a =
     (let n = aa_size a; start = set_writable ps True 0 n a in
      case aa_array a of
        None \<Rightarrow>
          if n \<noteq> 0 then Inl Null_deref
          else Inr (a\<lparr> aa_extracted_count := 0, aa_total_appends := 0 \<rparr>, [])
      | Some es \<Rightarrow>
          if length es < unat n then Inl Bad_read
          else
            let (es', dst) = compact es (unat n);
                old_bytes = page_end_of_index ps n;
                new_bytes = page_end_of_index ps (of_nat dst);
                advice = (if new_bytes < old_bytes
                          then [Madvise_dontneed new_bytes (old_bytes - new_bytes)] else [])
            in Inr (a\<lparr> aa_array := Some es', aa_size := of_nat dst, aa_extracted_count := 0,
                       aa_total_appends := of_nat dst \<rparr>,
                    start @ advice @ set_writable ps False 0 n a))"

text \<open>
  \<open>findAtexitArray\<close>: \<open>lookup\<close> is \<open>findDirectSymbol\<close> on libc (zero when absent), \<open>size_at\<close> the
  size field of the structure at an address.
\<close>

definition findAtexitArray :: "bool \<Rightarrow> (string \<Rightarrow> u64) \<Rightarrow> (u64 \<Rightarrow> u64) \<Rightarrow> u64 option" where
  "findAtexitArray libc_valid lookup size_at =
     (if \<not> libc_valid then None
      else let p = lookup ''_ZL7g_array.0'';
               g = (if p \<noteq> 0 then p else lookup ''_ZL7g_array'')
           in if g = 0 then None else if size_at g < 4096 * 16 then Some g else None)"

text \<open>\<open>clean_libc_trace\<close> (\<open>injector/clean.cpp\<close>): \<open>array_at\<close> is the array at an address.\<close>

definition clean_libc_trace ::
  "u64 \<Rightarrow> bool \<Rightarrow> (string \<Rightarrow> u64) \<Rightarrow> (u64 \<Rightarrow> u64) \<Rightarrow> (u64 \<Rightarrow> atexit_array) \<Rightarrow>
     (atexit_array \<times> page_call list) option res" where
  "clean_libc_trace ps libc_valid lookup size_at array_at =
     (case findAtexitArray libc_valid lookup size_at of
        None \<Rightarrow> Inr None
      | Some g \<Rightarrow> bind_res (recompact ps (array_at g)) (\<lambda>r. Inr (Some r)))"

section \<open>The loop computes the live entries\<close>

lemma shift_entries_result:
  assumes "dst \<le> src" "src \<le> sz" "sz \<le> length es"
    and "\<forall>i. dst \<le> i \<longrightarrow> i < src \<longrightarrow> es ! i = null_entry"
  shows "shift_entries es sz src dst =
     (let rest = filter live (take (sz - src) (drop src es)) in
      (take dst es @ rest @ replicate (sz - dst - length rest) null_entry @ drop sz es,
       dst + length rest))"
  using assms
proof (induction es sz src dst rule: shift_entries.induct)
  case (1 es sz src dst)
  show ?case
  proof (cases "src < sz")
    case False
    with "1.prems" have "src = sz" by simp
    have gap: "take (sz - dst) (drop dst es) = replicate (sz - dst) null_entry"
      using "1.prems" \<open>src = sz\<close> by (intro nth_equalityI) auto
    have "es = take dst es @ take (sz - dst) (drop dst es) @ drop sz es"
      using "1.prems" \<open>src = sz\<close>
      by (metis append_take_drop_id drop_drop le_add_diff_inverse2)
    then show ?thesis
      using \<open>src = sz\<close> gap by (simp add: shift_entries.simps)
  next
    case True
    let ?e = "es ! src" and ?es1 = "es[src := null_entry]"
    have d: "take (sz - src) (drop src es) = ?e # take (sz - Suc src) (drop (Suc src) es)"
      using True "1.prems"(3)
      by (metis Cons_nth_drop_Suc Suc_diff_Suc less_le_trans take_Suc_Cons)
    show ?thesis
    proof (cases "live ?e")
      case live: True
      let ?es2 = "?es1[dst := ?e]"
      have z: "\<forall>i. dst + 1 \<le> i \<longrightarrow> i < src + 1 \<longrightarrow> ?es2 ! i = null_entry"
        using "1.prems" True by (auto simp: nth_list_update)
      have r: "drop (Suc src) ?es2 = drop (Suc src) es" "drop sz ?es2 = drop sz es"
        using "1.prems" True by simp_all
      have t: "take (Suc dst) ?es2 = take dst es @ [?e]"
        using "1.prems" True by (simp add: take_Suc_conv_app_nth)
      have "shift_entries es sz src dst = shift_entries ?es2 sz (src + 1) (dst + 1)"
        using True live by (simp add: shift_entries.simps [of es] Let_def)
      also have "\<dots> = (let rest = filter live (take (sz - (src + 1)) (drop (src + 1) ?es2)) in
          (take (dst + 1) ?es2 @ rest @ replicate (sz - (dst + 1) - length rest) null_entry @
           drop sz ?es2, dst + 1 + length rest))"
        using "1.IH"(1) [OF True refl refl live] "1.prems" True z by simp
      finally show ?thesis using live by (simp add: r t d Let_def)
    next
      case dead: False
      have z: "\<forall>i. dst \<le> i \<longrightarrow> i < src + 1 \<longrightarrow> ?es1 ! i = null_entry"
        using "1.prems" True by (auto simp: nth_list_update less_Suc_eq)
      have r: "drop (Suc src) ?es1 = drop (Suc src) es" "drop sz ?es1 = drop sz es"
        "take dst ?es1 = take dst es"
        using "1.prems" True by simp_all
      have "shift_entries es sz src dst = shift_entries ?es1 sz (src + 1) dst"
        using True dead by (simp add: shift_entries.simps [of es] Let_def)
      also have "\<dots> = (let rest = filter live (take (sz - (src + 1)) (drop (src + 1) ?es1)) in
          (take dst ?es1 @ rest @ replicate (sz - dst - length rest) null_entry @
           drop sz ?es1, dst + length rest))"
        using "1.IH"(2) [OF True refl refl dead] "1.prems" True z by simp
      finally show ?thesis using dead by (simp add: r d Let_def)
    qed
  qed
qed

lemma compact_result:
  assumes "sz \<le> length es"
  shows "compact es sz =
     (let rest = filter live (take sz es) in
      (rest @ replicate (sz - length rest) null_entry @ drop sz es, length rest))"
proof -
  let ?k = "length (takeWhile live (take sz es))"
  have k: "?k \<le> sz" using length_takeWhile_le [of live "take sz es"] assms by simp
  have tk: "take ?k es = takeWhile live (take sz es)"
  proof -
    have "takeWhile live (take sz es) = take ?k (take sz es)" by (rule takeWhile_eq_take)
    also have "\<dots> = take ?k es" using k by (simp only: take_take min.absorb1)
    finally show ?thesis by (rule sym)
  qed
  have f: "filter live (take sz es) = take ?k es @ filter live (take (sz - ?k) (drop ?k es))"
  proof -
    have "take sz es = take ?k es @ take (sz - ?k) (drop ?k es)"
      using k by (metis le_add_diff_inverse take_add)
    moreover have "filter live (take ?k es) = take ?k es"
      unfolding tk filter_id_conv by (blast dest: set_takeWhileD)
    ultimately show ?thesis by (metis filter_append)
  qed
  have lk: "length (take ?k es) = ?k" using k assms by simp
  have r: "shift_entries es sz ?k ?k =
     (take ?k es @ filter live (take (sz - ?k) (drop ?k es)) @
      replicate (sz - ?k - length (filter live (take (sz - ?k) (drop ?k es)))) null_entry @ drop sz es,
      ?k + length (filter live (take (sz - ?k) (drop ?k es))))"
    using shift_entries_result [of ?k ?k sz es] k assms by (simp only: Let_def) auto
  show ?thesis unfolding compact_def Let_def r f length_append lk diff_diff_left append_assoc ..
qed

lemma length_live_le: "length (filter live (take n es)) \<le> n"
  using length_filter_le [of live "take n es"] by simp

section \<open>Properties\<close>

text \<open>
  recompaction keeps exactly the live handlers, in order, and clears the rest of the
  used part; and giving pages back to the system cannot lose a handler, because every live
  entry ends before the first byte that is given back.
\<close>

theorem recompact_keeps_live:
  assumes "aa_array a = Some es" "unat (aa_size a) \<le> length es" "aa_size a < 65536"
  shows "\<exists>a' calls. recompact 4096 a = Inr (a', calls) \<and>
     (let keep = filter live (take (unat (aa_size a)) es) in
      aa_array a' = Some (keep @ replicate (unat (aa_size a) - length keep) null_entry @
                          drop (unat (aa_size a)) es) \<and>
      unat (aa_size a') = length keep \<and> unat (aa_total_appends a') = length keep \<and>
      aa_extracted_count a' = 0 \<and> aa_capacity a' = aa_capacity a \<and>
      list_all (\<lambda>c. case c of Madvise_dontneed s n \<Rightarrow> length keep * 24 \<le> unat s | _ \<Rightarrow> True) calls)"
proof -
  let ?n = "unat (aa_size a)"
  let ?keep = "filter live (take ?n es)"
  have l: "length ?keep \<le> ?n" by (rule length_live_le)
  have n: "?n < 65536" using assms(3) by (simp add: word_less_nat_alt)
  then have k: "length ?keep < 65536" using l by simp
  then have u: "unat (of_nat (length ?keep) :: u64) = length ?keep"
    by (simp add: unat_of_nat)
  have b: "unat (of_nat (length ?keep) * 24 :: u64) = length ?keep * 24"
  proof -
    have "(of_nat (length ?keep) * 24 :: u64) = of_nat (length ?keep * 24)" by simp
    then show ?thesis using k by (simp only: unat_of_nat) simp
  qed
  have e: "length ?keep * 24 \<le> unat (page_end_of_index 4096 (of_nat (length ?keep)))"
    using pages_4k.up_ge [of "of_nat (length ?keep) * 24"] b k
    by (simp add: page_end_of_index_def)
  have c: "compact es ?n = (?keep @ replicate (?n - length ?keep) null_entry @ drop ?n es, length ?keep)"
    using compact_result [OF assms(2)] by (simp add: Let_def)
  show ?thesis
    using assms(1,2) c u e by (simp add: recompact_def set_writable_def Let_def)
qed

definition sample_entries :: "atexit_entry list" where
  "sample_entries = [\<lparr> ae_fn = 1, ae_arg = 2, ae_dso = 3 \<rparr>, \<lparr> ae_fn = 0, ae_arg = 9, ae_dso = 0 \<rparr>,
                     \<lparr> ae_fn = 4, ae_arg = 5, ae_dso = 6 \<rparr>, null_entry]"

definition sample_array :: atexit_array where
  "sample_array = \<lparr> aa_array = Some sample_entries, aa_size = 3, aa_extracted_count = 1,
                    aa_capacity = 4, aa_total_appends = 3 \<rparr>"

lemma recompact_keeps_live_witness:
  "\<exists>a' calls. recompact 4096 sample_array = Inr (a', calls) \<and> aa_size a' = 2"
proof -
  have "aa_array sample_array = Some sample_entries"
    "unat (aa_size sample_array) \<le> length sample_entries" "aa_size sample_array < 65536"
    by (simp_all add: sample_array_def sample_entries_def)
  from recompact_keeps_live [OF this] obtain a' calls where
    r: "recompact 4096 sample_array = Inr (a', calls)"
    and "unat (aa_size a') = length (filter live (take (unat (aa_size sample_array)) sample_entries))"
    by (auto simp: Let_def)
  moreover have "take 3 sample_entries =
      [\<lparr> ae_fn = 1, ae_arg = 2, ae_dso = 3 \<rparr>, \<lparr> ae_fn = 0, ae_arg = 9, ae_dso = 0 \<rparr>,
       \<lparr> ae_fn = 4, ae_arg = 5, ae_dso = 6 \<rparr>]"
    by (simp add: sample_entries_def)
  ultimately have "unat (aa_size a') = 2" by (simp add: sample_array_def live_def)
  then have "aa_size a' = 2" by (simp add: word_unat_eq_iff)
  with r show ?thesis by blast
qed

end
