(* ===== verification/Socket_Io.thy ===== *)
theory Socket_Io
  imports Prelude
begin

text \<open>
  \<open>common/socket_utils.cpp\<close>: exact reads and writes on a stream socket, the values of the
  wire format, and the receipt of a file descriptor.  The kernel's side of one connection
  is the sequence of bytes still to come, each with the control message attached to it,
  and a schedule that says what successive calls do: deliver at most so many bytes, be
  interrupted by a signal, or fail.  When the schedule is used up every call is served in
  full, so it is a finite but otherwise arbitrary adversary.
\<close>

section \<open>A connection and its system calls\<close>

datatype io_event = Deliver nat | Interrupted | Failed

text \<open>A control message: descriptors arrive as \<open>SCM_RIGHTS\<close>; others carry other data.\<close>

datatype ancillary = Scm_rights int | Other_cmsg int

type_synonym wire_byte = "u8 \<times> ancillary option"

record sock =
  s_fd :: int
  rx :: "wire_byte list"
  tx :: "u8 list"
  sched :: "io_event list"
  cmsg_junk :: int   \<comment> \<open>what an uninitialised control buffer holds where a descriptor would be\<close>
  heap_junk :: "u8 list"   \<comment> \<open>what fresh heap memory holds\<close>
  leaked :: nat   \<comment> \<open>heap buffers nobody frees\<close>

datatype 'a io_result = Io_done 'a | Io_eintr | Io_error

definition k_read :: "nat \<Rightarrow> sock \<Rightarrow> u8 list io_result \<times> sock" where
  "k_read n s =
     (if s_fd s < 0 then (Io_error, s)
      else case sched s of
        [] \<Rightarrow> (Io_done (List.map fst (take n (rx s))), s\<lparr> rx := drop n (rx s) \<rparr>)
      | Deliver k # es \<Rightarrow>
          let j = min n (max 1 k)
          in (Io_done (List.map fst (take j (rx s))), s\<lparr> rx := drop j (rx s), sched := es \<rparr>)
      | Interrupted # es \<Rightarrow> (Io_eintr, s\<lparr> sched := es \<rparr>)
      | Failed # es \<Rightarrow> (Io_error, s\<lparr> sched := es \<rparr>))"

definition k_write :: "u8 list \<Rightarrow> sock \<Rightarrow> nat io_result \<times> sock" where
  "k_write bs s =
     (if s_fd s < 0 then (Io_error, s)
      else case sched s of
        [] \<Rightarrow> (Io_done (length bs), s\<lparr> tx := tx s @ bs \<rparr>)
      | Deliver k # es \<Rightarrow>
          let j = min (length bs) (max 1 k)
          in (Io_done j, s\<lparr> tx := tx s @ take j bs, sched := es \<rparr>)
      | Interrupted # es \<Rightarrow> (Io_eintr, s\<lparr> sched := es \<rparr>)
      | Failed # es \<Rightarrow> (Io_error, s\<lparr> sched := es \<rparr>))"

text \<open>
  \<open>recvmsg\<close> with \<open>MSG_WAITALL\<close> waits for all bytes or the end of the stream, and hands
  over the first control message attached to them.
\<close>

definition k_recvmsg ::
  "nat \<Rightarrow> sock \<Rightarrow> (u8 list \<times> ancillary option) io_result \<times> sock" where
  "k_recvmsg n s =
     (if s_fd s < 0 then (Io_error, s)
      else case sched s of
        Interrupted # es \<Rightarrow> (Io_eintr, s\<lparr> sched := es \<rparr>)
      | Failed # es \<Rightarrow> (Io_error, s\<lparr> sched := es \<rparr>)
      | _ \<Rightarrow>
          let bs = take n (rx s)
          in (Io_done (List.map fst bs,
                       (case List.map_filter snd bs of a # _ \<Rightarrow> Some a | [] \<Rightarrow> None)),
              s\<lparr> rx := drop n (rx s), sched := tl (sched s) \<rparr>))"

section \<open>Exact reads and writes\<close>

lemma k_read_progress:
  "k_read n s = (r, s') \<Longrightarrow> r \<noteq> Io_error \<Longrightarrow>
     length (sched s') < length (sched s) \<or>
     (sched s' = sched s \<and> (\<exists>bs. r = Io_done bs \<and> length bs \<le> n \<and> length bs \<le> length (rx s)))"
  by (auto simp: k_read_def Let_def split: if_splits list.splits io_event.splits)

lemma k_read_length: "k_read n s = (Io_done bs, s') \<Longrightarrow> length bs \<le> n"
  by (auto simp: k_read_def Let_def split: if_splits list.splits io_event.splits)

text \<open>
  The loop of \<open>xread\<close> with what it has read so far: \<open>continue\<close> goes to the loop condition,
  where \<open>ret\<close> is not 0 after an interruption.
\<close>

function xread_loop :: "nat \<Rightarrow> u8 list \<Rightarrow> sock \<Rightarrow> int \<times> u8 list \<times> sock" where
  "xread_loop count acc s =
     (case k_read (count - length acc) s of
        (Io_error, s') \<Rightarrow> (- 1, acc, s')
      | (Io_eintr, s') \<Rightarrow>
          if length acc \<noteq> count then xread_loop count acc s' else (int (length acc), acc, s')
      | (Io_done bs, s') \<Rightarrow>
          if length (acc @ bs) \<noteq> count \<and> bs \<noteq> [] then xread_loop count (acc @ bs) s'
          else (int (length (acc @ bs)), acc @ bs, s'))"
  by pat_completeness auto

termination
proof (relation "measure (\<lambda>(count, acc, s). length (sched s) + (count - length acc))", goal_cases)
  case (2 count acc s x s' bs)
  then have k: "k_read (count - length acc) s = (Io_done bs, s')" by simp
  from 2 have "bs \<noteq> []" by simp
  then have "0 < length bs" by simp
  have "length (sched s') \<le> length (sched s)" using k_read_progress [OF k] by auto
  moreover have "length bs \<le> count - length acc" by (rule k_read_length [OF k])
  ultimately have "length (sched s') + (count - (length acc + length bs))
      < length (sched s) + (count - length acc)"
    using \<open>0 < length bs\<close> by linarith
  then show ?case by simp
next
  case (3 count acc s x s')
  then have k: "k_read (count - length acc) s = (Io_eintr, s')" by simp
  from k_read_progress [OF k] show ?case by auto
qed simp

declare xread_loop.simps [simp del]

definition xread :: "nat \<Rightarrow> sock \<Rightarrow> int \<times> u8 list \<times> sock" where
  "xread count s = xread_loop count [] s"

function xwrite_loop :: "u8 list \<Rightarrow> nat \<Rightarrow> sock \<Rightarrow> nat \<times> sock" where
  "xwrite_loop buf n s =
     (case k_write (drop n buf) s of
        (Io_error, s') \<Rightarrow> (n, s')
      | (Io_eintr, s') \<Rightarrow> if n \<noteq> length buf then xwrite_loop buf n s' else (n, s')
      | (Io_done k, s') \<Rightarrow>
          if n + k \<noteq> length buf \<and> k \<noteq> 0 then xwrite_loop buf (n + k) s' else (n + k, s'))"
  by pat_completeness auto

termination
  by (relation "measure (\<lambda>(buf, n, s). length (sched s) + (length buf - n))")
    (auto simp: k_write_def Let_def split: if_splits list.splits io_event.splits)

declare xwrite_loop.simps [simp del]

definition xwrite :: "u8 list \<Rightarrow> sock \<Rightarrow> nat \<times> sock" where
  "xwrite buf s = xwrite_loop buf 0 s"

section \<open>Values\<close>

text \<open>\<open>read_exact_or\<close> of an unsigned integer of \<open>w\<close> bytes, and \<open>write_exact\<close>.\<close>

definition read_exact_or :: "nat \<Rightarrow> nat \<Rightarrow> sock \<Rightarrow> nat \<times> sock" where
  "read_exact_or w fail s =
     (case xread w s of (r, bs, s') \<Rightarrow> (if r = int w then le_value bs else fail, s'))"

definition write_exact :: "nat \<Rightarrow> nat \<Rightarrow> sock \<Rightarrow> bool \<times> sock" where
  "write_exact w v s = (case xwrite (le_bytes w v) s of (n, s') \<Rightarrow> (n = w, s'))"

definition read_u8 :: "sock \<Rightarrow> u8 \<times> sock" where
  "read_u8 s = (case read_exact_or 1 0 s of (v, s') \<Rightarrow> (of_nat v, s'))"

definition read_u32 :: "sock \<Rightarrow> u32 \<times> sock" where
  "read_u32 s = (case read_exact_or 4 0 s of (v, s') \<Rightarrow> (of_nat v, s'))"

definition read_usize :: "sock \<Rightarrow> u64 \<times> sock" where
  "read_usize s = (case read_exact_or 8 0 s of (v, s') \<Rightarrow> (of_nat v, s'))"

definition write_u8 :: "u8 \<Rightarrow> sock \<Rightarrow> bool \<times> sock" where
  "write_u8 v s = write_exact 1 (unat v) s"

definition write_u32 :: "u32 \<Rightarrow> sock \<Rightarrow> bool \<times> sock" where
  "write_u32 v s = write_exact 4 (unat v) s"

definition write_usize :: "u64 \<Rightarrow> sock \<Rightarrow> bool \<times> sock" where
  "write_usize v s = write_exact 8 (unat v) s"

text \<open>
  \<open>len + 1\<close> wraps, so a length of all ones allocates nothing and writes before the block;
  a size beyond half of the address space makes \<open>new\<close> throw.  A short read leaves the
  rest of the buffer as the heap had it; the string ends at the first NUL.
\<close>

definition read_string :: "sock \<Rightarrow> (u8 list \<times> sock) res" where
  "read_string s =
     (case read_usize s of (len, s1) \<Rightarrow>
        if len + 1 = 0 then Inl Buffer_overflow
        else if 2 ^ 63 \<le> unat (len + 1) then Inl Uncaught_exception
        else case xread (unat len) s1 of (_, bs, s2) \<Rightarrow>
          let buf = bs @ take (unat len - length bs) (drop (length bs) (heap_junk s2))
          in Inr (takeWhile (\<lambda>b. b \<noteq> 0) buf, s2\<lparr> leaked := leaked s2 + 1 \<rparr>))"

definition write_string :: "u8 list \<Rightarrow> sock \<Rightarrow> bool \<times> sock" where
  "write_string str s =
     (case write_usize (of_nat (length str)) s of
        (ok, s1) \<Rightarrow>
          if \<not> ok then (False, s1)
          else case xwrite str s1 of (n, s2) \<Rightarrow> (length str = n, s2))"

section \<open>Descriptors\<close>

text \<open>
  \<open>recv_fds\<close> for one descriptor, with the buffer of \<open>recv_fd\<close>: the result of \<open>recvmsg\<close> is
  logged but not acted upon.  When the call fails, \<open>msg_controllen\<close> still is the size of
  the buffer, so \<open>CMSG_FIRSTHDR\<close> yields the uninitialised buffer itself.
\<close>

definition recv_fds :: "sock \<Rightarrow> int option \<times> sock" where
  "recv_fds s =
     (case k_recvmsg 4 s of
        (Io_done (_, Some (Scm_rights fd)), s') \<Rightarrow> (Some fd, s')
      | (Io_done (_, Some (Other_cmsg v)), s') \<Rightarrow> (Some v, s')
      | (Io_done (_, None), s') \<Rightarrow> (None, s')
      | (_, s') \<Rightarrow> (Some (cmsg_junk s'), s'))"

definition recv_fd :: "sock \<Rightarrow> int \<times> sock" where
  "recv_fd s = (case recv_fds s of (None, s') \<Rightarrow> (- 1, s') | (Some v, s') \<Rightarrow> (v, s'))"

section \<open>Exactness\<close>

text \<open>The loop ends with the buffer filled from the front of the stream, by some of the events.\<close>

definition fills :: "nat \<Rightarrow> u8 list \<Rightarrow> sock \<Rightarrow> bool" where
  "fills count acc s \<longleftrightarrow>
     (\<exists>es. xread_loop count acc s =
        (int count, acc @ List.map fst (take (count - length acc) (rx s)),
         s\<lparr> rx := drop (count - length acc) (rx s), sched := es \<rparr>) \<and> set es \<subseteq> set (sched s))"

lemma fills_after_delivery:
  assumes e: "k_read (count - length acc) s = (Io_done bs, s\<lparr> rx := drop j (rx s), sched := es \<rparr>)"
    and b: "bs = List.map fst (take j (rx s))" "length bs = j" "j \<le> count - length acc"
    and go: "length (acc @ bs) \<noteq> count \<and> bs \<noteq> []"
    and rest: "fills count (acc @ bs) (s\<lparr> rx := drop j (rx s), sched := es \<rparr>)" "set es \<subseteq> set (sched s)"
  shows "fills count acc s"
proof -
  let ?m = "count - length acc" and ?s' = "s\<lparr> rx := drop j (rx s), sched := es \<rparr>"
  have m: "count - length (acc @ bs) = ?m - j" using b(2) by simp
  from rest obtain es' where r: "xread_loop count (acc @ bs) ?s' =
      (int count, (acc @ bs) @ List.map fst (take (?m - j) (rx ?s')),
       ?s'\<lparr> rx := drop (?m - j) (rx ?s'), sched := es' \<rparr>)" and sub: "set es' \<subseteq> set (sched s)"
    unfolding fills_def m by auto
  have "take ?m (rx s) = take j (rx s) @ take (?m - j) (drop j (rx s))"
    using b(3) by (metis le_add_diff_inverse take_add)
  moreover have "drop (?m - j) (drop j (rx s)) = drop ?m (rx s)"
    using b(3) by (simp only: drop_drop le_add_diff_inverse2)
  moreover have "xread_loop count acc s = xread_loop count (acc @ bs) ?s'"
    by (subst xread_loop.simps) (simp only: e prod.case io_result.case go simp_thms if_True)
  ultimately show ?thesis
    unfolding fills_def using r sub b(1) by (intro exI [of _ es'] conjI) simp_all
qed

lemma fills_at_once:
  assumes e: "k_read (count - length acc) s = (Io_done bs, s\<lparr> rx := drop j (rx s), sched := es \<rparr>)"
    and b: "bs = List.map fst (take j (rx s))" "length bs = j" "j = min (count - length acc) (max 1 k)"
    and stop: "\<not> (length (acc @ bs) \<noteq> count \<and> bs \<noteq> [])" "length acc \<le> count" "set es \<subseteq> set (sched s)"
  shows "fills count acc s"
proof -
  have "count - length acc = j"
  proof (rule ccontr)
    assume n: "count - length acc \<noteq> j"
    then have "length (acc @ bs) \<noteq> count" using b(2) by auto
    moreover have "0 < j" using n b(3) by auto
    then have "bs \<noteq> []" using b(2) by (metis less_numeral_extra(3) list.size(3))
    ultimately show False using stop(1) by blast
  qed
  then have m: "count - length acc = j" .
  have lc: "length (acc @ bs) = count"
    using b(2) stop(2) m unfolding length_append by linarith
  have x: "xread_loop count acc s = (int (length (acc @ bs)), acc @ bs, s\<lparr> rx := drop j (rx s), sched := es \<rparr>)"
    by (subst xread_loop.simps) (simp only: e prod.case io_result.case stop(1) simp_thms if_False)
  have "xread_loop count acc s =
      (int count, acc @ List.map fst (take (count - length acc) (rx s)),
       s\<lparr> rx := drop (count - length acc) (rx s), sched := es \<rparr>)"
    unfolding m using x [unfolded lc] unfolding b(1) .
  with stop(3) show ?thesis unfolding fills_def by blast
qed

lemma fills_undisturbed:
  assumes "\<not> s_fd s < 0" "sched s = []" "count - length acc \<le> length (rx s)" "length acc \<le> count"
  shows "fills count acc s"
proof -
  let ?m = "count - length acc"
  have e: "k_read ?m s = (Io_done (List.map fst (take ?m (rx s))), s\<lparr> rx := drop ?m (rx s) \<rparr>)"
    using assms(1,2) by (simp add: k_read_def)
  have "s\<lparr>rx := drop ?m (rx s), sched := []\<rparr> = s\<lparr>rx := drop ?m (rx s)\<rparr>"
    using assms(2) by (cases s) simp
  then show ?thesis
    unfolding fills_def using assms e
    by (intro exI [of _ "[]"]) (simp add: xread_loop.simps [of count acc s])
qed

lemma fills_interrupted:
  assumes "\<not> s_fd s < 0" "sched s = Interrupted # es" "length acc \<le> count"
    and "length acc \<noteq> count \<Longrightarrow> fills count acc (s\<lparr> sched := es \<rparr>)"
  shows "fills count acc s"
proof -
  have e: "k_read (count - length acc) s = (Io_eintr, s\<lparr> sched := es \<rparr>)"
    using assms(1,2) by (simp add: k_read_def)
  show ?thesis
  proof (cases "length acc = count")
    case True
    then show ?thesis
      unfolding fills_def using e assms(2)
      by (intro exI [of _ es]) (auto simp: xread_loop.simps [of count acc s])
  next
    case False
    from assms(4) [OF this] show ?thesis
      unfolding fills_def using e False assms(2) by (auto simp: xread_loop.simps [of count acc s])
  qed
qed

lemma xread_fills:
  "0 \<le> s_fd s \<Longrightarrow> Failed \<notin> set (sched s) \<Longrightarrow> count - length acc \<le> length (rx s) \<Longrightarrow>
     length acc \<le> count \<Longrightarrow> fills count acc s"
proof (induction count acc s rule: xread_loop.induct)
  case (1 count acc s)
  let ?m = "count - length acc"
  have fd: "\<not> s_fd s < 0" using "1.prems" by simp
  show ?case
  proof (cases "sched s")
    case (Cons ev es)
    show ?thesis
    proof (cases ev)
      case (Deliver k)
      let ?j = "min ?m (max 1 k)"
      let ?bs = "List.map fst (take ?j (rx s))" and ?s' = "s\<lparr> rx := drop ?j (rx s), sched := es \<rparr>"
      have e: "k_read ?m s = (Io_done ?bs, ?s')"
        using fd Cons Deliver by (simp add: k_read_def Let_def)
      have lb: "length ?bs = ?j" and sub: "set es \<subseteq> set (sched s)" using "1.prems" Cons by auto
      show ?thesis
      proof (cases "length (acc @ ?bs) \<noteq> count \<and> ?bs \<noteq> []")
        case True
        have "fills count (acc @ ?bs) ?s'"
          by (rule "1.IH"(1) [OF e [symmetric] refl True]) (use "1.prems" Cons lb in auto)
        then show ?thesis by (rule fills_after_delivery [OF e refl lb min.cobounded1 True _ sub])
      next
        case False
        then show ?thesis by (rule fills_at_once [OF e refl lb refl _ "1.prems"(4) sub])
      qed
    next
      case Interrupted
      have e: "k_read ?m s = (Io_eintr, s\<lparr> sched := es \<rparr>)"
        using fd Cons Interrupted by (simp add: k_read_def)
      have sc: "sched s = Interrupted # es" using Cons Interrupted by simp
      have "fills count acc (s\<lparr> sched := es \<rparr>)" if "length acc \<noteq> count"
        by (rule "1.IH"(2) [OF e [symmetric] refl that]) (use "1.prems" Cons in auto)
      then show ?thesis by (rule fills_interrupted [OF fd sc "1.prems"(4)])
    next
      case Failed
      with Cons "1.prems"(2) show ?thesis by simp
    qed
  next
    case Nil
    show ?thesis by (rule fills_undisturbed [OF fd Nil "1.prems"(3,4)])
  qed
qed

lemmas xread_loop_exact = xread_fills [unfolded fills_def]

lemma xread_exact:
  assumes "0 \<le> s_fd s" "Failed \<notin> set (sched s)" "n \<le> length (rx s)"
  shows "\<exists>es. xread n s = (int n, List.map fst (take n (rx s)), s\<lparr> rx := drop n (rx s), sched := es \<rparr>) \<and>
     set es \<subseteq> set (sched s)"
  using xread_loop_exact [of s n "[]"] assms by (simp add: xread_def)

lemma k_write_cases:
  assumes "0 \<le> s_fd s" "Failed \<notin> set (sched s)" "k_write bs s = (r, s')"
  shows "(r = Io_eintr \<and> rx s' = rx s \<and> tx s' = tx s) \<or>
     (\<exists>k. r = Io_done k \<and> k \<le> length bs \<and> (bs \<noteq> [] \<longrightarrow> 0 < k) \<and>
        rx s' = rx s \<and> tx s' = tx s @ take k bs)"
    and "s_fd s' = s_fd s \<and> set (sched s') \<subseteq> set (sched s) \<and> cmsg_junk s' = cmsg_junk s"
proof -
  have f: "\<not> s_fd s < 0" using assms(1) by simp
  show "(r = Io_eintr \<and> rx s' = rx s \<and> tx s' = tx s) \<or>
     (\<exists>k. r = Io_done k \<and> k \<le> length bs \<and> (bs \<noteq> [] \<longrightarrow> 0 < k) \<and>
        rx s' = rx s \<and> tx s' = tx s @ take k bs)"
    using assms f
    by (auto simp: k_write_def Let_def split: list.splits io_event.splits)
  show "s_fd s' = s_fd s \<and> set (sched s') \<subseteq> set (sched s) \<and> cmsg_junk s' = cmsg_junk s"
    using assms f
    by (auto simp: k_write_def Let_def split: list.splits io_event.splits)
qed

text \<open>What a completed write changes.\<close>

definition sent :: "u8 list \<Rightarrow> sock \<Rightarrow> sock \<Rightarrow> bool" where
  "sent bs s s' \<longleftrightarrow> rx s' = rx s \<and> tx s' = tx s @ bs \<and> s_fd s' = s_fd s \<and>
     set (sched s') \<subseteq> set (sched s) \<and> cmsg_junk s' = cmsg_junk s"

lemma xwrite_loop_exact:
  "0 \<le> s_fd s \<Longrightarrow> Failed \<notin> set (sched s) \<Longrightarrow> n \<le> length buf \<Longrightarrow>
     \<exists>s'. xwrite_loop buf n s = (length buf, s') \<and> sent (drop n buf) s s'"
proof (induction buf n s rule: xwrite_loop.induct)
  case (1 buf n s)
  obtain r t where k: "k_write (drop n buf) s = (r, t)" by fastforce
  note c = k_write_cases [OF "1.prems"(1,2) k]
  have t: "0 \<le> s_fd t" "Failed \<notin> set (sched t)" using c(2) "1.prems" by auto
  from c(1) show ?case
  proof (elim disjE exE conjE)
    assume r: "r = Io_eintr" and e: "rx t = rx s" "tx t = tx s"
    show ?thesis
    proof (cases "n = length buf")
      case True
      then show ?thesis
        using k r e c(2) by (simp add: xwrite_loop.simps [of buf "length buf" s] sent_def)
    next
      case False
      from "1.IH"(2) [OF k [symmetric] r False t "1.prems"(3)] obtain s' where
        "xwrite_loop buf n t = (length buf, s')" "sent (drop n buf) t s'" by blast
      then show ?thesis
        using k r e c(2) False by (auto simp: xwrite_loop.simps [of buf n s] sent_def)
    qed
  next
    fix j assume r: "r = Io_done j" and j: "j \<le> length (drop n buf)" "drop n buf \<noteq> [] \<longrightarrow> 0 < j"
      and e: "rx t = rx s" "tx t = tx s @ take j (drop n buf)"
    show ?thesis
    proof (cases "n + j \<noteq> length buf \<and> j \<noteq> 0")
      case True
      have "n + j \<le> length buf" using j "1.prems"(3) by simp
      from "1.IH"(1) [OF k [symmetric] r True t this] obtain s' where
        "xwrite_loop buf (n + j) t = (length buf, s')" "sent (drop (n + j) buf) t s'" by blast
      moreover have "take j (drop n buf) @ drop (n + j) buf = drop n buf"
        by (metis add.commute append_take_drop_id drop_drop)
      ultimately show ?thesis
        using k r e c(2) True by (auto simp: xwrite_loop.simps [of buf n s] sent_def)
    next
      case False
      have n: "n + j = length buf"
      proof (cases "drop n buf = []")
        case True
        then show ?thesis using j(1) "1.prems"(3) by simp
      next
        case False': False
        with j(2) have "0 < j" by simp
        with False show ?thesis by simp
      qed
      then have "take j (drop n buf) = drop n buf" by simp
      then show ?thesis
        using k r e c(2) False n by (simp add: xwrite_loop.simps [of buf n s] sent_def)
    qed
  qed
qed

lemma xwrite_exact:
  "0 \<le> s_fd s \<Longrightarrow> Failed \<notin> set (sched s) \<Longrightarrow> \<exists>s'. xwrite buf s = (length buf, s') \<and> sent buf s s'"
  using xwrite_loop_exact [of s 0 buf] by (simp add: xwrite_def)

end
