(* ===== verification/Wire_Format.thy ===== *)
theory Wire_Format
  imports Socket_Io
begin

text \<open>
  The values of the daemon protocol as bytes on the wire.  A \<open>codec\<close> is what an encoder
  on one side and a decoder on the other promise each other: on an undisturbed connection
  the decoder returns the encoded value and leaves the stream at what follows, however the
  kernel splits the bytes.  Codecs compose, and a loop over a codec reads a list back; the
  interpretations discharge the law for the reads of \<open>socket_utils.cpp\<close>.
\<close>

section \<open>The contract\<close>

definition undisturbed :: "sock \<Rightarrow> bool" where
  "undisturbed s \<longleftrightarrow> 0 \<le> s_fd s \<and> Failed \<notin> set (sched s) \<and> Interrupted \<notin> set (sched s)"

text \<open>What a decoder leaves alone.\<close>

definition continues :: "sock \<Rightarrow> sock \<Rightarrow> bool" where
  "continues s s' \<longleftrightarrow>
     undisturbed s' \<and> s_fd s' = s_fd s \<and> tx s' = tx s \<and> cmsg_junk s' = cmsg_junk s"

lemma continues_trans: "continues s t \<Longrightarrow> continues t u \<Longrightarrow> continues s u"
  by (simp add: continues_def)

lemma continues_refl [simp]: "undisturbed s \<Longrightarrow> continues s s"
  by (simp add: continues_def)

lemma continues_undisturbed [simp]: "continues s s' \<Longrightarrow> undisturbed s'"
  by (simp add: continues_def)

text \<open>Reading one value after another, and a counted loop of reads.\<close>

definition get_pair ::
  "(sock \<Rightarrow> ('a \<times> sock) res) \<Rightarrow> (sock \<Rightarrow> ('b \<times> sock) res) \<Rightarrow> sock \<Rightarrow> (('a \<times> 'b) \<times> sock) res" where
  "get_pair f g s =
     bind_res (f s) (\<lambda>(x, s1). bind_res (g s1) (\<lambda>(y, s2). Inr ((x, y), s2)))"

lemma get_pair_Inr:
  "get_pair f g s = Inr ((x, y), s2) \<Longrightarrow> \<exists>s1. f s = Inr (x, s1) \<and> g s1 = Inr (y, s2)"
  by (auto simp: get_pair_def split: prod.splits)

fun read_n :: "(sock \<Rightarrow> ('a \<times> sock) res) \<Rightarrow> nat \<Rightarrow> sock \<Rightarrow> ('a list \<times> sock) res" where
  "read_n f 0 s = Inr ([], s)"
| "read_n f (Suc n) s =
     bind_res (f s) (\<lambda>(x, s1). bind_res (read_n f n s1) (\<lambda>(xs, s2). Inr (x # xs, s2)))"

locale codec =
  fixes put :: "'a \<Rightarrow> wire_byte list"
    and get :: "sock \<Rightarrow> ('a \<times> sock) res"
    and ok :: "'a \<Rightarrow> bool"
  assumes get_put:
    "undisturbed s \<Longrightarrow> ok x \<Longrightarrow> rx s = put x @ rest \<Longrightarrow>
     \<exists>s'. get s = Inr (x, s') \<and> rx s' = rest \<and> continues s s'"
begin

lemma get_list:
  "undisturbed s \<Longrightarrow> list_all ok xs \<Longrightarrow> rx s = concat (List.map put xs) @ rest \<Longrightarrow>
     \<exists>s'. read_n get (length xs) s = Inr (xs, s') \<and> rx s' = rest \<and> continues s s'"
proof (induction xs arbitrary: s)
  case Nil
  then show ?case by simp
next
  case (Cons x xs)
  from Cons.prems have "ok x" "rx s = put x @ (concat (List.map put xs) @ rest)" by simp_all
  from get_put [OF Cons.prems(1) this] obtain s1 where
    s1: "get s = Inr (x, s1)" "rx s1 = concat (List.map put xs) @ rest" "continues s s1"
    by blast
  from Cons.IH [of s1] s1 Cons.prems obtain s2 where
    "read_n get (length xs) s1 = Inr (xs, s2)" "rx s2 = rest" "continues s1 s2"
    by auto
  with s1 show ?case by (auto intro: continues_trans)
qed

lemma put_inj: "ok x \<Longrightarrow> ok y \<Longrightarrow> put x = put y \<Longrightarrow> x = y"
proof -
  assume a: "ok x" "ok y" "put x = put y"
  let ?s = "\<lparr> s_fd = 0, rx = put x, tx = [], sched = [], cmsg_junk = 0, heap_junk = [], leaked = 0 \<rparr>"
  have u: "undisturbed ?s" by (simp add: undisturbed_def)
  have "rx ?s = put x @ []" by simp
  from get_put [OF u a(1) this] obtain s1 where x: "get ?s = Inr (x, s1)" by blast
  have "rx ?s = put y @ []" by (simp add: a(3))
  from get_put [OF u a(2) this] obtain s2 where "get ?s = Inr (y, s2)" by blast
  with x show "x = y" by simp
qed

end

locale codec_pair =
  fst_codec: codec put1 get1 ok1 + snd_codec: codec put2 get2 ok2
  for put1 :: "'a \<Rightarrow> wire_byte list" and get1 ok1
    and put2 :: "'b \<Rightarrow> wire_byte list" and get2 ok2
begin

lemma get_both:
  "undisturbed s \<Longrightarrow> ok1 x \<Longrightarrow> ok2 y \<Longrightarrow> rx s = put1 x @ put2 y @ rest \<Longrightarrow>
     \<exists>s'. get_pair get1 get2 s = Inr ((x, y), s') \<and> rx s' = rest \<and> continues s s'"
proof -
  assume a: "undisturbed s" "ok1 x" "ok2 y" "rx s = put1 x @ put2 y @ rest"
  from fst_codec.get_put [OF a(1,2,4)] obtain s1 where
    s1: "get1 s = Inr (x, s1)" "rx s1 = put2 y @ rest" "continues s s1" by blast
  from snd_codec.get_put [of s1 y rest] s1 a(3) obtain s2 where
    "get2 s1 = Inr (y, s2)" "rx s2 = rest" "continues s1 s2" by auto
  with s1 show ?thesis by (auto simp: get_pair_def intro: continues_trans)
qed

end

sublocale codec_pair \<subseteq> pair_codec: codec
  "\<lambda>(x, y). put1 x @ put2 y" "get_pair get1 get2" "\<lambda>(x, y). ok1 x \<and> ok2 y"
  by unfold_locales (auto dest: get_both)

section \<open>The encoders\<close>

definition plain :: "u8 list \<Rightarrow> wire_byte list" where
  "plain bs = List.map (\<lambda>b. (b, None)) bs"

definition u8_bytes :: "u8 \<Rightarrow> wire_byte list" where
  "u8_bytes v = plain (le_bytes 1 (unat v))"

definition u32_bytes :: "u32 \<Rightarrow> wire_byte list" where
  "u32_bytes v = plain (le_bytes 4 (unat v))"

definition usize_bytes :: "u64 \<Rightarrow> wire_byte list" where
  "usize_bytes v = plain (le_bytes 8 (unat v))"

definition string_bytes :: "u8 list \<Rightarrow> wire_byte list" where
  "string_bytes str = usize_bytes (of_nat (length str)) @ plain str"

definition wire_string :: "u8 list \<Rightarrow> bool" where
  "wire_string str \<longleftrightarrow> length str < 2 ^ 62 \<and> 0 \<notin> set str"

text \<open>A descriptor travels with four bytes of dummy data, on the first of them.\<close>

definition fd_bytes :: "int \<Rightarrow> wire_byte list" where
  "fd_bytes fd = [(0, Some (Scm_rights fd)), (0, None), (0, None), (0, None)]"

lemma map_fst_plain [simp]: "List.map fst (plain bs) = bs"
  by (simp add: plain_def comp_def)

lemma length_plain [simp]: "length (plain bs) = length bs"
  by (simp add: plain_def)

section \<open>The decoders of \<open>socket_utils.cpp\<close> keep the contract\<close>

lemma xread_plain:
  assumes "undisturbed s" "rx s = plain bs @ rest"
  shows "\<exists>s'. xread (length bs) s = (int (length bs), bs, s') \<and> rx s' = rest \<and>
     heap_junk s' = heap_junk s \<and> continues s s'"
proof -
  from assms have p: "0 \<le> s_fd s" "Failed \<notin> set (sched s)" "length bs \<le> length (rx s)"
    by (simp_all add: undisturbed_def)
  have t: "take (length bs) (rx s) = plain bs" "drop (length bs) (rx s) = rest"
    using assms(2) by simp_all
  from xread_exact [OF p] t obtain es where
    x: "xread (length bs) s = (int (length bs), bs, s\<lparr> rx := rest, sched := es \<rparr>)"
    "set es \<subseteq> set (sched s)" by auto
  have "continues s (s\<lparr> rx := rest, sched := es \<rparr>)"
    using assms(1) x(2) by (auto simp: continues_def undisturbed_def)
  with x(1) show ?thesis by (intro exI [of _ "s\<lparr> rx := rest, sched := es \<rparr>"]) simp
qed

lemma read_exact_or_plain:
  assumes "undisturbed s" "rx s = plain (le_bytes w v) @ rest" "v < 256 ^ w"
  shows "\<exists>s'. read_exact_or w fail s = (v, s') \<and> rx s' = rest \<and>
     heap_junk s' = heap_junk s \<and> continues s s'"
  using xread_plain [OF assms(1,2)] assms(3)
  by (auto simp: read_exact_or_def le_value_le_bytes)

interpretation u8_wire: codec u8_bytes "\<lambda>s. Inr (read_u8 s)" "\<lambda>_. True"
proof
  fix s x rest assume "undisturbed s" "rx s = u8_bytes x @ rest"
  moreover have "unat x < 256 ^ 1" using unsigned_less [of x, where ?'a = nat] by simp
  ultimately show "\<exists>s'. Inr (read_u8 s) = Inr (x, s') \<and> rx s' = rest \<and> continues s s'"
    using read_exact_or_plain [of s 1 "unat x" rest 0] by (auto simp: read_u8_def u8_bytes_def)
qed

interpretation u32_wire: codec u32_bytes "\<lambda>s. Inr (read_u32 s)" "\<lambda>_. True"
proof
  fix s x rest assume "undisturbed s" "rx s = u32_bytes x @ rest"
  moreover have "unat x < 256 ^ 4" using unsigned_less [of x, where ?'a = nat] by simp
  ultimately show "\<exists>s'. Inr (read_u32 s) = Inr (x, s') \<and> rx s' = rest \<and> continues s s'"
    using read_exact_or_plain [of s 4 "unat x" rest 0] by (auto simp: read_u32_def u32_bytes_def)
qed

lemma read_usize_plain:
  "undisturbed s \<Longrightarrow> rx s = usize_bytes x @ rest \<Longrightarrow>
     \<exists>s'. read_usize s = (x, s') \<and> rx s' = rest \<and> heap_junk s' = heap_junk s \<and> continues s s'"
proof -
  assume "undisturbed s" "rx s = usize_bytes x @ rest"
  moreover have "unat x < 256 ^ 8" using unsigned_less [of x, where ?'a = nat] by simp
  ultimately show ?thesis
    using read_exact_or_plain [of s 8 "unat x" rest 0] by (auto simp: read_usize_def usize_bytes_def)
qed

interpretation usize_wire: codec usize_bytes "\<lambda>s. Inr (read_usize s)" "\<lambda>_. True"
  using read_usize_plain by unfold_locales force

lemma read_string_whole:
  assumes "read_usize s = (len, s1)" "len + 1 \<noteq> 0" "unat (len + 1) < 2 ^ 63"
    "xread (unat len) s1 = (r, bs, s2)" "length bs = unat len" "0 \<notin> set bs"
  shows "read_string s = Inr (bs, s2\<lparr> leaked := leaked s2 + 1 \<rparr>)"
proof -
  have "takeWhile (\<lambda>b. b \<noteq> 0) bs = bs" using assms(6) by (auto simp: takeWhile_eq_all_conv)
  moreover have "\<not> 2 ^ 63 \<le> unat (len + 1)" using assms(3) by (simp only: not_le)
  ultimately show ?thesis
    by (simp only: read_string_def assms prod.case if_False if_True Let_def diff_self_eq_0 take_0
        append_Nil2)
qed

lemma string_length_fits:
  assumes "n < 2 ^ 62"
  shows "unat (of_nat n :: u64) = n" "(of_nat n + 1 :: u64) \<noteq> 0" "unat (of_nat n + 1 :: u64) < 2 ^ 63"
proof -
  have "n + 1 < 2 ^ LENGTH(64)" using assms by simp
  then have "unat (of_nat (n + 1) :: u64) = n + 1" "unat (of_nat n :: u64) = n"
    by (simp_all only: unat_of_nat mod_less)
  then have u: "unat (of_nat n + 1 :: u64) = n + 1" and "unat (of_nat n :: u64) = n"
    by (simp_all add: add.commute)
  then show "unat (of_nat n :: u64) = n" by simp
  show "(of_nat n + 1 :: u64) \<noteq> 0" using u by (metis Suc_eq_plus1 nat.distinct(1) unsigned_0)
  show "unat (of_nat n + 1 :: u64) < 2 ^ 63" unfolding u using assms by simp
qed

lemma read_string_plain:
  assumes "undisturbed s" "wire_string x" "rx s = string_bytes x @ rest"
  shows "\<exists>s'. read_string s = Inr (x, s') \<and> rx s' = rest \<and> continues s s'"
proof -
  let ?n = "of_nat (length x) :: u64"
  from assms(2) have l: "length x < 2 ^ 62" and z: "0 \<notin> set x"
    unfolding wire_string_def by (rule conjunct1, rule conjunct2)
  note n = string_length_fits [OF l]
  from assms(3) have "rx s = usize_bytes ?n @ (plain x @ rest)"
    unfolding string_bytes_def append_assoc .
  from read_usize_plain [OF assms(1) this] obtain s1 where
    s1: "read_usize s = (?n, s1)" "rx s1 = plain x @ rest" "continues s s1" by blast
  from xread_plain [OF continues_undisturbed [OF s1(3)] s1(2)] obtain s2 where
    s2: "xread (length x) s1 = (int (length x), x, s2)" "rx s2 = rest" "continues s1 s2" by blast
  let ?s' = "s2\<lparr> leaked := leaked s2 + 1 \<rparr>"
  have "xread (unat ?n) s1 = (int (length x), x, s2)" by (simp only: n(1) s2(1))
  then have "read_string s = Inr (x, ?s')"
    by (rule read_string_whole [OF s1(1) n(2,3) _ n(1) [symmetric] z])
  moreover have "continues s ?s'"
    using continues_trans [OF s1(3) s2(3)] by (simp add: continues_def undisturbed_def)
  moreover have "rx ?s' = rest" using s2(2) by simp
  ultimately show ?thesis by blast
qed

interpretation string_wire: codec string_bytes read_string wire_string
  by unfold_locales (rule read_string_plain)

interpretation fd_wire: codec fd_bytes "\<lambda>s. Inr (recv_fd s)" "\<lambda>_. True"
proof
  fix s x rest assume a: "undisturbed s" "rx s = fd_bytes x @ rest"
  let ?s' = "s\<lparr> rx := rest, sched := tl (sched s) \<rparr>"
  have "set (tl (sched s)) \<subseteq> set (sched s)" by (cases "sched s") auto
  then have c: "continues s ?s'"
    using a(1) by (auto simp: continues_def undisturbed_def)
  have t: "take 4 (rx s) = fd_bytes x" "drop 4 (rx s) = rest"
    using a(2) by (simp_all add: fd_bytes_def eval_nat_numeral)
  have "k_recvmsg 4 s = (Io_done ([0, 0, 0, 0], Some (Scm_rights x)), ?s')"
  proof (cases "sched s")
    case Nil
    with a(1) t show ?thesis
      by (simp add: k_recvmsg_def undisturbed_def fd_bytes_def map_filter_simps)
  next
    case (Cons e es)
    with a(1) obtain k where "e = Deliver k" by (cases e) (auto simp: undisturbed_def)
    with Cons a(1) t show ?thesis
      by (simp add: k_recvmsg_def undisturbed_def fd_bytes_def map_filter_simps)
  qed
  then have "recv_fd s = (x, ?s')" by (simp add: recv_fd_def recv_fds_def)
  with c show "\<exists>s'. Inr (recv_fd s) = Inr (x, s') \<and> rx s' = rest \<and> continues s s'" by simp
qed

interpretation string_fd: codec_pair string_bytes read_string wire_string
  fd_bytes "\<lambda>s. Inr (recv_fd s)" "\<lambda>_. True"
  by unfold_locales

text \<open>A count and that many values.\<close>

context codec
begin

lemma counted_list:
  assumes "undisturbed s" "list_all ok xs" "length xs < 2 ^ 64"
    "rx s = usize_bytes (of_nat (length xs)) @ (concat (List.map put xs) @ rest)"
  shows "\<exists>s'. (case read_usize s of (len, s1) \<Rightarrow> read_n get (unat len) s1) = Inr (xs, s') \<and>
     rx s' = rest \<and> continues s s'"
proof -
  let ?n = "of_nat (length xs) :: u64"
  have "length xs < 2 ^ LENGTH(64)" using assms(3) by simp
  then have n: "unat ?n = length xs" by (simp only: unat_of_nat mod_less)
  from read_usize_plain [OF assms(1,4)] obtain s1 where
    s1: "read_usize s = (?n, s1)" "rx s1 = concat (List.map put xs) @ rest" "continues s s1" by blast
  from get_list [OF continues_undisturbed [OF s1(3)] assms(2) s1(2)] obtain s2 where
    "read_n get (length xs) s1 = Inr (xs, s2)" "rx s2 = rest" "continues s1 s2" by blast
  with s1 show ?thesis by (auto simp: n intro: continues_trans)
qed

end

end
