(* ===== verification/Daemon_Link.thy ===== *)
theory Daemon_Link
  imports Wire_Format
begin

text \<open>
  \<open>common/daemon.cpp\<close>: the requests the injected library sends to the daemon zygiskd.
  A \<open>link\<close> holds the socket the next \<open>socket\<close> call yields, the results of the successive
  \<open>connect\<close> calls, the connection with its peer, and the descriptors closed so far.
\<close>

section \<open>The connection\<close>

record link =
  tmp_path :: string
  socket_result :: int
  connects :: "bool list"
  conn :: sock
  closed :: "int list"
  sleeps :: nat

datatype SocketAction =
    PingHeartbeat_action | GetProcessFlags_action | CacheMountNamespace_action
  | UpdateMountNamespace_action | ReadModules_action | RequestCompanionSocket_action
  | GetModuleDir_action | ZygoteRestart_action | SystemServerStarted_action
  | ReadFnModules_action | GetFnModuleDir_action

fun action_byte :: "SocketAction \<Rightarrow> u8" where
  "action_byte PingHeartbeat_action = 0"
| "action_byte GetProcessFlags_action = 1"
| "action_byte CacheMountNamespace_action = 2"
| "action_byte UpdateMountNamespace_action = 3"
| "action_byte ReadModules_action = 4"
| "action_byte RequestCompanionSocket_action = 5"
| "action_byte GetModuleDir_action = 6"
| "action_byte ZygoteRestart_action = 7"
| "action_byte SystemServerStarted_action = 8"
| "action_byte ReadFnModules_action = 12"
| "action_byte GetFnModuleDir_action = 13"

datatype MountNamespace = Clean | Root

fun mount_namespace_byte :: "MountNamespace \<Rightarrow> u8" where
  "mount_namespace_byte Clean = 0"
| "mount_namespace_byte Root = 1"

record module_entry =
  me_name :: "u8 list"
  me_memfd :: int

record fn_module_entry =
  fe_id :: "u8 list"
  fe_triggers :: "u8 list"
  fe_scope :: u8
  fe_apps :: "u8 list"
  fe_priority :: u32
  fe_memfd :: int

definition Init :: "string \<Rightarrow> link \<Rightarrow> link" where
  "Init path w = w\<lparr> tmp_path := path \<rparr>"

definition kCPSocketName :: string where
  "kCPSocketName = ''/cp64.sock''"

text \<open>The attempts to connect: the result, the outcomes left, and the seconds slept.\<close>

fun connect_loop :: "nat \<Rightarrow> bool list \<Rightarrow> bool \<times> bool list \<times> nat" where
  "connect_loop 0 cs = (False, cs, 0)"
| "connect_loop (Suc retry) cs =
     (if cs \<noteq> [] \<and> hd cs then (True, tl cs, 0)
      else case connect_loop retry (tl cs) of
        (ok, cs', n) \<Rightarrow> (ok, cs', if retry \<noteq> 0 then n + 1 else n))"

text \<open>
  \<open>Connect\<close>: the path goes into the 108 bytes of \<open>sun_path\<close> with \<open>strcpy\<close>; a failed
  \<open>socket\<close> call is not checked, so that every \<open>connect\<close> fails.
\<close>

definition Connect :: "u8 \<Rightarrow> link \<Rightarrow> (int \<times> link) res" where
  "Connect retry w =
     (let fd = socket_result w in
      if 108 \<le> length (tmp_path w @ kCPSocketName) then Inl Buffer_overflow
      else case connect_loop (unat retry) (if fd < 0 then [] else connects w) of
        (ok, cs, n) \<Rightarrow>
          let w1 = w\<lparr> connects := cs, sleeps := sleeps w + n \<rparr>
          in if ok then Inr (fd, w1\<lparr> conn := (conn w)\<lparr> s_fd := fd \<rparr> \<rparr>)
             else Inr (- 1, w1\<lparr> conn := (conn w)\<lparr> s_fd := - 1 \<rparr>, closed := closed w @ [fd] \<rparr>))"

text \<open>The destructor of \<open>UniqueFd\<close>.\<close>

definition UniqueFd_drop :: "int \<Rightarrow> link \<Rightarrow> link" where
  "UniqueFd_drop fd w = (if 0 \<le> fd then w\<lparr> closed := closed w @ [fd] \<rparr> else w)"

text \<open>
  The common frame of the requests: connect, return \<open>fail\<close> when that does not succeed,
  run the body on the connection and close it.
\<close>

definition with_daemon :: "u8 \<Rightarrow> 'a \<Rightarrow> (sock \<Rightarrow> ('a \<times> sock) res) \<Rightarrow> link \<Rightarrow> ('a \<times> link) res" where
  "with_daemon retry fail body w =
     bind_res (Connect retry w) (\<lambda>(fd, w1).
       if fd = - 1 then Inr (fail, w1)
       else bind_res (body (conn w1)) (\<lambda>(v, s). Inr (v, UniqueFd_drop fd (w1\<lparr> conn := s \<rparr>))))"

definition send_action :: "SocketAction \<Rightarrow> sock \<Rightarrow> sock" where
  "send_action a s = snd (write_u8 (action_byte a) s)"

section \<open>The requests\<close>

definition PingHeartbeat :: "link \<Rightarrow> (bool \<times> link) res" where
  "PingHeartbeat =
     with_daemon 5 False (\<lambda>s. Inr (True, send_action PingHeartbeat_action s))"

definition GetProcessFlags :: "u32 \<Rightarrow> link \<Rightarrow> (u32 \<times> link) res" where
  "GetProcessFlags uid =
     with_daemon 1 0 (\<lambda>s. Inr (read_u32 (snd (write_u32 uid (send_action GetProcessFlags_action s)))))"

text \<open>The only request that goes on after a failed connection, with descriptor -1.\<close>

definition CacheMountNamespace :: "u32 \<Rightarrow> link \<Rightarrow> (unit \<times> link) res" where
  "CacheMountNamespace pid w =
     bind_res (Connect 1 w) (\<lambda>(fd, w1).
       let s = snd (write_u32 pid (send_action CacheMountNamespace_action (conn w1)))
       in Inr ((), UniqueFd_drop fd (w1\<lparr> conn := s \<rparr>)))"

definition UpdateMountNamespace :: "MountNamespace \<Rightarrow> link \<Rightarrow> (int \<times> link) res" where
  "UpdateMountNamespace type =
     with_daemon 1 (- 1) (\<lambda>s.
       case read_u8 (snd (write_u8 (mount_namespace_byte type)
                           (send_action UpdateMountNamespace_action s))) of
         (status, s1) \<Rightarrow>
           if status = 0 then Inr (- 1, s1)
           else case recv_fd s1 of (namespace_fd, s2) \<Rightarrow>
             if namespace_fd < 0 then Inr (- 1, s2) else Inr (namespace_fd, s2))"

definition read_module :: "sock \<Rightarrow> (module_entry \<times> sock) res" where
  "read_module s =
     bind_res (read_string s) (\<lambda>(name, s1).
       case recv_fd s1 of (module_fd, s2) \<Rightarrow>
         Inr (\<lparr> me_name = name, me_memfd = module_fd \<rparr>, s2))"

definition ReadModules :: "link \<Rightarrow> (module_entry list \<times> link) res" where
  "ReadModules =
     with_daemon 1 [] (\<lambda>s.
       case read_usize (send_action ReadModules_action s) of
         (len, s1) \<Rightarrow> read_n read_module (unat len) s1)"

definition read_fn_module :: "sock \<Rightarrow> (fn_module_entry \<times> sock) res" where
  "read_fn_module s =
     bind_res (read_string s) (\<lambda>(ident, s1).
     bind_res (read_string s1) (\<lambda>(triggers, s2).
       case read_u8 s2 of (scope, s3) \<Rightarrow>
     bind_res (read_string s3) (\<lambda>(apps, s4).
       case read_u32 s4 of (priority, s5) \<Rightarrow>
       case recv_fd s5 of (module_fd, s6) \<Rightarrow>
         Inr (\<lparr> fe_id = ident, fe_triggers = triggers, fe_scope = scope, fe_apps = apps,
                fe_priority = priority, fe_memfd = module_fd \<rparr>, s6))))"

definition ReadFnModules :: "link \<Rightarrow> (fn_module_entry list \<times> link) res" where
  "ReadFnModules =
     with_daemon 1 [] (\<lambda>s.
       case read_usize (send_action ReadFnModules_action s) of
         (len, s1) \<Rightarrow> read_n read_fn_module (unat len) s1)"

definition GetFnModuleDir :: "u8 list \<Rightarrow> link \<Rightarrow> (int \<times> link) res" where
  "GetFnModuleDir ident =
     with_daemon 1 (- 1) (\<lambda>s.
       Inr (recv_fd (snd (write_string ident (send_action GetFnModuleDir_action s)))))"

text \<open>The connection to a companion stays open when the daemon accepts the request.\<close>

definition ConnectCompanion :: "u64 \<Rightarrow> link \<Rightarrow> (int \<times> link) res" where
  "ConnectCompanion index w =
     bind_res (Connect 1 w) (\<lambda>(fd, w1).
       if fd = - 1 then Inr (- 1, w1)
       else case read_u8 (snd (write_usize index
                               (send_action RequestCompanionSocket_action (conn w1)))) of
         (v, s) \<Rightarrow>
           if v = 1 then Inr (fd, w1\<lparr> conn := s \<rparr>)
           else Inr (- 1, w1\<lparr> conn := s, closed := closed w1 @ [fd] \<rparr>))"

definition GetModuleDir :: "u64 \<Rightarrow> u8 list option \<Rightarrow> link \<Rightarrow> (int \<times> link) res" where
  "GetModuleDir index name =
     with_daemon 2 (- 1) (\<lambda>s.
       Inr (recv_fd (snd (write_string (case name of None \<Rightarrow> [] | Some n \<Rightarrow> n)
              (snd (write_usize index (send_action GetModuleDir_action s)))))))"

definition ZygoteRestart :: "link \<Rightarrow> (unit \<times> link) res" where
  "ZygoteRestart = with_daemon 1 () (\<lambda>s. Inr ((), send_action ZygoteRestart_action s))"

definition SystemServerStarted :: "link \<Rightarrow> (unit \<times> link) res" where
  "SystemServerStarted = with_daemon 1 () (\<lambda>s. Inr ((), send_action SystemServerStarted_action s))"

section \<open>The daemon's replies\<close>

text \<open>What \<open>handle_read_modules\<close> and \<open>handle_read_fn_modules\<close> of zygiskd write.\<close>

definition module_bytes :: "module_entry \<Rightarrow> wire_byte list" where
  "module_bytes m = string_bytes (me_name m) @ fd_bytes (me_memfd m)"

definition handle_read_modules :: "module_entry list \<Rightarrow> wire_byte list" where
  "handle_read_modules ms =
     usize_bytes (of_nat (length ms)) @ concat (List.map module_bytes ms)"

definition fn_module_bytes :: "fn_module_entry \<Rightarrow> wire_byte list" where
  "fn_module_bytes m =
     string_bytes (fe_id m) @ string_bytes (fe_triggers m) @ u8_bytes (fe_scope m) @
     string_bytes (fe_apps m) @ u32_bytes (fe_priority m) @ fd_bytes (fe_memfd m)"

definition handle_read_fn_modules :: "fn_module_entry list \<Rightarrow> wire_byte list" where
  "handle_read_fn_modules ms =
     usize_bytes (of_nat (length ms)) @ concat (List.map fn_module_bytes ms)"

definition module_ok :: "module_entry \<Rightarrow> bool" where
  "module_ok m \<longleftrightarrow> wire_string (me_name m)"

definition fn_module_ok :: "fn_module_entry \<Rightarrow> bool" where
  "fn_module_ok m \<longleftrightarrow> wire_string (fe_id m) \<and> wire_string (fe_triggers m) \<and> wire_string (fe_apps m)"

section \<open>The entries are codecs\<close>

interpretation module_wire: codec module_bytes read_module module_ok
proof
  fix s m rest
  assume a: "undisturbed s" "module_ok m" "rx s = module_bytes m @ rest"
  have "rx s = (\<lambda>(x, y). string_bytes x @ fd_bytes y) (me_name m, me_memfd m) @ rest"
    using a(3) by (simp add: module_bytes_def)
  from string_fd.pair_codec.get_put [OF a(1) _ this] a(2) obtain s' where
    s': "get_pair read_string (\<lambda>s. Inr (recv_fd s)) s = Inr ((me_name m, me_memfd m), s')"
    "rx s' = rest" "continues s s'"
    by (auto simp: module_ok_def)
  from get_pair_Inr [OF s'(1)] obtain s1 where
    "read_string s = Inr (me_name m, s1)" "recv_fd s1 = (me_memfd m, s')" by auto
  then have "read_module s = Inr (m, s')" by (simp add: read_module_def)
  with s'(2,3) show "\<exists>s'. read_module s = Inr (m, s') \<and> rx s' = rest \<and> continues s s'" by blast
qed

interpretation fn_module_wire: codec fn_module_bytes read_fn_module fn_module_ok
proof
  fix s m rest
  assume a: "undisturbed s" "fn_module_ok m" "rx s = fn_module_bytes m @ rest"
  let ?tail = "string_bytes (fe_apps m) @ u32_bytes (fe_priority m) @ fd_bytes (fe_memfd m) @ rest"
  have w: "wire_string (fe_id m)" "wire_string (fe_triggers m)" "wire_string (fe_apps m)"
    using a(2) by (simp_all add: fn_module_ok_def)
  have r: "rx s = string_bytes (fe_id m) @ (string_bytes (fe_triggers m) @ u8_bytes (fe_scope m) @ ?tail)"
    using a(3) by (simp add: fn_module_bytes_def)
  from string_wire.get_put [OF a(1) w(1) r] obtain s1 where
    s1: "read_string s = Inr (fe_id m, s1)" "continues s s1"
    "rx s1 = string_bytes (fe_triggers m) @ (u8_bytes (fe_scope m) @ ?tail)" by auto
  from string_wire.get_put [OF continues_undisturbed [OF s1(2)] w(2) s1(3)] obtain s2 where
    s2: "read_string s1 = Inr (fe_triggers m, s2)" "continues s1 s2"
    "rx s2 = u8_bytes (fe_scope m) @ ?tail" by auto
  from u8_wire.get_put [OF continues_undisturbed [OF s2(2)] TrueI s2(3)] obtain s3 where
    s3: "read_u8 s2 = (fe_scope m, s3)" "continues s2 s3" "rx s3 = ?tail" by auto
  from string_wire.get_put [OF continues_undisturbed [OF s3(2)] w(3) s3(3)] obtain s4 where
    s4: "read_string s3 = Inr (fe_apps m, s4)" "continues s3 s4"
    "rx s4 = u32_bytes (fe_priority m) @ (fd_bytes (fe_memfd m) @ rest)" by auto
  from u32_wire.get_put [OF continues_undisturbed [OF s4(2)] TrueI s4(3)] obtain s5 where
    s5: "read_u32 s4 = (fe_priority m, s5)" "continues s4 s5" "rx s5 = fd_bytes (fe_memfd m) @ rest"
    by auto
  from fd_wire.get_put [OF continues_undisturbed [OF s5(2)] TrueI s5(3)] obtain s6 where
    s6: "recv_fd s5 = (fe_memfd m, s6)" "continues s5 s6" "rx s6 = rest" by auto
  have "continues s s6"
    using s1(2) s2(2) s3(2) s4(2) s5(2) s6(2) by (meson continues_trans)
  moreover have "read_fn_module s = Inr (m, s6)"
    by (simp add: read_fn_module_def s1(1) s2(1) s3(1) s4(1) s5(1) s6(1))
  ultimately show "\<exists>s'. read_fn_module s = Inr (m, s') \<and> rx s' = rest \<and> continues s s'"
    using s6(3) by blast
qed

end
