(* ===== verification/Daemon_Properties.thy ===== *)
theory Daemon_Properties
  imports Daemon_Link
begin

text \<open>
  What the requests of \<open>daemon.cpp\<close> promise: the frames they send, the replies they read
  back, the descriptors they close, and what a failed receipt of a descriptor yields.
\<close>

section \<open>Writes of values\<close>

lemma write_exact_sends:
  "0 \<le> s_fd s \<Longrightarrow> Failed \<notin> set (sched s) \<Longrightarrow>
     \<exists>s'. write_exact w v s = (True, s') \<and> sent (le_bytes w v) s s'"
  using xwrite_exact [of s "le_bytes w v"] by (auto simp: write_exact_def)

lemma sent_trans: "sent a s t \<Longrightarrow> sent b t u \<Longrightarrow> sent (a @ b) s u"
  by (auto simp: sent_def)

lemma sent_undisturbed: "undisturbed s \<Longrightarrow> sent bs s s' \<Longrightarrow> undisturbed s'"
  by (auto simp: sent_def undisturbed_def)

text \<open>On an undisturbed connection every write goes out in full.\<close>

lemma undisturbed_sends:
  assumes "undisturbed s"
  shows "sent (le_bytes 1 (unat a)) s (snd (write_u8 a s))"
    "sent (le_bytes 4 (unat b)) s (snd (write_u32 b s))"
    "sent (le_bytes 8 (unat c)) s (snd (write_usize c s))"
    "fst (write_usize c s)"
  using assms write_exact_sends [of s 1 "unat a"] write_exact_sends [of s 4 "unat b"]
    write_exact_sends [of s 8 "unat c"]
  by (auto simp: undisturbed_def write_u8_def write_u32_def write_usize_def)

lemma le_bytes_1: "le_bytes (Suc 0) (unat (a :: u8)) = [a]"
proof -
  have "unat a < 256" using unsigned_less [of a, where ?'a = nat] by simp
  then show ?thesis by simp
qed

lemma write_string_sends:
  assumes "undisturbed s"
  shows "sent (le_bytes 8 (unat (of_nat (length str) :: u64)) @ str) s (snd (write_string str s))"
proof -
  note u = undisturbed_sends(3,4) [OF assms, of "of_nat (length str)"]
  let ?t = "snd (write_usize (of_nat (length str)) s)"
  from sent_undisturbed [OF assms u(1)] have t: "undisturbed ?t" .
  then obtain s' where s': "xwrite str ?t = (length str, s')" "sent str ?t s'"
    using xwrite_exact [of ?t str] by (auto simp: undisturbed_def)
  have "write_string str s = (True, s')"
    using u(2) s'(1) by (simp add: write_string_def split_beta)
  with sent_trans [OF u(1) s'(2)] show ?thesis by simp
qed

lemma send_action_sends: "undisturbed s \<Longrightarrow> sent [action_byte a] s (send_action a s)"
  using undisturbed_sends(1) [of s "action_byte a"] by (simp only: send_action_def One_nat_def le_bytes_1)

section \<open>Connecting\<close>

lemma connect_loop_result:
  "connect_loop n cs = (ok, cs', k) \<Longrightarrow> (ok \<longleftrightarrow> True \<in> set (take n cs)) \<and> k \<le> n - 1"
proof (induction n cs arbitrary: ok cs' k rule: connect_loop.induct)
  case (1 cs)
  then show ?case by simp
next
  case (2 retry cs)
  show ?case
  proof (cases "cs \<noteq> [] \<and> hd cs")
    case True
    with "2.prems" show ?thesis by (cases cs) auto
  next
    case False
    obtain ok1 c1 k1 where r: "connect_loop retry (tl cs) = (ok1, c1, k1)" by (metis prod_cases3)
    from "2.IH" [OF False r] have ih: "ok1 = (True \<in> set (take retry (tl cs)))" "k1 \<le> retry - 1"
      by simp_all
    from "2.prems" False r have e: "ok = ok1" "k = (if retry \<noteq> 0 then k1 + 1 else k1)" by simp_all
    have "True \<in> set (take (Suc retry) cs) \<longleftrightarrow> True \<in> set (take retry (tl cs))"
      using False by (cases cs) auto
    with e ih show ?thesis by auto
  qed
qed

text \<open>A link whose next connection succeeds and is not disturbed.\<close>

definition ready :: "link \<Rightarrow> bool" where
  "ready w \<longleftrightarrow> 0 \<le> socket_result w \<and> length (tmp_path w @ kCPSocketName) < 108 \<and>
     connects w \<noteq> [] \<and> hd (connects w) \<and>
     undisturbed ((conn w)\<lparr> s_fd := socket_result w \<rparr>)"

lemma Connect_ready:
  assumes "ready w" "0 < retry"
  shows "Connect retry w =
     Inr (socket_result w, w\<lparr> connects := tl (connects w), conn := (conn w)\<lparr> s_fd := socket_result w \<rparr> \<rparr>)"
proof -
  obtain n where n: "unat retry = Suc n"
    using assms(2) by (metis gr0_implies_Suc unat_gt_0 word_gt_0)
  have "w\<lparr> connects := tl (connects w), sleeps := sleeps w \<rparr> = w\<lparr> connects := tl (connects w) \<rparr>"
    by (cases w) simp
  then show ?thesis
    using assms(1) n by (auto simp: Connect_def ready_def Let_def not_less)
qed

text \<open>The connection a request talks over.\<close>

definition live_conn :: "link \<Rightarrow> sock" where
  "live_conn w = (conn w)\<lparr> s_fd := socket_result w \<rparr>"

lemma with_daemon_ready:
  assumes "ready w" "0 < retry" "body (live_conn w) = Inr (v, s)"
  shows "\<exists>w'. with_daemon retry fail body w = Inr (v, w') \<and> conn w' = s \<and>
     closed w' = closed w @ [socket_result w]"
  using assms Connect_ready [OF assms(1,2)]
  by (auto simp: with_daemon_def UniqueFd_drop_def ready_def live_conn_def)

lemma ready_live: "ready w \<Longrightarrow> undisturbed (live_conn w)"
  by (simp add: ready_def live_conn_def)

lemma counted_reply:
  assumes "ready w"
    and "\<exists>s'. (case read_usize (send_action a (live_conn w)) of (len, s1) \<Rightarrow> read_n f (unat len) s1) =
      Inr (xs, s') \<and> rx s' = rest \<and> continues (send_action a (live_conn w)) s'"
  shows "\<exists>w'. with_daemon 1 [] (\<lambda>s. case read_usize (send_action a s) of
       (len, s1) \<Rightarrow> read_n f (unat len) s1) w = Inr (xs, w') \<and>
     tx (conn w') = tx (conn w) @ [action_byte a] \<and> rx (conn w') = rest \<and>
     closed w' = closed w @ [socket_result w]"
proof -
  from assms(2) obtain s' where
    s': "(case read_usize (send_action a (live_conn w)) of (len, s1) \<Rightarrow> read_n f (unat len) s1) =
      Inr (xs, s')" "rx s' = rest" "continues (send_action a (live_conn w)) s'" by blast
  have "\<exists>w'. with_daemon 1 [] (\<lambda>s. case read_usize (send_action a s) of
       (len, s1) \<Rightarrow> read_n f (unat len) s1) w = Inr (xs, w') \<and> conn w' = s' \<and>
     closed w' = closed w @ [socket_result w]"
    by (rule with_daemon_ready [OF assms(1)]) (simp_all add: s'(1))
  then obtain w' where
    "with_daemon 1 [] (\<lambda>s. case read_usize (send_action a s) of
       (len, s1) \<Rightarrow> read_n f (unat len) s1) w = Inr (xs, w')"
    "conn w' = s'" "closed w' = closed w @ [socket_result w]" by auto
  moreover have "tx s' = tx (conn w) @ [action_byte a]"
    using s'(3) send_action_sends [OF ready_live [OF assms(1)], of a]
    by (simp add: continues_def sent_def live_conn_def)
  ultimately show ?thesis using s'(2) by auto
qed

section \<open>Properties\<close>

text \<open>
  C15: the loader reads back exactly the modules the daemon sent, names and descriptors in
  order, however the kernel splits the stream into reads; it sends nothing but the request
  byte and closes its socket once.
\<close>

theorem read_modules_exact:
  assumes "ready w" "list_all module_ok ms" "length ms < 2 ^ 64"
    and "rx (conn w) = handle_read_modules ms @ rest"
  shows "\<exists>w'. ReadModules w = Inr (ms, w') \<and>
     tx (conn w') = tx (conn w) @ [4] \<and> rx (conn w') = rest \<and>
     closed w' = closed w @ [socket_result w]"
proof -
  let ?s = "send_action ReadModules_action (live_conn w)"
  have u: "undisturbed ?s" and r: "rx ?s = rx (conn w)"
    using sent_undisturbed [OF ready_live [OF assms(1)] send_action_sends [OF ready_live [OF assms(1)]]]
      send_action_sends [OF ready_live [OF assms(1)]]
    by (simp_all add: sent_def live_conn_def)
  have "rx ?s = usize_bytes (of_nat (length ms)) @ (concat (List.map module_bytes ms) @ rest)"
    using r assms(4) by (simp add: handle_read_modules_def)
  from counted_reply [OF assms(1) module_wire.counted_list [OF u assms(2,3) this]]
  show ?thesis by (simp add: ReadModules_def)
qed

text \<open>
  the same for functional nodes, whose entries carry an id, triggers, a scope, an app
  list and a priority before the descriptor.
\<close>

theorem read_fn_modules_exact:
  assumes "ready w" "list_all fn_module_ok ms" "length ms < 2 ^ 64"
    and "rx (conn w) = handle_read_fn_modules ms @ rest"
  shows "\<exists>w'. ReadFnModules w = Inr (ms, w') \<and>
     tx (conn w') = tx (conn w) @ [12] \<and> rx (conn w') = rest \<and>
     closed w' = closed w @ [socket_result w]"
proof -
  let ?s = "send_action ReadFnModules_action (live_conn w)"
  have u: "undisturbed ?s" and r: "rx ?s = rx (conn w)"
    using sent_undisturbed [OF ready_live [OF assms(1)] send_action_sends [OF ready_live [OF assms(1)]]]
      send_action_sends [OF ready_live [OF assms(1)]]
    by (simp_all add: sent_def live_conn_def)
  have "rx ?s = usize_bytes (of_nat (length ms)) @ (concat (List.map fn_module_bytes ms) @ rest)"
    using r assms(4) by (simp add: handle_read_fn_modules_def)
  from counted_reply [OF assms(1) fn_module_wire.counted_list [OF u assms(2,3) this]]
  show ?thesis by (simp add: ReadFnModules_def)
qed

section \<open>Witnesses\<close>

text \<open>A link with one module waiting, delivered in pieces.\<close>

definition sample_fn :: fn_module_entry where
  "sample_fn = \<lparr> fe_id = [97], fe_triggers = [98], fe_scope = 1, fe_apps = [], fe_priority = 5,
                 fe_memfd = 11 \<rparr>"

definition sample_link :: "wire_byte list \<Rightarrow> link" where
  "sample_link bs =
     \<lparr> tmp_path = ''/data'', socket_result = 7, connects = [True],
       conn = \<lparr> s_fd = - 1, rx = bs, tx = [], sched = [Deliver 1, Deliver 3, Deliver 2],
                cmsg_junk = 99, heap_junk = [], leaked = 0 \<rparr>,
       closed = [], sleeps = 0 \<rparr>"

lemma sample_link_ready: "ready (sample_link bs)"
  by (simp add: sample_link_def ready_def undisturbed_def kCPSocketName_def)

lemma read_modules_exact_witness:
  "\<exists>w'. ReadModules (sample_link (handle_read_modules [\<lparr> me_name = [97, 98], me_memfd = 9 \<rparr>] @ [])) =
     Inr ([\<lparr> me_name = [97, 98], me_memfd = 9 \<rparr>], w') \<and> closed w' = [7]"
proof -
  let ?ms = "[\<lparr> me_name = [97, 98], me_memfd = 9 \<rparr>]"
  have "list_all module_ok ?ms" by (simp add: module_ok_def wire_string_def)
  from read_modules_exact [OF sample_link_ready this, of "handle_read_modules ?ms @ []" "[]"]
  show ?thesis by (auto simp: sample_link_def)
qed

lemma read_fn_modules_exact_witness:
  "\<exists>w'. ReadFnModules (sample_link (handle_read_fn_modules [sample_fn] @ [])) =
     Inr ([sample_fn], w') \<and> closed w' = [7]"
proof -
  have "list_all fn_module_ok [sample_fn]"
    by (simp add: fn_module_ok_def wire_string_def sample_fn_def)
  from read_fn_modules_exact [OF sample_link_ready this, of "handle_read_fn_modules [sample_fn] @ []" "[]"]
  show ?thesis by (auto simp: sample_link_def)
qed

section \<open>Frames\<close>

text \<open>Reading never writes.\<close>

lemma k_read_tx: "k_read n s = (r, s') \<Longrightarrow> tx s' = tx s"
  by (auto simp: k_read_def Let_def split: if_splits list.splits io_event.splits)

lemma xread_loop_tx: "xread_loop count acc s = (r, bs, s') \<Longrightarrow> tx s' = tx s"
proof (induction count acc s arbitrary: r bs s' rule: xread_loop.induct)
  case (1 count acc s)
  obtain q t where k: "k_read (count - length acc) s = (q, t)" by fastforce
  note t = k_read_tx [OF k]
  note unfolded = xread_loop.simps [of count acc s]
  show ?case
  proof (cases q)
    case (Io_done b)
    then show ?thesis
      using "1.IH"(1) [OF k [symmetric] Io_done] "1.prems" k t
      by (auto simp: unfolded split: if_splits)
  next
    case Io_eintr
    then show ?thesis
      using "1.IH"(2) [OF k [symmetric] Io_eintr] "1.prems" k t
      by (auto simp: unfolded split: if_splits)
  next
    case Io_error
    then show ?thesis using "1.prems" k t by (auto simp: unfolded)
  qed
qed

lemma read_tx: "tx (snd (read_u8 s)) = tx s" "tx (snd (read_u32 s)) = tx s"
  by (auto simp: read_u8_def read_u32_def read_exact_or_def xread_def split: prod.splits
      dest: xread_loop_tx)

lemma recv_fd_tx: "tx (snd (recv_fd s)) = tx s"
  by (auto simp: recv_fd_def recv_fds_def k_recvmsg_def Let_def
      split: prod.splits option.splits io_result.splits ancillary.splits list.splits
        io_event.splits if_splits)

text \<open>What a request added to the stream, and the descriptors it closed.\<close>

definition wire_frame :: "link \<Rightarrow> ('a \<times> link) res \<Rightarrow> (u8 list \<times> int list) option" where
  "wire_frame w r =
     (case r of Inl _ \<Rightarrow> None
      | Inr (_, w') \<Rightarrow> Some (drop (length (tx (conn w))) (tx (conn w')),
                             drop (length (closed w)) (closed w')))"

lemma with_daemon_frame:
  assumes "ready w" "0 < retry" "body (live_conn w) = Inr (v, s)" "tx s = tx (live_conn w) @ bs"
  shows "wire_frame w (with_daemon retry fail body w) = Some (bs, [socket_result w])"
proof -
  from with_daemon_ready [of w retry body v s fail, OF assms(1-3)] obtain w' where
    "with_daemon retry fail body w = Inr (v, w')" "conn w' = s"
    "closed w' = closed w @ [socket_result w]" by blast
  then show ?thesis using assms(4) by (simp add: wire_frame_def live_conn_def)
qed

lemma sent_tx: "sent bs s s' \<Longrightarrow> tx s' = tx s @ bs"
  by (simp add: sent_def)

text \<open>The stream after the action byte and one argument.\<close>

lemma action_then:
  assumes "undisturbed s"
  shows "undisturbed (send_action a s)" "tx (send_action a s) = tx s @ [action_byte a]"
    "tx (snd (write_u8 b (send_action a s))) = tx s @ [action_byte a, b]"
    "tx (snd (write_u32 c (send_action a s))) = tx s @ action_byte a # le_bytes 4 (unat c)"
    "undisturbed (snd (write_usize d (send_action a s)))"
    "tx (snd (write_usize d (send_action a s))) = tx s @ action_byte a # le_bytes 8 (unat d)"
    "tx (snd (write_string e (send_action a s))) =
       tx s @ action_byte a # le_bytes 8 (unat (of_nat (length e) :: u64)) @ e"
proof -
  note s1 = send_action_sends [OF assms, of a]
  then show u: "undisturbed (send_action a s)" by (rule sent_undisturbed [OF assms])
  show "tx (send_action a s) = tx s @ [action_byte a]" using s1 by (rule sent_tx)
  show "tx (snd (write_u8 b (send_action a s))) = tx s @ [action_byte a, b]"
    using sent_tx [OF sent_trans [OF s1 undisturbed_sends(1) [OF u, of b]]]
    by (simp only: One_nat_def le_bytes_1 append.simps)
  show "tx (snd (write_u32 c (send_action a s))) = tx s @ action_byte a # le_bytes 4 (unat c)"
    using sent_tx [OF sent_trans [OF s1 undisturbed_sends(2) [OF u, of c]]] by simp
  show "undisturbed (snd (write_usize d (send_action a s)))"
    by (rule sent_undisturbed [OF u undisturbed_sends(3) [OF u, of d]])
  show "tx (snd (write_usize d (send_action a s))) = tx s @ action_byte a # le_bytes 8 (unat d)"
    using sent_tx [OF sent_trans [OF s1 undisturbed_sends(3) [OF u, of d]]] by simp
  show "tx (snd (write_string e (send_action a s))) =
       tx s @ action_byte a # le_bytes 8 (unat (of_nat (length e) :: u64)) @ e"
    using sent_tx [OF sent_trans [OF s1 write_string_sends [OF u, of e]]] by simp
qed

lemma UpdateMountNamespace_body:
  "\<exists>v s2. (case read_u8 s of (status, s1) \<Rightarrow>
           if status = 0 then Inr (- 1, s1)
           else case recv_fd s1 of (namespace_fd, s2) \<Rightarrow>
             if namespace_fd < 0 then Inr (- 1, s2) else Inr (namespace_fd, s2)) = (Inr (v, s2) :: (int \<times> sock) res)
     \<and> tx s2 = tx s"
  using read_tx(1) [of s] recv_fd_tx [of "snd (read_u8 s)"]
  by (cases "recv_fd (snd (read_u8 s))") (auto simp: split_beta)

text \<open>
  the bytes each request puts on the wire when the connection is ready: the action,
  then its arguments in little-endian order, a string after its length; and each of these
  requests closes its socket exactly once.
\<close>

theorem request_frames:
  assumes "ready w"
  shows "wire_frame w (PingHeartbeat w) = Some ([0], [socket_result w]) \<and>
     wire_frame w (GetProcessFlags uid w) = Some (1 # le_bytes 4 (unat uid), [socket_result w]) \<and>
     wire_frame w (CacheMountNamespace pid w) = Some (2 # le_bytes 4 (unat pid), [socket_result w]) \<and>
     wire_frame w (UpdateMountNamespace type w) =
       Some ([3, mount_namespace_byte type], [socket_result w]) \<and>
     wire_frame w (GetModuleDir index (Some name) w) =
       Some (6 # le_bytes 8 (unat index) @ le_bytes 8 (unat (of_nat (length name) :: u64)) @ name,
             [socket_result w]) \<and>
     wire_frame w (ZygoteRestart w) = Some ([7], [socket_result w]) \<and>
     wire_frame w (SystemServerStarted w) = Some ([8], [socket_result w]) \<and>
     wire_frame w (GetFnModuleDir name w) =
       Some (13 # le_bytes 8 (unat (of_nat (length name) :: u64)) @ name, [socket_result w])"
proof (intro conjI)
  note u = ready_live [OF assms]
  note a = action_then [OF u]
  note f = with_daemon_frame [OF assms]
  show "wire_frame w (PingHeartbeat w) = Some ([0], [socket_result w])"
    unfolding PingHeartbeat_def by (rule f [OF _ refl]) (simp_all add: a)
  show "wire_frame w (GetProcessFlags uid w) = Some (1 # le_bytes 4 (unat uid), [socket_result w])"
    unfolding GetProcessFlags_def
    by (rule f [OF _ arg_cong [where f = Inr, OF prod.collapse [symmetric]]]) (simp_all add: a read_tx del: le_bytes.simps)
  show "wire_frame w (CacheMountNamespace pid w) = Some (2 # le_bytes 4 (unat pid), [socket_result w])"
    using Connect_ready [OF assms, of 1] a(4) [of pid CacheMountNamespace_action] assms
    by (simp add: CacheMountNamespace_def wire_frame_def UniqueFd_drop_def live_conn_def ready_def Let_def
        del: le_bytes.simps)
  show "wire_frame w (UpdateMountNamespace type w) =
      Some ([3, mount_namespace_byte type], [socket_result w])"
  proof -
    let ?s = "snd (write_u8 (mount_namespace_byte type)
                (send_action UpdateMountNamespace_action (live_conn w)))"
    from UpdateMountNamespace_body [of ?s] obtain v s2 where b:
      "(case read_u8 ?s of (status, s1) \<Rightarrow>
           if status = 0 then Inr (- 1, s1)
           else case recv_fd s1 of (namespace_fd, s2) \<Rightarrow>
             if namespace_fd < 0 then Inr (- 1, s2) else Inr (namespace_fd, s2)) = (Inr (v, s2) :: (int \<times> sock) res)"
      "tx s2 = tx ?s" by blast
    show ?thesis
      unfolding UpdateMountNamespace_def by (rule f, simp, rule b(1), simp add: b(2) a)
  qed
  show "wire_frame w (GetModuleDir index (Some name) w) =
       Some (6 # le_bytes 8 (unat index) @ le_bytes 8 (unat (of_nat (length name) :: u64)) @ name,
             [socket_result w])"
  proof -
    let ?t = "snd (write_usize index (send_action GetModuleDir_action (live_conn w)))"
    have "tx (snd (write_string name ?t)) =
      tx ?t @ le_bytes 8 (unat (of_nat (length name) :: u64)) @ name"
      using sent_tx [OF write_string_sends [OF a(5)]] .
    then show ?thesis
      unfolding GetModuleDir_def
      by (intro f [OF _ arg_cong [where f = Inr, OF prod.collapse [symmetric]]]) (simp_all add: a recv_fd_tx del: le_bytes.simps)
  qed
  show "wire_frame w (ZygoteRestart w) = Some ([7], [socket_result w])"
    unfolding ZygoteRestart_def by (rule f [OF _ refl]) (simp_all add: a)
  show "wire_frame w (SystemServerStarted w) = Some ([8], [socket_result w])"
    unfolding SystemServerStarted_def by (rule f [OF _ refl]) (simp_all add: a)
  show "wire_frame w (GetFnModuleDir name w) =
       Some (13 # le_bytes 8 (unat (of_nat (length name) :: u64)) @ name, [socket_result w])"
    unfolding GetFnModuleDir_def
    by (rule f [OF _ arg_cong [where f = Inr, OF prod.collapse [symmetric]]]) (simp_all add: a recv_fd_tx del: le_bytes.simps)
qed

lemma request_frames_witness:
  "wire_frame (sample_link []) (SystemServerStarted (sample_link [])) = Some ([8], [7])"
  using request_frames [OF sample_link_ready] by (simp add: sample_link_def)

text \<open>
  when the receipt of the descriptor fails after the daemon accepted the request, the
  request returns what the uninitialised control buffer happens to hold, although it means
  to return -1 then.
\<close>

theorem failed_receive_is_junk:
  assumes "k_recvmsg 4 s = (Io_error, s')" "0 \<le> cmsg_junk s'"
  shows "recv_fd s = (cmsg_junk s', s')"
  using assms by (simp add: recv_fd_def recv_fds_def)

lemma failed_receive_is_junk_witness:
  "\<exists>s'. recv_fd ((conn (sample_link []))\<lparr> s_fd := 7, sched := [Failed] \<rparr>) = (99, s')"
proof -
  let ?s = "(conn (sample_link []))\<lparr> s_fd := 7, sched := [Failed] \<rparr>"
  have "k_recvmsg 4 ?s = (Io_error, ?s\<lparr> sched := [] \<rparr>)" by (simp add: k_recvmsg_def)
  from failed_receive_is_junk [OF this] show ?thesis by (simp add: sample_link_def)
qed

text \<open>
  \<open>Connect\<close> makes at most the given number of attempts: it yields a connected
  descriptor exactly when one of these attempts succeeds, closes the socket exactly when
  none does, and sleeps less often than it tries.
\<close>

theorem connect_exact:
  assumes "length (tmp_path w @ kCPSocketName) < 108" "0 \<le> socket_result w"
  shows "\<exists>fd w'. Connect retry w = Inr (fd, w') \<and>
     (if True \<in> set (take (unat retry) (connects w))
      then fd = socket_result w \<and> closed w' = closed w
      else fd = - 1 \<and> closed w' = closed w @ [socket_result w]) \<and>
     sleeps w' \<le> sleeps w + (unat retry - 1)"
proof -
  obtain ok cs n where c: "connect_loop (unat retry) (connects w) = (ok, cs, n)"
    by (metis prod_cases3)
  from connect_loop_result [OF c] have "ok = (True \<in> set (take (unat retry) (connects w)))"
    "n \<le> unat retry - 1" by simp_all
  with c assms show ?thesis by (simp add: Connect_def Let_def)
qed

lemma connect_exact_witness:
  "\<exists>w'. Connect 5 ((sample_link [])\<lparr> connects := [False, True] \<rparr>) = Inr (7, w')"
proof -
  let ?w = "(sample_link [])\<lparr> connects := [False, True] \<rparr>"
  have "length (tmp_path ?w @ kCPSocketName) < 108" "0 \<le> socket_result ?w"
    "socket_result ?w = 7" "True \<in> set (take (unat (5 :: u8)) (connects ?w))"
    by (simp_all add: sample_link_def kCPSocketName_def)
  with connect_exact [of ?w 5] show ?thesis by auto
qed

end
