(* ===== verification/Module_Api.thy ===== *)
theory Module_Api
  imports Prelude
begin

text \<open>
  \<open>injector/module.hpp\<close> and the first part of \<open>injector/module.cpp\<close>: the process flags, the
  table of functions a module is given, what a module registers, the options it sets, and
  the filter for the module's PLT hooks.  What a module does is not part of the
  repository; its calls into the table are arguments of the operations.
\<close>

section \<open>Flags\<close>

abbreviation (input) PROCESS_GRANTED_ROOT :: u32 where "PROCESS_GRANTED_ROOT \<equiv> 1"
abbreviation (input) PROCESS_ON_DENYLIST :: u32 where "PROCESS_ON_DENYLIST \<equiv> 2"
abbreviation (input) MOUNT_MODE_SETNS :: u32 where "MOUNT_MODE_SETNS \<equiv> 4"
abbreviation (input) MOUNT_MODE_GLOBAL :: u32 where "MOUNT_MODE_GLOBAL \<equiv> 8"
abbreviation (input) PROCESS_IS_MANAGER :: u32 where "PROCESS_IS_MANAGER \<equiv> 134217728"
abbreviation (input) PROCESS_ROOT_IS_APATCH :: u32 where "PROCESS_ROOT_IS_APATCH \<equiv> 268435456"
abbreviation (input) PROCESS_ROOT_IS_KSU :: u32 where "PROCESS_ROOT_IS_KSU \<equiv> 536870912"
abbreviation (input) PROCESS_ROOT_IS_MAGISK :: u32 where "PROCESS_ROOT_IS_MAGISK \<equiv> 1073741824"

definition PRIVATE_MASK :: u32 where
  "PRIVATE_MASK =
     (MOUNT_MODE_SETNS OR MOUNT_MODE_GLOBAL OR PROCESS_IS_MANAGER OR PROCESS_ROOT_IS_APATCH OR
      PROCESS_ROOT_IS_KSU OR PROCESS_ROOT_IS_MAGISK)"

definition UNMOUNT_MASK :: u32 where
  "UNMOUNT_MASK = PROCESS_ON_DENYLIST"

abbreviation (input) POST_SPECIALIZE :: u32 where "POST_SPECIALIZE \<equiv> 1"
abbreviation (input) APP_FORK_AND_SPECIALIZE :: u32 where "APP_FORK_AND_SPECIALIZE \<equiv> 2"
abbreviation (input) APP_SPECIALIZE :: u32 where "APP_SPECIALIZE \<equiv> 4"
abbreviation (input) SERVER_FORK_AND_SPECIALIZE :: u32 where "SERVER_FORK_AND_SPECIALIZE \<equiv> 8"
abbreviation (input) DO_REVERT_UNMOUNT :: u32 where "DO_REVERT_UNMOUNT \<equiv> 16"
abbreviation (input) SKIP_CLOSE_LOG_PIPE :: u32 where "SKIP_CLOSE_LOG_PIPE \<equiv> 32"

text \<open>\<open>flags & f\<close> used as a condition.\<close>

definition has :: "u32 \<Rightarrow> u32 \<Rightarrow> bool" where
  "has flags f \<longleftrightarrow> flags AND f \<noteq> 0"

lemma has_bit: "has flags (2 ^ k) \<longleftrightarrow> bit flags k" if "k < 32"
proof -
  have "flags AND 2 ^ k = (if bit flags k then 2 ^ k else 0)"
    by (rule bit_eqI) (auto simp: bit_and_iff bit_exp_iff)
  moreover have "(2 ^ k :: u32) \<noteq> 0" using that by (simp add: exp_eq_zero_iff)
  ultimately show ?thesis by (simp add: has_def)
qed

lemmas has_flags = has_bit [of 0, simplified] has_bit [of 1, simplified] has_bit [of 2, simplified]
  has_bit [of 3, simplified] has_bit [of 4, simplified] has_bit [of 5, simplified]
  has_bit [of 27, simplified]

section \<open>What a module registers\<close>

text \<open>\<open>module_abi_v1\<close>: which of its pointers are set.\<close>

record module_abi =
  abi_version :: int
  abi_impl :: bool
  abi_preApp :: bool
  abi_postApp :: bool
  abi_preServer :: bool
  abi_postServer :: bool

text \<open>
  \<open>ApiTable\<close> is a union: the slots after the base are shared by the versions, so slot 1 is
  \<open>pltHookRegister\<close> by path or by inode, slot 2 \<open>pltHookExclude\<close> or \<open>exemptFd\<close>.
\<close>

datatype api_fn =
    Fn_hookJniNativeMethods | Fn_pltHookRegister_path | Fn_pltHookRegister_inode
  | Fn_pltHookExclude | Fn_exemptFd | Fn_pltHookCommit_ctx | Fn_pltHookCommit_lsplt
  | Fn_connectCompanion | Fn_setOption | Fn_getModuleDir | Fn_getFlags

type_synonym api_slots = "api_fn option list"

datatype zygisk_option = FORCE_DENYLIST_UNMOUNT | DLCLOSE_MODULE_LIBRARY

record zygisk_module =
  zm_id :: u32
  zm_name :: "u8 list"
  zm_unload :: bool
  zm_handle :: u64
  zm_custom :: bool
  zm_entry :: u64
  zm_slots :: api_slots
  zm_registrable :: bool   \<comment> \<open>\<open>api.base.registerModule\<close> is set\<close>
  zm_mod :: "module_abi option"

definition ZygiskModule :: "u32 \<Rightarrow> u8 list \<Rightarrow> u64 \<Rightarrow> u64 \<Rightarrow> bool \<Rightarrow> zygisk_module" where
  "ZygiskModule ident name handle entry custom =
     \<lparr> zm_id = ident, zm_name = name, zm_unload = False, zm_handle = handle, zm_custom = custom,
       zm_entry = entry, zm_slots = replicate 8 None, zm_registrable = True, zm_mod = None \<rparr>"

abbreviation (input) ZYGISK_API_VERSION :: int where "ZYGISK_API_VERSION \<equiv> 5"

definition fill_v1 :: "api_slots \<Rightarrow> api_slots" where
  "fill_v1 t = t[0 := Some Fn_hookJniNativeMethods, 1 := Some Fn_pltHookRegister_path,
                 2 := Some Fn_pltHookExclude, 3 := Some Fn_pltHookCommit_ctx,
                 4 := Some Fn_connectCompanion, 5 := Some Fn_setOption]"

definition fill_v2 :: "api_slots \<Rightarrow> api_slots" where
  "fill_v2 t = t[6 := Some Fn_getModuleDir, 7 := Some Fn_getFlags]"

definition fill_v4 :: "api_slots \<Rightarrow> api_slots" where
  "fill_v4 t = t[3 := Some Fn_pltHookCommit_lsplt, 1 := Some Fn_pltHookRegister_inode,
                 2 := Some Fn_exemptFd]"

text \<open>\<open>RegisterModuleImpl\<close>; a null table or module pointer is refused.\<close>

definition RegisterModuleImpl ::
  "module_abi option \<Rightarrow> zygisk_module \<Rightarrow> bool \<times> zygisk_module" where
  "RegisterModuleImpl module m =
     (case module of
        None \<Rightarrow> (False, m)
      | Some abi \<Rightarrow>
          let v = abi_version abi in
          if ZYGISK_API_VERSION < v then (False, m)
          else let t1 = (if 1 \<le> v then fill_v1 (zm_slots m) else zm_slots m);
                   t2 = (if 2 \<le> v then fill_v2 t1 else t1);
                   t3 = (if 4 \<le> v then fill_v4 t2 else t2)
               in (True, m\<lparr> zm_mod := Some abi, zm_slots := t3 \<rparr>))"

definition valid :: "zygisk_module \<Rightarrow> bool" where
  "valid m =
     (case zm_mod m of
        None \<Rightarrow> False
      | Some abi \<Rightarrow>
          abi_version abi \<in> {1, 2, 3, 4, 5} \<and> abi_impl abi \<and> abi_preApp abi \<and> abi_postApp abi \<and>
          abi_preServer abi \<and> abi_postServer abi)"

definition clearApi :: "zygisk_module \<Rightarrow> zygisk_module" where
  "clearApi m = m\<lparr> zm_slots := replicate 8 None, zm_registrable := False \<rparr>"

text \<open>\<open>setOption\<close> acts on the current context, when there is one, or on the module.\<close>

definition setOption :: "zygisk_option \<Rightarrow> u32 option \<Rightarrow> zygisk_module \<Rightarrow> u32 option \<times> zygisk_module" where
  "setOption opt ctx_flags m =
     (case ctx_flags of
        None \<Rightarrow> (None, m)
      | Some f \<Rightarrow>
          (case opt of
             FORCE_DENYLIST_UNMOUNT \<Rightarrow> (Some (f OR DO_REVERT_UNMOUNT), m)
           | DLCLOSE_MODULE_LIBRARY \<Rightarrow> (Some f, m\<lparr> zm_unload := True \<rparr>)))"

definition getFlags :: "u32 option \<Rightarrow> u32" where
  "getFlags ctx_info_flags =
     (case ctx_info_flags of None \<Rightarrow> 0 | Some f \<Rightarrow> f AND NOT PRIVATE_MASK)"

section \<open>Calls into a module\<close>

datatype callback = OnLoad | PreApp | PostApp | PreServer | PostServer

datatype app_args = Args_v1 | Args_v5

datatype invocation = Invoke u64 callback "app_args option"

text \<open>
  \<open>call_app\<close> dispatches on the registered version, so a module that registered nothing is
  dereferenced through null; the server callbacks do not look at the version.
\<close>

definition call_app :: "callback \<Rightarrow> (module_abi \<Rightarrow> bool) \<Rightarrow> zygisk_module \<Rightarrow> invocation list res" where
  "call_app cb present m =
     (case zm_mod m of
        None \<Rightarrow> Inl Null_deref
      | Some abi \<Rightarrow>
          if abi_version abi \<in> {1, 2} then
            (if present abi then Inr [Invoke (zm_entry m) cb (Some Args_v1)] else Inl Null_deref)
          else if abi_version abi \<in> {3, 4, 5} then
            (if present abi then Inr [Invoke (zm_entry m) cb (Some Args_v5)] else Inl Null_deref)
          else Inr [])"

definition preAppSpecialize :: "zygisk_module \<Rightarrow> invocation list res" where
  "preAppSpecialize = call_app PreApp abi_preApp"

definition postAppSpecialize :: "zygisk_module \<Rightarrow> invocation list res" where
  "postAppSpecialize = call_app PostApp abi_postApp"

definition preServerSpecialize :: "zygisk_module \<Rightarrow> invocation list res" where
  "preServerSpecialize m =
     (case zm_mod m of
        None \<Rightarrow> Inl Null_deref
      | Some abi \<Rightarrow>
          if abi_preServer abi then Inr [Invoke (zm_entry m) PreServer None] else Inl Null_deref)"

definition postServerSpecialize :: "zygisk_module \<Rightarrow> invocation list res" where
  "postServerSpecialize m =
     (case zm_mod m of
        None \<Rightarrow> Inl Null_deref
      | Some abi \<Rightarrow>
          if abi_postServer abi then Inr [Invoke (zm_entry m) PostServer None] else Inl Null_deref)"

section \<open>PLT hooks by path\<close>

text \<open>The regular expressions of libc are a parameter: which patterns compile, what they match.\<close>

record register_entry =
  re_regex :: string
  re_symbol :: string
  re_callback :: u64
  re_backup :: u64

record ignore_entry =
  ig_regex :: string
  ig_symbol :: string

record lsplt_map =
  lm_start :: u64
  lm_end :: u64
  lm_perms :: u8
  lm_private :: bool
  lm_offset :: u64
  lm_dev :: u64
  lm_inode :: u64
  lm_path :: string

datatype plt_request = RegisterHook u64 u64 string u64 u64

definition plt_hook_register ::
  "(string \<Rightarrow> bool) \<Rightarrow> string option \<Rightarrow> string option \<Rightarrow> u64 \<Rightarrow> u64 \<Rightarrow>
     register_entry list \<Rightarrow> register_entry list" where
  "plt_hook_register compiles regex symbol fn backup rs =
     (case (regex, symbol) of
        (Some r, Some s) \<Rightarrow>
          if fn = 0 then rs else if \<not> compiles r then rs
          else rs @ [\<lparr> re_regex = r, re_symbol = s, re_callback = fn, re_backup = backup \<rparr>]
      | _ \<Rightarrow> rs)"

definition plt_hook_exclude ::
  "(string \<Rightarrow> bool) \<Rightarrow> string option \<Rightarrow> string option \<Rightarrow> ignore_entry list \<Rightarrow> ignore_entry list" where
  "plt_hook_exclude compiles regex symbol igns =
     (case regex of
        None \<Rightarrow> igns
      | Some r \<Rightarrow>
          if \<not> compiles r then igns
          else igns @ [\<lparr> ig_regex = r, ig_symbol = (case symbol of None \<Rightarrow> [] | Some s \<Rightarrow> s) \<rparr>])"

fun hook_ignored :: "(string \<Rightarrow> string \<Rightarrow> bool) \<Rightarrow> string \<Rightarrow> string \<Rightarrow> ignore_entry list \<Rightarrow> bool" where
  "hook_ignored match path symbol [] = False"
| "hook_ignored match path symbol (ign # igns) =
     (if \<not> match (ig_regex ign) path then hook_ignored match path symbol igns
      else if ig_symbol ign = [] \<or> ig_symbol ign = symbol then True
      else hook_ignored match path symbol igns)"

fun map_requests ::
  "(string \<Rightarrow> string \<Rightarrow> bool) \<Rightarrow> ignore_entry list \<Rightarrow> lsplt_map \<Rightarrow> register_entry list \<Rightarrow> plt_request list" where
  "map_requests match igns mp [] = []"
| "map_requests match igns mp (r # rs) =
     (if \<not> match (re_regex r) (lm_path mp) then map_requests match igns mp rs
      else if hook_ignored match (lm_path mp) (re_symbol r) igns then map_requests match igns mp rs
      else RegisterHook (lm_dev mp) (lm_inode mp) (re_symbol r) (re_callback r) (re_backup r)
             # map_requests match igns mp rs)"

fun map_loop ::
  "(string \<Rightarrow> string \<Rightarrow> bool) \<Rightarrow> ignore_entry list \<Rightarrow> register_entry list \<Rightarrow> lsplt_map list \<Rightarrow> plt_request list" where
  "map_loop match igns rs [] = []"
| "map_loop match igns rs (mp # mps) =
     (if lm_offset mp \<noteq> 0 \<or> \<not> lm_private mp \<or> lm_perms mp AND 1 = 0 then map_loop match igns rs mps
      else map_requests match igns mp rs @ map_loop match igns rs mps)"

definition plt_hook_process_regex ::
  "(string \<Rightarrow> string \<Rightarrow> bool) \<Rightarrow> lsplt_map list \<Rightarrow> register_entry list \<Rightarrow> ignore_entry list \<Rightarrow> plt_request list" where
  "plt_hook_process_regex match maps rs igns = (if rs = [] then [] else map_loop match igns rs maps)"

text \<open>\<open>plt_hook_commit\<close>: the requests it makes, and both lists emptied.\<close>

definition plt_hook_commit ::
  "(string \<Rightarrow> string \<Rightarrow> bool) \<Rightarrow> lsplt_map list \<Rightarrow> register_entry list \<Rightarrow> ignore_entry list \<Rightarrow>
     plt_request list \<times> register_entry list \<times> ignore_entry list" where
  "plt_hook_commit match maps rs igns = (plt_hook_process_regex match maps rs igns, [], [])"

section \<open>Lemmas\<close>

lemma hook_ignored_iff:
  "hook_ignored match path symbol igns \<longleftrightarrow>
     (\<exists>ign\<in>set igns. match (ig_regex ign) path \<and> (ig_symbol ign = [] \<or> ig_symbol ign = symbol))"
  by (induction match path symbol igns rule: hook_ignored.induct) auto

lemma hook_ignored_empty:
  "{ign \<in> set igns. match (ig_regex ign) path \<and> (ig_symbol ign = [] \<or> ig_symbol ign = symbol)} = {}
     \<longleftrightarrow> \<not> hook_ignored match path symbol igns"
  by (auto simp: hook_ignored_iff)

lemma map_requests_set:
  "set (map_requests match igns mp rs) =
     {RegisterHook (lm_dev mp) (lm_inode mp) (re_symbol r) (re_callback r) (re_backup r) | r.
        r \<in> set rs \<and> match (re_regex r) (lm_path mp) \<and>
        \<not> hook_ignored match (lm_path mp) (re_symbol r) igns}"
  by (induction match igns mp rs rule: map_requests.induct) auto

lemma valid_calls:
  assumes "valid m"
  shows "\<exists>a. preAppSpecialize m = Inr [Invoke (zm_entry m) PreApp (Some a)]"
    "\<exists>a. postAppSpecialize m = Inr [Invoke (zm_entry m) PostApp (Some a)]"
    "preServerSpecialize m = Inr [Invoke (zm_entry m) PreServer None]"
    "postServerSpecialize m = Inr [Invoke (zm_entry m) PostServer None]"
  using assms
  by (auto simp: valid_def preAppSpecialize_def postAppSpecialize_def preServerSpecialize_def
      postServerSpecialize_def call_app_def split: option.splits)

section \<open>Properties\<close>

text \<open>
  a module sees nothing of the daemon's private flags: of the process flags it gets
  exactly the bits outside the private mask, of which only root access and the deny list
  are defined, and nothing at all when no specialization is in progress.
\<close>

theorem private_flags_hidden:
  "getFlags None = 0 \<and> getFlags (Some f) AND PRIVATE_MASK = 0 \<and>
   (bit (getFlags (Some f)) 0 \<longleftrightarrow> bit f 0) \<and> (bit (getFlags (Some f)) 1 \<longleftrightarrow> bit f 1) \<and>
   getFlags (Some f) OR (f AND PRIVATE_MASK) = f"
proof -
  have "getFlags (Some f) AND PRIVATE_MASK = 0"
    by (rule bit_eqI) (simp add: getFlags_def bit_and_iff bit_not_iff)
  moreover have "\<not> bit PRIVATE_MASK 0" "\<not> bit PRIVATE_MASK 1"
    by (simp_all add: PRIVATE_MASK_def bit_or_iff)
  moreover have "getFlags (Some f) OR (f AND PRIVATE_MASK) = f"
    by (rule bit_eqI) (auto simp: getFlags_def bit_and_iff bit_or_iff bit_not_iff)
  ultimately show ?thesis
    by (simp add: getFlags_def bit_and_iff bit_not_iff)
qed

text \<open>
  the hooks a commit installs are exactly the pairs of a readable private mapping of a
  file's start and a registration whose pattern matches its path, minus those an exclusion
  matching the path names; nothing is left pending.
\<close>

theorem plt_hooks_exact:
  "set (fst (plt_hook_commit match maps rs igns)) =
     {RegisterHook (lm_dev mp) (lm_inode mp) (re_symbol r) (re_callback r) (re_backup r) | mp r.
        mp \<in> set maps \<and> r \<in> set rs \<and> lm_offset mp = 0 \<and> lm_private mp \<and> lm_perms mp AND 1 \<noteq> 0 \<and>
        match (re_regex r) (lm_path mp) \<and>
        {ign \<in> set igns. match (ig_regex ign) (lm_path mp) \<and>
           (ig_symbol ign = [] \<or> ig_symbol ign = re_symbol r)} = {}} \<and>
   snd (plt_hook_commit match maps rs igns) = ([], [])"
proof -
  have "set (map_loop match igns rs maps) =
     {RegisterHook (lm_dev mp) (lm_inode mp) (re_symbol r) (re_callback r) (re_backup r) | mp r.
        mp \<in> set maps \<and> r \<in> set rs \<and> lm_offset mp = 0 \<and> lm_private mp \<and> lm_perms mp AND 1 \<noteq> 0 \<and>
        match (re_regex r) (lm_path mp) \<and>
        \<not> hook_ignored match (lm_path mp) (re_symbol r) igns}"
    by (induction match igns rs maps rule: map_loop.induct) (auto simp: map_requests_set)
  then show ?thesis
    unfolding hook_ignored_empty
    by (cases "rs = []") (simp_all add: plt_hook_commit_def plt_hook_process_regex_def)
qed

end
