(* ===== verification/Fd_Guard.thy ===== *)
theory Fd_Guard
  imports Module_Api
begin

text \<open>
  The specialization context (\<open>ZygiskContext\<close> of \<open>injector/module.hpp\<close>) and how it guards
  file descriptors: \<open>fork_pre\<close> records what is open in the new child, modules may exempt
  descriptors, and \<open>sanitize_fds\<close> closes the rest before the framework checks.  The process
  keeps the list of its open descriptors; a directory stream occupies one of them.
\<close>

section \<open>The context\<close>

text \<open>\<open>fds_to_ignore\<close> is a pointer to an array reference, and either may be null.\<close>

record zctx =
  z_process :: "u8 list option"
  z_modules :: "zygisk_module list"
  z_pid :: int
  z_flags :: u32
  z_info :: u32
  z_allowed :: "bool list"
  z_exempted :: "int list"
  z_register :: "register_entry list"
  z_ignore :: "ignore_entry list"
  z_fds_to_ignore :: "int list option option"
  z_open :: "int list"

definition ZygiskContext :: "nat \<Rightarrow> int list option option \<Rightarrow> int list \<Rightarrow> zctx" where
  "ZygiskContext fd_max ignore_arg open_fds =
     \<lparr> z_process = None, z_modules = [], z_pid = - 1, z_flags = 0, z_info = 0,
       z_allowed = replicate fd_max False, z_exempted = [], z_register = [], z_ignore = [],
       z_fds_to_ignore = ignore_arg, z_open = open_fds \<rparr>"

definition is_child :: "zctx \<Rightarrow> bool" where
  "is_child c \<longleftrightarrow> z_pid c \<le> 0"

definition can_exempt_fd :: "zctx \<Rightarrow> bool" where
  "can_exempt_fd c \<longleftrightarrow> has (z_flags c) APP_FORK_AND_SPECIALIZE \<and> z_fds_to_ignore c \<noteq> None"

definition exempt_fd :: "int \<Rightarrow> zctx \<Rightarrow> bool \<times> zctx" where
  "exempt_fd fd c =
     (if has (z_flags c) POST_SPECIALIZE \<or> has (z_flags c) SKIP_CLOSE_LOG_PIPE then (True, c)
      else if \<not> can_exempt_fd c then (False, c)
      else (True, c\<lparr> z_exempted := z_exempted c @ [fd] \<rparr>))"

text \<open>Membership in the vector of allowed descriptors.\<close>

definition fd_allowed :: "bool list \<Rightarrow> int \<Rightarrow> bool" where
  "fd_allowed al fd \<longleftrightarrow> 0 \<le> fd \<and> nat fd < length al \<and> al ! nat fd"

definition allow :: "int \<Rightarrow> bool list \<Rightarrow> bool list" where
  "allow fd al = (if 0 \<le> fd \<and> nat fd < length al then al[nat fd := True] else al)"

fun allow_all :: "int list \<Rightarrow> bool list \<Rightarrow> bool list" where
  "allow_all [] al = al"
| "allow_all (fd # fds) al = allow_all fds (allow fd al)"

section \<open>Recording the open descriptors\<close>

text \<open>
  What \<open>/proc/self/fd\<close> lists while a directory stream occupies \<open>d\<close>: the two entries that are
  not numbers are read as -1.
\<close>

definition dir_entries :: "int list \<Rightarrow> int \<Rightarrow> int list" where
  "dir_entries opened d = - 1 # - 1 # opened @ [d]"

text \<open>The loop of \<open>fork_pre\<close> over the entries.\<close>

fun record_fds :: "int list \<Rightarrow> bool list \<Rightarrow> int list \<Rightarrow> bool list \<times> int list" where
  "record_fds [] al opened = (al, opened)"
| "record_fds (fd # fds) al opened =
     (if fd < 0 \<or> length al \<le> nat fd then record_fds fds al (removeAll fd opened)
      else record_fds fds (al[nat fd := True]) opened)"

text \<open>
  \<open>fork_pre\<close>: \<open>pid\<close> is the result of \<open>fork\<close>, \<open>dirfd\<close> the descriptor of the opened directory
  and \<open>None\<close> when it cannot be opened.
\<close>

definition fork_pre :: "int \<Rightarrow> int option \<Rightarrow> zctx \<Rightarrow> zctx res" where
  "fork_pre pid dirfd c =
     (let c1 = c\<lparr> z_pid := pid \<rparr> in
      if \<not> is_child c1 then Inr c1
      else case dirfd of
        None \<Rightarrow> Inl Null_deref
      | Some d \<Rightarrow>
          (case record_fds (dir_entries (z_open c) d) (z_allowed c1) (z_open c @ [d]) of
             (al, opened) \<Rightarrow>
               if length al \<le> nat d then Inl Buffer_overflow
               else Inr (c1\<lparr> z_allowed := al[nat d := False], z_open := removeAll d opened \<rparr>)))"

section \<open>Closing the rest\<close>

text \<open>
  \<open>update_fd_array\<close>: \<open>alloc\<close> says whether the new Java array can be allocated; the result
  is the new array's length and contents from \<open>old_len\<close> on.
\<close>

definition update_fd_array :: "bool \<Rightarrow> nat \<Rightarrow> zctx \<Rightarrow> bool \<times> zctx" where
  "update_fd_array alloc old_len c =
     (if \<not> alloc then (False, c)
      else (True, c\<lparr> z_allowed := allow_all (z_exempted c) (z_allowed c),
                     z_fds_to_ignore := Some (Some (replicate old_len 0 @ z_exempted c)) \<rparr>))"

definition exempt_fds :: "bool \<Rightarrow> zctx \<Rightarrow> zctx" where
  "exempt_fds alloc c =
     (if can_exempt_fd c \<and> z_exempted c \<noteq> [] then
        (case z_fds_to_ignore c of
           Some (Some arr) \<Rightarrow>
             let c1 = c\<lparr> z_allowed := allow_all arr (z_allowed c) \<rparr> in
             (case update_fd_array alloc (length arr) c1 of
                (True, c2) \<Rightarrow> c2\<lparr> z_fds_to_ignore := Some (Some (arr @ z_exempted c2)) \<rparr>
              | (False, c2) \<Rightarrow> c2)
         | _ \<Rightarrow> snd (update_fd_array alloc 0 c))
      else c)"

fun close_forbidden :: "int list \<Rightarrow> bool list \<Rightarrow> int \<Rightarrow> int list \<Rightarrow> int list" where
  "close_forbidden [] al d opened = opened"
| "close_forbidden (fd # fds) al d opened =
     (if (fd < 0 \<or> length al \<le> nat fd \<or> \<not> al ! nat fd) \<and> fd \<noteq> d
      then close_forbidden fds al d (removeAll fd opened)
      else close_forbidden fds al d opened)"

definition sanitize_fds :: "bool \<Rightarrow> int option \<Rightarrow> zctx \<Rightarrow> zctx res" where
  "sanitize_fds alloc dirfd c =
     (if \<not> is_child c then Inr c
      else let c1 = exempt_fds alloc c in
        (case dirfd of
           None \<Rightarrow> Inl Null_deref
         | Some d \<Rightarrow>
             Inr (c1\<lparr> z_open := removeAll d
               (close_forbidden (dir_entries (z_open c1) d) (z_allowed c1) d (z_open c1 @ [d])) \<rparr>)))"

section \<open>Lemmas\<close>

lemma length_allow [simp]: "length (allow fd al) = length al"
  by (simp add: allow_def)

lemma length_allow_all [simp]: "length (allow_all fds al) = length al"
  by (induction fds al rule: allow_all.induct) simp_all

lemma fd_allowed_allow: "fd_allowed (allow fd al) x \<longleftrightarrow>
    fd_allowed al x \<or> (x = fd \<and> 0 \<le> fd \<and> nat fd < length al)"
  by (auto simp: fd_allowed_def allow_def nth_list_update nat_eq_iff)

lemma fd_allowed_allow_all: "fd_allowed (allow_all fds al) x \<longleftrightarrow>
    fd_allowed al x \<or> (x \<in> set fds \<and> 0 \<le> x \<and> nat x < length al)"
  by (induction fds al rule: allow_all.induct) (auto simp: fd_allowed_allow)

lemma set_dir_entries [simp]: "set (dir_entries opened d) = insert (- 1) (insert d (set opened))"
  by (auto simp: dir_entries_def)

lemma record_fds_length: "record_fds fds al opened = (al', o') \<Longrightarrow> length al' = length al"
  by (induction fds al opened rule: record_fds.induct) (auto split: if_splits)

lemma record_fds_allowed:
  "record_fds fds al opened = (al', o') \<Longrightarrow> fd_allowed al' x \<longleftrightarrow>
     fd_allowed al x \<or> (x \<in> set fds \<and> 0 \<le> x \<and> nat x < length al)"
proof (induction fds al opened rule: record_fds.induct)
  case (2 fd fds al opened)
  show ?case
  proof (cases "fd < 0 \<or> length al \<le> nat fd")
    case True
    with 2 show ?thesis by auto
  next
    case False
    then have a: "al[nat fd := True] = allow fd al" by (simp add: allow_def)
    from 2 False have "fd_allowed al' x \<longleftrightarrow> fd_allowed (allow fd al) x \<or>
        (x \<in> set fds \<and> 0 \<le> x \<and> nat x < length al)" by (simp add: a)
    with False show ?thesis by (auto simp: fd_allowed_allow)
  qed
qed simp

lemma record_fds_open:
  "record_fds fds al opened = (al', o') \<Longrightarrow>
     set o' = set opened - {fd \<in> set fds. fd < 0 \<or> length al \<le> nat fd}"
proof (induction fds al opened rule: record_fds.induct)
  case (2 fd fds al opened)
  show ?case
  proof (cases "fd < 0 \<or> length al \<le> nat fd")
    case True
    with 2 have "set o' = set (removeAll fd opened) - {fd \<in> set fds. fd < 0 \<or> length al \<le> nat fd}"
      by simp
    with True show ?thesis by auto
  next
    case False
    with 2 have "set o' = set opened - {fd \<in> set fds. fd < 0 \<or> length al \<le> nat fd}" by simp
    with False show ?thesis by auto
  qed
qed simp

lemma forbidden_iff: "fd < 0 \<or> length al \<le> nat fd \<or> \<not> al ! nat fd \<longleftrightarrow> \<not> fd_allowed al fd"
  by (auto simp: fd_allowed_def)

lemma close_forbidden_set:
  "set (close_forbidden fds al d opened) =
     set opened - {fd \<in> set fds. \<not> fd_allowed al fd \<and> fd \<noteq> d}"
proof (induction fds al d opened rule: close_forbidden.induct)
  case (2 fd fds al d opened)
  show ?case
  proof (cases "\<not> fd_allowed al fd \<and> fd \<noteq> d")
    case True
    with 2 have "set (close_forbidden (fd # fds) al d opened) =
        set (removeAll fd opened) - {fd \<in> set fds. \<not> fd_allowed al fd \<and> fd \<noteq> d}"
      by (simp only: close_forbidden.simps forbidden_iff simp_thms if_True)
    with True show ?thesis by auto
  next
    case False
    with 2 have "set (close_forbidden (fd # fds) al d opened) =
        set opened - {fd \<in> set fds. \<not> fd_allowed al fd \<and> fd \<noteq> d}"
      by (simp only: close_forbidden.simps forbidden_iff if_False not_False_eq_True simp_thms)
    with False show ?thesis by auto
  qed
qed simp

lemma fd_allowed_nonneg: "fd_allowed al fd \<Longrightarrow> 0 \<le> fd"
  by (simp add: fd_allowed_def)

lemma exempt_fds_keeps [frame_simps]:
  "z_open (exempt_fds alloc c) = z_open c" "z_exempted (exempt_fds alloc c) = z_exempted c"
  "length (z_allowed (exempt_fds alloc c)) = length (z_allowed c)"
  by (auto simp: exempt_fds_def update_fd_array_def Let_def split: option.splits)

text \<open>The descriptors a caller or a module may keep open.\<close>

definition excused :: "zctx \<Rightarrow> int set" where
  "excused c =
     (if can_exempt_fd c
      then set (z_exempted c) \<union> (case z_fds_to_ignore c of Some (Some arr) \<Rightarrow> set arr | _ \<Rightarrow> {})
      else {})"

lemma exempt_fds_allowed:
  "fd_allowed (z_allowed (exempt_fds alloc c)) x \<Longrightarrow> fd_allowed (z_allowed c) x \<or> x \<in> excused c"
  by (auto simp: exempt_fds_def update_fd_array_def excused_def fd_allowed_allow_all Let_def
      split: option.splits if_splits)

text \<open>What survives \<open>sanitize_fds\<close> in a child.\<close>

lemma sanitize_fds_open:
  assumes "sanitize_fds alloc (Some d) c = Inr c'" "is_child c"
  shows "set (z_open c') = {fd \<in> set (z_open c). fd_allowed (z_allowed (exempt_fds alloc c)) fd} - {d}"
    "z_exempted c' = z_exempted c"
proof -
  let ?c = "exempt_fds alloc c"
  have "z_open c' = removeAll d
      (close_forbidden (dir_entries (z_open c) d) (z_allowed ?c) d (z_open c @ [d]))"
    using assms by (auto simp: sanitize_fds_def Let_def frame_simps)
  then have "set (z_open c') = set (z_open c @ [d]) -
      {fd \<in> set (dir_entries (z_open c) d). \<not> fd_allowed (z_allowed ?c) fd \<and> fd \<noteq> d} - {d}"
    by (simp only: set_removeAll close_forbidden_set)
  then show "set (z_open c') = {fd \<in> set (z_open c). fd_allowed (z_allowed ?c) fd} - {d}"
    using fd_allowed_nonneg [of "z_allowed ?c" "- 1"] by auto
  show "z_exempted c' = z_exempted c"
    using assms by (auto simp: sanitize_fds_def Let_def frame_simps)
qed

section \<open>Fork and sanitize\<close>

text \<open>
  No descriptor leaks into an application: after the child has recorded its
  descriptors, modules have opened any number of new ones and asked for exemptions, and the
  context is sanitized, every open descriptor was open at the fork, or a module exempted
  it, or the framework lists it as one to ignore; and a descriptor of the zygote that lies
  within the limit is not closed.
\<close>

lemma fork_then_sanitize:
  assumes "fork_pre 0 (Some d) c = Inr c1"
    and "d \<notin> set (z_open c)" "list_all (\<lambda>fd. 0 \<le> fd) (z_open c)" "0 \<le> d"
    and "z_allowed c = replicate n False"
    and "z_allowed c2 = z_allowed c1" "z_pid c2 = 0"
    and "sanitize_fds alloc (Some d') c2 = Inr c3"
  shows "set (z_open c3) \<subseteq> set (z_open c) \<union> excused c2 \<and>
     {fd \<in> set (z_open c). nat fd < n} \<inter> set (z_open c2) - {d'} \<subseteq> set (z_open c3)"
proof -
  obtain al os where r: "record_fds (dir_entries (z_open c) d) (z_allowed c) (z_open c @ [d]) = (al, os)"
    by fastforce
  have ld: "\<not> length al \<le> nat d" and c1: "z_allowed c1 = al[nat d := False]"
    using assms(1) r by (auto simp: fork_pre_def is_child_def split: if_splits)
  have n: "length (z_allowed c) = n" and none: "\<not> fd_allowed (z_allowed c) x" for x
    using assms(5) by (auto simp: fd_allowed_def)
  have al: "fd_allowed al x \<longleftrightarrow> x \<in> set (dir_entries (z_open c) d) \<and> 0 \<le> x \<and> nat x < n" for x
    using record_fds_allowed [OF r, of x] none n by blast
  have a1: "fd_allowed (z_allowed c1) x \<longleftrightarrow> x \<in> set (z_open c) \<and> nat x < n" for x
  proof -
    have "fd_allowed (z_allowed c1) x \<longleftrightarrow> fd_allowed al x \<and> x \<noteq> d"
      using ld assms(4) by (auto simp: c1 fd_allowed_def nth_list_update)
    also have "\<dots> \<longleftrightarrow> x \<in> set (z_open c) \<and> nat x < n"
      using al assms(2,3) by (auto simp: list_all_iff)
    finally show ?thesis .
  qed
  have "is_child c2" using assms(7) by (simp add: is_child_def)
  from sanitize_fds_open(1) [OF assms(8) this]
  have s: "set (z_open c3) =
      {fd \<in> set (z_open c2). fd_allowed (z_allowed (exempt_fds alloc c2)) fd} - {d'}" .
  have grow: "fd_allowed (z_allowed c2) x \<Longrightarrow> fd_allowed (z_allowed (exempt_fds alloc c2)) x" for x
    by (auto simp: exempt_fds_def update_fd_array_def fd_allowed_allow_all Let_def
        split: option.splits)
  show ?thesis
    using s exempt_fds_allowed [of alloc c2] a1 grow assms(6) by auto
qed

definition sample_ctx :: zctx where
  "sample_ctx = (ZygiskContext 8 (Some None) [0, 1, 3])\<lparr> z_flags := APP_FORK_AND_SPECIALIZE \<rparr>"

section \<open>Properties\<close>

text \<open>
  a failed fork is taken for the child: with a negative result the context counts as
  a child although the process is still the zygote, and the exempting of descriptors and
  the closing of the others go on there.
\<close>

theorem failed_fork_taken_for_child:
  assumes "pid < 0" "0 \<le> d" "nat d < length (z_allowed c)"
  shows "\<exists>c1. fork_pre pid (Some d) c = Inr c1 \<and> is_child c1 \<and> z_pid c1 = pid"
proof -
  obtain al os where r: "record_fds (dir_entries (z_open c) d) (z_allowed c) (z_open c @ [d]) = (al, os)"
    by fastforce
  from record_fds_length [OF r] have "length al = length (z_allowed c)" .
  with r assms show ?thesis by (auto simp: fork_pre_def is_child_def Let_def)
qed

lemma failed_fork_taken_for_child_witness:
  "\<exists>c1. fork_pre (- 1) (Some 4) sample_ctx = Inr c1 \<and> is_child c1"
  using failed_fork_taken_for_child [of "- 1" 4 sample_ctx]
  by (auto simp: sample_ctx_def ZygiskContext_def)

end
