(* ===== verification/Fossil.thy ===== *)
theory Fossil
  imports Prelude
begin

text \<open>
  \<open>injector/fossil.cpp\<close> and \<open>spoof_zygote_fossil\<close> of \<open>injector/clean.cpp\<close>: the argument
  vector of a mount command that init leaves on the stack it hands to zygote.  Memory is
  the list of its bytes and an address an index into it; a write outside it faults.
\<close>

section \<open>Fields in memory\<close>

definition u32_chars :: "u32 \<Rightarrow> string" where
  "u32_chars w = map (\<lambda>b. char_of (unat b)) (le_bytes 4 (unat w))"

definition chars_u32 :: "string \<Rightarrow> u32" where
  "chars_u32 s = of_nat (le_value (map (\<lambda>c. of_nat (of_char c)) (take 4 s)))"

lemma length_u32_chars [simp]: "length (u32_chars w) = 4"
  by (simp add: u32_chars_def)

lemma byte_mod [simp]: "word_of_nat (unat (b :: u8) mod 256) = b"
proof -
  have "unat b < 256" using unsigned_less [of b, where ?'a = nat] by simp
  then show ?thesis by simp
qed

lemma chars_u32_chars [simp]: "chars_u32 (u32_chars w @ r) = w"
proof -
  have "unat w < 256 ^ 4" using unsigned_less [of w, where ?'a = nat] by simp
  then show ?thesis
    by (simp add: chars_u32_def u32_chars_def comp_def le_value_le_bytes)
qed

record mount_argv =
  m_start_address :: nat
  m_source :: string
  m_target :: string
  m_filesystem_type :: string
  m_mount_options :: string
  m_base_flags :: u32
  m_fossil_size :: nat
  m_remnant_size :: nat
  m_valid :: bool

record mount_info_entry =
  i_source :: string
  i_target :: string
  i_filesystem_type :: string
  i_mount_options :: string
  is_suspicious :: bool

definition empty_argv :: mount_argv where
  "empty_argv = \<lparr> m_start_address = 0, m_source = [], m_target = [], m_filesystem_type = [],
     m_mount_options = [], m_base_flags = 0, m_fossil_size = 0, m_remnant_size = 0,
     m_valid = False \<rparr>"

text \<open>The string at \<open>p\<close> and the address after its NUL; \<open>None\<close> without a NUL before \<open>limit\<close>.\<close>

definition parse_string_field :: "string \<Rightarrow> nat \<Rightarrow> nat \<Rightarrow> (string \<times> nat) option" where
  "parse_string_field mem limit p =
     (let field = take (limit - p) (drop p mem); len = cstrnlen field in
      if len = limit - p then None else Some (take len field, p + len + 1))"

function find_double_null :: "string \<Rightarrow> nat \<Rightarrow> nat \<Rightarrow> nat option" where
  "find_double_null mem limit p =
     (if p + 1 < limit then
        (if mem ! p = nul \<and> mem ! (p + 1) = nul then Some p else find_double_null mem limit (p + 1))
      else None)"
  by pat_completeness auto
termination by (relation "measure (\<lambda>(mem, limit, p). limit - p)") auto

declare find_double_null.simps [simp del]

text \<open>A parse that stops early leaves what it has read so far, and stays invalid.\<close>

definition parseFromMemory :: "string \<Rightarrow> nat \<Rightarrow> nat \<Rightarrow> mount_argv" where
  "parseFromMemory mem start limit =
     (let a0 = empty_argv\<lparr> m_start_address := start \<rparr> in
      if limit \<le> start then empty_argv
      else case parse_string_field mem limit start of None \<Rightarrow> a0
      | Some (src, p1) \<Rightarrow> let a1 = a0\<lparr> m_source := src \<rparr> in
      (case parse_string_field mem limit p1 of None \<Rightarrow> a1
      | Some (tgt, p2) \<Rightarrow> let a2 = a1\<lparr> m_target := tgt \<rparr> in
      (case parse_string_field mem limit p2 of None \<Rightarrow> a2
      | Some (ty, p3) \<Rightarrow> let a3 = a2\<lparr> m_filesystem_type := ty \<rparr> in
      (case parse_string_field mem limit p3 of None \<Rightarrow> a3
      | Some (opts, p4) \<Rightarrow> let a4 = a3\<lparr> m_mount_options := opts \<rparr> in
        if limit < p4 + 4 then a4
        else
          let fossil_end = p4 + 4 in
          a4\<lparr> m_base_flags := chars_u32 (drop p4 mem),
              m_remnant_size := (case find_double_null mem limit fossil_end of
                                   Some e \<Rightarrow> e - fossil_end | None \<Rightarrow> 0),
              m_fossil_size := fossil_end - start, m_valid := True \<rparr>))))"

definition passesHeuristics :: "mount_argv \<Rightarrow> bool" where
  "passesHeuristics a \<longleftrightarrow>
     m_valid a \<and> m_target a \<noteq> [] \<and> m_source a \<noteq> [] \<and> m_filesystem_type a \<noteq> [] \<and>
     hd (m_target a) = CHR 0x2F \<and>
     2 \<le> length (m_filesystem_type a) \<and> length (m_filesystem_type a) \<le> 10 \<and>
     str_contains (m_mount_options a) ''seclabel''"

fun find_fossil :: "string \<Rightarrow> nat \<Rightarrow> nat \<Rightarrow> nat \<Rightarrow> mount_argv" where
  "find_fossil mem limit p 0 = empty_argv"
| "find_fossil mem limit p (Suc n) =
     (let a = parseFromMemory mem p limit in
      if m_valid a \<and> passesHeuristics a then a else find_fossil mem limit (p + 1) n)"

definition MountArgv_find :: "string \<Rightarrow> nat \<Rightarrow> nat \<Rightarrow> mount_argv" where
  "MountArgv_find mem search_from search_to = find_fossil mem search_to search_from (search_to - search_from)"

text \<open>The second constructor: a fossil to write, made from a mountinfo entry.\<close>

definition MountArgv_clean :: "mount_info_entry \<Rightarrow> nat \<Rightarrow> u32 \<Rightarrow> mount_argv" where
  "MountArgv_clean e address flags =
     \<lparr> m_start_address = address, m_source = i_source e, m_target = i_target e,
       m_filesystem_type = i_filesystem_type e, m_mount_options = i_mount_options e,
       m_base_flags = flags,
       m_fossil_size = (length (i_source e) + 1) + (length (i_target e) + 1) +
                       (length (i_filesystem_type e) + 1) + (length (i_mount_options e) + 1) + 4,
       m_remnant_size = 0, m_valid = True \<rparr>"

section \<open>Writing\<close>

definition store :: "nat \<Rightarrow> string \<Rightarrow> string \<Rightarrow> string res" where
  "store a bs mem =
     (if length mem < a + length bs then Inl Bad_read
      else Inr (take a mem @ bs @ drop (a + length bs) mem))"

definition argv_bytes :: "mount_argv \<Rightarrow> string" where
  "argv_bytes a = m_source a @ [nul] @ m_target a @ [nul] @ m_filesystem_type a @ [nul] @
                  m_mount_options a @ [nul] @ u32_chars (m_base_flags a)"

text \<open>The five copies of \<open>writeToMemory\<close>, one after the other.\<close>

definition writeToMemory :: "mount_argv \<Rightarrow> string \<Rightarrow> string res" where
  "writeToMemory a mem =
     (if \<not> m_valid a then Inr mem
      else
        let p0 = m_start_address a; p1 = p0 + length (m_source a) + 1;
            p2 = p1 + length (m_target a) + 1; p3 = p2 + length (m_filesystem_type a) + 1;
            p4 = p3 + length (m_mount_options a) + 1
        in bind_res (store p0 (m_source a @ [nul]) mem) (\<lambda>mem.
           bind_res (store p1 (m_target a @ [nul]) mem) (\<lambda>mem.
           bind_res (store p2 (m_filesystem_type a @ [nul]) mem) (\<lambda>mem.
           bind_res (store p3 (m_mount_options a @ [nul]) mem) (\<lambda>mem.
             store p4 (u32_chars (m_base_flags a)) mem)))))"

definition cleanMemory :: "mount_argv \<Rightarrow> string \<Rightarrow> string res" where
  "cleanMemory a mem =
     (if \<not> m_valid a then Inr mem
      else store (m_start_address a) (replicate (m_fossil_size a + m_remnant_size a) nul) mem)"

section \<open>mountinfo\<close>

text \<open>\<open>ss >> token\<close>: the next word, and what follows it.\<close>

definition next_token :: "string \<Rightarrow> string \<times> string" where
  "next_token s =
     (let t = dropWhile is_space s
      in (takeWhile (\<lambda>c. \<not> is_space c) t, dropWhile (\<lambda>c. \<not> is_space c) t))"

definition trim_leading :: "string \<Rightarrow> string" where
  "trim_leading s = dropWhile is_space s"

definition parseMountInfoLine :: "string \<Rightarrow> mount_info_entry" where
  "parseMountInfoLine line =
     (case str_find '' - '' line of
        None \<Rightarrow> \<lparr> i_source = [], i_target = [], i_filesystem_type = [], i_mount_options = [],
                   is_suspicious = False \<rparr>
      | Some pos \<Rightarrow>
          let before = take pos line;
              s1 = snd (next_token before); s2 = snd (next_token s1);
              s3 = snd (next_token s2); s4 = snd (next_token s3);
              after = drop (pos + 3) line;
              (ty, a1) = next_token after; (src, a2) = next_token a1
          in \<lparr> i_source = src, i_target = fst (next_token s4), i_filesystem_type = ty,
               i_mount_options = trim_leading (takeWhile (\<lambda>c. c \<noteq> CHR 0x0A) a2),
               is_suspicious = False \<rparr>)"

definition mount_keywords :: "string list" where
  "mount_keywords = [''KSU'', ''/debug_ramdisk'', ''APATCH'', ''/data/adb'', ''/adb/modules'',
                     ''/dev/block/loop'']"

text \<open>The lines of \<open>/proc/self/mountinfo\<close>, or \<open>None\<close> when it cannot be opened.\<close>

definition parseMountInfo :: "string list option \<Rightarrow> mount_info_entry list" where
  "parseMountInfo file =
     (case file of
        None \<Rightarrow> []
      | Some lines \<Rightarrow>
          map (\<lambda>l. if list_ex (str_contains l) mount_keywords
                   then (parseMountInfoLine l)\<lparr> is_suspicious := True \<rparr> else parseMountInfoLine l) lines)"

section \<open>The spoof\<close>

text \<open>The first suspicious entry directly preceded by the anchor: its predecessor.\<close>

fun find_template :: "string \<Rightarrow> mount_info_entry list \<Rightarrow> mount_info_entry option" where
  "find_template anchor (a # b # es) =
     (if str_contains (i_target a) anchor \<and> is_suspicious b then Some a
      else find_template anchor (b # es))"
| "find_template anchor _ = None"

definition spoof_zygote_fossil ::
  "string list option \<Rightarrow> string \<Rightarrow> nat \<Rightarrow> nat \<Rightarrow> string \<Rightarrow> string res" where
  "spoof_zygote_fossil mountinfo mem search_from search_to anchor =
     (let fossil = MountArgv_find mem search_from search_to in
      if \<not> m_valid fossil then Inr mem
      else if str_contains (m_target fossil) anchor then Inr mem
      else case find_template anchor (parseMountInfo mountinfo) of
        None \<Rightarrow> Inr mem
      | Some entry \<Rightarrow>
          let clean = MountArgv_clean entry (m_start_address fossil) (m_base_flags fossil)
          in bind_res (cleanMemory fossil mem) (writeToMemory clean))"

section \<open>Writing and parsing back\<close>

lemma store_Inr_iff:
  "store a bs mem = Inr mem' \<longleftrightarrow>
     a + length bs \<le> length mem \<and> mem' = take a mem @ bs @ drop (a + length bs) mem"
  by (auto simp: store_def)

lemma store_length: "store a bs mem = Inr mem' \<Longrightarrow> length mem' = length mem"
  by (auto simp: store_Inr_iff)

lemma store_store:
  "bind_res (store a xs mem) (store (a + length xs) ys) = store a (xs @ ys) mem"
  by (auto simp: store_def not_less add.commute add.left_commute)

lemma writeToMemory_store:
  assumes "m_valid a"
  shows "writeToMemory a mem = store (m_start_address a) (argv_bytes a) mem"
proof -
  have s: "bind_res (store p xs mem) (\<lambda>m. bind_res (store (p + length xs) ys m) k) =
      bind_res (store p (xs @ ys) mem) k" for p xs ys mem and k :: "string \<Rightarrow> string res"
    by (simp only: store_store [symmetric] bind_res_assoc)
  define p0 where "p0 = m_start_address a"
  show ?thesis
    using assms
      s [of p0 "m_source a @ [nul]" mem "m_target a @ [nul]"]
      s [of p0 "m_source a @ [nul] @ m_target a @ [nul]" mem "m_filesystem_type a @ [nul]"]
      s [of p0 "m_source a @ [nul] @ m_target a @ [nul] @ m_filesystem_type a @ [nul]" mem
          "m_mount_options a @ [nul]"]
      store_store [of p0 "m_source a @ [nul] @ m_target a @ [nul] @ m_filesystem_type a @ [nul] @
          m_mount_options a @ [nul]" mem "u32_chars (m_base_flags a)"]
    by (simp add: writeToMemory_def Let_def argv_bytes_def p0_def [symmetric] add.assoc)
qed

lemma parse_string_field_at:
  assumes "nul \<notin> set s" "p + length s < limit" "length pre = p"
  shows "parse_string_field (pre @ s @ nul # r) limit p = Some (s, p + length s + 1)"
proof -
  obtain k where k: "limit - p = length s + Suc k"
    using assms(2) by (metis add_Suc_right less_imp_Suc_add add_diff_cancel_left' add.assoc)
  have f: "take (limit - p) (drop p (pre @ s @ nul # r)) = s @ nul # take k r"
    using assms(3) k by simp
  show ?thesis
    unfolding parse_string_field_def Let_def f using assms k
    by (simp add: cstrnlen_append)
qed

definition fields_ok :: "mount_argv \<Rightarrow> bool" where
  "fields_ok a \<longleftrightarrow> nul \<notin> set (m_source a) \<and> nul \<notin> set (m_target a) \<and>
                   nul \<notin> set (m_filesystem_type a) \<and> nul \<notin> set (m_mount_options a)"

lemma parse_argv_bytes:
  assumes "fields_ok a" "length pre = start" "start + length (argv_bytes a) \<le> limit"
  shows "let b = parseFromMemory (pre @ argv_bytes a @ r) start limit in
         m_valid b \<and> m_start_address b = start \<and> m_source b = m_source a \<and>
         m_target b = m_target a \<and> m_filesystem_type b = m_filesystem_type a \<and>
         m_mount_options b = m_mount_options a \<and> m_base_flags b = m_base_flags a \<and>
         m_fossil_size b = length (argv_bytes a)"
proof -
  let ?s = "m_source a" and ?t = "m_target a" and ?f = "m_filesystem_type a"
    and ?o = "m_mount_options a" and ?u = "u32_chars (m_base_flags a)"
  define mem where "mem = pre @ argv_bytes a @ r"
  let ?p1 = "start + length ?s + 1" let ?p2 = "?p1 + length ?t + 1"
  let ?p3 = "?p2 + length ?f + 1" let ?p4 = "?p3 + length ?o + 1"
  have len: "length (argv_bytes a) = length ?s + length ?t + length ?f + length ?o + 8"
    by (simp add: argv_bytes_def)
  have f1: "parse_string_field mem limit start = Some (?s, ?p1)"
    using parse_string_field_at [of ?s start limit pre] assms len
    by (simp add: mem_def argv_bytes_def fields_ok_def)
  have f2: "parse_string_field mem limit ?p1 = Some (?t, ?p2)"
    using parse_string_field_at [of ?t ?p1 limit "pre @ ?s @ [nul]"] assms len
    by (simp add: mem_def argv_bytes_def fields_ok_def)
  have f3: "parse_string_field mem limit ?p2 = Some (?f, ?p3)"
    using parse_string_field_at [of ?f ?p2 limit "pre @ ?s @ [nul] @ ?t @ [nul]"] assms len
    by (simp add: mem_def argv_bytes_def fields_ok_def)
  have f4: "parse_string_field mem limit ?p3 = Some (?o, ?p4)"
    using parse_string_field_at [of ?o ?p3 limit "pre @ ?s @ [nul] @ ?t @ [nul] @ ?f @ [nul]"] assms len
    by (simp add: mem_def argv_bytes_def fields_ok_def)
  let ?head = "pre @ ?s @ [nul] @ ?t @ [nul] @ ?f @ [nul] @ ?o @ [nul]"
  have "mem = ?head @ ?u @ r" "length ?head = ?p4"
    using assms(2) by (simp_all add: mem_def argv_bytes_def)
  then have d: "drop ?p4 mem = ?u @ r" by (metis append_eq_conv_conj)
  have g: "\<not> limit \<le> start" "\<not> limit < ?p4 + 4" "?p4 + 4 - start = length (argv_bytes a)"
    using assms(3) len by simp_all
  show ?thesis
    unfolding mem_def [symmetric] parseFromMemory_def Let_def f1 f2 f3 f4 option.case prod.case d
    using g by simp
qed

lemma clean_then_write:
  assumes "m_valid f" "m_valid c" "m_start_address c = m_start_address f"
    and "bind_res (cleanMemory f mem) (writeToMemory c) = Inr mem'"
  shows "mem' = take (m_start_address f) mem @ argv_bytes c @
           replicate (m_fossil_size f + m_remnant_size f - length (argv_bytes c)) nul @
           drop (m_start_address f + max (m_fossil_size f + m_remnant_size f) (length (argv_bytes c))) mem"
    and "length mem' = length mem"
proof -
  let ?a = "m_start_address f" and ?n = "m_fossil_size f + m_remnant_size f"
  from assms obtain mem1 where c: "store ?a (replicate ?n nul) mem = Inr mem1"
    and w: "store ?a (argv_bytes c) mem1 = Inr mem'"
    by (auto simp: cleanMemory_def writeToMemory_store)
  from c have l1: "?a + ?n \<le> length mem" and
    m1: "mem1 = take ?a mem @ replicate ?n nul @ drop (?a + ?n) mem" by (auto simp: store_Inr_iff)
  from w have l2: "?a + length (argv_bytes c) \<le> length mem1" and
    m2: "mem' = take ?a mem1 @ argv_bytes c @ drop (?a + length (argv_bytes c)) mem1"
    by (auto simp: store_Inr_iff)
  show "length mem' = length mem" using store_length [OF c] store_length [OF w] by simp
  have t: "take ?a mem1 = take ?a mem" using l1 by (simp add: m1)
  have d: "drop (?a + length (argv_bytes c)) mem1 =
      replicate (?n - length (argv_bytes c)) nul @ drop (?a + max ?n (length (argv_bytes c))) mem"
    using l1 by (simp add: m1 max_def add.commute)
  show "mem' = take ?a mem @ argv_bytes c @ replicate (?n - length (argv_bytes c)) nul @
      drop (?a + max ?n (length (argv_bytes c))) mem"
    unfolding m2 t d ..
qed

lemma find_fossil_start:
  "m_valid (find_fossil mem limit p n) \<Longrightarrow>
     \<exists>q. p \<le> q \<and> q < p + n \<and> find_fossil mem limit p n = parseFromMemory mem q limit \<and>
         passesHeuristics (parseFromMemory mem q limit)"
proof (induction n arbitrary: p)
  case 0
  then show ?case by (simp add: empty_argv_def)
next
  case (Suc n)
  show ?case
  proof (cases "m_valid (parseFromMemory mem p limit) \<and> passesHeuristics (parseFromMemory mem p limit)")
    case True
    then show ?thesis by (intro exI [of _ p]) (simp add: Let_def)
  next
    case False
    then have e: "find_fossil mem limit p (Suc n) = find_fossil mem limit (p + 1) n"
      by (auto simp: Let_def)
    with Suc.prems have "m_valid (find_fossil mem limit (p + 1) n)" by simp
    from Suc.IH [OF this] obtain q where "p + 1 \<le> q" "q < p + 1 + n"
      "find_fossil mem limit (p + 1) n = parseFromMemory mem q limit"
      "passesHeuristics (parseFromMemory mem q limit)" by blast
    with e show ?thesis by (intro exI [of _ q]) simp
  qed
qed

lemma find_template_Some:
  "find_template anchor es = Some a \<Longrightarrow>
     \<exists>i. Suc i < length es \<and> es ! i = a \<and> str_contains (i_target a) anchor \<and>
         is_suspicious (es ! Suc i)"
proof (induction anchor es rule: find_template.induct)
  case (1 anchor x y es)
  show ?case
  proof (cases "str_contains (i_target x) anchor \<and> is_suspicious y")
    case True
    with 1 show ?thesis by (intro exI [of _ 0]) auto
  next
    case False
    with 1 obtain i where "Suc i < length (y # es)" "(y # es) ! i = a"
      "str_contains (i_target a) anchor" "is_suspicious ((y # es) ! Suc i)" by auto
    then show ?thesis by (intro exI [of _ "Suc i"]) simp
  qed
qed simp_all

section \<open>Properties\<close>

text \<open>
  a fossil that is written is found again: parsing the memory at its address gives
  back every field, the flags and the size, whatever the memory held before.
\<close>

theorem fossil_roundtrip:
  assumes "writeToMemory a mem = Inr mem'" "m_valid a" "fields_ok a"
    and "m_start_address a + length (argv_bytes a) \<le> limit"
  shows "let b = parseFromMemory mem' (m_start_address a) limit in
         m_valid b \<and> m_source b = m_source a \<and> m_target b = m_target a \<and>
         m_filesystem_type b = m_filesystem_type a \<and> m_mount_options b = m_mount_options a \<and>
         m_base_flags b = m_base_flags a \<and> m_fossil_size b = length (argv_bytes a)"
proof -
  from assms(1,2) have "m_start_address a + length (argv_bytes a) \<le> length mem"
    and "mem' = take (m_start_address a) mem @ argv_bytes a @
           drop (m_start_address a + length (argv_bytes a)) mem"
    by (auto simp: writeToMemory_store store_Inr_iff)
  with parse_argv_bytes [OF assms(3) _ assms(4), of "take (m_start_address a) mem"] show ?thesis
    by (simp add: Let_def)
qed

definition sample_entry :: mount_info_entry where
  "sample_entry = \<lparr> i_source = ''s'', i_target = ''/ref'', i_filesystem_type = ''ext4'',
     i_mount_options = ''seclabel'', is_suspicious = False \<rparr>"

lemma fossil_roundtrip_witness:
  "m_target (parseFromMemory (argv_bytes (MountArgv_clean sample_entry 0 7)) 0 100) = ''/ref''"
proof -
  let ?a = "MountArgv_clean sample_entry 0 7" and ?mem = "replicate 25 nul"
  have l: "length (argv_bytes ?a) = 25" "m_valid ?a" "m_start_address ?a = 0" "m_target ?a = ''/ref''"
    by (simp_all add: argv_bytes_def MountArgv_clean_def sample_entry_def)
  have "writeToMemory ?a ?mem = Inr (argv_bytes ?a)"
    using l by (simp add: writeToMemory_store store_def)
  moreover have "fields_ok ?a"
    by (simp add: fields_ok_def MountArgv_clean_def sample_entry_def nul_def)
  ultimately show ?thesis
    using fossil_roundtrip [of ?a ?mem "argv_bytes ?a" 100] l by (simp add: Let_def)
qed

text \<open>
  the exact effect of the spoof.  Either nothing changes, or there is a fossil that
  passes the heuristics and a mountinfo entry that holds the anchor and directly precedes a
  suspicious one; then the entry's fields replace the fossil, nothing of the old fossil and
  of the remnant behind it is left, and no byte before the fossil or behind the longer of
  the two is touched.
\<close>

theorem spoof_effect:
  assumes "spoof_zygote_fossil mountinfo mem search_from search_to anchor = Inr mem'"
  shows "(\<exists>f entry i. f = parseFromMemory mem (m_start_address f) search_to \<and> passesHeuristics f \<and>
       search_from \<le> m_start_address f \<and> m_start_address f < search_to \<and>
       \<not> str_contains (m_target f) anchor \<and>
       Suc i < length (parseMountInfo mountinfo) \<and> parseMountInfo mountinfo ! i = entry \<and>
       str_contains (i_target entry) anchor \<and> is_suspicious (parseMountInfo mountinfo ! Suc i) \<and>
       mem' = take (m_start_address f) mem @
              argv_bytes (MountArgv_clean entry (m_start_address f) (m_base_flags f)) @
              replicate (m_fossil_size f + m_remnant_size f -
                         m_fossil_size (MountArgv_clean entry (m_start_address f) (m_base_flags f))) nul @
              drop (m_start_address f + max (m_fossil_size f + m_remnant_size f)
                      (m_fossil_size (MountArgv_clean entry (m_start_address f) (m_base_flags f)))) mem) \<or>
    mem' = mem"
proof (rule disjCI)
  assume changed: "mem' \<noteq> mem"
  define f where "f = MountArgv_find mem search_from search_to"
  from assms changed have v: "m_valid f" and t: "\<not> str_contains (m_target f) anchor"
    and "find_template anchor (parseMountInfo mountinfo) \<noteq> None"
    by (auto simp: spoof_zygote_fossil_def f_def [symmetric] Let_def split: if_splits option.splits)
  then obtain entry where e: "find_template anchor (parseMountInfo mountinfo) = Some entry" by blast
  define c where "c = MountArgv_clean entry (m_start_address f) (m_base_flags f)"
  have w: "bind_res (cleanMemory f mem) (writeToMemory c) = Inr mem'"
    using assms v t e by (simp add: spoof_zygote_fossil_def f_def [symmetric] Let_def c_def)
  have c: "m_valid c" "m_start_address c = m_start_address f" "m_fossil_size c = length (argv_bytes c)"
    by (simp_all add: c_def MountArgv_clean_def argv_bytes_def)
  from v have "m_valid (find_fossil mem search_to search_from (search_to - search_from))"
    by (simp add: f_def MountArgv_find_def)
  from find_fossil_start [OF this] obtain q where q: "search_from \<le> q" "q < search_to"
    "f = parseFromMemory mem q search_to" "passesHeuristics f"
    by (auto simp: f_def MountArgv_find_def)
  then have "m_start_address f = q"
    using v by (auto simp: parseFromMemory_def empty_argv_def Let_def split: option.splits if_splits)
  moreover obtain i where "Suc i < length (parseMountInfo mountinfo)"
    "parseMountInfo mountinfo ! i = entry" "str_contains (i_target entry) anchor"
    "is_suspicious (parseMountInfo mountinfo ! Suc i)"
    using find_template_Some [OF e] by blast
  moreover have "mem' = take (m_start_address f) mem @ argv_bytes c @
      replicate (m_fossil_size f + m_remnant_size f - m_fossil_size c) nul @
      drop (m_start_address f + max (m_fossil_size f + m_remnant_size f) (m_fossil_size c)) mem"
    using clean_then_write(1) [OF v c(1,2) w] c(3) by simp
  ultimately show "\<exists>f entry i. f = parseFromMemory mem (m_start_address f) search_to \<and> passesHeuristics f \<and>
       search_from \<le> m_start_address f \<and> m_start_address f < search_to \<and>
       \<not> str_contains (m_target f) anchor \<and>
       Suc i < length (parseMountInfo mountinfo) \<and> parseMountInfo mountinfo ! i = entry \<and>
       str_contains (i_target entry) anchor \<and> is_suspicious (parseMountInfo mountinfo ! Suc i) \<and>
       mem' = take (m_start_address f) mem @
              argv_bytes (MountArgv_clean entry (m_start_address f) (m_base_flags f)) @
              replicate (m_fossil_size f + m_remnant_size f -
                         m_fossil_size (MountArgv_clean entry (m_start_address f) (m_base_flags f))) nul @
              drop (m_start_address f + max (m_fossil_size f + m_remnant_size f)
                      (m_fossil_size (MountArgv_clean entry (m_start_address f) (m_base_flags f)))) mem"
    unfolding c_def using q t
    by (intro exI [of _ f] exI [of _ entry] exI [of _ i] conjI) simp_all
qed

definition sample_stack :: string where
  "sample_stack = ''x'' @ [nul] @ ''/t'' @ [nul] @ ''ext4'' @ [nul] @ ''seclabel,rw'' @
                  replicate 40 nul"

definition sample_mountinfo :: "string list option" where
  "sample_mountinfo = Some [''1 2 3:4 / /ref - ext4 src seclabel'',
                            ''5 6 7:8 / /data/adb - tmpfs KSU rw'']"

lemma spoof_effect_witness:
  "\<exists>mem'. spoof_zygote_fossil sample_mountinfo sample_stack 0 50 ''ref'' = Inr mem' \<and>
     ((\<exists>f entry i. f = parseFromMemory sample_stack (m_start_address f) 50 \<and> passesHeuristics f \<and>
        str_contains (i_target entry) ''ref'' \<and> parseMountInfo sample_mountinfo ! i = entry) \<or>
      mem' = sample_stack)"
proof -
  have "\<not> isl (spoof_zygote_fossil sample_mountinfo sample_stack 0 50 ''ref'')" by code_simp
  then obtain mem' where m: "spoof_zygote_fossil sample_mountinfo sample_stack 0 50 ''ref'' = Inr mem'"
    by (cases "spoof_zygote_fossil sample_mountinfo sample_stack 0 50 ''ref''") simp_all
  from spoof_effect [OF m] m show ?thesis by blast
qed

end
