(* ===== verification/Mount_Traces.thy ===== *)
theory Mount_Traces
  imports Fossil "HOL-Library.Multiset"
begin

text \<open>
  \<open>injector/unmount.cpp\<close>: the mounts a root implementation leaves in zygote.  The parser
  of \<open>/proc/self/mountinfo\<close> rejects a line that does not have the fixed fields; the rest
  selects the traces and orders them for unmounting.  \<open>abort_zygote_unmount\<close> and the
  unmount loop are those of \<open>injector/module.cpp\<close>.
\<close>

section \<open>Reading numbers from a stream\<close>

text \<open>\<open>ss >> n\<close> for an \<open>unsigned int\<close>: \<open>None\<close> sets the failure bit.\<close>

definition read_uint :: "string \<Rightarrow> (u32 \<times> string) option" where
  "read_uint s =
     (let t = dropWhile is_space s;
          neg = (case t of c # _ \<Rightarrow> c = CHR 0x2D | [] \<Rightarrow> False);
          u = (case t of c # r \<Rightarrow> if c = CHR 0x2D \<or> c = CHR 0x2B then r else t | [] \<Rightarrow> t);
          ds = takeWhile is_digit u; v = digits_value ds
      in if ds = [] \<or> 2 ^ 32 \<le> v then None
         else Some (of_int (if neg then - v else v), dropWhile is_digit u))"

text \<open>\<open>ss >> word\<close>: an empty rest sets the failure bit.\<close>

definition read_word :: "string \<Rightarrow> (string \<times> string) option" where
  "read_word s = (let (w, r) = next_token s in if w = [] then None else Some (w, r))"

text \<open>One \<open>%u\<close> of \<open>sscanf\<close>, and the format \<open>"%u:%u"\<close>.\<close>

definition scan_u :: "string \<Rightarrow> (u32 \<times> string) option" where
  "scan_u s =
     (let t = dropWhile is_space s;
          neg = (case t of c # _ \<Rightarrow> c = CHR 0x2D | [] \<Rightarrow> False);
          u = (case t of c # r \<Rightarrow> if c = CHR 0x2D \<or> c = CHR 0x2B then r else t | [] \<Rightarrow> t);
          ds = takeWhile is_digit u; v = min (digits_value ds) (2 ^ 64 - 1)
      in if ds = [] then None
         else Some (of_int (if neg then - v else v), dropWhile is_digit u))"

definition scan_device :: "string \<Rightarrow> (u32 \<times> u32) option" where
  "scan_device s =
     (case scan_u s of
        None \<Rightarrow> None
      | Some (maj, r) \<Rightarrow>
          (case r of
             [] \<Rightarrow> None
           | c # r' \<Rightarrow>
               if c \<noteq> CHR 0x3A then None
               else map_option (\<lambda>(mi, _). (maj, mi)) (scan_u r')))"

text \<open>\<open>makedev\<close> of the C library.\<close>

definition makedev :: "u32 \<Rightarrow> u32 \<Rightarrow> u64" where
  "makedev maj mi =
     push_bit 32 (ucast maj AND 0xfffff000) OR push_bit 8 (ucast maj AND 0xfff) OR
     push_bit 12 (ucast mi AND 0xffffff00) OR (ucast mi AND 0xff)"

section \<open>The table\<close>

record mount_info =
  mi_id :: u32
  mi_parent :: u32
  mi_device :: u64
  mi_root :: string
  mi_target :: string
  mi_vfs_options :: string
  mi_type :: string
  mi_source :: string
  mi_fs_options :: string
  mi_raw_info :: string

text \<open>The rest of a stream as options: without its leading blank, and empty without one.\<close>

definition rest_options :: "string \<Rightarrow> string" where
  "rest_options r =
     (let l = takeWhile (\<lambda>c. c \<noteq> CHR 0x0A) r
      in case l of [] \<Rightarrow> [] | c # cs \<Rightarrow> if c = CHR 0x20 then cs else [])"

definition parse_first_part :: "string \<Rightarrow> (u32 \<times> u32 \<times> string \<times> string \<times> string \<times> string) option" where
  "parse_first_part p =
     (case read_uint p of None \<Rightarrow> None | Some (i, r1) \<Rightarrow>
     (case read_uint r1 of None \<Rightarrow> None | Some (par, r2) \<Rightarrow>
     (case read_word r2 of None \<Rightarrow> None | Some (dev, r3) \<Rightarrow>
     (case read_word r3 of None \<Rightarrow> None | Some (root, r4) \<Rightarrow>
     (case read_word r4 of None \<Rightarrow> None | Some (target, r5) \<Rightarrow>
        Some (i, par, dev, root, target, r5))))))"

definition parse_mount_line :: "string \<Rightarrow> mount_info option" where
  "parse_mount_line line =
     (case str_find '' - '' line of
        None \<Rightarrow> None
      | Some pos \<Rightarrow>
          (case parse_first_part (take pos line) of
             None \<Rightarrow> None
           | Some (i, par, dev, root, target, r5) \<Rightarrow>
               (case scan_device dev of
                  None \<Rightarrow> None
                | Some (maj, mi) \<Rightarrow>
                    (case read_word (drop (pos + 3) line) of
                       None \<Rightarrow> None
                     | Some (ty, s1) \<Rightarrow>
                         (case read_word s1 of
                            None \<Rightarrow> None
                          | Some (src, s2) \<Rightarrow>
                              Some \<lparr> mi_id = i, mi_parent = par, mi_device = makedev maj mi,
                                     mi_root = root, mi_target = target,
                                     mi_vfs_options = rest_options r5, mi_type = ty,
                                     mi_source = src, mi_fs_options = rest_options s2,
                                     mi_raw_info = line \<rparr>)))))"

fun some_list :: "'a option list \<Rightarrow> 'a list" where
  "some_list [] = []"
| "some_list (None # xs) = some_list xs"
| "some_list (Some x # xs) = x # some_list xs"

definition parse_mount_info :: "string list option \<Rightarrow> mount_info list" where
  "parse_mount_info file =
     (case file of None \<Rightarrow> [] | Some lines \<Rightarrow> some_list (map parse_mount_line lines))"

section \<open>Traces\<close>

abbreviation (input) PROCESS_ROOT_IS_APATCH :: nat where "PROCESS_ROOT_IS_APATCH \<equiv> 28"
abbreviation (input) PROCESS_ROOT_IS_KSU :: nat where "PROCESS_ROOT_IS_KSU \<equiv> 29"
abbreviation (input) PROCESS_ROOT_IS_MAGISK :: nat where "PROCESS_ROOT_IS_MAGISK \<equiv> 30"

definition mount_source_name :: "u32 \<Rightarrow> string option" where
  "mount_source_name info_flags =
     (if bit info_flags PROCESS_ROOT_IS_APATCH then Some ''APatch''
      else if bit info_flags PROCESS_ROOT_IS_KSU then Some ''KSU''
      else if bit info_flags PROCESS_ROOT_IS_MAGISK then Some ''magisk'' else None)"

definition is_kernelsu :: "u32 \<Rightarrow> bool" where
  "is_kernelsu info_flags \<longleftrightarrow>
     \<not> bit info_flags PROCESS_ROOT_IS_APATCH \<and> bit info_flags PROCESS_ROOT_IS_KSU"

definition kernel_su_module_source :: "u32 \<Rightarrow> mount_info list \<Rightarrow> string" where
  "kernel_su_module_source info_flags infos =
     (if is_kernelsu info_flags then
        case find (\<lambda>i. mi_target i = ''/data/adb/modules'' \<and> starts_with (mi_source i) ''/dev/block/loop'')
               infos of
          Some i \<Rightarrow> mi_source i | None \<Rightarrow> []
      else [])"

definition should_unmount :: "string \<Rightarrow> string \<Rightarrow> mount_info \<Rightarrow> bool" where
  "should_unmount name module_source i \<longleftrightarrow>
     starts_with (mi_root i) ''/adb/modules'' \<or> starts_with (mi_target i) ''/data/adb/modules'' \<or>
     mi_source i = name \<or> (module_source \<noteq> [] \<and> mi_source i = module_source)"

text \<open>\<open>std::sort\<close> with descending ids; the kernel's mount ids are distinct.\<close>

definition check_zygote_traces :: "string list option \<Rightarrow> u32 \<Rightarrow> mount_info list" where
  "check_zygote_traces file info_flags =
     (let infos = parse_mount_info file in
      if infos = [] then []
      else case mount_source_name info_flags of
        None \<Rightarrow> []
      | Some name \<Rightarrow>
          sort_key (\<lambda>i. - int (unat (mi_id i)))
            (filter (should_unmount name (kernel_su_module_source info_flags infos)) infos))"

text \<open>\<open>abort_zygote_unmount\<close>: true when there is nothing to do or a target is prohibited.\<close>

definition prohibited_target :: "bool \<Rightarrow> mount_info \<Rightarrow> bool" where
  "prohibited_target is_magisk t \<longleftrightarrow>
     starts_with (mi_target t) ''/product'' \<and> \<not> starts_with (mi_target t) ''/product/bin'' \<and>
     (is_magisk \<or> mi_target t = ''/product'')"

definition abort_zygote_unmount :: "mount_info list \<Rightarrow> u32 \<Rightarrow> bool" where
  "abort_zygote_unmount traces info_flags \<longleftrightarrow>
     traces = [] \<or> list_ex (prohibited_target (bit info_flags PROCESS_ROOT_IS_MAGISK)) traces"

text \<open>The \<open>remove_if\<close> over the traces: each is unmounted in turn, and kept if that fails.\<close>

definition unmount_traces :: "(string \<Rightarrow> bool) \<Rightarrow> mount_info list \<Rightarrow> string list \<times> mount_info list" where
  "unmount_traces umount_ok traces =
     (map mi_target traces, filter (\<lambda>t. \<not> umount_ok (mi_target t)) traces)"

section \<open>Lemmas\<close>

lemma some_list_set: "x \<in> set (some_list xs) \<longleftrightarrow> Some x \<in> set xs"
  by (induction xs rule: some_list.induct) auto

lemma parse_mount_line_raw: "parse_mount_line l = Some i \<Longrightarrow> mi_raw_info i = l"
  by (auto simp: parse_mount_line_def split: option.splits)

lemma sorted_desc:
  "sorted_wrt (\<lambda>a b. mi_id b \<le> mi_id a) (sort_key (\<lambda>i. - int (unat (mi_id i))) xs)"
proof -
  have "sorted (map (\<lambda>i. - int (unat (mi_id i))) (sort_key (\<lambda>i. - int (unat (mi_id i))) xs))"
    by simp
  then show ?thesis
    by (simp add: sorted_map word_le_def)
qed

section \<open>Properties\<close>

text \<open>
  the traces are exactly the mounts that the root implementation's rules select,
  none lost and none added, and they come in descending order of their ids, so that a
  mount made on top of another is unmounted before it.
\<close>

theorem traces_exact:
  assumes "mount_source_name info_flags = Some name"
  shows "mset (check_zygote_traces file info_flags) =
           filter_mset (should_unmount name
             (kernel_su_module_source info_flags (parse_mount_info file))) (mset (parse_mount_info file)) \<and>
         sorted_wrt (\<lambda>a b. mi_id b \<le> mi_id a) (check_zygote_traces file info_flags)"
  using assms sorted_desc by (auto simp: check_zygote_traces_def Let_def)

definition sample_mounts :: "string list option" where
  "sample_mounts = Some [''21 1 7:8 / /data/adb/modules rw - ext4 /dev/block/loop3 rw'',
                         ''22 1 7:9 / /system rw - overlay KSU rw'', ''23 1 8:1 / /vendor rw - erofs /dev/x ro'']"

lemma traces_exact_witness:
  "sorted_wrt (\<lambda>a b. mi_id b \<le> mi_id a) (check_zygote_traces sample_mounts (2 ^ 29))"
proof -
  have "mount_source_name (2 ^ 29) = Some ''KSU''"
    by (simp add: mount_source_name_def bit_simps)
  from traces_exact [OF this] show ?thesis by blast
qed

text \<open>
  zygote is unmounted only when it is safe: never with an empty list, never with a
  trace on \<open>/product\<close> itself, nor, under Magisk, with one below it other than
  \<open>/product/bin\<close>; in every other case the unmount goes ahead.
\<close>

theorem abort_exact:
  "abort_zygote_unmount traces info_flags =
     (traces = [] \<or>
      (\<exists>t \<in> set traces. mi_target t = ''/product'' \<or>
         bit info_flags 30 \<and> (\<exists>rest. mi_target t = ''/product'' @ rest \<and>
                                      (\<forall>r. rest \<noteq> ''/bin'' @ r))))"
proof -
  have b: "(''/product/bin'' :: string) = ''/product'' @ ''/bin''" by simp
  have p: "prohibited_target mg t \<longleftrightarrow> mi_target t = ''/product'' \<or>
      mg \<and> (\<exists>rest. mi_target t = ''/product'' @ rest \<and> (\<forall>r. rest \<noteq> ''/bin'' @ r))" for mg t
  proof (cases "\<exists>rest. mi_target t = ''/product'' @ rest")
    case True
    then obtain rest where r: "mi_target t = ''/product'' @ rest" by blast
    have "starts_with (mi_target t) ''/product/bin'' \<longleftrightarrow> (\<exists>q. rest = ''/bin'' @ q)"
      unfolding starts_with_iff r b by simp
    moreover have "starts_with (mi_target t) ''/product''" unfolding r by (rule starts_with_append)
    moreover have "mi_target t = ''/product'' \<longleftrightarrow> rest = []" by (simp add: r)
    ultimately show ?thesis
      using r by (auto simp: prohibited_target_def)
  next
    case False
    then show ?thesis
      by (auto simp: prohibited_target_def starts_with_iff)
  qed
  show ?thesis by (auto simp: abort_zygote_unmount_def list_ex_iff p)
qed

end
