(* ===== verification/Specialize.thy ===== *)
theory Specialize
  imports Fd_Guard Daemon_Link Mount_Traces
begin

text \<open>
  \<open>injector/module.cpp\<close> from the loading of modules on, with \<open>common/module_loader.cpp\<close>:
  which modules run in a process, in what order they are called, and what is undone
  afterwards.  A \<open>world\<close> gives what is outside the loader: the daemon's answers, the dynamic
  linkers, and what the code of each module calls back.
\<close>

section \<open>Scopes and triggers\<close>

definition blank :: "u8 \<Rightarrow> bool" where
  "blank b \<longleftrightarrow> b = 0x20 \<or> b = 0x09"

definition trim_token :: "u8 list \<Rightarrow> u8 list" where
  "trim_token t = rev (dropWhile blank (rev (dropWhile blank t)))"

text \<open>\<open>list_contains\<close>: one round looks at the text up to the next comma.\<close>

function list_contains :: "u8 list \<Rightarrow> u8 list \<Rightarrow> bool" where
  "list_contains list needle =
     (let token = trim_token (takeWhile (\<lambda>b. b \<noteq> 0x2C) list) in
      if token = needle then True
      else case dropWhile (\<lambda>b. b \<noteq> 0x2C) list of
        [] \<Rightarrow> False
      | _ # rest \<Rightarrow> list_contains rest needle)"
  by pat_completeness auto

termination
proof (relation "measure (\<lambda>(list, needle). length list)", goal_cases)
  case (2 list needle token c rest)
  from length_dropWhile_le [of "\<lambda>b. b \<noteq> 0x2C" list] 2(3) show ?case by simp
qed simp

declare list_contains.simps [simp del]

definition text_bytes :: "string \<Rightarrow> u8 list" where
  "text_bytes s = List.map of_char s"

definition fn_scope_matches :: "fn_module_entry \<Rightarrow> u8 list option \<Rightarrow> bool" where
  "fn_scope_matches fn process =
     (case process of
        None \<Rightarrow> True
      | Some proc \<Rightarrow>
          if fe_scope fn = 0 \<or> proc = [] then True
          else let base = takeWhile (\<lambda>b. b \<noteq> 0x3A) proc;
                   listed = (list_contains (fe_apps fn) proc \<or> list_contains (fe_apps fn) base)
               in if fe_scope fn = 1 then listed else \<not> listed)"

definition fn_applies :: "fn_module_entry \<Rightarrow> bool \<Rightarrow> bool" where
  "fn_applies fn is_server =
     (if is_server then
        list_contains (fe_triggers fn) (text_bytes ''system_server'') \<or>
        list_contains (fe_triggers fn) (text_bytes ''zygote'')
      else
        list_contains (fe_triggers fn) (text_bytes ''app'') \<or>
        list_contains (fe_triggers fn) (text_bytes ''zygote''))"

section \<open>The world and the session\<close>

datatype act =
    Act_register "module_abi option"
  | Act_option zygisk_option
  | Act_exempt_fd int
  | Act_open_fd int
  | Act_plt_register "string option" "string option" u64 u64
  | Act_plt_exclude "string option" "string option"
  | Act_plt_commit

record loaded_module =
  ld_handle :: u64
  ld_entry :: u64
  ld_custom :: bool

record world =
  w_modules :: "module_entry list"
  w_fns :: "fn_module_entry list"
  w_cso_load :: "int \<Rightarrow> u64 option"   \<comment> \<open>\<open>csoloader_load\<close>: the library, when it succeeds\<close>
  w_cso_symbol :: "u64 \<Rightarrow> u64"   \<comment> \<open>its entry symbol, zero when absent\<close>
  w_cso_unload :: "u64 \<Rightarrow> bool"
  w_dlopen :: "int \<Rightarrow> u64"
  w_dlsym :: "u64 \<Rightarrow> u64"
  w_dlclose :: "u64 \<Rightarrow> bool"
  w_acts :: "u64 \<Rightarrow> callback \<Rightarrow> act list"   \<comment> \<open>what a module's code calls\<close>
  w_regcomp :: "string \<Rightarrow> bool"
  w_regexec :: "string \<Rightarrow> string \<Rightarrow> bool"
  w_flags :: "u32 \<Rightarrow> u32"
  w_connect :: bool
  w_stat :: "u8 list \<Rightarrow> u32 option"
  w_mountinfo :: "string list option"
  w_umount :: "string \<Rightarrow> bool"

datatype event =
    Ev_load_fd int
  | Ev_cso_unload u64
  | Ev_dlclose u64
  | Ev_invoke invocation
  | Ev_plt "plt_request list"
  | Ev_cso_deinit
  | Ev_clean_libc
  | Ev_clean_linker string nat nat
  | Ev_connect
  | Ev_flags_query u32
  | Ev_umount string
  | Ev_setenv_enabled
  | Ev_server_started
  | Ev_cache_namespace

record hook_context =
  hk_zygote_unmounted :: bool
  hk_traces :: "mount_info list"
  hk_spoof_maps :: bool
  hk_unmap :: bool
  hk_live_ready :: bool
  hk_maps :: "lsplt_map list"

record session =
  ss_ctx :: zctx
  ss_hook :: hook_context
  ss_used_custom :: bool
  ss_log :: "event list"

definition emit :: "event list \<Rightarrow> session \<Rightarrow> session" where
  "emit es s = s\<lparr> ss_log := ss_log s @ es \<rparr>"

definition on_ctx :: "(zctx \<Rightarrow> zctx) \<Rightarrow> session \<Rightarrow> session" where
  "on_ctx f s = s\<lparr> ss_ctx := f (ss_ctx s) \<rparr>"

section \<open>Loading\<close>

definition null_module :: loaded_module where
  "null_module = \<lparr> ld_handle = 0, ld_entry = 0, ld_custom = False \<rparr>"

definition LoadViaSystemLinker :: "world \<Rightarrow> int \<Rightarrow> loaded_module" where
  "LoadViaSystemLinker W fd =
     (let handle = w_dlopen W fd in
      if handle = 0 then null_module
      else \<lparr> ld_handle = handle, ld_entry = w_dlsym W handle, ld_custom = False \<rparr>)"

definition LoadViaCustomLinker :: "world \<Rightarrow> int \<Rightarrow> session \<Rightarrow> loaded_module \<times> session" where
  "LoadViaCustomLinker W fd s =
     (case w_cso_load W fd of
        None \<Rightarrow> (null_module, s)
      | Some lib \<Rightarrow>
          let entry = w_cso_symbol W lib in
          if entry = 0 then (null_module, emit [Ev_cso_unload lib] s)
          else (\<lparr> ld_handle = lib, ld_entry = entry, ld_custom = True \<rparr>, s))"

definition LoadModuleFromMemfd :: "world \<Rightarrow> int \<Rightarrow> session \<Rightarrow> loaded_module \<times> session" where
  "LoadModuleFromMemfd W fd s =
     (case LoadViaCustomLinker W fd (emit [Ev_load_fd fd] s) of
        (lm, s1) \<Rightarrow>
          if ld_entry lm \<noteq> 0 then (lm, s1\<lparr> ss_used_custom := True \<rparr>)
          else (LoadViaSystemLinker W fd, s1))"

definition UnloadModule :: "world \<Rightarrow> u64 \<Rightarrow> bool \<Rightarrow> session \<Rightarrow> bool \<times> session" where
  "UnloadModule W handle custom s =
     (if \<not> custom then (w_dlclose W handle, emit [Ev_dlclose handle] s)
      else (w_cso_unload W handle, emit [Ev_cso_unload handle] s))"

definition tryUnload_session :: "world \<Rightarrow> zygisk_module \<Rightarrow> session \<Rightarrow> bool \<times> session" where
  "tryUnload_session W m s =
     (if zm_unload m then UnloadModule W (zm_handle m) (zm_custom m) s else (False, s))"

definition DeinitCustomLoaderIfUsed :: "session \<Rightarrow> session" where
  "DeinitCustomLoaderIfUsed s =
     (if \<not> ss_used_custom s then s else (emit [Ev_cso_deinit] s)\<lparr> ss_used_custom := False \<rparr>)"

section \<open>Calls from a module\<close>

definition slot_holds :: "zygisk_module \<Rightarrow> nat \<Rightarrow> api_fn \<Rightarrow> bool" where
  "slot_holds m k f \<longleftrightarrow> k < length (zm_slots m) \<and> zm_slots m ! k = Some f"

definition set_module :: "nat \<Rightarrow> zygisk_module \<Rightarrow> session \<Rightarrow> session" where
  "set_module i m = on_ctx (\<lambda>c. c\<lparr> z_modules := (z_modules c)[i := m] \<rparr>)"

text \<open>One call of module \<open>i\<close>; a slot that holds nothing is called through null.\<close>

fun run_act :: "world \<Rightarrow> nat \<Rightarrow> act \<Rightarrow> session \<Rightarrow> session res" where
  "run_act W i (Act_register abi) s =
     (let m = z_modules (ss_ctx s) ! i in
      if \<not> zm_registrable m then Inl Null_deref
      else Inr (set_module i (snd (RegisterModuleImpl abi m)) s))"
| "run_act W i (Act_option opt) s =
     (let m = z_modules (ss_ctx s) ! i in
      if \<not> slot_holds m 5 Fn_setOption then Inl Null_deref
      else case setOption opt (Some (z_flags (ss_ctx s))) m of
        (Some f, m') \<Rightarrow> Inr (on_ctx (\<lambda>c. c\<lparr> z_flags := f \<rparr>) (set_module i m' s))
      | (None, m') \<Rightarrow> Inr (set_module i m' s))"
| "run_act W i (Act_exempt_fd fd) s =
     (if \<not> slot_holds (z_modules (ss_ctx s) ! i) 2 Fn_exemptFd then Inl Null_deref
      else Inr (on_ctx (\<lambda>c. snd (exempt_fd fd c)) s))"
| "run_act W i (Act_open_fd fd) s =
     Inr (on_ctx (\<lambda>c. c\<lparr> z_open := z_open c @ (if fd \<in> set (z_open c) then [] else [fd]) \<rparr>) s)"
| "run_act W i (Act_plt_register regex symbol fn backup) s =
     (if \<not> slot_holds (z_modules (ss_ctx s) ! i) 1 Fn_pltHookRegister_path then Inl Null_deref
      else Inr (on_ctx (\<lambda>c. c\<lparr> z_register :=
                  plt_hook_register (w_regcomp W) regex symbol fn backup (z_register c) \<rparr>) s))"
| "run_act W i (Act_plt_exclude regex symbol) s =
     (if \<not> slot_holds (z_modules (ss_ctx s) ! i) 2 Fn_pltHookExclude then Inl Null_deref
      else Inr (on_ctx (\<lambda>c. c\<lparr> z_ignore :=
                  plt_hook_exclude (w_regcomp W) regex symbol (z_ignore c) \<rparr>) s))"
| "run_act W i Act_plt_commit s =
     (let m = z_modules (ss_ctx s) ! i in
      if slot_holds m 3 Fn_pltHookCommit_lsplt then Inr s
      else if \<not> slot_holds m 3 Fn_pltHookCommit_ctx then Inl Null_deref
      else case plt_hook_commit (w_regexec W) (hk_maps (ss_hook s)) (z_register (ss_ctx s))
                  (z_ignore (ss_ctx s)) of
        (reqs, rs, igns) \<Rightarrow>
          Inr (emit [Ev_plt reqs] (on_ctx (\<lambda>c. c\<lparr> z_register := rs, z_ignore := igns \<rparr>) s)))"

fun run_acts :: "world \<Rightarrow> nat \<Rightarrow> act list \<Rightarrow> session \<Rightarrow> session res" where
  "run_acts W i [] s = Inr s"
| "run_acts W i (a # as) s = bind_res (run_act W i a s) (run_acts W i as)"

text \<open>The invocations a dispatch yields, each followed by what the module does in it.\<close>

fun perform :: "world \<Rightarrow> nat \<Rightarrow> invocation list \<Rightarrow> session \<Rightarrow> session res" where
  "perform W i [] s = Inr s"
| "perform W i (Invoke entry cb args # vs) s =
     bind_res (run_acts W i (w_acts W entry cb) (emit [Ev_invoke (Invoke entry cb args)] s))
       (perform W i vs)"

definition invoke ::
  "world \<Rightarrow> nat \<Rightarrow> (zygisk_module \<Rightarrow> invocation list res) \<Rightarrow> session \<Rightarrow> session res" where
  "invoke W i dispatch s =
     bind_res (dispatch (z_modules (ss_ctx s) ! i)) (\<lambda>vs. perform W i vs s)"

definition onLoad :: "zygisk_module \<Rightarrow> invocation list res" where
  "onLoad m = Inr [Invoke (zm_entry m) OnLoad None]"

section \<open>Running the modules\<close>

definition add_module :: "u32 \<Rightarrow> u8 list \<Rightarrow> loaded_module \<Rightarrow> session \<Rightarrow> session" where
  "add_module ident name lm =
     on_ctx (\<lambda>c. c\<lparr> z_modules := z_modules c @
               [ZygiskModule ident name (ld_handle lm) (ld_entry lm) (ld_custom lm)] \<rparr>)"

fun load_modules :: "world \<Rightarrow> nat \<Rightarrow> module_entry list \<Rightarrow> session \<Rightarrow> session" where
  "load_modules W i [] s = s"
| "load_modules W i (m # ms) s =
     (case LoadModuleFromMemfd W (me_memfd m) s of
        (lm, s1) \<Rightarrow>
          load_modules W (i + 1) ms
            (if ld_entry lm \<noteq> 0 then add_module (of_nat i) (me_name m) lm s1 else s1))"

fun load_fns :: "world \<Rightarrow> nat \<Rightarrow> nat \<Rightarrow> fn_module_entry list \<Rightarrow> session \<Rightarrow> session" where
  "load_fns W n i [] s = s"
| "load_fns W n i (f # fs) s =
     (let is_server = has (z_flags (ss_ctx s)) SERVER_FORK_AND_SPECIALIZE in
      if \<not> fn_applies f is_server then load_fns W n (i + 1) fs s
      else if \<not> is_server \<and> \<not> fn_scope_matches f (z_process (ss_ctx s)) then load_fns W n (i + 1) fs s
      else case LoadModuleFromMemfd W (fe_memfd f) s of
        (lm, s1) \<Rightarrow>
          load_fns W n (i + 1) fs
            (if ld_entry lm \<noteq> 0 then add_module (of_nat (n + i)) (fe_id f) lm s1 else s1))"

text \<open>
  The loop over the modules, by their positions: no call adds or removes one.  The flags are
  read before each callback.
\<close>

fun call_pre :: "world \<Rightarrow> nat list \<Rightarrow> session \<Rightarrow> session res" where
  "call_pre W [] s = Inr s"
| "call_pre W (i # ks) s =
     bind_res (invoke W i onLoad s) (\<lambda>s1.
     bind_res
       (if has (z_flags (ss_ctx s1)) APP_SPECIALIZE then invoke W i preAppSpecialize s1
        else if has (z_flags (ss_ctx s1)) SERVER_FORK_AND_SPECIALIZE
        then invoke W i preServerSpecialize s1 else Inr s1) (call_pre W ks))"

definition run_modules_pre :: "world \<Rightarrow> session \<Rightarrow> session res" where
  "run_modules_pre W s =
     (let s1 = load_modules W 0 (w_modules W) s;
          s2 = load_fns W (length (w_modules W)) 0 (w_fns W) s1
      in call_pre W [0..<length (z_modules (ss_ctx s2))] s2)"

text \<open>The loop of \<open>run_modules_post\<close>, with the number of modules unloaded so far.\<close>

fun call_post :: "world \<Rightarrow> nat list \<Rightarrow> nat \<Rightarrow> session \<Rightarrow> (nat \<times> session) res" where
  "call_post W [] unloaded s = Inr (unloaded, s)"
| "call_post W (i # ks) unloaded s =
     bind_res
       (if has (z_flags (ss_ctx s)) APP_SPECIALIZE then invoke W i postAppSpecialize s
        else if has (z_flags (ss_ctx s)) SERVER_FORK_AND_SPECIALIZE
        then invoke W i postServerSpecialize s else Inr s) (\<lambda>s1.
     case tryUnload_session W (z_modules (ss_ctx s1) ! i) s1 of
       (gone, s2) \<Rightarrow> call_post W ks (if gone then unloaded + 1 else unloaded) s2)"

definition run_modules_post :: "world \<Rightarrow> session \<Rightarrow> session res" where
  "run_modules_post W s =
     bind_res (call_post W [0..<length (z_modules (ss_ctx s))] 0
         (on_ctx (\<lambda>c. c\<lparr> z_flags := z_flags c OR POST_SPECIALIZE \<rparr>) s))
       (\<lambda>(unloaded, s1).
          let size = length (z_modules (ss_ctx s1)) in
          if size = 0 then Inr s1
          else let s2 = (if size = unloaded then DeinitCustomLoaderIfUsed (emit [Ev_clean_libc] s1)
                         else s1);
                   s3 = emit [Ev_clean_linker ''jit-cache-zygisk'' size unloaded] s2
               in Inr (s3\<lparr> ss_hook := (ss_hook s3)\<lparr> hk_spoof_maps :=
                    (has (z_flags (ss_ctx s3)) APP_SPECIALIZE \<and> 0 < size - unloaded) \<rparr> \<rparr>))"

section \<open>Specialization\<close>

record app_args =
  aa_uid :: u32
  aa_data_dir :: "u8 list option"
  aa_nice_name :: "u8 list"

text \<open>
  The first half of \<open>app_specialize_pre\<close>: whether the daemon is left out of it, and the
  session with the flags of the process.
\<close>

definition app_flags :: "world \<Rightarrow> app_args \<Rightarrow> session \<Rightarrow> bool \<times> session" where
  "app_flags W args s =
     (let is_isolated = (90000 \<le> aa_uid args \<and> aa_uid args \<le> 99999);
          uid = (if is_isolated then
                   (case aa_data_dir args of
                      None \<Rightarrow> aa_uid args
                    | Some dir \<Rightarrow> (case w_stat W dir of None \<Rightarrow> aa_uid args | Some u \<Rightarrow> u))
                 else aa_uid args);
          skip_zygiskd = (is_isolated \<and> \<not> w_connect W);
          s1 = (if is_isolated then emit [Ev_connect] s else s);
          s2 = (if \<not> skip_zygiskd \<and> z_info (ss_ctx s1) = 0
                then emit [Ev_flags_query uid] (on_ctx (\<lambda>c. c\<lparr> z_info := w_flags W uid \<rparr>) s1)
                else s1);
          s3 = (if z_info (ss_ctx s2) AND UNMOUNT_MASK = UNMOUNT_MASK
                then on_ctx (\<lambda>c. c\<lparr> z_flags := z_flags c OR DO_REVERT_UNMOUNT \<rparr>) s2 else s2)
      in (skip_zygiskd, on_ctx (\<lambda>c. c\<lparr> z_flags := z_flags c OR APP_SPECIALIZE \<rparr>) s3))"

definition app_specialize_pre :: "world \<Rightarrow> app_args \<Rightarrow> session \<Rightarrow> session res" where
  "app_specialize_pre W args s =
     (case app_flags W args s of
        (skip_zygiskd, s1) \<Rightarrow> if skip_zygiskd then Inr s1 else run_modules_pre W s1)"

definition app_specialize_post :: "world \<Rightarrow> session \<Rightarrow> session res" where
  "app_specialize_post W s =
     bind_res (run_modules_post W s) (\<lambda>s1.
       Inr (if z_info (ss_ctx s1) AND PROCESS_IS_MANAGER = PROCESS_IS_MANAGER
            then emit [Ev_setenv_enabled] s1 else s1))"

definition server_specialize_pre :: "world \<Rightarrow> session \<Rightarrow> session res" where
  "server_specialize_pre W s = run_modules_pre W (emit [Ev_server_started] s)"

definition nativeSpecializeAppProcess_pre :: "world \<Rightarrow> app_args \<Rightarrow> session \<Rightarrow> session res" where
  "nativeSpecializeAppProcess_pre W args s =
     app_specialize_pre W args
       (on_ctx (\<lambda>c. c\<lparr> z_process := Some (aa_nice_name args),
                       z_flags := z_flags c OR SKIP_CLOSE_LOG_PIPE \<rparr>) s)"

definition nativeSpecializeAppProcess_post :: "world \<Rightarrow> session \<Rightarrow> session res" where
  "nativeSpecializeAppProcess_post W s = app_specialize_post W s"

text \<open>The part of \<open>nativeForkAndSpecialize_pre\<close> that runs in zygote before the fork.\<close>

definition unmount_zygote :: "world \<Rightarrow> app_args \<Rightarrow> session \<Rightarrow> session" where
  "unmount_zygote W args s =
     (if hk_zygote_unmounted (ss_hook s) \<or> hk_traces (ss_hook s) \<noteq> [] then s
      else let info = w_flags W (aa_uid args);
               s1 = emit [Ev_flags_query (aa_uid args)] (on_ctx (\<lambda>c. c\<lparr> z_info := info \<rparr>) s)
           in if has info (MOUNT_MODE_SETNS OR MOUNT_MODE_GLOBAL) then s1
              else let traces = check_zygote_traces (w_mountinfo W) info;
                       s2 = s1\<lparr> ss_hook := (ss_hook s1)\<lparr> hk_traces := traces \<rparr> \<rparr>
                   in if abort_zygote_unmount traces info then s2
                      else case unmount_traces (w_umount W) traces of
                        (targets, left) \<Rightarrow>
                          emit (List.map Ev_umount targets)
                            (s2\<lparr> ss_hook := (ss_hook s2)\<lparr> hk_traces := left,
                                                     hk_zygote_unmounted := True \<rparr> \<rparr>))"

definition fork_session :: "int \<Rightarrow> int option \<Rightarrow> session \<Rightarrow> session res" where
  "fork_session pid dirfd s =
     bind_res (fork_pre pid dirfd (ss_ctx s)) (\<lambda>c. Inr (s\<lparr> ss_ctx := c \<rparr>))"

definition sanitize_session :: "bool \<Rightarrow> int option \<Rightarrow> session \<Rightarrow> session res" where
  "sanitize_session alloc dirfd s =
     bind_res (sanitize_fds alloc dirfd (ss_ctx s)) (\<lambda>c. Inr (s\<lparr> ss_ctx := c \<rparr>))"

definition nativeForkAndSpecialize_pre ::
  "world \<Rightarrow> app_args \<Rightarrow> int \<Rightarrow> int option \<Rightarrow> bool \<Rightarrow> int option \<Rightarrow> session \<Rightarrow> session res" where
  "nativeForkAndSpecialize_pre W args pid dir1 alloc dir2 s =
     (let s1 = on_ctx (\<lambda>c. c\<lparr> z_process := Some (aa_nice_name args),
                              z_flags := z_flags c OR APP_FORK_AND_SPECIALIZE \<rparr>) s;
          s2 = unmount_zygote W args s1
      in bind_res (fork_session pid dir1 s2) (\<lambda>s3.
         bind_res (if is_child (ss_ctx s3) then app_specialize_pre W args s3 else Inr s3)
           (sanitize_session alloc dir2)))"

definition nativeForkAndSpecialize_post :: "world \<Rightarrow> session \<Rightarrow> session res" where
  "nativeForkAndSpecialize_post W s =
     (if is_child (ss_ctx s) then app_specialize_post W s else Inr s)"

definition stack_region :: "lsplt_map list \<Rightarrow> lsplt_map option" where
  "stack_region maps =
     find (\<lambda>mp. lm_dev mp = 0 \<and> lm_inode mp = 0 \<and> lm_offset mp = 0 \<and> lm_private mp \<and>
                lm_path mp = ''[anon:stack_and_tls:main]'' \<and> lm_perms mp AND 1 \<noteq> 0) maps"

text \<open>
  \<open>nativeForkSystemServer_pre\<close>: zygote's own stack is rewritten before the fork; the
  result of \<open>spoof_zygote_fossil\<close> on the memory of the stack comes with the session.
\<close>

definition nativeForkSystemServer_pre ::
  "world \<Rightarrow> string \<Rightarrow> int \<Rightarrow> int option \<Rightarrow> bool \<Rightarrow> int option \<Rightarrow> session \<Rightarrow> (string \<times> session) res" where
  "nativeForkSystemServer_pre W mem pid dir1 alloc dir2 s =
     (let s1 = on_ctx (\<lambda>c. c\<lparr> z_flags := z_flags c OR SERVER_FORK_AND_SPECIALIZE \<rparr>) s in
      bind_res (case stack_region (hk_maps (ss_hook s)) of
                  None \<Rightarrow> Inr mem
                | Some r \<Rightarrow> spoof_zygote_fossil (w_mountinfo W) mem (unat (lm_start r))
                              (unat (lm_end r)) ''ref_profiles'') (\<lambda>mem'.
      bind_res (fork_session pid dir1 s1) (\<lambda>s2.
      bind_res (if is_child (ss_ctx s2)
                then bind_res (server_specialize_pre W s2) (\<lambda>s3. Inr (emit [Ev_cache_namespace] s3))
                else Inr s2) (\<lambda>s4.
      bind_res (sanitize_session alloc dir2 s4) (\<lambda>s5. Inr (mem', s5))))))"

end
