(* ===== verification/Hooks.thy ===== *)
theory Hooks
  imports Specialize
begin

text \<open>
  \<open>injector/hook.cpp\<close>: the functions that replace libc's and the runtime's in zygote, the
  registration and removal of these hooks, and the conditions under which the library
  unmaps itself.  lsplt and the Java VM are parameters: which registrations and commits
  succeed, which symbols resolve, and the native methods the VM knows.
\<close>

section \<open>The mount namespace of an application\<close>

abbreviation (input) CLONE_NEWNS :: u32 where "CLONE_NEWNS \<equiv> 131072"

definition should_unmount_app :: "zctx \<Rightarrow> bool" where
  "should_unmount_app c \<longleftrightarrow>
     \<not> has (z_info c) (PROCESS_IS_MANAGER OR PROCESS_GRANTED_ROOT) \<and> has (z_flags c) DO_REVERT_UNMOUNT"

text \<open>The decision of \<open>new_unshare\<close> before the original call.\<close>

definition unshare_namespace :: "u32 \<Rightarrow> zctx option \<Rightarrow> bool \<Rightarrow> MountNamespace option" where
  "unshare_namespace flags ctx zygote_unmounted =
     (case ctx of
        None \<Rightarrow> None
      | Some c \<Rightarrow>
          if has flags CLONE_NEWNS \<and> \<not> has (z_flags c) SERVER_FORK_AND_SPECIALIZE \<and>
             \<not> has (z_info c) MOUNT_MODE_GLOBAL
          then
            (if has (z_info c) MOUNT_MODE_SETNS then
               (if should_unmount_app c then Some Clean else None)
             else
               (if \<not> should_unmount_app c \<and> zygote_unmounted then Some Root else None))
          else None)"

text \<open>\<open>setns\<close> gives the result of the system call on a descriptor.\<close>

definition update_mount_namespace ::
  "(int \<Rightarrow> int) \<Rightarrow> MountNamespace \<Rightarrow> link \<Rightarrow> (bool \<times> link) res" where
  "update_mount_namespace setns type w =
     bind_res (UpdateMountNamespace type w) (\<lambda>(ns_fd, w1).
       if ns_fd < 0 then Inr (False, w1)
       else Inr (setns ns_fd = 0, w1\<lparr> closed := closed w1 @ [ns_fd] \<rparr>))"

text \<open>\<open>new_unshare\<close>: the result of the original call, and \<open>errno\<close> cleared.\<close>

definition new_unshare ::
  "(int \<Rightarrow> int) \<Rightarrow> (u32 \<Rightarrow> int) \<Rightarrow> u32 \<Rightarrow> zctx option \<Rightarrow> bool \<Rightarrow> link \<Rightarrow> (int \<times> int \<times> link) res" where
  "new_unshare setns old_unshare flags ctx zygote_unmounted w =
     bind_res (case unshare_namespace flags ctx zygote_unmounted of
                 None \<Rightarrow> Inr w
               | Some type \<Rightarrow> bind_res (update_mount_namespace setns type w) (\<lambda>(_, w1). Inr w1))
       (\<lambda>w2. Inr (old_unshare flags, 0, w2))"

text \<open>\<open>new_fork\<close>: inside a specialization the child was made by \<open>fork_pre\<close> already.\<close>

definition new_fork :: "int \<Rightarrow> zctx option \<Rightarrow> int" where
  "new_fork old_fork ctx =
     (case ctx of None \<Rightarrow> old_fork | Some c \<Rightarrow> if 0 \<le> z_pid c then z_pid c else old_fork)"

section \<open>Stale descriptors\<close>

text \<open>
  The mirror of \<open>FileDescriptorInfo\<close>: its descriptor, whether it is a socket, and the 24
  bytes of the string object, whose text is inside them or behind a pointer.
\<close>

record fd_info =
  fi_fd :: int
  fi_is_sock :: bool
  fi_path_storage :: "u8 list"

definition read_file_descriptor_info ::
  "(u64 \<Rightarrow> u8 list) \<Rightarrow> fd_info option \<Rightarrow> (int \<times> u8 list \<times> bool) option" where
  "read_file_descriptor_info cstring object =
     (case object of
        None \<Rightarrow> None
      | Some info \<Rightarrow>
          let bytes = fi_path_storage info; b = bytes ! 0 in
          if b AND 1 = 0 then
            (if 24 \<le> unat (drop_bit 1 b) then None
             else if 0 \<le> fi_fd info
                  then Some (fi_fd info, takeWhile (\<lambda>c. c \<noteq> 0) (drop 1 bytes), fi_is_sock info)
                  else None)
          else let p = of_nat (le_value (take 8 (drop 16 bytes))) :: u64 in
            (if p = 0 then None
             else if 0 \<le> fi_fd info then Some (fi_fd info, cstring p, fi_is_sock info) else None))"

definition is_stale_zygote_descriptor ::
  "(u64 \<Rightarrow> u8 list) \<Rightarrow> (u8 list \<Rightarrow> bool) \<Rightarrow> fd_info option \<Rightarrow> int option" where
  "is_stale_zygote_descriptor cstring accessible object =
     (case read_file_descriptor_info cstring object of
        None \<Rightarrow> None
      | Some (fd, path, is_sock) \<Rightarrow>
          if is_sock \<or> starts_with path (text_bytes ''/memfd:/boot-image-methods.art'') \<or> accessible path
          then None else Some fd)"

datatype fd_outcome = Nothing_done | Fd_closed int | Passed_on

definition new_reopen_or_detach ::
  "(u64 \<Rightarrow> u8 list) \<Rightarrow> (u8 list \<Rightarrow> bool) \<Rightarrow> bool \<Rightarrow> fd_info option \<Rightarrow> fd_outcome" where
  "new_reopen_or_detach cstring accessible hooked object =
     (if \<not> hooked then Nothing_done
      else case is_stale_zygote_descriptor cstring accessible object of
        Some fd \<Rightarrow> Fd_closed fd | None \<Rightarrow> Passed_on)"

text \<open>The older variant reports success itself; \<open>old\<close> is the result of the original.\<close>

definition new_reopen_or_detach_legacy ::
  "(u64 \<Rightarrow> u8 list) \<Rightarrow> (u8 list \<Rightarrow> bool) \<Rightarrow> bool \<Rightarrow> bool \<Rightarrow> fd_info option \<Rightarrow> bool \<times> fd_outcome" where
  "new_reopen_or_detach_legacy cstring accessible hooked old object =
     (if \<not> hooked then (True, Nothing_done)
      else case is_stale_zygote_descriptor cstring accessible object of
        Some fd \<Rightarrow> (True, Fd_closed fd) | None \<Rightarrow> (old, Passed_on))"

section \<open>Hooks in the procedure linkage tables\<close>

text \<open>
  The replaced functions by name: \<open>old_f\<close> is the address of the original, zero before the
  hook has landed.
\<close>

datatype hooked =
    H_fork | H_unshare | H_strdup | H_property_get | H_reopen | H_reopen_legacy | H_read
  | H_setstacksize

fun hook_symbol :: "hooked \<Rightarrow> string" where
  "hook_symbol H_fork = ''fork''"
| "hook_symbol H_unshare = ''unshare''"
| "hook_symbol H_strdup = ''strdup''"
| "hook_symbol H_property_get = ''property_get''"
| "hook_symbol H_reopen =
     ''_ZNK18FileDescriptorInfo14ReopenOrDetachERKNSt3__18functionIFvNS0_12basic_stringIcNS0_11char_traitsIcEENS0_9allocatorIcEEEEEEE''"
| "hook_symbol H_reopen_legacy = ''_ZNK18FileDescriptorInfo14ReopenOrDetachEv''"
| "hook_symbol H_read = ''read''"
| "hook_symbol H_setstacksize = ''pthread_attr_setstacksize''"

type_synonym backup = "u64 \<times> u64 \<times> hooked"

datatype plt_call = Plt_register u64 u64 string u64 bool | Plt_commit bool

text \<open>
  lsplt as the code relies on it: each answer may depend on the calls so far.  A commit
  stores the original address of every registered symbol it could resolve, and leaves the
  others as they are.
\<close>

record lsplt =
  ls_register :: "plt_call list \<Rightarrow> bool"
  ls_commit :: "plt_call list \<Rightarrow> bool"
  ls_resolves :: "plt_call list \<Rightarrow> hooked \<Rightarrow> u64 option"
  ls_new :: "hooked \<Rightarrow> u64"

record hook_state =
  hs_old :: "hooked \<Rightarrow> u64"
  hs_backup :: "backup list"
  hs_maps :: "lsplt_map list"
  hs_calls :: "plt_call list"
  hs_unmap :: bool
  hs_skip_unloader :: bool

definition register_hook :: "lsplt \<Rightarrow> u64 \<Rightarrow> u64 \<Rightarrow> hooked \<Rightarrow> hook_state \<Rightarrow> hook_state" where
  "register_hook L dev inode h s =
     (let s1 = s\<lparr> hs_calls := hs_calls s @ [Plt_register dev inode (hook_symbol h) (ls_new L h) True] \<rparr>
      in if ls_register L (hs_calls s) then s1\<lparr> hs_backup := hs_backup s @ [(dev, inode, h)] \<rparr> else s1)"

definition commit_hooks :: "lsplt \<Rightarrow> hooked list \<Rightarrow> hook_state \<Rightarrow> bool \<times> hook_state" where
  "commit_hooks L hs s =
     (ls_commit L (hs_calls s),
      s\<lparr> hs_calls := hs_calls s @ [Plt_commit False],
         hs_old := (\<lambda>h. if h \<in> set hs then
                          (case ls_resolves L (hs_calls s) h of Some a \<Rightarrow> a | None \<Rightarrow> hs_old s h)
                        else hs_old s h) \<rparr>)"

text \<open>The two libraries in the scan: the last runtime, the first C library with an inode.\<close>

fun find_libraries :: "lsplt_map list \<Rightarrow> u64 \<times> u64 \<Rightarrow> u64 \<times> u64 \<Rightarrow> (u64 \<times> u64) \<times> (u64 \<times> u64)" where
  "find_libraries [] rt libc = (rt, libc)"
| "find_libraries (mp # mps) rt libc =
     (if ends_with (lm_path mp) ''/libandroid_runtime.so''
      then find_libraries mps (lm_dev mp, lm_inode mp) libc
      else if ends_with (lm_path mp) ''/libc.so'' \<and> snd libc = 0
      then find_libraries mps rt (lm_dev mp, lm_inode mp)
      else find_libraries mps rt libc)"

fun register_all :: "lsplt \<Rightarrow> backup list \<Rightarrow> hook_state \<Rightarrow> hook_state" where
  "register_all L [] s = s"
| "register_all L ((dev, inode, h) # rs) s = register_all L rs (register_hook L dev inode h s)"

definition plt_requests :: "u64 \<times> u64 \<Rightarrow> u64 \<times> u64 \<Rightarrow> backup list" where
  "plt_requests rt libc =
     (case rt of (dev, inode) \<Rightarrow>
        [(dev, inode, H_fork), (dev, inode, H_unshare), (dev, inode, H_strdup),
         (dev, inode, H_property_get)] @
        (if dev \<noteq> 0 \<and> inode \<noteq> 0 then [(dev, inode, H_reopen), (dev, inode, H_reopen_legacy)] else []) @
        [(fst libc, snd libc, H_read)])"

definition hook_plt :: "lsplt \<Rightarrow> lsplt_map list \<Rightarrow> hook_state \<Rightarrow> hook_state" where
  "hook_plt L scan s =
     (case find_libraries scan (0, 0) (0, 0) of (rt, libc) \<Rightarrow>
        let reqs = plt_requests rt libc;
            s1 = register_all L reqs (s\<lparr> hs_maps := scan \<rparr>);
            s2 = snd (commit_hooks L (map (\<lambda>(_, _, h). h) (hs_backup s1)) s1)
        in s2\<lparr> hs_backup := filter (\<lambda>(_, _, h). hs_old s2 h \<noteq> 0) (hs_backup s2) \<rparr>)"

definition hook_unloader :: "lsplt \<Rightarrow> lsplt_map list \<Rightarrow> hook_state \<Rightarrow> hook_state" where
  "hook_unloader L scan s =
     (let (dev, inode) = (case find (\<lambda>mp. ends_with (lm_path mp) ''/libart.so'') scan of
                            Some mp \<Rightarrow> (lm_dev mp, lm_inode mp) | None \<Rightarrow> (0, 0))
      in snd (commit_hooks L [H_setstacksize]
           (register_hook L dev inode H_setstacksize (s\<lparr> hs_maps := scan \<rparr>))))"

text \<open>Registering the originals again; any failure gives up unmapping.\<close>

fun unregister_all :: "lsplt \<Rightarrow> backup list \<Rightarrow> hook_state \<Rightarrow> hook_state" where
  "unregister_all L [] s = s"
| "unregister_all L ((dev, inode, h) # bs) s =
     (let s1 = s\<lparr> hs_calls := hs_calls s @ [Plt_register dev inode (hook_symbol h) (hs_old s h) False] \<rparr>
      in unregister_all L bs
           (if ls_register L (hs_calls s) then s1 else s1\<lparr> hs_unmap := False \<rparr>))"

definition restore_plt_hook :: "lsplt \<Rightarrow> hook_state \<Rightarrow> hook_state" where
  "restore_plt_hook L s =
     (let s1 = unregister_all L (hs_backup s) s;
          s2 = s1\<lparr> hs_calls := hs_calls s1 @ [Plt_commit True] \<rparr>
      in if ls_commit L (hs_calls s1) then s2 else s2\<lparr> hs_unmap := False \<rparr>)"

text \<open>Erasing the last entry with a property, as a reverse iterator finds it.\<close>

definition remove_last :: "('a \<Rightarrow> bool) \<Rightarrow> 'a list \<Rightarrow> 'a list" where
  "remove_last P xs =
     (case dropWhile (\<lambda>x. \<not> P x) (rev xs) of
        [] \<Rightarrow> xs
      | _ # rest \<Rightarrow> rev (takeWhile (\<lambda>x. \<not> P x) (rev xs) @ rest))"

definition property_get :: "lsplt \<Rightarrow> lsplt_map list \<Rightarrow> hook_state \<Rightarrow> hook_state" where
  "property_get L scan s =
     (if hs_skip_unloader s then s
      else
        let s1 = (hook_unloader L scan s)\<lparr> hs_skip_unloader := True \<rparr>;
            is_it = (\<lambda>(_, _, h). hs_old s1 h = hs_old s1 H_property_get)
        in case find is_it (rev (hs_backup s1)) of
             None \<Rightarrow> s1
           | Some (dev, inode, h) \<Rightarrow>
               let c1 = hs_calls s1;
                   c2 = c1 @ [Plt_register dev inode (hook_symbol h) (hs_old s1 h) False]
               in if \<not> ls_register L c1 then s1\<lparr> hs_calls := c2 \<rparr>
                  else let c3 = c2 @ [Plt_commit True] in
                    if \<not> ls_commit L c2 then s1\<lparr> hs_calls := c3 \<rparr>
                    else s1\<lparr> hs_calls := c3, hs_backup := remove_last is_it (hs_backup s1) \<rparr>)"

section \<open>Leaving the process\<close>

datatype unload_step = Restored | Spoofed_maps | Deleted_hooks | Unmapped | Worker_started

text \<open>
  \<open>pthread_attr_setstacksize\<close>: \<open>main_thread\<close> is \<open>gettid() == getpid()\<close>; \<open>live\<close> and \<open>spoof\<close> are
  the flags of the hook context.
\<close>

definition new_setstacksize ::
  "lsplt \<Rightarrow> bool \<Rightarrow> bool \<Rightarrow> bool \<Rightarrow> hook_state \<Rightarrow> unload_step list \<times> hook_state" where
  "new_setstacksize L main_thread live spoof s =
     (let w = (if live \<and> main_thread then [Worker_started] else []) in
      if hs_unmap s \<and> main_thread then
        (let s1 = restore_plt_hook L s in
         if hs_unmap s1
         then (w @ [Restored] @ (if spoof then [Spoofed_maps] else []) @ [Deleted_hooks, Unmapped], s1)
         else (w @ [Restored, Deleted_hooks], s1))
      else (w, s))"

text \<open>
  The destructor of the context: \<open>armed\<close> is \<open>live_hotplug_armed()\<close>.  The result is the context
  and the flags \<open>should_unmap\<close> and \<open>live_hotplug_ready\<close>; the native methods are restored.
\<close>

definition ZygiskContext_destroy :: "bool \<Rightarrow> zctx \<Rightarrow> bool \<Rightarrow> bool \<Rightarrow> zctx \<times> bool \<times> bool" where
  "ZygiskContext_destroy armed c unmap live =
     (if \<not> is_child c then (c, unmap, live)
      else let c1 = c\<lparr> z_modules := map clearApi (z_modules c) \<rparr> in
           if has (z_flags c) SERVER_FORK_AND_SPECIALIZE \<and> armed then (c1, False, True)
           else (c1, True, live))"

section \<open>Native methods\<close>

text \<open>
  A native method of the VM by name and signature: whether an instance or a static method
  of the class exists, whether it is native, and the address it is bound to.
\<close>

record jni_method =
  jm_name :: string
  jm_signature :: string
  jm_fn :: u64

type_synonym vm = "string \<times> string \<Rightarrow> (bool \<times> u64) option"

fun jni_scan :: "vm \<Rightarrow> jni_method list \<Rightarrow> jni_method list \<times> jni_method list" where
  "jni_scan V [] = ([], [])"
| "jni_scan V (m # ms) =
     (case jni_scan V ms of (ms', hooks) \<Rightarrow>
        if jm_fn m = 0 then (m # ms', hooks)
        else case V (jm_name m, jm_signature m) of
          None \<Rightarrow> (m\<lparr> jm_fn := 0 \<rparr> # ms', hooks)
        | Some (native, old) \<Rightarrow>
            if \<not> native then (m\<lparr> jm_fn := 0 \<rparr> # ms', hooks)
            else (m\<lparr> jm_fn := old \<rparr> # ms', m # hooks))"

fun register_natives :: "jni_method list \<Rightarrow> vm \<Rightarrow> vm" where
  "register_natives [] V = V"
| "register_natives (h # hs) V =
     register_natives hs
       (case V (jm_name h, jm_signature h) of
          None \<Rightarrow> V
        | Some (native, _) \<Rightarrow> V((jm_name h, jm_signature h) \<mapsto> (native, jm_fn h)))"

text \<open>\<open>hook_jni_methods\<close>: \<open>found\<close> says whether the class exists.\<close>

definition hook_jni_methods :: "bool \<Rightarrow> jni_method list \<Rightarrow> vm \<Rightarrow> jni_method list \<times> vm" where
  "hook_jni_methods found methods V =
     (if \<not> found then (map (\<lambda>m. m\<lparr> jm_fn := 0 \<rparr>) methods, V)
      else case jni_scan V methods of (ms, hooks) \<Rightarrow>
        if hooks = [] then (ms, V) else (ms, register_natives hooks V))"

text \<open>
  \<open>hook_zygote_jni\<close>: \<open>ready\<close> says whether the VM, its environment, the reflection members and
  the method layout were all found.  \<open>new_strdup\<close> waits for the start of ZygoteInit.
\<close>

definition hook_zygote_jni :: "bool \<Rightarrow> bool \<Rightarrow> jni_method list \<Rightarrow> vm \<Rightarrow> jni_method list \<times> vm" where
  "hook_zygote_jni ready found methods V =
     (if ready then hook_jni_methods found methods V else (methods, V))"

definition new_strdup ::
  "bool \<Rightarrow> bool \<Rightarrow> lsplt_map list \<Rightarrow> string \<Rightarrow> jni_method list \<times> vm \<times> hook_state \<Rightarrow>
     jni_method list \<times> vm \<times> hook_state" where
  "new_strdup ready found scan str st =
     (case st of (methods, V, s) \<Rightarrow>
        if str = ''com.android.internal.os.ZygoteInit''
        then (case hook_zygote_jni ready found methods V of (ms, V1) \<Rightarrow> (ms, V1, s\<lparr> hs_maps := scan \<rparr>))
        else st)"

end
