(* ===== verification/Jni_Hooks.thy ===== *)
theory Jni_Hooks
  imports Hooks
begin

text \<open>
  The replacements of zygote's native methods (\<open>injector/jni_hooks.hpp\<close>): one entry for each
  signature an Android release or a vendor uses.  Each entry is its name and signature, and a
  function that gathers its parameters for the modules, runs the \<open>pre\<close> step, calls the
  original method of its own place in the table and runs the \<open>post\<close> step.  The argument
  structures are those of \<open>injector/module.hpp\<close>.
\<close>

section \<open>The shape of an entry\<close>

datatype jtype = JInt | JBoolean | JLong | JString | JIntArray | JLongArray | JObjectArray | JVoid

datatype args_struct = App_args | Server_args

datatype zygote_op = ForkAndSpecialize | SpecializeAppProcess | ForkSystemServer

text \<open>
  \<open>jh_set\<close> are the optional members of the structure that are pointed to a parameter;
  \<open>jh_pass\<close> is what the original is called with, after \<open>env\<close> and \<open>clazz\<close>.
\<close>

record jni_hook =
  jh_name :: string
  jh_signature :: string
  jh_params :: "(string \<times> jtype) list"
  jh_struct :: args_struct
  jh_set :: "string list"
  jh_pre :: zygote_op
  jh_index :: nat
  jh_pass :: "string list"
  jh_post :: zygote_op
  jh_ret :: jtype
  jh_returns_pid :: bool

text \<open>The members that are references to parameters, and those that may be pointed to one.\<close>

definition AppSpecializeArgs_v3 :: "(string \<times> jtype) list \<times> (string \<times> jtype) list" where
  "AppSpecializeArgs_v3 =
     ([(''uid'', JInt), (''gid'', JInt), (''gids'', JIntArray), (''runtime_flags'', JInt),
       (''rlimits'', JObjectArray), (''mount_external'', JInt), (''se_info'', JString),
       (''nice_name'', JString), (''instruction_set'', JString), (''app_data_dir'', JString)],
      [(''fds_to_ignore'', JIntArray), (''is_child_zygote'', JBoolean), (''is_top_app'', JBoolean),
       (''pkg_data_info_list'', JObjectArray), (''whitelisted_data_info_list'', JObjectArray),
       (''mount_data_dirs'', JBoolean), (''mount_storage_dirs'', JBoolean)])"

definition AppSpecializeArgs_v5 :: "(string \<times> jtype) list \<times> (string \<times> jtype) list" where
  "AppSpecializeArgs_v5 =
     (fst AppSpecializeArgs_v3, snd AppSpecializeArgs_v3 @ [(''mount_sysprop_overrides'', JBoolean)])"

definition ServerSpecializeArgs_v1 :: "(string \<times> jtype) list \<times> (string \<times> jtype) list" where
  "ServerSpecializeArgs_v1 =
     ([(''uid'', JInt), (''gid'', JInt), (''gids'', JIntArray), (''runtime_flags'', JInt),
       (''permitted_capabilities'', JLong), (''effective_capabilities'', JLong)], [])"

definition struct_members :: "args_struct \<Rightarrow> (string \<times> jtype) list \<times> (string \<times> jtype) list" where
  "struct_members st =
     (case st of App_args \<Rightarrow> AppSpecializeArgs_v5 | Server_args \<Rightarrow> ServerSpecializeArgs_v1)"

text \<open>The parameters the modules can read and change.\<close>

definition exposed :: "jni_hook \<Rightarrow> string list" where
  "exposed h = map fst (fst (struct_members (jh_struct h))) @ jh_set h"

section \<open>The function of an entry\<close>

text \<open>
  The steps of the context and the original methods act on a state of their own.  \<open>c_pre\<close>
  gets the exposed parameters and gives them back, perhaps changed.
\<close>

record ('v, 's) zygote_context =
  c_pre :: "zygote_op \<Rightarrow> (string \<times> 'v) list \<Rightarrow> 's \<Rightarrow> (string \<times> 'v) list \<times> 's"
  c_original :: "nat \<Rightarrow> 'v list \<Rightarrow> 's \<Rightarrow> 's"
  c_post :: "zygote_op \<Rightarrow> 's \<Rightarrow> 's"
  c_pid :: "'s \<Rightarrow> int"

definition write_back :: "string list \<Rightarrow> (string \<times> 'v) list \<Rightarrow> (string \<times> 'v) list \<Rightarrow> (string \<times> 'v) list" where
  "write_back names upd locals =
     map (\<lambda>(n, v). (n, if n \<in> set names then (case map_of upd n of Some u \<Rightarrow> u | None \<Rightarrow> v) else v)) locals"

definition run_hook :: "('v, 's) zygote_context \<Rightarrow> jni_hook \<Rightarrow> 'v list \<Rightarrow> 's \<Rightarrow> int option \<times> 's" where
  "run_hook C h vals s =
     (let locals = zip (map fst (jh_params h)) vals in
      case c_pre C (jh_pre h) (filter (\<lambda>(n, _). n \<in> set (exposed h)) locals) s of (upd, s1) \<Rightarrow>
        let locals1 = write_back (exposed h) upd locals;
            s2 = c_original C (jh_index h) (map (\<lambda>n. the (map_of locals1 n)) (jh_pass h)) s1;
            s3 = c_post C (jh_post h) s2
        in (if jh_returns_pid h then Some (c_pid C s3) else None, s3))"

section \<open>The table\<close>

definition hook_0 :: jni_hook where
  "hook_0 = \<lparr>
     jh_name = ''nativeForkAndSpecialize'',
     jh_signature = ''(II[II[[IILjava/lang/String;Ljava/lang/String;[ILjava/lang/String;Ljava/lang/String;)I'',
     jh_params = [(''uid'', JInt), (''gid'', JInt), (''gids'', JIntArray), (''runtime_flags'', JInt),
        (''rlimits'', JObjectArray), (''mount_external'', JInt), (''se_info'', JString),
        (''nice_name'', JString), (''fds_to_close'', JIntArray),
        (''instruction_set'', JString), (''app_data_dir'', JString)],
     jh_struct = App_args,
     jh_set = [],
     jh_pre = ForkAndSpecialize, jh_index = 0,
     jh_pass = [''uid'', ''gid'', ''gids'', ''runtime_flags'', ''rlimits'', ''mount_external'',
        ''se_info'', ''nice_name'', ''fds_to_close'', ''instruction_set'', ''app_data_dir''],
     jh_post = ForkAndSpecialize, jh_ret = JInt, jh_returns_pid = True \<rparr>"

definition hook_1 :: jni_hook where
  "hook_1 = \<lparr>
     jh_name = ''nativeForkAndSpecialize'',
     jh_signature = ''(II[II[[IILjava/lang/String;Ljava/lang/String;[I[ILjava/lang/String;Ljava/lang/String;)I'',
     jh_params = [(''uid'', JInt), (''gid'', JInt), (''gids'', JIntArray), (''runtime_flags'', JInt),
        (''rlimits'', JObjectArray), (''mount_external'', JInt), (''se_info'', JString),
        (''nice_name'', JString), (''fds_to_close'', JIntArray),
        (''fds_to_ignore'', JIntArray), (''instruction_set'', JString),
        (''app_data_dir'', JString)],
     jh_struct = App_args,
     jh_set = [''fds_to_ignore''],
     jh_pre = ForkAndSpecialize, jh_index = 1,
     jh_pass = [''uid'', ''gid'', ''gids'', ''runtime_flags'', ''rlimits'', ''mount_external'',
        ''se_info'', ''nice_name'', ''fds_to_close'', ''fds_to_ignore'', ''instruction_set'',
        ''app_data_dir''],
     jh_post = ForkAndSpecialize, jh_ret = JInt, jh_returns_pid = True \<rparr>"

definition hook_2 :: jni_hook where
  "hook_2 = \<lparr>
     jh_name = ''nativeForkAndSpecialize'',
     jh_signature = ''(II[II[[IILjava/lang/String;Ljava/lang/String;[I[IZLjava/lang/String;Ljava/lang/String;)I'',
     jh_params = [(''uid'', JInt), (''gid'', JInt), (''gids'', JIntArray), (''runtime_flags'', JInt),
        (''rlimits'', JObjectArray), (''mount_external'', JInt), (''se_info'', JString),
        (''nice_name'', JString), (''fds_to_close'', JIntArray),
        (''fds_to_ignore'', JIntArray), (''is_child_zygote'', JBoolean),
        (''instruction_set'', JString), (''app_data_dir'', JString)],
     jh_struct = App_args,
     jh_set = [''fds_to_ignore'', ''is_child_zygote''],
     jh_pre = ForkAndSpecialize, jh_index = 2,
     jh_pass = [''uid'', ''gid'', ''gids'', ''runtime_flags'', ''rlimits'', ''mount_external'',
        ''se_info'', ''nice_name'', ''fds_to_close'', ''fds_to_ignore'', ''is_child_zygote'',
        ''instruction_set'', ''app_data_dir''],
     jh_post = ForkAndSpecialize, jh_ret = JInt, jh_returns_pid = True \<rparr>"

definition hook_3 :: jni_hook where
  "hook_3 = \<lparr>
     jh_name = ''nativeForkAndSpecialize'',
     jh_signature = ''(II[II[[IILjava/lang/String;Ljava/lang/String;[I[IZLjava/lang/String;Ljava/lang/String;Z)I'',
     jh_params = [(''uid'', JInt), (''gid'', JInt), (''gids'', JIntArray), (''runtime_flags'', JInt),
        (''rlimits'', JObjectArray), (''mount_external'', JInt), (''se_info'', JString),
        (''nice_name'', JString), (''fds_to_close'', JIntArray),
        (''fds_to_ignore'', JIntArray), (''is_child_zygote'', JBoolean),
        (''instruction_set'', JString), (''app_data_dir'', JString), (''is_top_app'', JBoolean)],
     jh_struct = App_args,
     jh_set = [''fds_to_ignore'', ''is_child_zygote'', ''is_top_app''],
     jh_pre = ForkAndSpecialize, jh_index = 3,
     jh_pass = [''uid'', ''gid'', ''gids'', ''runtime_flags'', ''rlimits'', ''mount_external'',
        ''se_info'', ''nice_name'', ''fds_to_close'', ''fds_to_ignore'', ''is_child_zygote'',
        ''instruction_set'', ''app_data_dir'', ''is_top_app''],
     jh_post = ForkAndSpecialize, jh_ret = JInt, jh_returns_pid = True \<rparr>"

definition hook_4 :: jni_hook where
  "hook_4 = \<lparr>
     jh_name = ''nativeForkAndSpecialize'',
     jh_signature = ''(II[II[[IILjava/lang/String;Ljava/lang/String;[I[IZLjava/lang/String;Ljava/lang/String;Z[Ljava/lang/String;[Ljava/lang/String;ZZ)I'',
     jh_params = [(''uid'', JInt), (''gid'', JInt), (''gids'', JIntArray), (''runtime_flags'', JInt),
        (''rlimits'', JObjectArray), (''mount_external'', JInt), (''se_info'', JString),
        (''nice_name'', JString), (''fds_to_close'', JIntArray),
        (''fds_to_ignore'', JIntArray), (''is_child_zygote'', JBoolean),
        (''instruction_set'', JString), (''app_data_dir'', JString),
        (''is_top_app'', JBoolean), (''pkg_data_info_list'', JObjectArray),
        (''whitelisted_data_info_list'', JObjectArray), (''mount_data_dirs'', JBoolean),
        (''mount_storage_dirs'', JBoolean)],
     jh_struct = App_args,
     jh_set = [''fds_to_ignore'', ''is_child_zygote'', ''is_top_app'', ''pkg_data_info_list'',
        ''whitelisted_data_info_list'', ''mount_data_dirs'', ''mount_storage_dirs''],
     jh_pre = ForkAndSpecialize, jh_index = 4,
     jh_pass = [''uid'', ''gid'', ''gids'', ''runtime_flags'', ''rlimits'', ''mount_external'',
        ''se_info'', ''nice_name'', ''fds_to_close'', ''fds_to_ignore'', ''is_child_zygote'',
        ''instruction_set'', ''app_data_dir'', ''is_top_app'', ''pkg_data_info_list'',
        ''whitelisted_data_info_list'', ''mount_data_dirs'', ''mount_storage_dirs''],
     jh_post = ForkAndSpecialize, jh_ret = JInt, jh_returns_pid = True \<rparr>"

definition hook_5 :: jni_hook where
  "hook_5 = \<lparr>
     jh_name = ''nativeForkAndSpecialize'',
     jh_signature = ''(II[II[[IILjava/lang/String;Ljava/lang/String;[I[IZLjava/lang/String;Ljava/lang/String;Z[Ljava/lang/String;[Ljava/lang/String;ZZZ)I'',
     jh_params = [(''uid'', JInt), (''gid'', JInt), (''gids'', JIntArray), (''runtime_flags'', JInt),
        (''rlimits'', JObjectArray), (''mount_external'', JInt), (''se_info'', JString),
        (''nice_name'', JString), (''fds_to_close'', JIntArray),
        (''fds_to_ignore'', JIntArray), (''is_child_zygote'', JBoolean),
        (''instruction_set'', JString), (''app_data_dir'', JString),
        (''is_top_app'', JBoolean), (''pkg_data_info_list'', JObjectArray),
        (''whitelisted_data_info_list'', JObjectArray), (''mount_data_dirs'', JBoolean),
        (''mount_storage_dirs'', JBoolean), (''mount_sysprop_overrides'', JBoolean)],
     jh_struct = App_args,
     jh_set = [''fds_to_ignore'', ''is_child_zygote'', ''is_top_app'', ''pkg_data_info_list'',
        ''whitelisted_data_info_list'', ''mount_data_dirs'', ''mount_storage_dirs'',
        ''mount_sysprop_overrides''],
     jh_pre = ForkAndSpecialize, jh_index = 5,
     jh_pass = [''uid'', ''gid'', ''gids'', ''runtime_flags'', ''rlimits'', ''mount_external'',
        ''se_info'', ''nice_name'', ''fds_to_close'', ''fds_to_ignore'', ''is_child_zygote'',
        ''instruction_set'', ''app_data_dir'', ''is_top_app'', ''pkg_data_info_list'',
        ''whitelisted_data_info_list'', ''mount_data_dirs'', ''mount_storage_dirs'',
        ''mount_sysprop_overrides''],
     jh_post = ForkAndSpecialize, jh_ret = JInt, jh_returns_pid = True \<rparr>"

definition hook_6 :: jni_hook where
  "hook_6 = \<lparr>
     jh_name = ''nativeForkAndSpecialize'',
     jh_signature = ''(II[II[[IILjava/lang/String;Ljava/lang/String;[I[IZLjava/lang/String;Ljava/lang/String;ZZ[Ljava/lang/String;[Ljava/lang/String;ZZZ)I'',
     jh_params = [(''uid'', JInt), (''gid'', JInt), (''gids'', JIntArray), (''runtime_flags'', JInt),
        (''rlimits'', JObjectArray), (''mount_external'', JInt), (''se_info'', JString),
        (''nice_name'', JString), (''fds_to_close'', JIntArray),
        (''fds_to_ignore'', JIntArray), (''is_child_zygote'', JBoolean),
        (''instruction_set'', JString), (''app_data_dir'', JString),
        (''is_top_app'', JBoolean), (''use_fifo_ui'', JBoolean),
        (''pkg_data_info_list'', JObjectArray), (''whitelisted_data_info_list'', JObjectArray),
        (''mount_data_dirs'', JBoolean), (''mount_storage_dirs'', JBoolean),
        (''mount_sysprop_overrides'', JBoolean)],
     jh_struct = App_args,
     jh_set = [''fds_to_ignore'', ''is_child_zygote'', ''is_top_app'', ''pkg_data_info_list'',
        ''whitelisted_data_info_list'', ''mount_data_dirs'', ''mount_storage_dirs'',
        ''mount_sysprop_overrides''],
     jh_pre = ForkAndSpecialize, jh_index = 6,
     jh_pass = [''uid'', ''gid'', ''gids'', ''runtime_flags'', ''rlimits'', ''mount_external'',
        ''se_info'', ''nice_name'', ''fds_to_close'', ''fds_to_ignore'', ''is_child_zygote'',
        ''instruction_set'', ''app_data_dir'', ''is_top_app'', ''use_fifo_ui'',
        ''pkg_data_info_list'', ''whitelisted_data_info_list'', ''mount_data_dirs'',
        ''mount_storage_dirs'', ''mount_sysprop_overrides''],
     jh_post = ForkAndSpecialize, jh_ret = JInt, jh_returns_pid = True \<rparr>"

definition hook_7 :: jni_hook where
  "hook_7 = \<lparr>
     jh_name = ''nativeForkAndSpecialize'',
     jh_signature = ''(III[II[[IILjava/lang/String;Ljava/lang/String;[I[IZLjava/lang/String;Ljava/lang/String;ZZ[Ljava/lang/String;[Ljava/lang/String;ZZZ)I'',
     jh_params = [(''uid'', JInt), (''cgroup_uid'', JInt), (''gid'', JInt), (''gids'', JIntArray),
        (''runtime_flags'', JInt), (''rlimits'', JObjectArray), (''mount_external'', JInt),
        (''se_info'', JString), (''nice_name'', JString), (''fds_to_close'', JIntArray),
        (''fds_to_ignore'', JIntArray), (''is_child_zygote'', JBoolean),
        (''instruction_set'', JString), (''app_data_dir'', JString),
        (''is_top_app'', JBoolean), (''use_fifo_ui'', JBoolean),
        (''pkg_data_info_list'', JObjectArray), (''whitelisted_data_info_list'', JObjectArray),
        (''mount_data_dirs'', JBoolean), (''mount_storage_dirs'', JBoolean),
        (''mount_sysprop_overrides'', JBoolean)],
     jh_struct = App_args,
     jh_set = [''fds_to_ignore'', ''is_child_zygote'', ''is_top_app'', ''pkg_data_info_list'',
        ''whitelisted_data_info_list'', ''mount_data_dirs'', ''mount_storage_dirs'',
        ''mount_sysprop_overrides''],
     jh_pre = ForkAndSpecialize, jh_index = 7,
     jh_pass = [''uid'', ''cgroup_uid'', ''gid'', ''gids'', ''runtime_flags'', ''rlimits'',
        ''mount_external'', ''se_info'', ''nice_name'', ''fds_to_close'', ''fds_to_ignore'',
        ''is_child_zygote'', ''instruction_set'', ''app_data_dir'', ''is_top_app'',
        ''use_fifo_ui'', ''pkg_data_info_list'', ''whitelisted_data_info_list'',
        ''mount_data_dirs'', ''mount_storage_dirs'', ''mount_sysprop_overrides''],
     jh_post = ForkAndSpecialize, jh_ret = JInt, jh_returns_pid = True \<rparr>"

definition hook_8 :: jni_hook where
  "hook_8 = \<lparr>
     jh_name = ''nativeForkAndSpecialize'',
     jh_signature = ''(II[II[[IILjava/lang/String;IILjava/lang/String;[ILjava/lang/String;Ljava/lang/String;)I'',
     jh_params = [(''uid'', JInt), (''gid'', JInt), (''gids'', JIntArray), (''runtime_flags'', JInt),
        (''rlimits'', JObjectArray), (''mount_external'', JInt), (''se_info'', JString),
        (''_0'', JInt), (''_1'', JInt), (''nice_name'', JString),
        (''fds_to_close'', JIntArray), (''instruction_set'', JString),
        (''app_data_dir'', JString)],
     jh_struct = App_args,
     jh_set = [],
     jh_pre = ForkAndSpecialize, jh_index = 8,
     jh_pass = [''uid'', ''gid'', ''gids'', ''runtime_flags'', ''rlimits'', ''mount_external'',
        ''se_info'', ''_0'', ''_1'', ''nice_name'', ''fds_to_close'', ''instruction_set'',
        ''app_data_dir''],
     jh_post = ForkAndSpecialize, jh_ret = JInt, jh_returns_pid = True \<rparr>"

definition hook_9 :: jni_hook where
  "hook_9 = \<lparr>
     jh_name = ''nativeForkAndSpecialize'',
     jh_signature = ''(II[II[[IILjava/lang/String;IILjava/lang/String;[ILjava/lang/String;Ljava/lang/String;I)I'',
     jh_params = [(''uid'', JInt), (''gid'', JInt), (''gids'', JIntArray), (''runtime_flags'', JInt),
        (''rlimits'', JObjectArray), (''mount_external'', JInt), (''se_info'', JString),
        (''_2'', JInt), (''_3'', JInt), (''nice_name'', JString),
        (''fds_to_close'', JIntArray), (''instruction_set'', JString),
        (''app_data_dir'', JString), (''_4'', JInt)],
     jh_struct = App_args,
     jh_set = [],
     jh_pre = ForkAndSpecialize, jh_index = 9,
     jh_pass = [''uid'', ''gid'', ''gids'', ''runtime_flags'', ''rlimits'', ''mount_external'',
        ''se_info'', ''_2'', ''_3'', ''nice_name'', ''fds_to_close'', ''instruction_set'',
        ''app_data_dir'', ''_4''],
     jh_post = ForkAndSpecialize, jh_ret = JInt, jh_returns_pid = True \<rparr>"

definition hook_10 :: jni_hook where
  "hook_10 = \<lparr>
     jh_name = ''nativeForkAndSpecialize'',
     jh_signature = ''(II[II[[IILjava/lang/String;IILjava/lang/String;[I[ILjava/lang/String;Ljava/lang/String;)I'',
     jh_params = [(''uid'', JInt), (''gid'', JInt), (''gids'', JIntArray), (''runtime_flags'', JInt),
        (''rlimits'', JObjectArray), (''mount_external'', JInt), (''se_info'', JString),
        (''_5'', JInt), (''_6'', JInt), (''nice_name'', JString),
        (''fds_to_close'', JIntArray), (''fds_to_ignore'', JIntArray),
        (''instruction_set'', JString), (''app_data_dir'', JString)],
     jh_struct = App_args,
     jh_set = [''fds_to_ignore''],
     jh_pre = ForkAndSpecialize, jh_index = 10,
     jh_pass = [''uid'', ''gid'', ''gids'', ''runtime_flags'', ''rlimits'', ''mount_external'',
        ''se_info'', ''_5'', ''_6'', ''nice_name'', ''fds_to_close'', ''fds_to_ignore'',
        ''instruction_set'', ''app_data_dir''],
     jh_post = ForkAndSpecialize, jh_ret = JInt, jh_returns_pid = True \<rparr>"

definition hook_11 :: jni_hook where
  "hook_11 = \<lparr>
     jh_name = ''nativeForkAndSpecialize'',
     jh_signature = ''(II[II[[IILjava/lang/String;IILjava/lang/String;[I[IZLjava/lang/String;Ljava/lang/String;)I'',
     jh_params = [(''uid'', JInt), (''gid'', JInt), (''gids'', JIntArray), (''runtime_flags'', JInt),
        (''rlimits'', JObjectArray), (''mount_external'', JInt), (''se_info'', JString),
        (''_7'', JInt), (''_8'', JInt), (''nice_name'', JString),
        (''fds_to_close'', JIntArray), (''fds_to_ignore'', JIntArray),
        (''is_child_zygote'', JBoolean), (''instruction_set'', JString),
        (''app_data_dir'', JString)],
     jh_struct = App_args,
     jh_set = [''fds_to_ignore'', ''is_child_zygote''],
     jh_pre = ForkAndSpecialize, jh_index = 11,
     jh_pass = [''uid'', ''gid'', ''gids'', ''runtime_flags'', ''rlimits'', ''mount_external'',
        ''se_info'', ''_7'', ''_8'', ''nice_name'', ''fds_to_close'', ''fds_to_ignore'',
        ''is_child_zygote'', ''instruction_set'', ''app_data_dir''],
     jh_post = ForkAndSpecialize, jh_ret = JInt, jh_returns_pid = True \<rparr>"

definition hook_12 :: jni_hook where
  "hook_12 = \<lparr>
     jh_name = ''nativeForkAndSpecialize'',
     jh_signature = ''(II[II[[IILjava/lang/String;Ljava/lang/String;[I[IZLjava/lang/String;Ljava/lang/String;ZZ[Ljava/lang/String;[Ljava/lang/String;ZZZ)I'',
     jh_params = [(''uid'', JInt), (''gid'', JInt), (''gids'', JIntArray), (''runtime_flags'', JInt),
        (''rlimits'', JObjectArray), (''mount_external'', JInt), (''se_info'', JString),
        (''nice_name'', JString), (''fds_to_close'', JIntArray),
        (''fds_to_ignore'', JIntArray), (''is_child_zygote'', JBoolean),
        (''instruction_set'', JString), (''app_data_dir'', JString), (''_9'', JBoolean),
        (''is_top_app'', JBoolean), (''pkg_data_info_list'', JObjectArray),
        (''whitelisted_data_info_list'', JObjectArray), (''mount_data_dirs'', JBoolean),
        (''mount_storage_dirs'', JBoolean), (''mount_sysprop_overrides'', JBoolean)],
     jh_struct = App_args,
     jh_set = [''fds_to_ignore'', ''is_child_zygote'', ''is_top_app'', ''pkg_data_info_list'',
        ''whitelisted_data_info_list'', ''mount_data_dirs'', ''mount_storage_dirs'',
        ''mount_sysprop_overrides''],
     jh_pre = ForkAndSpecialize, jh_index = 12,
     jh_pass = [''uid'', ''gid'', ''gids'', ''runtime_flags'', ''rlimits'', ''mount_external'',
        ''se_info'', ''nice_name'', ''fds_to_close'', ''fds_to_ignore'', ''is_child_zygote'',
        ''instruction_set'', ''app_data_dir'', ''_9'', ''is_top_app'', ''pkg_data_info_list'',
        ''whitelisted_data_info_list'', ''mount_data_dirs'', ''mount_storage_dirs'',
        ''mount_sysprop_overrides''],
     jh_post = ForkAndSpecialize, jh_ret = JInt, jh_returns_pid = True \<rparr>"

definition hook_13 :: jni_hook where
  "hook_13 = \<lparr>
     jh_name = ''nativeForkAndSpecialize'',
     jh_signature = ''(II[II[[IILjava/lang/String;Ljava/lang/String;[I[IZLjava/lang/String;Ljava/lang/String;Z[Ljava/lang/String;[Ljava/lang/String;ZZZ[J)I'',
     jh_params = [(''uid'', JInt), (''gid'', JInt), (''gids'', JIntArray), (''runtime_flags'', JInt),
        (''rlimits'', JObjectArray), (''mount_external'', JInt), (''se_info'', JString),
        (''nice_name'', JString), (''fds_to_close'', JIntArray),
        (''fds_to_ignore'', JIntArray), (''is_child_zygote'', JBoolean),
        (''instruction_set'', JString), (''app_data_dir'', JString),
        (''is_top_app'', JBoolean), (''pkg_data_info_list'', JObjectArray),
        (''whitelisted_data_info_list'', JObjectArray), (''mount_data_dirs'', JBoolean),
        (''mount_storage_dirs'', JBoolean), (''mount_sysprop_overrides'', JBoolean),
        (''_10'', JLongArray)],
     jh_struct = App_args,
     jh_set = [''fds_to_ignore'', ''is_child_zygote'', ''is_top_app'', ''pkg_data_info_list'',
        ''whitelisted_data_info_list'', ''mount_data_dirs'', ''mount_storage_dirs'',
        ''mount_sysprop_overrides''],
     jh_pre = ForkAndSpecialize, jh_index = 13,
     jh_pass = [''uid'', ''gid'', ''gids'', ''runtime_flags'', ''rlimits'', ''mount_external'',
        ''se_info'', ''nice_name'', ''fds_to_close'', ''fds_to_ignore'', ''is_child_zygote'',
        ''instruction_set'', ''app_data_dir'', ''is_top_app'', ''pkg_data_info_list'',
        ''whitelisted_data_info_list'', ''mount_data_dirs'', ''mount_storage_dirs'',
        ''mount_sysprop_overrides'', ''_10''],
     jh_post = ForkAndSpecialize, jh_ret = JInt, jh_returns_pid = True \<rparr>"

definition hook_14 :: jni_hook where
  "hook_14 = \<lparr>
     jh_name = ''nativeForkAndSpecialize'',
     jh_signature = ''([JII[II[[IILjava/lang/String;Ljava/lang/String;[I[IZLjava/lang/String;Ljava/lang/String;ZZ[Ljava/lang/String;[Ljava/lang/String;ZZZ)I'',
     jh_params = [(''_11'', JLongArray), (''uid'', JInt), (''gid'', JInt), (''gids'', JIntArray),
        (''runtime_flags'', JInt), (''rlimits'', JObjectArray), (''mount_external'', JInt),
        (''se_info'', JString), (''nice_name'', JString), (''fds_to_close'', JIntArray),
        (''fds_to_ignore'', JIntArray), (''is_child_zygote'', JBoolean),
        (''instruction_set'', JString), (''app_data_dir'', JString),
        (''is_top_app'', JBoolean), (''_12'', JBoolean),
        (''pkg_data_info_list'', JObjectArray), (''whitelisted_data_info_list'', JObjectArray),
        (''mount_data_dirs'', JBoolean), (''mount_storage_dirs'', JBoolean),
        (''mount_sysprop_overrides'', JBoolean)],
     jh_struct = App_args,
     jh_set = [''fds_to_ignore'', ''is_child_zygote'', ''is_top_app'', ''pkg_data_info_list'',
        ''whitelisted_data_info_list'', ''mount_data_dirs'', ''mount_storage_dirs'',
        ''mount_sysprop_overrides''],
     jh_pre = ForkAndSpecialize, jh_index = 14,
     jh_pass = [''_11'', ''uid'', ''gid'', ''gids'', ''runtime_flags'', ''rlimits'', ''mount_external'',
        ''se_info'', ''nice_name'', ''fds_to_close'', ''fds_to_ignore'', ''is_child_zygote'',
        ''instruction_set'', ''app_data_dir'', ''is_top_app'', ''_12'', ''pkg_data_info_list'',
        ''whitelisted_data_info_list'', ''mount_data_dirs'', ''mount_storage_dirs'',
        ''mount_sysprop_overrides''],
     jh_post = ForkAndSpecialize, jh_ret = JInt, jh_returns_pid = True \<rparr>"

definition hook_15 :: jni_hook where
  "hook_15 = \<lparr>
     jh_name = ''nativeSpecializeAppProcess'',
     jh_signature = ''(II[II[[IILjava/lang/String;Ljava/lang/String;ZLjava/lang/String;Ljava/lang/String;)V'',
     jh_params = [(''uid'', JInt), (''gid'', JInt), (''gids'', JIntArray), (''runtime_flags'', JInt),
        (''rlimits'', JObjectArray), (''mount_external'', JInt), (''se_info'', JString),
        (''nice_name'', JString), (''is_child_zygote'', JBoolean),
        (''instruction_set'', JString), (''app_data_dir'', JString)],
     jh_struct = App_args,
     jh_set = [''is_child_zygote''],
     jh_pre = SpecializeAppProcess, jh_index = 15,
     jh_pass = [''uid'', ''gid'', ''gids'', ''runtime_flags'', ''rlimits'', ''mount_external'',
        ''se_info'', ''nice_name'', ''is_child_zygote'', ''instruction_set'', ''app_data_dir''],
     jh_post = SpecializeAppProcess, jh_ret = JVoid, jh_returns_pid = False \<rparr>"

definition hook_16 :: jni_hook where
  "hook_16 = \<lparr>
     jh_name = ''nativeSpecializeAppProcess'',
     jh_signature = ''(II[II[[IILjava/lang/String;Ljava/lang/String;ZLjava/lang/String;Ljava/lang/String;Z)V'',
     jh_params = [(''uid'', JInt), (''gid'', JInt), (''gids'', JIntArray), (''runtime_flags'', JInt),
        (''rlimits'', JObjectArray), (''mount_external'', JInt), (''se_info'', JString),
        (''nice_name'', JString), (''is_child_zygote'', JBoolean),
        (''instruction_set'', JString), (''app_data_dir'', JString), (''is_top_app'', JBoolean)],
     jh_struct = App_args,
     jh_set = [''is_child_zygote'', ''is_top_app''],
     jh_pre = SpecializeAppProcess, jh_index = 16,
     jh_pass = [''uid'', ''gid'', ''gids'', ''runtime_flags'', ''rlimits'', ''mount_external'',
        ''se_info'', ''nice_name'', ''is_child_zygote'', ''instruction_set'', ''app_data_dir'',
        ''is_top_app''],
     jh_post = SpecializeAppProcess, jh_ret = JVoid, jh_returns_pid = False \<rparr>"

definition hook_17 :: jni_hook where
  "hook_17 = \<lparr>
     jh_name = ''nativeSpecializeAppProcess'',
     jh_signature = ''(II[II[[IILjava/lang/String;Ljava/lang/String;ZLjava/lang/String;Ljava/lang/String;Z[Ljava/lang/String;[Ljava/lang/String;ZZ)V'',
     jh_params = [(''uid'', JInt), (''gid'', JInt), (''gids'', JIntArray), (''runtime_flags'', JInt),
        (''rlimits'', JObjectArray), (''mount_external'', JInt), (''se_info'', JString),
        (''nice_name'', JString), (''is_child_zygote'', JBoolean),
        (''instruction_set'', JString), (''app_data_dir'', JString),
        (''is_top_app'', JBoolean), (''pkg_data_info_list'', JObjectArray),
        (''whitelisted_data_info_list'', JObjectArray), (''mount_data_dirs'', JBoolean),
        (''mount_storage_dirs'', JBoolean)],
     jh_struct = App_args,
     jh_set = [''is_child_zygote'', ''is_top_app'', ''pkg_data_info_list'',
        ''whitelisted_data_info_list'', ''mount_data_dirs'', ''mount_storage_dirs''],
     jh_pre = SpecializeAppProcess, jh_index = 17,
     jh_pass = [''uid'', ''gid'', ''gids'', ''runtime_flags'', ''rlimits'', ''mount_external'',
        ''se_info'', ''nice_name'', ''is_child_zygote'', ''instruction_set'', ''app_data_dir'',
        ''is_top_app'', ''pkg_data_info_list'', ''whitelisted_data_info_list'',
        ''mount_data_dirs'', ''mount_storage_dirs''],
     jh_post = SpecializeAppProcess, jh_ret = JVoid, jh_returns_pid = False \<rparr>"

definition hook_18 :: jni_hook where
  "hook_18 = \<lparr>
     jh_name = ''nativeSpecializeAppProcess'',
     jh_signature = ''(II[II[[IILjava/lang/String;Ljava/lang/String;ZLjava/lang/String;Ljava/lang/String;Z[Ljava/lang/String;[Ljava/lang/String;ZZZ)V'',
     jh_params = [(''uid'', JInt), (''gid'', JInt), (''gids'', JIntArray), (''runtime_flags'', JInt),
        (''rlimits'', JObjectArray), (''mount_external'', JInt), (''se_info'', JString),
        (''nice_name'', JString), (''is_child_zygote'', JBoolean),
        (''instruction_set'', JString), (''app_data_dir'', JString),
        (''is_top_app'', JBoolean), (''pkg_data_info_list'', JObjectArray),
        (''whitelisted_data_info_list'', JObjectArray), (''mount_data_dirs'', JBoolean),
        (''mount_storage_dirs'', JBoolean), (''mount_sysprop_overrides'', JBoolean)],
     jh_struct = App_args,
     jh_set = [''is_child_zygote'', ''is_top_app'', ''pkg_data_info_list'',
        ''whitelisted_data_info_list'', ''mount_data_dirs'', ''mount_storage_dirs'',
        ''mount_sysprop_overrides''],
     jh_pre = SpecializeAppProcess, jh_index = 18,
     jh_pass = [''uid'', ''gid'', ''gids'', ''runtime_flags'', ''rlimits'', ''mount_external'',
        ''se_info'', ''nice_name'', ''is_child_zygote'', ''instruction_set'', ''app_data_dir'',
        ''is_top_app'', ''pkg_data_info_list'', ''whitelisted_data_info_list'',
        ''mount_data_dirs'', ''mount_storage_dirs'', ''mount_sysprop_overrides''],
     jh_post = SpecializeAppProcess, jh_ret = JVoid, jh_returns_pid = False \<rparr>"

definition hook_19 :: jni_hook where
  "hook_19 = \<lparr>
     jh_name = ''nativeSpecializeAppProcess'',
     jh_signature = ''(III[II[[IILjava/lang/String;Ljava/lang/String;ZLjava/lang/String;Ljava/lang/String;Z[Ljava/lang/String;[Ljava/lang/String;ZZZ)V'',
     jh_params = [(''uid'', JInt), (''cgroup_uid'', JInt), (''gid'', JInt), (''gids'', JIntArray),
        (''runtime_flags'', JInt), (''rlimits'', JObjectArray), (''mount_external'', JInt),
        (''se_info'', JString), (''nice_name'', JString), (''is_child_zygote'', JBoolean),
        (''instruction_set'', JString), (''app_data_dir'', JString),
        (''is_top_app'', JBoolean), (''pkg_data_info_list'', JObjectArray),
        (''whitelisted_data_info_list'', JObjectArray), (''mount_data_dirs'', JBoolean),
        (''mount_storage_dirs'', JBoolean), (''mount_sysprop_overrides'', JBoolean)],
     jh_struct = App_args,
     jh_set = [''is_child_zygote'', ''is_top_app'', ''pkg_data_info_list'',
        ''whitelisted_data_info_list'', ''mount_data_dirs'', ''mount_storage_dirs'',
        ''mount_sysprop_overrides''],
     jh_pre = SpecializeAppProcess, jh_index = 19,
     jh_pass = [''uid'', ''cgroup_uid'', ''gid'', ''gids'', ''runtime_flags'', ''rlimits'',
        ''mount_external'', ''se_info'', ''nice_name'', ''is_child_zygote'',
        ''instruction_set'', ''app_data_dir'', ''is_top_app'', ''pkg_data_info_list'',
        ''whitelisted_data_info_list'', ''mount_data_dirs'', ''mount_storage_dirs'',
        ''mount_sysprop_overrides''],
     jh_post = SpecializeAppProcess, jh_ret = JVoid, jh_returns_pid = False \<rparr>"

definition hook_20 :: jni_hook where
  "hook_20 = \<lparr>
     jh_name = ''nativeSpecializeAppProcess'',
     jh_signature = ''(II[II[[IILjava/lang/String;IILjava/lang/String;ZLjava/lang/String;Ljava/lang/String;)V'',
     jh_params = [(''uid'', JInt), (''gid'', JInt), (''gids'', JIntArray), (''runtime_flags'', JInt),
        (''rlimits'', JObjectArray), (''mount_external'', JInt), (''se_info'', JString),
        (''_13'', JInt), (''_14'', JInt), (''nice_name'', JString),
        (''is_child_zygote'', JBoolean), (''instruction_set'', JString),
        (''app_data_dir'', JString)],
     jh_struct = App_args,
     jh_set = [''is_child_zygote''],
     jh_pre = SpecializeAppProcess, jh_index = 20,
     jh_pass = [''uid'', ''gid'', ''gids'', ''runtime_flags'', ''rlimits'', ''mount_external'',
        ''se_info'', ''_13'', ''_14'', ''nice_name'', ''is_child_zygote'', ''instruction_set'',
        ''app_data_dir''],
     jh_post = SpecializeAppProcess, jh_ret = JVoid, jh_returns_pid = False \<rparr>"

definition hook_21 :: jni_hook where
  "hook_21 = \<lparr>
     jh_name = ''nativeSpecializeAppProcess'',
     jh_signature = ''(II[II[[IILjava/lang/String;Ljava/lang/String;ZLjava/lang/String;Ljava/lang/String;Z[Ljava/lang/String;[Ljava/lang/String;ZZZ[J)V'',
     jh_params = [(''uid'', JInt), (''gid'', JInt), (''gids'', JIntArray), (''runtime_flags'', JInt),
        (''rlimits'', JObjectArray), (''mount_external'', JInt), (''se_info'', JString),
        (''nice_name'', JString), (''is_child_zygote'', JBoolean),
        (''instruction_set'', JString), (''app_data_dir'', JString),
        (''is_top_app'', JBoolean), (''pkg_data_info_list'', JObjectArray),
        (''whitelisted_data_info_list'', JObjectArray), (''mount_data_dirs'', JBoolean),
        (''mount_storage_dirs'', JBoolean), (''mount_sysprop_overrides'', JBoolean),
        (''_15'', JLongArray)],
     jh_struct = App_args,
     jh_set = [''is_child_zygote'', ''is_top_app'', ''pkg_data_info_list'',
        ''whitelisted_data_info_list'', ''mount_data_dirs'', ''mount_storage_dirs'',
        ''mount_sysprop_overrides''],
     jh_pre = SpecializeAppProcess, jh_index = 21,
     jh_pass = [''uid'', ''gid'', ''gids'', ''runtime_flags'', ''rlimits'', ''mount_external'',
        ''se_info'', ''nice_name'', ''is_child_zygote'', ''instruction_set'', ''app_data_dir'',
        ''is_top_app'', ''pkg_data_info_list'', ''whitelisted_data_info_list'',
        ''mount_data_dirs'', ''mount_storage_dirs'', ''mount_sysprop_overrides'', ''_15''],
     jh_post = SpecializeAppProcess, jh_ret = JVoid, jh_returns_pid = False \<rparr>"

definition hook_22 :: jni_hook where
  "hook_22 = \<lparr>
     jh_name = ''nativeSpecializeAppProcess'',
     jh_signature = ''([JII[II[[IILjava/lang/String;Ljava/lang/String;ZLjava/lang/String;Ljava/lang/String;Z[Ljava/lang/String;[Ljava/lang/String;ZZZ)V'',
     jh_params = [(''_16'', JLongArray), (''uid'', JInt), (''gid'', JInt), (''gids'', JIntArray),
        (''runtime_flags'', JInt), (''rlimits'', JObjectArray), (''mount_external'', JInt),
        (''se_info'', JString), (''nice_name'', JString), (''is_child_zygote'', JBoolean),
        (''instruction_set'', JString), (''app_data_dir'', JString),
        (''is_top_app'', JBoolean), (''pkg_data_info_list'', JObjectArray),
        (''whitelisted_data_info_list'', JObjectArray), (''mount_data_dirs'', JBoolean),
        (''mount_storage_dirs'', JBoolean), (''mount_sysprop_overrides'', JBoolean)],
     jh_struct = App_args,
     jh_set = [''is_child_zygote'', ''is_top_app'', ''pkg_data_info_list'',
        ''whitelisted_data_info_list'', ''mount_data_dirs'', ''mount_storage_dirs'',
        ''mount_sysprop_overrides''],
     jh_pre = SpecializeAppProcess, jh_index = 22,
     jh_pass = [''_16'', ''uid'', ''gid'', ''gids'', ''runtime_flags'', ''rlimits'', ''mount_external'',
        ''se_info'', ''nice_name'', ''is_child_zygote'', ''instruction_set'', ''app_data_dir'',
        ''is_top_app'', ''pkg_data_info_list'', ''whitelisted_data_info_list'',
        ''mount_data_dirs'', ''mount_storage_dirs'', ''mount_sysprop_overrides''],
     jh_post = SpecializeAppProcess, jh_ret = JVoid, jh_returns_pid = False \<rparr>"

definition hook_23 :: jni_hook where
  "hook_23 = \<lparr>
     jh_name = ''nativeForkSystemServer'',
     jh_signature = ''(II[II[[IJJ)I'',
     jh_params = [(''uid'', JInt), (''gid'', JInt), (''gids'', JIntArray), (''runtime_flags'', JInt),
        (''rlimits'', JObjectArray), (''permitted_capabilities'', JLong),
        (''effective_capabilities'', JLong)],
     jh_struct = Server_args,
     jh_set = [],
     jh_pre = ForkSystemServer, jh_index = 23,
     jh_pass = [''uid'', ''gid'', ''gids'', ''runtime_flags'', ''rlimits'', ''permitted_capabilities'',
        ''effective_capabilities''],
     jh_post = ForkSystemServer, jh_ret = JInt, jh_returns_pid = True \<rparr>"

definition hook_24 :: jni_hook where
  "hook_24 = \<lparr>
     jh_name = ''nativeForkSystemServer'',
     jh_signature = ''(II[IIII[[IJJ)I'',
     jh_params = [(''uid'', JInt), (''gid'', JInt), (''gids'', JIntArray), (''runtime_flags'', JInt),
        (''_17'', JInt), (''_18'', JInt), (''rlimits'', JObjectArray),
        (''permitted_capabilities'', JLong), (''effective_capabilities'', JLong)],
     jh_struct = Server_args,
     jh_set = [],
     jh_pre = ForkSystemServer, jh_index = 24,
     jh_pass = [''uid'', ''gid'', ''gids'', ''runtime_flags'', ''_17'', ''_18'', ''rlimits'',
        ''permitted_capabilities'', ''effective_capabilities''],
     jh_post = ForkSystemServer, jh_ret = JInt, jh_returns_pid = True \<rparr>"

definition hook_25 :: jni_hook where
  "hook_25 = \<lparr>
     jh_name = ''nativeForkAndSpecialize'',
     jh_signature = ''(II[II[[IILjava/lang/String;Ljava/lang/String;[I[IZLjava/lang/String;Ljava/lang/String;Z[Ljava/lang/String;[Ljava/lang/String;ZZZLjava/lang/String;)I'',
     jh_params = [(''uid'', JInt), (''gid'', JInt), (''gids'', JIntArray), (''runtime_flags'', JInt),
        (''rlimits'', JObjectArray), (''mount_external'', JInt), (''se_info'', JString),
        (''nice_name'', JString), (''fds_to_close'', JIntArray),
        (''fds_to_ignore'', JIntArray), (''is_child_zygote'', JBoolean),
        (''instruction_set'', JString), (''app_data_dir'', JString),
        (''is_top_app'', JBoolean), (''pkg_data_info_list'', JObjectArray),
        (''whitelisted_data_info_list'', JObjectArray), (''mount_data_dirs'', JBoolean),
        (''mount_storage_dirs'', JBoolean), (''mount_sysprop_overrides'', JBoolean),
        (''vendor_extra'', JString)],
     jh_struct = App_args,
     jh_set = [''fds_to_ignore'', ''is_child_zygote'', ''is_top_app'', ''pkg_data_info_list'',
        ''whitelisted_data_info_list'', ''mount_data_dirs'', ''mount_storage_dirs'',
        ''mount_sysprop_overrides''],
     jh_pre = ForkAndSpecialize, jh_index = 25,
     jh_pass = [''uid'', ''gid'', ''gids'', ''runtime_flags'', ''rlimits'', ''mount_external'',
        ''se_info'', ''nice_name'', ''fds_to_close'', ''fds_to_ignore'', ''is_child_zygote'',
        ''instruction_set'', ''app_data_dir'', ''is_top_app'', ''pkg_data_info_list'',
        ''whitelisted_data_info_list'', ''mount_data_dirs'', ''mount_storage_dirs'',
        ''mount_sysprop_overrides'', ''vendor_extra''],
     jh_post = ForkAndSpecialize, jh_ret = JInt, jh_returns_pid = True \<rparr>"

definition hook_26 :: jni_hook where
  "hook_26 = \<lparr>
     jh_name = ''nativeSpecializeAppProcess'',
     jh_signature = ''(II[II[[IILjava/lang/String;Ljava/lang/String;ZLjava/lang/String;Ljava/lang/String;Z[Ljava/lang/String;[Ljava/lang/String;ZZZLjava/lang/String;)V'',
     jh_params = [(''uid'', JInt), (''gid'', JInt), (''gids'', JIntArray), (''runtime_flags'', JInt),
        (''rlimits'', JObjectArray), (''mount_external'', JInt), (''se_info'', JString),
        (''nice_name'', JString), (''is_child_zygote'', JBoolean),
        (''instruction_set'', JString), (''app_data_dir'', JString),
        (''is_top_app'', JBoolean), (''pkg_data_info_list'', JObjectArray),
        (''whitelisted_data_info_list'', JObjectArray), (''mount_data_dirs'', JBoolean),
        (''mount_storage_dirs'', JBoolean), (''mount_sysprop_overrides'', JBoolean),
        (''vendor_extra'', JString)],
     jh_struct = App_args,
     jh_set = [''is_child_zygote'', ''is_top_app'', ''pkg_data_info_list'',
        ''whitelisted_data_info_list'', ''mount_data_dirs'', ''mount_storage_dirs'',
        ''mount_sysprop_overrides''],
     jh_pre = SpecializeAppProcess, jh_index = 26,
     jh_pass = [''uid'', ''gid'', ''gids'', ''runtime_flags'', ''rlimits'', ''mount_external'',
        ''se_info'', ''nice_name'', ''is_child_zygote'', ''instruction_set'', ''app_data_dir'',
        ''is_top_app'', ''pkg_data_info_list'', ''whitelisted_data_info_list'',
        ''mount_data_dirs'', ''mount_storage_dirs'', ''mount_sysprop_overrides'',
        ''vendor_extra''],
     jh_post = SpecializeAppProcess, jh_ret = JVoid, jh_returns_pid = False \<rparr>"

definition zygote_hooks :: "jni_hook list" where
  "zygote_hooks =
     [hook_0, hook_1, hook_2, hook_3, hook_4, hook_5, hook_6, hook_7, hook_8, hook_9, hook_10, hook_11,
      hook_12, hook_13, hook_14, hook_15, hook_16, hook_17, hook_18, hook_19, hook_20, hook_21, hook_22,
      hook_23, hook_24, hook_25, hook_26]"

text \<open>As the VM is asked to register it; \<open>addr\<close> are the addresses of the 27 functions.\<close>

definition zygote_methods :: "(nat \<Rightarrow> u64) \<Rightarrow> jni_method list" where
  "zygote_methods addr =
     map (\<lambda>(i, h). \<lparr> jm_name = jh_name h, jm_signature = jh_signature h, jm_fn = addr i \<rparr>)
       (enumerate 0 zygote_hooks)"

end
