(* ===== verification/Hook_Properties.thy ===== *)
theory Hook_Properties
  imports Hooks
begin

text \<open>
  What the hooks promise: the mount namespace each kind of application gets, which hooks are
  recorded for removal, that the library unmaps itself only after it has removed them all,
  and that the native methods of zygote end up as they were.
\<close>

section \<open>Namespaces\<close>


section \<open>Recorded hooks\<close>

lemma register_all_backup:
  "set (hs_backup (register_all L rs s)) \<subseteq> set (hs_backup s) \<union> set rs"
proof (induction L rs s rule: register_all.induct)
  case (2 L dev inode h rs s)
  have "set (hs_backup (register_hook L dev inode h s)) \<subseteq> set (hs_backup s) \<union> {(dev, inode, h)}"
    by (auto simp: register_hook_def Let_def)
  with 2 show ?case by auto
qed simp

lemma register_all_old: "hs_old (register_all L rs s) = hs_old s"
  by (induction L rs s rule: register_all.induct) (auto simp: register_hook_def Let_def)

text \<open>
  after the start-up every hook recorded for removal is one that was requested and has
  landed, with the original address at hand; a hook that did not land is not recorded.
\<close>

theorem recorded_hooks_landed:
  "set (hs_backup (hook_plt L scan s)) \<subseteq>
     {(dev, inode, h) | dev inode h. hs_old (hook_plt L scan s) h \<noteq> 0} \<inter>
     (set (hs_backup s) \<union> (case find_libraries scan (0, 0) (0, 0) of
                             (rt, libc) \<Rightarrow> set (plt_requests rt libc)))"
proof -
  obtain rt libc where f: "find_libraries scan (0, 0) (0, 0) = (rt, libc)" by (metis surj_pair)
  let ?s1 = "register_all L (plt_requests rt libc) (s\<lparr> hs_maps := scan \<rparr>)"
  let ?s2 = "snd (commit_hooks L (map (\<lambda>(_, _, h). h) (hs_backup ?s1)) ?s1)"
  have r: "hook_plt L scan s =
      ?s2\<lparr> hs_backup := filter (\<lambda>(_, _, h). hs_old ?s2 h \<noteq> 0) (hs_backup ?s2) \<rparr>"
    by (simp add: hook_plt_def f Let_def)
  have b: "hs_backup ?s2 = hs_backup ?s1" by (simp add: commit_hooks_def)
  show ?thesis
    using register_all_backup [of L "plt_requests rt libc" "s\<lparr> hs_maps := scan \<rparr>"]
    unfolding r f by (auto simp del: hook_state.update_convs simp add: b hook_state.simps)
qed

section \<open>Unmapping\<close>

definition restore_calls :: "hook_state \<Rightarrow> backup list \<Rightarrow> plt_call list" where
  "restore_calls s bs =
     map (\<lambda>(dev, inode, h). Plt_register dev inode (hook_symbol h) (hs_old s h) False) bs"

text \<open>Every answer lsplt gave to the calls \<open>cs\<close> made after \<open>before\<close> was positive.\<close>

fun all_accepted :: "lsplt \<Rightarrow> plt_call list \<Rightarrow> plt_call list \<Rightarrow> bool" where
  "all_accepted L before [] = True"
| "all_accepted L before (c # cs) =
     ((case c of Plt_register _ _ _ _ _ \<Rightarrow> ls_register L before | Plt_commit _ \<Rightarrow> ls_commit L before) \<and>
      all_accepted L (before @ [c]) cs)"

lemma all_accepted_append:
  "all_accepted L before (a @ b) \<longleftrightarrow> all_accepted L before a \<and> all_accepted L (before @ a) b"
  by (induction a arbitrary: before) auto

lemma unregister_all_result:
  "hs_calls (unregister_all L bs s) = hs_calls s @ restore_calls s bs \<and>
   hs_old (unregister_all L bs s) = hs_old s \<and>
   (hs_unmap (unregister_all L bs s) \<longleftrightarrow>
      hs_unmap s \<and> all_accepted L (hs_calls s) (restore_calls s bs))"
  by (induction L bs s rule: unregister_all.induct) (auto simp: restore_calls_def Let_def)


text \<open>
  When a hook cannot be removed the code stays mapped, but the context its hooks read is
  deleted all the same.
\<close>

lemma failed_restore_frees_context:
  "hs_unmap s \<Longrightarrow> \<not> ls_commit L (hs_calls s @ restore_calls s (hs_backup s)) \<Longrightarrow>
     fst (new_setstacksize L True live spoof s) =
       (if live then [Worker_started] else []) @ [Restored, Deleted_hooks]"
  using unregister_all_result [of L "hs_backup s" s]
  by (simp add: new_setstacksize_def restore_plt_hook_def Let_def)

definition sample_lsplt :: lsplt where
  "sample_lsplt = \<lparr> ls_register = (\<lambda>_. True), ls_commit = (\<lambda>_. True), ls_resolves = (\<lambda>_ _. Some 5),
                    ls_new = (\<lambda>_. 9) \<rparr>"

definition sample_hooks :: hook_state where
  "sample_hooks = \<lparr> hs_old = (\<lambda>_. 5), hs_backup = [(1, 2, H_fork)], hs_maps = [], hs_calls = [],
                    hs_unmap = True, hs_skip_unloader = False \<rparr>"



section \<open>Native methods come back\<close>

definition method_key :: "jni_method \<Rightarrow> string \<times> string" where
  "method_key m = (jm_name m, jm_signature m)"

text \<open>The methods that are hooked: set, known to the VM, and native.\<close>

definition hookable :: "vm \<Rightarrow> jni_method \<Rightarrow> bool" where
  "hookable V m \<longleftrightarrow> jm_fn m \<noteq> 0 \<and> (\<exists>old. V (method_key m) = Some (True, old))"

lemma jni_scan_hooks: "snd (jni_scan V ms) = filter (hookable V) ms"
  by (induction V ms rule: jni_scan.induct)
    (auto simp: hookable_def method_key_def split: prod.splits option.splits)

lemma jni_scan_methods:
  "fst (jni_scan V ms) =
     map (\<lambda>m. if hookable V m then m\<lparr> jm_fn := snd (the (V (method_key m))) \<rparr>
              else m\<lparr> jm_fn := 0 \<rparr>) ms"
proof (induction V ms rule: jni_scan.induct)
  case (2 V m ms)
  obtain ms' hs where j: "jni_scan V ms = (ms', hs)" by fastforce
  have z: "jm_fn m = 0 \<Longrightarrow> m\<lparr> jm_fn := 0 \<rparr> = m" by (cases m) simp
  from 2 j z show ?case
    by (auto simp: hookable_def method_key_def split: option.splits)
qed simp

lemma register_natives_other:
  "k \<notin> method_key ` set hs \<Longrightarrow> register_natives hs V k = V k"
  by (induction hs V rule: register_natives.induct)
    (auto simp: method_key_def split: option.splits prod.splits)

text \<open>Of several entries for one method the last one counts.\<close>

lemma register_natives_last:
  "V k = Some (n, old) \<Longrightarrow>
     register_natives hs V k =
       Some (n, case filter (\<lambda>h. method_key h = k) hs of [] \<Rightarrow> old | h # r \<Rightarrow> jm_fn (last (h # r)))"
proof (induction hs arbitrary: V old)
  case (Cons g hs)
  let ?V = "case V (jm_name g, jm_signature g) of None \<Rightarrow> V
    | Some (native, _) \<Rightarrow> V((jm_name g, jm_signature g) \<mapsto> (native, jm_fn g))"
  have "?V k = Some (n, if method_key g = k then jm_fn g else old)"
    using Cons.prems by (auto simp: method_key_def split: option.splits)
  from Cons.IH [of ?V, OF this] show ?case
    by (cases "filter (\<lambda>h. method_key h = k) hs") auto
qed simp

lemma register_natives_all:
  assumes "V k = Some (n, old)" "\<And>h. h \<in> set hs \<Longrightarrow> method_key h = k \<Longrightarrow> jm_fn h = fn"
    and "\<exists>h\<in>set hs. method_key h = k"
  shows "register_natives hs V k = Some (n, fn)"
proof -
  let ?f = "filter (\<lambda>h. method_key h = k) hs"
  obtain h r where f: "?f = h # r" using assms(3) by (cases ?f) (auto simp: filter_empty_conv)
  have "last (h # r) \<in> set ?f" unfolding f by simp
  then have "jm_fn (last (h # r)) = fn" using assms(2) by auto
  then show ?thesis using register_natives_last [of V k n old hs, OF assms(1)] f by simp
qed

lemma hook_jni_vm:
  "snd (hook_jni_methods True ms V) = register_natives (filter (hookable V) ms) V"
  "fst (hook_jni_methods True ms V) = fst (jni_scan V ms)"
  using jni_scan_hooks [of V ms]
  by (auto simp: hook_jni_methods_def split: prod.splits)

text \<open>
  Replacing zygote's native methods and then restoring them through the same table
  brings every method of the VM back to its original address, also when the table names a
  method twice, as long as the original addresses are not null.
\<close>

theorem native_methods_restored:
  assumes "hook_jni_methods True methods V = (ms1, V1)" "hook_jni_methods True ms1 V1 = (ms2, V2)"
    and "list_all (\<lambda>m. \<not> hookable V m \<or> snd (the (V (method_key m))) \<noteq> 0) methods"
  shows "V2 = V"
proof
  fix k
  let ?hs = "filter (hookable V) methods"
  have V1: "V1 = register_natives ?hs V" and ms1: "ms1 = fst (jni_scan V methods)"
    using hook_jni_vm [of methods V] assms(1) by simp_all
  have V2: "V2 = register_natives (filter (hookable V1) ms1) V1"
    using hook_jni_vm(1) [of ms1 V1] assms(2) by simp
  let ?r = "\<lambda>m. if hookable V m then m\<lparr> jm_fn := snd (the (V (method_key m))) \<rparr> else m\<lparr> jm_fn := 0 \<rparr>"
  have m1: "ms1 = map ?r methods" using ms1 jni_scan_methods by simp
  have key: "method_key (?r m) = method_key m" for m by (simp add: method_key_def)
  show "V2 k = V k"
  proof (cases "\<exists>m\<in>set ?hs. method_key m = k")
    case True
    then obtain m where m: "m \<in> set methods" "hookable V m" "method_key m = k" by auto
    from m(2) obtain old where old: "V k = Some (True, old)" using m(3) by (auto simp: hookable_def)
    have nz: "old \<noteq> 0" using assms(3) m old by (auto simp: list_all_iff)
    obtain x where v1: "V1 k = Some (True, x)" unfolding V1 using register_natives_last [of V k True old, OF old] by blast
    have "jm_fn h = old" if "h \<in> set (filter (hookable V1) ms1)" "method_key h = k" for h
    proof -
      from that(1) have "h \<in> ?r ` set methods" and hv: "hookable V1 h" by (simp_all add: m1)
      then obtain g where g: "g \<in> set methods" "h = ?r g" by blast
      have "method_key g = k" using g(2) key that(2) by simp
      moreover have "jm_fn h \<noteq> 0" using hv by (simp add: hookable_def)
      then have "hookable V g" using g(2) by (auto split: if_splits)
      ultimately show ?thesis using g(2) old by simp
    qed
    moreover have "?r m \<in> set (filter (hookable V1) ms1)"
    proof -
      have "?r m \<in> ?r ` set methods" using m(1) by (rule imageI)
      then have "?r m \<in> set ms1" by (simp add: m1)
      moreover have "jm_fn (?r m) = old" using m old by simp
      then have "hookable V1 (?r m)" using nz v1 key m(3) by (simp add: hookable_def [of V1])
      ultimately show ?thesis by simp
    qed
    ultimately have "register_natives (filter (hookable V1) ms1) V1 k = Some (True, old)"
      using register_natives_all [of V1 k True x "filter (hookable V1) ms1" old, OF v1] key m(3) by blast
    then show ?thesis unfolding V2 using old by simp
  next
    case False
    have v1: "V1 k = V k" unfolding V1 by (rule register_natives_other) (use False in auto)
    have "k \<notin> method_key ` set (filter (hookable V1) ms1)"
    proof
      assume "k \<in> method_key ` set (filter (hookable V1) ms1)"
      then obtain m where m: "m \<in> set methods" "hookable V1 (?r m)" "k = method_key (?r m)"
        unfolding m1 by auto
      then have "\<not> hookable V m" using False m(1) key by auto
      then have "?r m = m\<lparr> jm_fn := 0 \<rparr>" by simp
      with m(2) show False by (simp add: hookable_def [of V1])
    qed
    then show ?thesis unfolding V2 by (simp add: register_natives_other v1)
  qed
qed

end
