(* ===== verification/Jni_Properties.thy ===== *)
theory Jni_Properties
  imports Jni_Hooks Hook_Properties
begin

text \<open>
  The table of native methods is consistent: each function has the type its signature
  promises to the VM, runs the original of its own place, and the whole table can be put into
  the VM and taken out again.
\<close>

section \<open>Types\<close>

text \<open>One type of a JNI descriptor, and what follows it.\<close>

fun parse_type :: "string \<Rightarrow> (jtype \<times> string) option" where
  "parse_type [] = None"
| "parse_type (c # s) =
     (if c = CHR ''I'' then Some (JInt, s) else if c = CHR ''Z'' then Some (JBoolean, s)
      else if c = CHR ''J'' then Some (JLong, s) else if c = CHR ''V'' then Some (JVoid, s)
      else if c = CHR ''L'' then
        (if take 17 s = ''java/lang/String;'' then Some (JString, drop 17 s) else None)
      else if c = CHR ''['' then
        (case parse_type s of
           Some (JInt, r) \<Rightarrow> Some (JIntArray, r) | Some (JLong, r) \<Rightarrow> Some (JLongArray, r)
         | Some (JString, r) \<Rightarrow> Some (JObjectArray, r) | Some (JIntArray, r) \<Rightarrow> Some (JObjectArray, r)
         | _ \<Rightarrow> None)
      else None)"

fun parse_types :: "nat \<Rightarrow> string \<Rightarrow> (jtype list \<times> string) option" where
  "parse_types 0 s = None"
| "parse_types (Suc n) s =
     (case s of [] \<Rightarrow> None
      | c # r \<Rightarrow> if c = CHR '')'' then Some ([], r)
               else case parse_type s of None \<Rightarrow> None | Some (t, r1) \<Rightarrow>
                 (case parse_types n r1 of None \<Rightarrow> None | Some (ts, r2) \<Rightarrow> Some (t # ts, r2)))"

text \<open>The parameter types and the result type of a descriptor.\<close>

definition descriptor_type :: "string \<Rightarrow> (jtype list \<times> jtype) option" where
  "descriptor_type d =
     (case d of [] \<Rightarrow> None
      | c # s \<Rightarrow> if c \<noteq> CHR ''('' then None
               else case parse_types (Suc (length s)) s of None \<Rightarrow> None | Some (ts, r) \<Rightarrow>
                 (case parse_type r of Some (t, []) \<Rightarrow> Some (ts, t) | _ \<Rightarrow> None))"

text \<open>The references and pointers of the argument structure fit the parameters of their names.\<close>

definition members_fit :: "jni_hook \<Rightarrow> bool" where
  "members_fit h \<longleftrightarrow>
     (case struct_members (jh_struct h) of (refs, optional) \<Rightarrow>
        list_all (\<lambda>(n, t). map_of (jh_params h) n = Some t) refs \<and>
        list_all (\<lambda>n. map_of optional n \<noteq> None \<and> map_of (jh_params h) n = map_of optional n) (jh_set h))"

lemma table_typed:
  "length zygote_hooks = 27"
  "list_all (\<lambda>h. descriptor_type (jh_signature h) = Some (map snd (jh_params h), jh_ret h) \<and>
     members_fit h) zygote_hooks"
  by code_simp+


section \<open>Running the original\<close>

fun op_name :: "zygote_op \<Rightarrow> string" where
  "op_name ForkAndSpecialize = ''nativeForkAndSpecialize''"
| "op_name SpecializeAppProcess = ''nativeSpecializeAppProcess''"
| "op_name ForkSystemServer = ''nativeForkSystemServer''"

text \<open>
  The entry names its own place, passes every parameter on in order, runs the two steps of the
  method it replaces, and reports the pid exactly when the method returns one.
\<close>

definition entry_consistent :: "nat \<Rightarrow> jni_hook \<Rightarrow> bool" where
  "entry_consistent i h \<longleftrightarrow>
     jh_index h = i \<and> jh_pass h = map fst (jh_params h) \<and> distinct (map fst (jh_params h)) \<and>
     jh_pre h = jh_post h \<and> op_name (jh_pre h) = jh_name h \<and>
     (jh_struct h = Server_args) = (jh_pre h = ForkSystemServer) \<and>
     jh_returns_pid h = (jh_ret h = JInt) \<and>
     jh_returns_pid h = (jh_pre h \<noteq> SpecializeAppProcess)"

lemma table_consistent: "list_all (\<lambda>(i, h). entry_consistent i h) (enumerate 0 zygote_hooks)"
  by code_simp

lemma entry_at: "i < 27 \<Longrightarrow> entry_consistent i (zygote_hooks ! i)"
proof -
  assume i: "i < 27"
  note l = table_typed(1)
  then have "enumerate 0 zygote_hooks ! i = (i, zygote_hooks ! i)" using i by (simp add: nth_enumerate_eq)
  then show ?thesis
    using table_consistent i l by (metis (mono_tags, lifting) case_prod_conv length_enumerate list_all_length)
qed

lemma map_fst_write_back [simp]: "map fst (write_back names upd locals) = map fst locals"
  by (simp add: write_back_def case_prod_beta comp_def)

lemma values_in_order:
  "distinct (map fst xs) \<Longrightarrow> map (\<lambda>n. the (map_of xs n)) (map fst xs) = map snd xs"
proof (induction xs)
  case (Cons x xs)
  have "map_of (x # xs) n = map_of xs n" if "n \<in> fst ` set xs" for n
    using that Cons.prems by (cases x) auto
  then have "map (\<lambda>n. the (map_of (x # xs) n)) (map fst xs) = map (\<lambda>n. the (map_of xs n)) (map fst xs)"
    by (intro map_cong) auto
  with Cons show ?case by (cases x) simp
qed simp

text \<open>
  C14: each of the 27 functions calls the original of its own place once, between the two steps
  of the method it replaces, with every argument in its place; an argument the modules cannot
  reach arrives unchanged, any other as the first step left it.  The forking methods return
  the pid of the context, whatever the original returned.
\<close>

theorem wrapper_runs_original:
  assumes "i < 27" "h = zygote_hooks ! i" "length vals = length (jh_params h)"
  shows "\<exists>upd s1 args.
     c_pre C (jh_pre h) (filter (\<lambda>(n, _). n \<in> set (exposed h)) (zip (map fst (jh_params h)) vals)) s = (upd, s1) \<and>
     length args = length vals \<and>
     (\<forall>j < length vals. args ! j =
        (if fst (jh_params h ! j) \<in> set (exposed h)
         then (case map_of upd (fst (jh_params h ! j)) of Some u \<Rightarrow> u | None \<Rightarrow> vals ! j) else vals ! j)) \<and>
     run_hook C h vals s =
       (let s2 = c_post C (jh_pre h) (c_original C i args s1)
        in (if jh_ret h = JInt then Some (c_pid C s2) else None, s2))"
proof -
  have e: "entry_consistent i h" using entry_at assms(1,2) by simp
  let ?locals = "zip (map fst (jh_params h)) vals"
  obtain upd s1 where pre: "c_pre C (jh_pre h) (filter (\<lambda>(n, _). n \<in> set (exposed h)) ?locals) s = (upd, s1)"
    by fastforce
  let ?l1 = "write_back (exposed h) upd ?locals"
  let ?args = "map snd ?l1"
  have names: "map fst ?l1 = map fst (jh_params h)" using assms(3) by simp
  then have "map (\<lambda>n. the (map_of ?l1 n)) (jh_pass h) = ?args"
    using values_in_order [of ?l1] e by (simp add: entry_consistent_def)
  then have "run_hook C h vals s =
      (let s2 = c_post C (jh_pre h) (c_original C i ?args s1)
       in (if jh_ret h = JInt then Some (c_pid C s2) else None, s2))"
    using e unfolding run_hook_def Let_def pre prod.case by (simp add: entry_consistent_def)
  moreover have "?args ! j =
        (if fst (jh_params h ! j) \<in> set (exposed h)
         then (case map_of upd (fst (jh_params h ! j)) of Some u \<Rightarrow> u | None \<Rightarrow> vals ! j) else vals ! j)"
    if "j < length vals" for j
    using that assms(3) by (simp add: write_back_def case_prod_beta)
  moreover have "length ?args = length vals" using assms(3) by (simp add: write_back_def)
  ultimately show ?thesis using pre by blast
qed

section \<open>In and out of the VM\<close>

text \<open>
  C27: with the real table, hooking zygote and restoring it through the same table leaves the VM
  as it was, whatever methods this Android release has.
\<close>

theorem zygote_table_restored:
  assumes "hook_jni_methods True (zygote_methods addr) V = (ms1, V1)"
    and "hook_jni_methods True ms1 V1 = (ms2, V2)"
    and "\<forall>k native old. V k = Some (native, old) \<longrightarrow> old \<noteq> 0"
  shows "V2 = V"
proof (rule native_methods_restored [OF assms(1,2)])
  have "snd (the (V (method_key m))) \<noteq> 0" if h: "hookable V m" for m
  proof -
    obtain old where "V (method_key m) = Some (True, old)" using h by (auto simp: hookable_def)
    moreover from this assms(3) have "old \<noteq> 0" by blast
    ultimately show ?thesis by simp
  qed
  then show "list_all (\<lambda>m. \<not> hookable V m \<or> snd (the (V (method_key m))) \<noteq> 0) (zygote_methods addr)"
    by (auto simp: list_all_iff)
qed

lemma nth_zygote_methods:
  "i < 27 \<Longrightarrow> zygote_methods addr ! i =
     \<lparr> jm_name = jh_name (zygote_hooks ! i), jm_signature = jh_signature (zygote_hooks ! i), jm_fn = addr i \<rparr>"
  "length (zygote_methods addr) = 27"
proof -
  note l = table_typed(1)
  then show "length (zygote_methods addr) = 27" by (simp add: zygote_methods_def)
  show "i < 27 \<Longrightarrow> zygote_methods addr ! i =
     \<lparr> jm_name = jh_name (zygote_hooks ! i), jm_signature = jh_signature (zygote_hooks ! i), jm_fn = addr i \<rparr>"
    using l by (simp add: zygote_methods_def nth_enumerate_eq)
qed

definition entry_key :: "nat \<Rightarrow> string \<times> string" where
  "entry_key i = (jh_name (zygote_hooks ! i), jh_signature (zygote_hooks ! i))"

text \<open>One method is named twice: that of Android 17 is also the one of a vendor's Android 15.\<close>

lemma nth_without:
  assumes "distinct (take n xs @ drop (Suc n) xs)" "i < length xs" "j < length xs" "i \<noteq> n" "j \<noteq> n"
    and "xs ! i = xs ! j"
  shows "i = j"
proof -
  let ?ys = "take n xs @ drop (Suc n) xs" and ?p = "\<lambda>i. if i < n then i else i - 1"
  have at: "?p m < length ?ys \<and> ?ys ! ?p m = xs ! m" if "m < length xs" "m \<noteq> n" for m
  proof (cases "m < n")
    case True
    then show ?thesis using that by (simp add: nth_append)
  next
    case False
    with that have m: "n < m" "m < length xs" by simp_all
    then have "Suc n + (m - 1 - n) = m" by simp
    moreover have "\<not> m - 1 < n" "m - 1 < length xs - 1" using m by linarith+
    ultimately show ?thesis using m(2) False by (simp add: nth_append)
  qed
  have "?ys ! ?p i = ?ys ! ?p j" using at [OF assms(2,4)] at [OF assms(3,5)] assms(6) by simp
  then have "?p i = ?p j"
    using nth_eq_iff_index_eq [OF assms(1)] at [OF assms(2,4)] at [OF assms(3,5)] by blast
  then show ?thesis using assms(4,5) by (simp split: if_splits)
qed

lemma entry_keys_repeat:
  "distinct (take 12 (map (\<lambda>h. (jh_name h, jh_signature h)) zygote_hooks) @
     drop 13 (map (\<lambda>h. (jh_name h, jh_signature h)) zygote_hooks))"
  by code_simp

lemma android_17_key: "entry_key 6 = entry_key 12"
proof -
  have "jh_name hook_6 = jh_name hook_12" "jh_signature hook_6 = jh_signature hook_12"
    by (simp_all add: hook_6_def hook_12_def)
  moreover have "zygote_hooks ! 6 = hook_6" "zygote_hooks ! 12 = hook_12"
    by (simp_all add: zygote_hooks_def)
  ultimately show ?thesis by (simp add: entry_key_def)
qed

lemma same_key:
  assumes "i < 27" "j < 27"
  shows "entry_key i = entry_key j \<longleftrightarrow> i = j \<or> {i, j} = {6, 12}"
proof -
  let ?ks = "map (\<lambda>h. (jh_name h, jh_signature h)) zygote_hooks"
  have l: "length ?ks = 27" using table_typed(1) by simp
  have k: "entry_key m = ?ks ! m" if "m < 27" for m using that table_typed(1) by (simp add: entry_key_def)
  have eq: "m = n" if "m < 27" "n < 27" "m \<noteq> 12" "n \<noteq> 12" "entry_key m = entry_key n" for m n
    using nth_without [of 12 ?ks m n] entry_keys_repeat that l k by simp
  have twelve: "m = 6" if "m < 27" "m \<noteq> 12" "entry_key m = entry_key 12" for m
    using eq [of m 6] that android_17_key by simp
  show ?thesis
    using eq [OF assms] twelve [OF assms(1)] twelve [OF assms(2)] android_17_key
    by (cases "i = 12"; cases "j = 12") (auto simp: doubleton_eq_iff)
qed

lemma same_key_last:
  assumes "i < 27"
  shows "last (filter (\<lambda>j. j = i \<or> {j, i} = {6, 12}) [0..<27]) = (if i = 6 then 12 else i)"
    "filter (\<lambda>j. j = i \<or> {j, i} = {6, 12}) [0..<27] \<noteq> []"
proof -
  have d: "({j, i} = {6, 12}) = (j = 6 \<and> i = 12 \<or> j = 12 \<and> i = 6)" for j :: nat
    by (auto simp: doubleton_eq_iff)
  have "list_all (\<lambda>i. last (filter (\<lambda>j. j = i \<or> (j = 6 \<and> i = 12 \<or> j = 12 \<and> i = 6)) [0..<27]) =
      (if i = 6 then 12 else i)) [0..<27]" by code_simp
  then show "last (filter (\<lambda>j. j = i \<or> {j, i} = {6, 12}) [0..<27]) = (if i = 6 then 12 else i)"
    unfolding d list_all_iff using assms by auto
  show "filter (\<lambda>j. j = i \<or> {j, i} = {6, 12}) [0..<27] \<noteq> []" using assms by (auto simp: filter_empty_conv)
qed

text \<open>
  once zygote is hooked, a method the VM had bound natively leads to the function of its
  entry, and the place this function takes its original from holds the address the VM had;
  only the method of Android 17 leads to the function of the vendor's entry instead.
\<close>

theorem wrapper_finds_its_original:
  assumes "hook_jni_methods True (zygote_methods addr) V = (ms, V1)" "i < 27"
    and "V (entry_key i) = Some (True, old)" "\<forall>j < 27. addr j \<noteq> 0"
  shows "V1 (entry_key i) = Some (True, addr (if i = 6 then 12 else i)) \<and>
     jm_fn (ms ! jh_index (zygote_hooks ! i)) = old"
proof -
  let ?ms = "zygote_methods addr"
  have V1: "V1 = register_natives (filter (hookable V) ?ms) V" and ms: "ms = fst (jni_scan V ?ms)"
    using hook_jni_vm [of ?ms V] assms(1) by simp_all
  have k: "method_key (?ms ! j) = entry_key j" "jm_fn (?ms ! j) = addr j" if "j < 27" for j
    using nth_zygote_methods(1) [OF that] by (simp_all add: method_key_def entry_key_def)
  have hk: "hookable V (?ms ! i)" using k [OF assms(2)] assms(2-4) by (simp add: hookable_def)
  have "jh_index (zygote_hooks ! i) = i" using entry_at [OF assms(2)] by (simp add: entry_consistent_def)
  then have orig: "jm_fn (ms ! jh_index (zygote_hooks ! i)) = old"
    using hk k [OF assms(2)] assms(2,3) nth_zygote_methods(2) by (simp add: ms jni_scan_methods)
  let ?P = "\<lambda>h. method_key h = entry_key i"
  let ?n = "if i = 6 then 12 else i"
  have "filter ?P ?ms = map (\<lambda>j. ?ms ! j) (filter (\<lambda>j. entry_key j = entry_key i) [0..<27])"
  proof -
    have "?ms = map (\<lambda>j. ?ms ! j) [0..<27]" using map_nth [of ?ms] nth_zygote_methods(2) by simp
    then have "filter ?P ?ms = filter ?P (map (\<lambda>j. ?ms ! j) [0..<27])" by simp
    also have "\<dots> = map (\<lambda>j. ?ms ! j) (filter (?P \<circ> (\<lambda>j. ?ms ! j)) [0..<27])" by (rule filter_map)
    also have "filter (?P \<circ> (\<lambda>j. ?ms ! j)) [0..<27] = filter (\<lambda>j. entry_key j = entry_key i) [0..<27]"
      by (rule filter_cong) (simp_all add: k)
    finally show ?thesis .
  qed
  moreover have "filter (\<lambda>j. entry_key j = entry_key i) [0..<27] = filter (\<lambda>j. j = i \<or> {j, i} = {6, 12}) [0..<27]"
    by (rule filter_cong) (use same_key assms(2) in auto)
  ultimately have f: "filter ?P ?ms = map (\<lambda>j. ?ms ! j) (filter (\<lambda>j. j = i \<or> {j, i} = {6, 12}) [0..<27])"
    by simp
  have "filter (hookable V) (filter ?P ?ms) = filter ?P ?ms"
  proof (rule filter_True, rule ballI)
    fix h
    assume "h \<in> set (filter ?P ?ms)"
    then obtain j where j: "j < 27" "h = ?ms ! j" "entry_key j = entry_key i"
      using nth_zygote_methods(2) [of addr] k by (auto simp: in_set_conv_nth)
    then show "hookable V h" using k [OF j(1)] assms(3,4) by (simp add: hookable_def)
  qed
  then have P: "filter ?P (filter (hookable V) ?ms) = filter ?P ?ms" by (simp add: conj_commute)
  have l: "last (filter ?P ?ms) = ?ms ! ?n" and ne: "filter ?P ?ms \<noteq> []"
    using same_key_last [OF assms(2)] unfolding f by (simp_all add: last_map)
  have n: "?n < 27" using assms(2) by simp
  have "V1 (entry_key i) = Some (True, jm_fn (last (filter ?P ?ms)))"
    unfolding V1 using register_natives_last [of V "entry_key i" True old "filter (hookable V) ?ms", OF assms(3)] ne
    unfolding P by (cases "filter ?P ?ms") simp_all
  then show ?thesis using orig k(2) [OF n] by (simp only: l)
qed

text \<open>
  the method of Android 17 runs the function of the vendor's entry, whose modules are shown
  the flag \<open>use_fifo_ui\<close> under the name \<open>is_top_app\<close>: the thirteenth parameter after \<open>env\<close>
  and \<open>clazz\<close> is the top-app flag of the method, the fourteenth is the one they get.
\<close>

theorem android_17_flag_misread:
  "entry_key 6 = entry_key 12 \<and>
   map_of (map (\<lambda>(i, p). (fst p, i)) (enumerate 0 (jh_params (zygote_hooks ! 6)))) ''is_top_app'' = Some 13 \<and>
   fst (jh_params (zygote_hooks ! 6) ! 14) = ''use_fifo_ui'' \<and>
   map_of (map (\<lambda>(i, p). (fst p, i)) (enumerate 0 (jh_params (zygote_hooks ! 12)))) ''is_top_app'' = Some 14 \<and>
   ''is_top_app'' \<in> set (exposed (zygote_hooks ! 12))"
  by code_simp

section \<open>Witnesses\<close>

definition native_vm :: vm where
  "native_vm k = Some (True, 0x5000)"

lemma zygote_table_restored_witness:
  "\<exists>ms1 V1 ms2. hook_jni_methods True (zygote_methods (\<lambda>i. 0x9000 + of_nat i)) native_vm = (ms1, V1) \<and>
     hook_jni_methods True ms1 V1 = (ms2, native_vm)"
proof -
  obtain ms1 V1 where r1: "hook_jni_methods True (zygote_methods (\<lambda>i. 0x9000 + of_nat i)) native_vm = (ms1, V1)"
    by fastforce
  obtain ms2 V2 where r2: "hook_jni_methods True ms1 V1 = (ms2, V2)" by fastforce
  have "V2 = native_vm" by (rule zygote_table_restored [OF r1 r2]) (simp add: native_vm_def)
  with r1 r2 show ?thesis by blast
qed

lemma wrapper_finds_its_original_witness:
  "\<exists>ms V1. hook_jni_methods True (zygote_methods (\<lambda>_. 0x9000)) native_vm = (ms, V1) \<and>
     V1 (entry_key 3) = Some (True, 0x9000) \<and> jm_fn (ms ! 3) = 0x5000"
proof -
  obtain ms V1 where r: "hook_jni_methods True (zygote_methods (\<lambda>_. 0x9000)) native_vm = (ms, V1)" by fastforce
  have "jh_index (zygote_hooks ! 3) = 3" by code_simp
  moreover have "V1 (entry_key 3) = Some (True, 0x9000) \<and> jm_fn (ms ! jh_index (zygote_hooks ! 3)) = 0x5000"
    by (rule wrapper_finds_its_original [OF r, where i = 3, simplified]) (simp_all add: native_vm_def)
  ultimately show ?thesis using r by auto
qed

text \<open>A context that records what the original was called with.\<close>

definition recording_context :: "(int, int list) zygote_context" where
  "recording_context =
     \<lparr> c_pre = (\<lambda>_ ps s. (map (\<lambda>(n, v). (n, v + 100)) ps, s)), c_original = (\<lambda>_ vs s. s @ vs),
       c_post = (\<lambda>_ s. s), c_pid = (\<lambda>_. 42) \<rparr>"

lemma wrapper_runs_original_witness:
  "run_hook recording_context (zygote_hooks ! 24) [1, 2, 3, 4, 5, 6, 7, 8, 9] [] =
     (Some 42, [101, 102, 103, 104, 5, 6, 7, 108, 109])"
proof -
  have l: "length [1, 2, 3, 4, 5, 6, 7, 8, 9 :: int] = length (jh_params (zygote_hooks ! 24))" by code_simp
  have "jh_ret (zygote_hooks ! 24) = JInt" by code_simp
  then have "\<exists>args. run_hook recording_context (zygote_hooks ! 24) [1, 2, 3, 4, 5, 6, 7, 8, 9] [] = (Some 42, args)"
    using wrapper_runs_original [OF _ refl l, of recording_context "[]"]
    by (auto simp: recording_context_def Let_def)
  moreover have "snd (run_hook recording_context (zygote_hooks ! 24) [1, 2, 3, 4, 5, 6, 7, 8, 9] []) =
      [101, 102, 103, 104, 5, 6, 7, 108, 109]" by code_simp
  ultimately show ?thesis by (metis prod.sel(2))
qed

end
