(* ===== verification/Specialize_Properties.thy ===== *)
theory Specialize_Properties
  imports Specialize
begin

text \<open>
  What specialization promises: which modules are loaded, in what order they are called,
  that no descriptor leaks, how isolated processes are treated and what is cleaned up.
\<close>

section \<open>What a module's calls leave alone\<close>

text \<open>The identity of a module: everything but what it may register or set.\<close>

definition identity :: "zygisk_module \<Rightarrow> u32 \<times> u8 list \<times> u64 \<times> bool \<times> u64" where
  "identity m = (zm_id m, zm_name m, zm_handle m, zm_custom m, zm_entry m)"

text \<open>The invocations in a log.\<close>

fun invocations :: "event list \<Rightarrow> invocation list" where
  "invocations [] = []"
| "invocations (Ev_invoke v # es) = v # invocations es"
| "invocations (_ # es) = invocations es"

lemma invocations_append [simp]: "invocations (a @ b) = invocations a @ invocations b"
  by (induction a rule: invocations.induct) simp_all

definition quiet :: "session \<Rightarrow> session \<Rightarrow> bool" where
  "quiet s s' \<longleftrightarrow>
     List.map identity (z_modules (ss_ctx s')) = List.map identity (z_modules (ss_ctx s)) \<and>
     z_allowed (ss_ctx s') = z_allowed (ss_ctx s) \<and> z_pid (ss_ctx s') = z_pid (ss_ctx s) \<and>
     z_fds_to_ignore (ss_ctx s') = z_fds_to_ignore (ss_ctx s) \<and>
     z_process (ss_ctx s') = z_process (ss_ctx s) \<and> z_info (ss_ctx s') = z_info (ss_ctx s) \<and>
     z_flags (ss_ctx s') OR DO_REVERT_UNMOUNT = z_flags (ss_ctx s) OR DO_REVERT_UNMOUNT \<and>
     set (z_open (ss_ctx s)) \<subseteq> set (z_open (ss_ctx s')) \<and>
     ss_used_custom s' = ss_used_custom s \<and> ss_hook s' = ss_hook s"

lemma quiet_refl [simp]: "quiet s s"
  by (simp add: quiet_def)

lemma quiet_trans: "quiet s t \<Longrightarrow> quiet t u \<Longrightarrow> quiet s u"
  by (auto simp: quiet_def)

lemma quiet_length: "quiet s s' \<Longrightarrow> length (z_modules (ss_ctx s')) = length (z_modules (ss_ctx s))"
  unfolding quiet_def by (metis length_map)

lemma has_or_revert:
  assumes "f OR DO_REVERT_UNMOUNT = g OR DO_REVERT_UNMOUNT"
  shows "has f APP_SPECIALIZE = has g APP_SPECIALIZE"
    "has f SERVER_FORK_AND_SPECIALIZE = has g SERVER_FORK_AND_SPECIALIZE"
    "has f APP_FORK_AND_SPECIALIZE = has g APP_FORK_AND_SPECIALIZE"
proof -
  have x: "bit (16 :: u32) n \<longleftrightarrow> n = 4" for n
    using bit_exp_iff [of 4 n, where ?'a = "32 word"] by auto
  have b: "n \<noteq> 4 \<Longrightarrow> bit f n = bit g n" for n
    using arg_cong [OF assms, of "\<lambda>w. bit w n"] unfolding bit_or_iff x by blast
  show "has f APP_SPECIALIZE = has g APP_SPECIALIZE"
    "has f SERVER_FORK_AND_SPECIALIZE = has g SERVER_FORK_AND_SPECIALIZE"
    "has f APP_FORK_AND_SPECIALIZE = has g APP_FORK_AND_SPECIALIZE"
    using b [of 2] b [of 3] b [of 1] has_bit [of 2 f] has_bit [of 2 g] has_bit [of 3 f]
      has_bit [of 3 g] has_bit [of 1 f] has_bit [of 1 g] by simp_all
qed

lemma map_identity_update:
  "identity m = identity (ms ! i) \<Longrightarrow> List.map identity (ms[i := m]) = List.map identity ms"
  by (cases "i < length ms") (auto simp: list_eq_iff_nth_eq nth_list_update)

lemma run_act_quiet:
  assumes "run_act W i a s = Inr s'"
  shows "quiet s s'"
proof (cases a)
  case (Act_register abi)
  have "identity (snd (RegisterModuleImpl abi m)) = identity m" for m
    by (auto simp: RegisterModuleImpl_def identity_def Let_def split: option.splits)
  with Act_register assms show ?thesis
    by (auto simp: quiet_def set_module_def on_ctx_def Let_def map_identity_update split: if_splits)
next
  case (Act_option opt)
  with assms show ?thesis
    by (auto simp: quiet_def set_module_def on_ctx_def Let_def setOption_def identity_def
        map_identity_update or.assoc split: if_splits zygisk_option.splits)
next
  case (Act_exempt_fd fd)
  with assms show ?thesis
    by (auto simp: quiet_def on_ctx_def exempt_fd_def split: if_splits)
next
  case (Act_plt_commit)
  with assms show ?thesis
    by (auto simp: quiet_def on_ctx_def emit_def Let_def split: if_splits prod.splits)
qed (use assms in \<open>auto simp: quiet_def on_ctx_def split: if_splits\<close>)

lemma run_act_log: "run_act W i a s = Inr s' \<Longrightarrow> invocations (ss_log s') = invocations (ss_log s)"
  by (cases a)
    (auto simp: set_module_def on_ctx_def emit_def Let_def split: if_splits prod.splits option.splits)

lemma run_acts_quiet:
  "run_acts W i as s = Inr s' \<Longrightarrow> quiet s s' \<and> invocations (ss_log s') = invocations (ss_log s)"
proof (induction W i as s rule: run_acts.induct)
  case (2 W i a as s)
  then obtain t where t: "run_act W i a s = Inr t" "run_acts W i as t = Inr s'" by auto
  from "2.IH" [OF t] run_act_quiet [OF t(1)] run_act_log [OF t(1)] show ?case
    by (auto intro: quiet_trans)
qed simp

lemma perform_quiet:
  "perform W i vs s = Inr s' \<Longrightarrow> quiet s s' \<and> invocations (ss_log s') = invocations (ss_log s) @ vs"
proof (induction W i vs s rule: perform.induct)
  case (2 W i entry cb args vs s)
  let ?e = "emit [Ev_invoke (Invoke entry cb args)] s"
  from "2.prems" obtain t where
    t: "run_acts W i (w_acts W entry cb) ?e = Inr t" "perform W i vs t = Inr s'" by auto
  have "quiet s ?e" by (simp add: quiet_def emit_def)
  moreover have "invocations (ss_log ?e) = invocations (ss_log s) @ [Invoke entry cb args]"
    by (simp add: emit_def)
  ultimately show ?case
    using run_acts_quiet [OF t(1)] "2.IH" [OF t] by (auto intro: quiet_trans)
qed simp

lemma invoke_quiet:
  assumes "invoke W i dispatch s = Inr s'"
  obtains vs where "dispatch (z_modules (ss_ctx s) ! i) = Inr vs" "quiet s s'"
    "invocations (ss_log s') = invocations (ss_log s) @ vs"
  using assms perform_quiet by (auto simp: invoke_def)

lemma call_pre_quiet: "call_pre W ks s = Inr s' \<Longrightarrow> quiet s s'"
proof (induction W ks s rule: call_pre.induct)
  case (2 W i ks s)
  then obtain s1 s2 where s: "invoke W i onLoad s = Inr s1" "call_pre W ks s2 = Inr s'"
    "(if has (z_flags (ss_ctx s1)) APP_SPECIALIZE then invoke W i preAppSpecialize s1
      else if has (z_flags (ss_ctx s1)) SERVER_FORK_AND_SPECIALIZE
      then invoke W i preServerSpecialize s1 else Inr s1) = Inr s2" by auto
  have "quiet s s1" using s(1) by (rule invoke_quiet)
  moreover have "quiet s1 s2"
    using s(3) by (auto split: if_splits elim: invoke_quiet)
  moreover have "quiet s2 s'" by (rule "2.IH" [OF s(1,3,2)])
  ultimately show ?case by (blast intro: quiet_trans)
qed simp

section \<open>What is loaded\<close>

text \<open>The load of one library does not depend on the session.\<close>

definition usable :: "world \<Rightarrow> int \<Rightarrow> loaded_module" where
  "usable W fd =
     (case w_cso_load W fd of
        None \<Rightarrow> LoadViaSystemLinker W fd
      | Some lib \<Rightarrow>
          if w_cso_symbol W lib = 0 then LoadViaSystemLinker W fd
          else \<lparr> ld_handle = lib, ld_entry = w_cso_symbol W lib, ld_custom = True \<rparr>)"

lemma LoadModule_usable:
  obtains s' where "LoadModuleFromMemfd W fd s = (usable W fd, s')" "ss_ctx s' = ss_ctx s"
    "invocations (ss_log s') = invocations (ss_log s)"
proof -
  have "\<exists>s'. LoadModuleFromMemfd W fd s = (usable W fd, s') \<and> ss_ctx s' = ss_ctx s \<and>
      invocations (ss_log s') = invocations (ss_log s)"
  proof (cases "w_cso_load W fd")
    case None
    then show ?thesis
      by (simp add: LoadModuleFromMemfd_def LoadViaCustomLinker_def usable_def null_module_def emit_def)
  next
    case (Some lib)
    then show ?thesis
      by (cases "w_cso_symbol W lib = 0")
        (simp_all add: LoadModuleFromMemfd_def LoadViaCustomLinker_def usable_def null_module_def
          emit_def Let_def)
  qed
  with that show ?thesis by blast
qed

definition loaded_identity :: "world \<Rightarrow> nat \<Rightarrow> u8 list \<Rightarrow> int \<Rightarrow> u32 \<times> u8 list \<times> u64 \<times> bool \<times> u64" where
  "loaded_identity W i name fd =
     (of_nat i, name, ld_handle (usable W fd), ld_custom (usable W fd), ld_entry (usable W fd))"

lemma add_module_identity:
  "List.map identity (z_modules (ss_ctx (add_module (of_nat i) name (usable W fd) s))) =
     List.map identity (z_modules (ss_ctx s)) @ [loaded_identity W i name fd]"
  by (simp add: add_module_def on_ctx_def identity_def ZygiskModule_def loaded_identity_def)

text \<open>What loading leaves alone.\<close>

definition loading :: "session \<Rightarrow> session \<Rightarrow> bool" where
  "loading s s' \<longleftrightarrow>
     ss_ctx s' = (ss_ctx s)\<lparr> z_modules := z_modules (ss_ctx s') \<rparr> \<and>
     invocations (ss_log s') = invocations (ss_log s)"

lemma loading_trans: "loading s t \<Longrightarrow> loading t u \<Longrightarrow> loading s u"
proof -
  assume a: "loading s t" "loading t u"
  from a(1) have t: "ss_ctx t = (ss_ctx s)\<lparr> z_modules := z_modules (ss_ctx t) \<rparr>"
    by (simp add: loading_def)
  have "ss_ctx u = (ss_ctx t)\<lparr> z_modules := z_modules (ss_ctx u) \<rparr>" using a(2) by (simp add: loading_def)
  also have "\<dots> = (ss_ctx s)\<lparr> z_modules := z_modules (ss_ctx u) \<rparr>" by (subst t) simp
  finally show ?thesis using a by (simp add: loading_def)
qed

lemma loading_ctx:
  assumes "loading s s'"
  shows "z_flags (ss_ctx s') = z_flags (ss_ctx s)" "z_process (ss_ctx s') = z_process (ss_ctx s)"
    "z_allowed (ss_ctx s') = z_allowed (ss_ctx s)" "z_pid (ss_ctx s') = z_pid (ss_ctx s)"
    "z_open (ss_ctx s') = z_open (ss_ctx s)" "z_info (ss_ctx s') = z_info (ss_ctx s)"
    "z_fds_to_ignore (ss_ctx s') = z_fds_to_ignore (ss_ctx s)"
proof -
  have c: "ss_ctx s' = (ss_ctx s)\<lparr> z_modules := z_modules (ss_ctx s') \<rparr>"
    using assms by (simp add: loading_def)
  show "z_flags (ss_ctx s') = z_flags (ss_ctx s)" "z_process (ss_ctx s') = z_process (ss_ctx s)"
    "z_allowed (ss_ctx s') = z_allowed (ss_ctx s)" "z_pid (ss_ctx s') = z_pid (ss_ctx s)"
    "z_open (ss_ctx s') = z_open (ss_ctx s)" "z_info (ss_ctx s') = z_info (ss_ctx s)"
    "z_fds_to_ignore (ss_ctx s') = z_fds_to_ignore (ss_ctx s)"
    by (subst c, simp)+
qed

lemma load_modules_result:
  "List.map identity (z_modules (ss_ctx (load_modules W i ms s))) =
     List.map identity (z_modules (ss_ctx s)) @
     List.map (\<lambda>(k, m). loaded_identity W k (me_name m) (me_memfd m))
       (filter (\<lambda>(k, m). ld_entry (usable W (me_memfd m)) \<noteq> 0) (enumerate i ms)) \<and>
   loading s (load_modules W i ms s)"
proof (induction W i ms s rule: load_modules.induct)
  case (1 W i s)
  then show ?case by (simp add: loading_def)
next
  case (2 W i m ms s)
  obtain t where t: "LoadModuleFromMemfd W (me_memfd m) s = (usable W (me_memfd m), t)"
    "ss_ctx t = ss_ctx s" "invocations (ss_log t) = invocations (ss_log s)"
    by (rule LoadModule_usable)
  let ?u = "if ld_entry (usable W (me_memfd m)) \<noteq> 0
            then add_module (of_nat i) (me_name m) (usable W (me_memfd m)) t else t"
  have l: "loading s ?u"
    using t(2,3) by (simp add: loading_def add_module_def on_ctx_def)
  have e: "load_modules W i (m # ms) s = load_modules W (i + 1) ms ?u" by (simp add: t(1))
  from "2.IH" [OF t(1) [symmetric]]
  have ih: "List.map identity (z_modules (ss_ctx (load_modules W (i + 1) ms ?u))) =
     List.map identity (z_modules (ss_ctx ?u)) @
     List.map (\<lambda>(k, m). loaded_identity W k (me_name m) (me_memfd m))
       (filter (\<lambda>(k, m). ld_entry (usable W (me_memfd m)) \<noteq> 0) (enumerate (i + 1) ms))"
    "loading ?u (load_modules W (i + 1) ms ?u)" by blast+
  have "List.map identity (z_modules (ss_ctx ?u)) = List.map identity (z_modules (ss_ctx s)) @
     (if ld_entry (usable W (me_memfd m)) \<noteq> 0 then [loaded_identity W i (me_name m) (me_memfd m)] else [])"
    using t(2) add_module_identity [of i "me_name m" W "me_memfd m" t] by simp
  with ih loading_trans [OF l ih(2)] show ?case unfolding e by (simp add: enumerate_simps)
qed

definition fn_selected :: "world \<Rightarrow> bool \<Rightarrow> u8 list option \<Rightarrow> fn_module_entry \<Rightarrow> bool" where
  "fn_selected W is_server process f \<longleftrightarrow>
     fn_applies f is_server \<and> (is_server \<or> fn_scope_matches f process) \<and>
     ld_entry (usable W (fe_memfd f)) \<noteq> 0"

lemma load_fns_result:
  "List.map identity (z_modules (ss_ctx (load_fns W n i fs s))) =
     List.map identity (z_modules (ss_ctx s)) @
     List.map (\<lambda>(k, f). loaded_identity W k (fe_id f) (fe_memfd f))
       (filter (\<lambda>(k, f). fn_selected W (has (z_flags (ss_ctx s)) SERVER_FORK_AND_SPECIALIZE)
                  (z_process (ss_ctx s)) f) (enumerate (n + i) fs)) \<and>
   loading s (load_fns W n i fs s)"
proof (induction fs arbitrary: i s)
  case Nil
  then show ?case by (simp add: loading_def)
next
  case (Cons f fs)
  let ?srv = "has (z_flags (ss_ctx s)) SERVER_FORK_AND_SPECIALIZE"
  let ?scoped = "fn_applies f ?srv \<and> (?srv \<or> fn_scope_matches f (z_process (ss_ctx s)))"
  obtain t where t: "LoadModuleFromMemfd W (fe_memfd f) s = (usable W (fe_memfd f), t)"
    "ss_ctx t = ss_ctx s" "invocations (ss_log t) = invocations (ss_log s)"
    by (rule LoadModule_usable)
  let ?u = "if ?scoped then
              if ld_entry (usable W (fe_memfd f)) \<noteq> 0
              then add_module (of_nat (n + i)) (fe_id f) (usable W (fe_memfd f)) t else t
            else s"
  have l: "loading s ?u"
    using t(2,3) by (simp add: loading_def add_module_def on_ctx_def)
  have c: "z_flags (ss_ctx ?u) = z_flags (ss_ctx s)" "z_process (ss_ctx ?u) = z_process (ss_ctx s)"
    using t(2) by (simp_all add: add_module_def on_ctx_def)
  have e: "load_fns W n i (f # fs) s = load_fns W n (i + 1) fs ?u"
    by (simp add: t(1) Let_def)
  have m: "List.map identity (z_modules (ss_ctx ?u)) = List.map identity (z_modules (ss_ctx s)) @
     (if fn_selected W ?srv (z_process (ss_ctx s)) f
      then [loaded_identity W (n + i) (fe_id f) (fe_memfd f)] else [])"
    using t(2) add_module_identity [of "n + i" "fe_id f" W "fe_memfd f" t]
    by (simp add: fn_selected_def)
  show ?case
    unfolding e using Cons.IH [of "i + 1" ?u] m loading_trans [OF l] unfolding c
    by (simp add: enumerate_simps)
qed

text \<open>The modules of a process, in order.\<close>

definition process_modules ::
  "world \<Rightarrow> bool \<Rightarrow> u8 list option \<Rightarrow> (u32 \<times> u8 list \<times> u64 \<times> bool \<times> u64) list" where
  "process_modules W is_server process =
     List.map (\<lambda>(k, m). loaded_identity W k (me_name m) (me_memfd m))
       (filter (\<lambda>(k, m). ld_entry (usable W (me_memfd m)) \<noteq> 0) (enumerate 0 (w_modules W))) @
     List.map (\<lambda>(k, f). loaded_identity W k (fe_id f) (fe_memfd f))
       (filter (\<lambda>(k, f). fn_selected W is_server process f)
         (enumerate (length (w_modules W)) (w_fns W)))"

section \<open>The order of the calls\<close>

text \<open>Each module is called with \<open>onLoad\<close> and then at most once with the callback.\<close>

fun calls_in_order :: "callback \<Rightarrow> u64 list \<Rightarrow> invocation list \<Rightarrow> bool" where
  "calls_in_order cb [] vs \<longleftrightarrow> vs = []"
| "calls_in_order cb (e # es) [] \<longleftrightarrow> False"
| "calls_in_order cb (e # es) (v # vs) \<longleftrightarrow>
     v = Invoke e OnLoad None \<and>
     (calls_in_order cb es vs \<or>
      (case vs of [] \<Rightarrow> False
       | Invoke e' cb' a # vs' \<Rightarrow> e' = e \<and> cb' = cb \<and> calls_in_order cb es vs'))"

lemma calls_in_order_step:
  "calls_in_order cb es rest \<Longrightarrow> c = [] \<or> (\<exists>a. c = [Invoke e cb a]) \<Longrightarrow>
     calls_in_order cb (e # es) (Invoke e OnLoad None # c @ rest)"
  by auto

definition entry_at :: "session \<Rightarrow> nat \<Rightarrow> u64" where
  "entry_at s i = zm_entry (z_modules (ss_ctx s) ! i)"

lemma quiet_entry:
  assumes "quiet s s'" "i < length (z_modules (ss_ctx s))"
  shows "entry_at s' i = entry_at s i"
proof -
  have "List.map identity (z_modules (ss_ctx s')) ! i = List.map identity (z_modules (ss_ctx s)) ! i"
    using assms(1) by (simp add: quiet_def)
  then show ?thesis
    using assms quiet_length [OF assms(1)] by (simp add: identity_def entry_at_def)
qed

lemma dispatch_app_shape:
  "preAppSpecialize m = Inr vs \<Longrightarrow> vs = [] \<or> (\<exists>a. vs = [Invoke (zm_entry m) PreApp a])"
  by (auto simp: preAppSpecialize_def call_app_def split: option.splits if_splits)

lemma dispatch_server_shape:
  "preServerSpecialize m = Inr vs \<Longrightarrow> vs = [] \<or> (\<exists>a. vs = [Invoke (zm_entry m) PreServer a])"
  by (auto simp: preServerSpecialize_def split: option.splits if_splits)

lemma quiet_has:
  assumes "quiet s s'"
  shows "has (z_flags (ss_ctx s')) APP_SPECIALIZE = has (z_flags (ss_ctx s)) APP_SPECIALIZE"
    "has (z_flags (ss_ctx s')) SERVER_FORK_AND_SPECIALIZE =
       has (z_flags (ss_ctx s)) SERVER_FORK_AND_SPECIALIZE"
    "has (z_flags (ss_ctx s')) APP_FORK_AND_SPECIALIZE =
       has (z_flags (ss_ctx s)) APP_FORK_AND_SPECIALIZE"
  using assms has_or_revert [of "z_flags (ss_ctx s')" "z_flags (ss_ctx s)"]
  by (simp_all add: quiet_def)

definition pre_callback :: "session \<Rightarrow> callback" where
  "pre_callback s = (if has (z_flags (ss_ctx s)) APP_SPECIALIZE then PreApp else PreServer)"

lemma call_pre_order:
  "call_pre W ks s = Inr s' \<Longrightarrow> list_all (\<lambda>i. i < length (z_modules (ss_ctx s))) ks \<Longrightarrow>
     \<exists>vs. invocations (ss_log s') = invocations (ss_log s) @ vs \<and>
       calls_in_order (pre_callback s) (List.map (entry_at s) ks) vs"
proof (induction ks arbitrary: s)
  case (Cons i ks)
  from Cons.prems(1) obtain s1 s2 where s: "invoke W i onLoad s = Inr s1" "call_pre W ks s2 = Inr s'"
    "(if has (z_flags (ss_ctx s1)) APP_SPECIALIZE then invoke W i preAppSpecialize s1
      else if has (z_flags (ss_ctx s1)) SERVER_FORK_AND_SPECIALIZE
      then invoke W i preServerSpecialize s1 else Inr s1) = Inr s2" by auto
  from s(1) have q1: "quiet s s1"
    and l1: "invocations (ss_log s1) = invocations (ss_log s) @ [Invoke (entry_at s i) OnLoad None]"
    by (auto elim!: invoke_quiet simp: onLoad_def entry_at_def)
  have i: "i < length (z_modules (ss_ctx s))" using Cons.prems(2) by simp
  have e1: "entry_at s1 i = entry_at s i" by (rule quiet_entry [OF q1 i])
  note h1 = quiet_has [OF q1]
  have "quiet s1 s2 \<and> (\<exists>c. invocations (ss_log s2) = invocations (ss_log s1) @ c \<and>
      (c = [] \<or> (\<exists>a. c = [Invoke (entry_at s i) (pre_callback s) a])))"
  proof (cases "has (z_flags (ss_ctx s1)) APP_SPECIALIZE")
    case True
    with s(3) have "invoke W i preAppSpecialize s1 = Inr s2" by simp
    then obtain vs where "preAppSpecialize (z_modules (ss_ctx s1) ! i) = Inr vs" "quiet s1 s2"
      "invocations (ss_log s2) = invocations (ss_log s1) @ vs" by (rule invoke_quiet)
    with dispatch_app_shape [of _ vs] True h1 e1 show ?thesis
      by (auto simp: entry_at_def pre_callback_def)
  next
    case app: False
    show ?thesis
    proof (cases "has (z_flags (ss_ctx s1)) SERVER_FORK_AND_SPECIALIZE")
      case True
      with app s(3) have "invoke W i preServerSpecialize s1 = Inr s2" by simp
      then obtain vs where "preServerSpecialize (z_modules (ss_ctx s1) ! i) = Inr vs" "quiet s1 s2"
        "invocations (ss_log s2) = invocations (ss_log s1) @ vs" by (rule invoke_quiet)
      with dispatch_server_shape [of _ vs] app h1 e1 show ?thesis
        by (auto simp: entry_at_def pre_callback_def)
    next
      case False
      with app s(3) show ?thesis by auto
    qed
  qed
  then obtain c where q2: "quiet s1 s2" and l2: "invocations (ss_log s2) = invocations (ss_log s1) @ c"
    and c: "c = [] \<or> (\<exists>a. c = [Invoke (entry_at s i) (pre_callback s) a])" by blast
  note q = quiet_trans [OF q1 q2]
  have "list_all (\<lambda>i. i < length (z_modules (ss_ctx s2))) ks"
    using Cons.prems(2) quiet_length [OF q] by simp
  from Cons.IH [OF s(2) this] obtain vs where
    vs: "invocations (ss_log s') = invocations (ss_log s2) @ vs"
    "calls_in_order (pre_callback s2) (List.map (entry_at s2) ks) vs" by blast
  have p: "pre_callback s2 = pre_callback s" using quiet_has [OF q] by (simp add: pre_callback_def)
  have m: "List.map (entry_at s2) ks = List.map (entry_at s) ks"
    using Cons.prems(2) quiet_entry [OF q] by (auto simp: list_all_iff)
  from calls_in_order_step [OF vs(2) [unfolded p m] c]
  show ?case using vs(1) l1 l2
    by (intro exI [of _ "Invoke (entry_at s i) OnLoad None # c @ vs"]) simp
qed simp

section \<open>Descriptors through a specialization\<close>

text \<open>What the phases between the fork and the clean-up keep.\<close>

definition keeps_fds :: "session \<Rightarrow> session \<Rightarrow> bool" where
  "keeps_fds s s' \<longleftrightarrow>
     z_allowed (ss_ctx s') = z_allowed (ss_ctx s) \<and> z_pid (ss_ctx s') = z_pid (ss_ctx s) \<and>
     z_fds_to_ignore (ss_ctx s') = z_fds_to_ignore (ss_ctx s) \<and>
     set (z_open (ss_ctx s)) \<subseteq> set (z_open (ss_ctx s'))"

lemma keeps_fds_trans: "keeps_fds s t \<Longrightarrow> keeps_fds t u \<Longrightarrow> keeps_fds s u"
  by (auto simp: keeps_fds_def)

lemma quiet_keeps_fds: "quiet s t \<Longrightarrow> keeps_fds s t"
  by (auto simp: quiet_def keeps_fds_def)

lemma loading_keeps_fds: "loading s t \<Longrightarrow> keeps_fds s t"
  by (simp add: keeps_fds_def loading_ctx)

lemma run_modules_pre_keeps_fds:
  assumes "run_modules_pre W s = Inr s'"
  shows "keeps_fds s s'"
proof -
  let ?s1 = "load_modules W 0 (w_modules W) s"
  let ?s2 = "load_fns W (length (w_modules W)) 0 (w_fns W) ?s1"
  have "call_pre W [0..<length (z_modules (ss_ctx ?s2))] ?s2 = Inr s'"
    using assms by (simp add: run_modules_pre_def Let_def)
  from call_pre_quiet [OF this] have "keeps_fds ?s2 s'" by (rule quiet_keeps_fds)
  moreover have "loading s ?s1" using load_modules_result by blast
  moreover have "loading ?s1 ?s2" using load_fns_result by blast
  ultimately show ?thesis by (blast intro: keeps_fds_trans loading_keeps_fds)
qed

lemma app_flags_keeps_fds: "keeps_fds s (snd (app_flags W args s))"
  by (simp add: app_flags_def Let_def keeps_fds_def emit_def on_ctx_def)

lemma app_specialize_pre_keeps_fds:
  assumes "app_specialize_pre W args s = Inr s'"
  shows "keeps_fds s s'"
proof -
  obtain skip t where t: "app_flags W args s = (skip, t)" by fastforce
  have k: "keeps_fds s t" using app_flags_keeps_fds [of s W args] t by simp
  show ?thesis
  proof (cases skip)
    case True
    with t k assms show ?thesis by (simp add: app_specialize_pre_def)
  next
    case False
    with t assms have "run_modules_pre W t = Inr s'" by (simp add: app_specialize_pre_def)
    with k show ?thesis by (blast intro: keeps_fds_trans run_modules_pre_keeps_fds)
  qed
qed

lemma unmount_zygote_ss_ctx:
  "ss_ctx (unmount_zygote W args s) =
     (if hk_zygote_unmounted (ss_hook s) \<or> hk_traces (ss_hook s) \<noteq> [] then ss_ctx s
      else (ss_ctx s)\<lparr> z_info := w_flags W (aa_uid args) \<rparr>)"
  by (simp add: unmount_zygote_def emit_def on_ctx_def Let_def split_beta)

lemma unmount_zygote_ctx:
  "z_open (ss_ctx (unmount_zygote W args s)) = z_open (ss_ctx s)"
  "z_allowed (ss_ctx (unmount_zygote W args s)) = z_allowed (ss_ctx s)"
  "z_fds_to_ignore (ss_ctx (unmount_zygote W args s)) = z_fds_to_ignore (ss_ctx s)"
  by (simp_all add: unmount_zygote_ss_ctx)

lemma fork_pre_eq:
  assumes "fork_pre pid (Some d) c = Inr c1" "pid \<le> 0"
    "record_fds (dir_entries (z_open c) d) (z_allowed c) (z_open c @ [d]) = (al, os)"
  shows "c1 = c\<lparr> z_pid := pid, z_allowed := al[nat d := False], z_open := removeAll d os \<rparr>"
  using assms by (simp add: fork_pre_def is_child_def Let_def split: if_splits)

lemma fork_pre_child:
  assumes "fork_pre pid (Some d) c = Inr c1" "pid \<le> 0"
  shows "z_pid c1 = pid" "z_fds_to_ignore c1 = z_fds_to_ignore c"
proof -
  obtain al os where "record_fds (dir_entries (z_open c) d) (z_allowed c) (z_open c @ [d]) = (al, os)"
    by fastforce
  from fork_pre_eq [OF assms this] show "z_pid c1 = pid" "z_fds_to_ignore c1 = z_fds_to_ignore c"
    by simp_all
qed

lemma fork_pre_open:
  assumes "fork_pre 0 (Some d) c = Inr c1" "d \<notin> set (z_open c)"
  shows "{fd \<in> set (z_open c). 0 \<le> fd \<and> nat fd < length (z_allowed c)} \<subseteq> set (z_open c1)"
proof -
  obtain al os where r: "record_fds (dir_entries (z_open c) d) (z_allowed c) (z_open c @ [d]) = (al, os)"
    by fastforce
  from fork_pre_eq [OF assms(1) order_refl r] have "set (z_open c1) = set os - {d}" by simp
  moreover have "x \<in> set os" if "x \<in> set (z_open c)" "0 \<le> x" "nat x < length (z_allowed c)" for x
    using that unfolding record_fds_open [OF r] by simp
  ultimately show ?thesis using assms(2) by blast
qed

section \<open>Cleaning up\<close>

definition unload_succeeds :: "world \<Rightarrow> zygisk_module \<Rightarrow> bool" where
  "unload_succeeds W m \<longleftrightarrow>
     zm_unload m \<and> (if zm_custom m then w_cso_unload W (zm_handle m) else w_dlclose W (zm_handle m))"

lemma tryUnload_result:
  "tryUnload_session W m s = (gone, s') \<Longrightarrow> gone = unload_succeeds W m \<and> quiet s s' \<and>
     ss_ctx s' = ss_ctx s"
  by (auto simp: tryUnload_session_def UnloadModule_def unload_succeeds_def quiet_def emit_def
      split: if_splits)

text \<open>A module's calls do not touch the other modules.\<close>

lemma run_acts_other:
  "run_acts W i as s = Inr s' \<Longrightarrow> j \<noteq> i \<Longrightarrow> z_modules (ss_ctx s') ! j = z_modules (ss_ctx s) ! j"
proof (induction W i as s rule: run_acts.induct)
  case (2 W i a as s)
  then obtain t where t: "run_act W i a s = Inr t" "run_acts W i as t = Inr s'" by auto
  have "z_modules (ss_ctx t) ! j = z_modules (ss_ctx s) ! j"
    using t(1) "2.prems"(2)
    by (cases a) (auto simp: set_module_def on_ctx_def emit_def exempt_fd_def Let_def
        split: if_splits prod.splits option.splits)
  with "2.IH" [OF t "2.prems"(2)] show ?case by simp
qed simp

lemma perform_other:
  "perform W i vs s = Inr s' \<Longrightarrow> j \<noteq> i \<Longrightarrow> z_modules (ss_ctx s') ! j = z_modules (ss_ctx s) ! j"
proof (induction W i vs s rule: perform.induct)
  case (2 W i entry cb args vs s)
  let ?e = "emit [Ev_invoke (Invoke entry cb args)] s"
  from "2.prems" obtain t where
    t: "run_acts W i (w_acts W entry cb) ?e = Inr t" "perform W i vs t = Inr s'" by auto
  have "z_modules (ss_ctx ?e) = z_modules (ss_ctx s)" by (simp add: emit_def)
  with run_acts_other [OF t(1) "2.prems"(2)] "2.IH" [OF t "2.prems"(2)] show ?case by simp
qed simp

lemma invoke_other:
  "invoke W i dispatch s = Inr s' \<Longrightarrow> j \<noteq> i \<Longrightarrow> z_modules (ss_ctx s') ! j = z_modules (ss_ctx s) ! j"
  using perform_other by (auto simp: invoke_def)

definition post_step :: "world \<Rightarrow> nat \<Rightarrow> session \<Rightarrow> session res" where
  "post_step W i s =
     (if has (z_flags (ss_ctx s)) APP_SPECIALIZE then invoke W i postAppSpecialize s
      else if has (z_flags (ss_ctx s)) SERVER_FORK_AND_SPECIALIZE
      then invoke W i postServerSpecialize s else Inr s)"

lemma post_step_frame:
  "post_step W i s = Inr s' \<Longrightarrow> quiet s s'"
  "post_step W i s = Inr s' \<Longrightarrow> j \<noteq> i \<Longrightarrow> z_modules (ss_ctx s') ! j = z_modules (ss_ctx s) ! j"
  by (auto simp: post_step_def invoke_other split: if_splits elim: invoke_quiet)

lemma call_post_count:
  "call_post W ks n s = Inr (u, s') \<Longrightarrow> distinct ks \<Longrightarrow>
     u = n + length (filter (\<lambda>i. unload_succeeds W (z_modules (ss_ctx s') ! i)) ks) \<and> quiet s s' \<and>
     (\<forall>j. j \<notin> set ks \<longrightarrow> z_modules (ss_ctx s') ! j = z_modules (ss_ctx s) ! j)"
proof (induction ks arbitrary: n s)
  case (Cons i ks)
  from Cons.prems(1) obtain s1 where s1: "post_step W i s = Inr s1"
    "(case tryUnload_session W (z_modules (ss_ctx s1) ! i) s1 of
       (gone, s2) \<Rightarrow> call_post W ks (if gone then n + 1 else n) s2) = Inr (u, s')"
    by (auto simp: post_step_def)
  obtain gone s2 where s2: "tryUnload_session W (z_modules (ss_ctx s1) ! i) s1 = (gone, s2)"
    by fastforce
  note t = tryUnload_result [OF s2]
  from s1(2) s2 have c: "call_post W ks (if gone then n + 1 else n) s2 = Inr (u, s')" by simp
  have d: "distinct ks" "i \<notin> set ks" using Cons.prems(2) by simp_all
  note ih = Cons.IH [OF c d(1)]
  have m: "z_modules (ss_ctx s') ! i = z_modules (ss_ctx s1) ! i" using ih d(2) t by simp
  have "quiet s s'" using post_step_frame(1) [OF s1(1)] t ih by (blast intro: quiet_trans)
  moreover have "\<forall>j. j \<notin> set (i # ks) \<longrightarrow> z_modules (ss_ctx s') ! j = z_modules (ss_ctx s) ! j"
    using ih t post_step_frame(2) [OF s1(1)] by simp
  ultimately show ?case using ih t m by simp
qed simp

lemma filter_upt_nth: "length (filter (\<lambda>i. P (xs ! i)) [0..<length xs]) = length (filter P xs)"
proof -
  have "filter P xs = filter P (List.map ((!) xs) [0..<length xs])" by (simp only: map_nth)
  then show ?thesis by (simp only: filter_map length_map comp_def)
qed

section \<open>Properties\<close>

text \<open>
  C11: a process loads exactly the classic modules whose library loads, then the functional
  nodes that are triggered for it, cover it and load, each with the index the daemon knows
  it by; and they are called strictly in this order, each first with \<open>onLoad\<close> and then at
  most once with the callback of the process's kind.
\<close>

theorem modules_run_in_order:
  assumes "run_modules_pre W s = Inr s'" "z_modules (ss_ctx s) = []"
  shows "List.map identity (z_modules (ss_ctx s')) =
     process_modules W (has (z_flags (ss_ctx s)) SERVER_FORK_AND_SPECIALIZE) (z_process (ss_ctx s)) \<and>
   (\<exists>vs. invocations (ss_log s') = invocations (ss_log s) @ vs \<and>
     calls_in_order (pre_callback s) (List.map zm_entry (z_modules (ss_ctx s'))) vs)"
proof -
  let ?s1 = "load_modules W 0 (w_modules W) s"
  let ?s2 = "load_fns W (length (w_modules W)) 0 (w_fns W) ?s1"
  from load_modules_result [of W 0 "w_modules W" s]
  have m1: "List.map identity (z_modules (ss_ctx ?s1)) =
      List.map (\<lambda>(k, m). loaded_identity W k (me_name m) (me_memfd m))
       (filter (\<lambda>(k, m). ld_entry (usable W (me_memfd m)) \<noteq> 0) (enumerate 0 (w_modules W)))"
    and l1: "loading s ?s1" using assms(2) by simp_all
  note c1 = loading_ctx(1,2) [OF l1]
  from load_fns_result [of W "length (w_modules W)" 0 "w_fns W" ?s1]
  have m2: "List.map identity (z_modules (ss_ctx ?s2)) =
      process_modules W (has (z_flags (ss_ctx s)) SERVER_FORK_AND_SPECIALIZE) (z_process (ss_ctx s))"
    and l2: "loading ?s1 ?s2" by (simp_all add: m1 c1 process_modules_def)
  note l = loading_trans [OF l1 l2]
  have c2: "z_flags (ss_ctx ?s2) = z_flags (ss_ctx s)"
    by (rule loading_ctx [OF l])
  have r: "call_pre W [0..<length (z_modules (ss_ctx ?s2))] ?s2 = Inr s'"
    using assms(1) by (simp add: run_modules_pre_def Let_def)
  have q: "quiet ?s2 s'" by (rule call_pre_quiet [OF r])
  from call_pre_order [OF r] obtain vs where
    vs: "invocations (ss_log s') = invocations (ss_log ?s2) @ vs"
    "calls_in_order (pre_callback ?s2)
       (List.map (entry_at ?s2) [0..<length (z_modules (ss_ctx ?s2))]) vs"
    by (auto simp: list_all_iff)
  have "List.map (entry_at ?s2) [0..<length (z_modules (ss_ctx ?s2))] =
      List.map (entry_at s') [0..<length (z_modules (ss_ctx s'))]"
    using quiet_entry [OF q] quiet_length [OF q] by auto
  also have "\<dots> = List.map zm_entry (z_modules (ss_ctx s'))"
    by (rule nth_equalityI) (simp_all add: entry_at_def)
  finally have e: "List.map (entry_at ?s2) [0..<length (z_modules (ss_ctx ?s2))] =
      List.map zm_entry (z_modules (ss_ctx s'))" .
  have "pre_callback ?s2 = pre_callback s" by (simp add: pre_callback_def c2)
  moreover have "invocations (ss_log ?s2) = invocations (ss_log s)" using l by (simp add: loading_def)
  moreover have "List.map identity (z_modules (ss_ctx s')) = List.map identity (z_modules (ss_ctx ?s2))"
    using q by (simp add: quiet_def)
  ultimately show ?thesis using vs m2 by (auto simp: e)
qed

text \<open>
  C6: the descriptor guarantee for a forked application, whatever its modules do: after
  the pre-hook every open descriptor was open in zygote, or a module exempted it, or the
  framework asked to ignore it; and no descriptor of zygote within the limit is lost but the
  number of the directory stream that the sweep itself used.
\<close>

theorem forked_app_fds:
  assumes "nativeForkAndSpecialize_pre W args 0 (Some d) alloc (Some d') s = Inr s'"
    and "d \<notin> set (z_open (ss_ctx s))" "list_all (\<lambda>fd. 0 \<le> fd) (z_open (ss_ctx s))" "0 \<le> d"
    and "z_allowed (ss_ctx s) = replicate n False"
  shows "set (z_open (ss_ctx s')) \<subseteq>
       set (z_open (ss_ctx s)) \<union> set (z_exempted (ss_ctx s')) \<union>
       (case z_fds_to_ignore (ss_ctx s) of Some (Some arr) \<Rightarrow> set arr | _ \<Rightarrow> {}) \<and>
     {fd \<in> set (z_open (ss_ctx s)). nat fd < n} - {d'} \<subseteq> set (z_open (ss_ctx s'))"
proof -
  let ?s1 = "on_ctx (\<lambda>c. c\<lparr> z_process := Some (aa_nice_name args),
                              z_flags := z_flags c OR APP_FORK_AND_SPECIALIZE \<rparr>) s"
  let ?s2 = "unmount_zygote W args ?s1"
  have b: "z_open (ss_ctx ?s2) = z_open (ss_ctx s)" "z_allowed (ss_ctx ?s2) = z_allowed (ss_ctx s)"
    "z_fds_to_ignore (ss_ctx ?s2) = z_fds_to_ignore (ss_ctx s)"
    unfolding unmount_zygote_ctx by (simp_all add: on_ctx_def)
  from assms(1) obtain c1 s4 where c1: "fork_pre 0 (Some d) (ss_ctx ?s2) = Inr c1"
    and s4: "(if is_child c1 then app_specialize_pre W args (?s2\<lparr> ss_ctx := c1 \<rparr>)
              else Inr (?s2\<lparr> ss_ctx := c1 \<rparr>)) = Inr s4"
    and s': "sanitize_session alloc (Some d') s4 = Inr s'"
    by (auto simp: nativeForkAndSpecialize_pre_def Let_def fork_session_def)
  note p = fork_pre_child [OF c1 order_refl]
  then have "app_specialize_pre W args (?s2\<lparr> ss_ctx := c1 \<rparr>) = Inr s4"
    using s4 by (simp add: is_child_def)
  from app_specialize_pre_keeps_fds [OF this]
  have k: "z_allowed (ss_ctx s4) = z_allowed c1" "z_pid (ss_ctx s4) = 0"
    "z_fds_to_ignore (ss_ctx s4) = z_fds_to_ignore (ss_ctx s)"
    "set (z_open c1) \<subseteq> set (z_open (ss_ctx s4))"
    using p b(3) by (simp_all add: keeps_fds_def)
  from s' obtain c3 where c3: "sanitize_fds alloc (Some d') (ss_ctx s4) = Inr c3" "s' = s4\<lparr> ss_ctx := c3 \<rparr>"
    by (auto simp: sanitize_session_def)
  have f: "set (z_open c3) \<subseteq> set (z_open (ss_ctx s)) \<union> excused (ss_ctx s4)"
    "{fd \<in> set (z_open (ss_ctx s)). nat fd < n} \<inter> set (z_open (ss_ctx s4)) - {d'} \<subseteq> set (z_open c3)"
    using fork_then_sanitize [OF c1, of n "ss_ctx s4" alloc d' c3] assms(2-5) b k c3 by simp_all
  have "excused (ss_ctx s4) \<subseteq> set (z_exempted c3) \<union>
      (case z_fds_to_ignore (ss_ctx s) of Some (Some arr) \<Rightarrow> set arr | _ \<Rightarrow> {})"
    using sanitize_fds_open(2) [OF c3(1)] k by (auto simp: excused_def is_child_def split: option.splits)
  moreover have "{fd \<in> set (z_open (ss_ctx s)). nat fd < n} \<subseteq> set (z_open (ss_ctx s4))"
    using fork_pre_open [OF c1] assms(2,3,5) b k(4) by (auto simp: list_all_iff)
  ultimately show ?thesis using f c3(2) by auto
qed

text \<open>
  modules are unloaded and traces removed consistently: the custom loader's global
  state is torn down only when every module of the process is gone, and the maps are marked
  for spoofing exactly in an application that keeps a module.
\<close>

theorem cleanup_exact:
  assumes "run_modules_post W s = Inr s'" "z_modules (ss_ctx s) \<noteq> []"
  shows "let ms = z_modules (ss_ctx s'); gone = filter (unload_succeeds W) ms in
     List.map identity ms = List.map identity (z_modules (ss_ctx s)) \<and>
     ss_used_custom s' = (ss_used_custom s \<and> length gone < length ms) \<and>
     hk_spoof_maps (ss_hook s') = (has (z_flags (ss_ctx s')) APP_SPECIALIZE \<and> length gone < length ms) \<and>
     hk_unmap (ss_hook s') = hk_unmap (ss_hook s)"
proof -
  let ?p = "on_ctx (\<lambda>c. c\<lparr> z_flags := z_flags c OR POST_SPECIALIZE \<rparr>) s"
  let ?n = "length (z_modules (ss_ctx s))"
  from assms(1) obtain u s1 where c: "call_post W [0..<?n] 0 ?p = Inr (u, s1)"
    unfolding run_modules_post_def by (cases "call_post W [0..<?n] 0 ?p") auto
  from call_post_count [OF c] have
    u: "u = length (filter (\<lambda>i. unload_succeeds W (z_modules (ss_ctx s1) ! i)) [0..<?n])"
    and q: "quiet ?p s1" by simp_all
  have n: "length (z_modules (ss_ctx s1)) = ?n" using quiet_length [OF q] by (simp add: on_ctx_def)
  then have u': "u = length (filter (unload_succeeds W) (z_modules (ss_ctx s1)))"
    using u filter_upt_nth [of "unload_succeeds W" "z_modules (ss_ctx s1)"] by simp
  have le: "u \<le> ?n" using u' n length_filter_le [of "unload_succeeds W" "z_modules (ss_ctx s1)"] by simp
  have q': "List.map identity (z_modules (ss_ctx s1)) = List.map identity (z_modules (ss_ctx s))"
    "ss_used_custom s1 = ss_used_custom s" "ss_hook s1 = ss_hook s"
    using q by (simp_all add: quiet_def on_ctx_def)
  have "ss_ctx s' = ss_ctx s1 \<and> ss_used_custom s' = (ss_used_custom s \<and> u < ?n) \<and>
      hk_spoof_maps (ss_hook s') = (has (z_flags (ss_ctx s1)) APP_SPECIALIZE \<and> u < ?n) \<and>
      hk_unmap (ss_hook s') = hk_unmap (ss_hook s)"
  proof (cases "?n = u")
    case True
    show ?thesis
      using assms(1) [unfolded run_modules_post_def c bind_res.simps prod.case Let_def n]
        assms(2) q' True by (auto simp: DeinitCustomLoaderIfUsed_def emit_def n)
  next
    case False
    show ?thesis
      using assms(1) [unfolded run_modules_post_def c bind_res.simps prod.case Let_def n]
        assms(2) q' False le by (auto simp: emit_def n)
  qed
  then show ?thesis using q' n u' by (simp add: Let_def)
qed

text \<open>
  when the daemon cannot be reached, an isolated process gets no module at all: no
  library is loaded and no flags are asked for, and specialization goes on.
\<close>

theorem isolated_without_daemon:
  assumes "90000 \<le> aa_uid args" "aa_uid args \<le> 99999" "\<not> w_connect W"
  shows "\<exists>s'. app_specialize_pre W args s = Inr s' \<and>
     z_modules (ss_ctx s') = z_modules (ss_ctx s) \<and> ss_log s' = ss_log s @ [Ev_connect] \<and>
     z_info (ss_ctx s') = z_info (ss_ctx s)"
  using assms by (simp add: app_specialize_pre_def app_flags_def Let_def emit_def on_ctx_def)

lemma load_modules_extends:
  "\<exists>xs. z_modules (ss_ctx (load_modules W i ms s)) = z_modules (ss_ctx s) @ xs"
proof (induction ms arbitrary: i s)
  case (Cons m ms)
  obtain t where t: "LoadModuleFromMemfd W (me_memfd m) s = (usable W (me_memfd m), t)"
    "ss_ctx t = ss_ctx s" by (rule LoadModule_usable)
  let ?u = "if ld_entry (usable W (me_memfd m)) \<noteq> 0
            then add_module (of_nat i) (me_name m) (usable W (me_memfd m)) t else t"
  from Cons.IH [of "i + 1" ?u] obtain xs where
    "z_modules (ss_ctx (load_modules W (i + 1) ms ?u)) = z_modules (ss_ctx ?u) @ xs" by blast
  with t show ?case by (auto simp: add_module_def on_ctx_def)
qed simp

lemma load_fns_extends:
  "\<exists>xs. z_modules (ss_ctx (load_fns W n i fs s)) = z_modules (ss_ctx s) @ xs"
proof (induction fs arbitrary: i s)
  case (Cons f fs)
  obtain t where t: "LoadModuleFromMemfd W (fe_memfd f) s = (usable W (fe_memfd f), t)"
    "ss_ctx t = ss_ctx s" by (rule LoadModule_usable)
  let ?srv = "has (z_flags (ss_ctx s)) SERVER_FORK_AND_SPECIALIZE"
  let ?u = "if \<not> fn_applies f ?srv \<or> \<not> ?srv \<and> \<not> fn_scope_matches f (z_process (ss_ctx s)) then s
            else if ld_entry (usable W (fe_memfd f)) \<noteq> 0
            then add_module (of_nat (n + i)) (fe_id f) (usable W (fe_memfd f)) t else t"
  from Cons.IH [of "i + 1" ?u] obtain xs where
    "z_modules (ss_ctx (load_fns W n (i + 1) fs ?u)) = z_modules (ss_ctx ?u) @ xs" by blast
  moreover have "load_fns W n i (f # fs) s = load_fns W n (i + 1) fs ?u" by (simp add: t(1) Let_def)
  moreover have "\<exists>ys. z_modules (ss_ctx ?u) = z_modules (ss_ctx s) @ ys"
    using t(2) by (simp add: add_module_def on_ctx_def)
  ultimately show ?case by auto
qed simp

text \<open>
  a library that loads but registers no module brings an application down: the code
  calls through its null registration without checking it.
\<close>

theorem unregistered_module_faults:
  assumes "z_modules (ss_ctx s) = []" "w_modules W = m # ms"
    and "ld_entry (usable W (me_memfd m)) \<noteq> 0"
    and "w_acts W (ld_entry (usable W (me_memfd m))) OnLoad = []"
    and "has (z_flags (ss_ctx s)) APP_SPECIALIZE"
  shows "run_modules_pre W s = Inl Null_deref"
proof -
  let ?lm = "usable W (me_memfd m)"
  let ?z = "ZygiskModule 0 (me_name m) (ld_handle ?lm) (ld_entry ?lm) (ld_custom ?lm)"
  obtain t where t: "LoadModuleFromMemfd W (me_memfd m) s = (?lm, t)" "ss_ctx t = ss_ctx s"
    by (rule LoadModule_usable)
  let ?s1 = "load_modules W 0 (w_modules W) s"
  let ?s2 = "load_fns W (length (w_modules W)) 0 (w_fns W) ?s1"
  have e: "?s1 = load_modules W 1 ms (add_module 0 (me_name m) ?lm t)"
    using assms(2,3) t(1) by simp
  have "z_modules (ss_ctx (add_module 0 (me_name m) ?lm t)) = [?z]"
    using t(2) assms(1) by (simp add: add_module_def on_ctx_def)
  then obtain xs where x: "z_modules (ss_ctx ?s1) = ?z # xs"
    using load_modules_extends [of W 1 ms "add_module 0 (me_name m) ?lm t"] unfolding e by auto
  then obtain ys where y: "z_modules (ss_ctx ?s2) = ?z # ys"
    using load_fns_extends [of W "length (w_modules W)" 0 "w_fns W" ?s1] by auto
  have "loading s ?s1" using load_modules_result by blast
  moreover have "loading ?s1 ?s2" using load_fns_result by blast
  ultimately have "loading s ?s2" by (rule loading_trans)
  then have f: "has (z_flags (ss_ctx ?s2)) APP_SPECIALIZE" using assms(5) loading_ctx(1) by simp
  have z: "zm_entry ?z = ld_entry ?lm" "zm_mod ?z = None" by (simp_all add: ZygiskModule_def)
  have "invoke W 0 onLoad ?s2 = Inr (emit [Ev_invoke (Invoke (ld_entry ?lm) OnLoad None)] ?s2)"
    using y z assms(4) by (simp add: invoke_def onLoad_def)
  moreover have "invoke W 0 preAppSpecialize (emit [Ev_invoke (Invoke (ld_entry ?lm) OnLoad None)] ?s2) =
      Inl Null_deref"
    using y z by (simp add: invoke_def preAppSpecialize_def call_app_def emit_def)
  moreover have "[0..<length (z_modules (ss_ctx ?s2))] = 0 # [1..<length (z_modules (ss_ctx ?s2))]"
  proof -
    have "0 < length (z_modules (ss_ctx ?s2))" using y by simp
    then show ?thesis by (simp only: upt_conv_Cons One_nat_def)
  qed
  ultimately show ?thesis
    using f by (simp add: run_modules_pre_def Let_def emit_def)
qed

section \<open>Lists in text\<close>

text \<open>The pieces of a text between commas.\<close>

fun split_commas :: "u8 list \<Rightarrow> u8 list list" where
  "split_commas [] = [[]]"
| "split_commas (b # bs) =
     (if b = 0x2C then [] # split_commas bs
      else case split_commas bs of p # ps \<Rightarrow> (b # p) # ps | [] \<Rightarrow> [[b]])"

lemma split_commas_first:
  "split_commas l =
     takeWhile (\<lambda>b. b \<noteq> 0x2C) l #
     (case dropWhile (\<lambda>b. b \<noteq> 0x2C) l of [] \<Rightarrow> [] | _ # r \<Rightarrow> split_commas r)"
  by (induction l) auto

text \<open>
  the membership test of scopes and triggers is exact: it holds just when one of the
  comma-separated entries, without blanks around it, is the text looked for.
\<close>

theorem list_contains_exact:
  "list_contains l needle = (needle \<in> set (List.map trim_token (split_commas l)))"
proof (induction l needle rule: list_contains.induct)
  case (1 l needle)
  note first = split_commas_first [of l]
  show ?case
  proof (cases "trim_token (takeWhile (\<lambda>b. b \<noteq> 0x2C) l) = needle")
    case True
    then show ?thesis
      by (subst list_contains.simps, subst first) (simp add: Let_def)
  next
    case False
    show ?thesis
    proof (cases "dropWhile (\<lambda>b. b \<noteq> 0x2C) l")
      case Nil
      with False show ?thesis
        by (subst list_contains.simps, subst first, unfold Nil) (auto simp: Let_def)
    next
      case (Cons c r)
      from "1.IH" [OF refl False Cons] False show ?thesis
        by (subst list_contains.simps, subst first, unfold Cons) (auto simp: Let_def)
    qed
  qed
qed

section \<open>Witnesses\<close>

definition sample_abi :: module_abi where
  "sample_abi = \<lparr> abi_version = 4, abi_impl = True, abi_preApp = True, abi_postApp = True,
                  abi_preServer = True, abi_postServer = True \<rparr>"

text \<open>One module that opens and exempts descriptor 5, opens 6, and asks to be unloaded.\<close>

definition sample_acts :: "u64 \<Rightarrow> callback \<Rightarrow> act list" where
  "sample_acts e cb =
     (case cb of
        OnLoad \<Rightarrow> [Act_register (Some sample_abi), Act_option DLCLOSE_MODULE_LIBRARY]
      | PreApp \<Rightarrow> [Act_open_fd 5, Act_exempt_fd 5, Act_open_fd 6]
      | _ \<Rightarrow> [])"

definition sample_world :: world where
  "sample_world =
     \<lparr> w_modules = [\<lparr> me_name = [97], me_memfd = 9 \<rparr>], w_fns = [],
       w_cso_load = (\<lambda>_. Some 100), w_cso_symbol = (\<lambda>_. 200), w_cso_unload = (\<lambda>_. True),
       w_dlopen = (\<lambda>_. 0), w_dlsym = (\<lambda>_. 0), w_dlclose = (\<lambda>_. True), w_acts = sample_acts,
       w_regcomp = (\<lambda>_. True), w_regexec = (\<lambda>_ _. False), w_flags = (\<lambda>_. 0), w_connect = False,
       w_stat = (\<lambda>_. None), w_mountinfo = None, w_umount = (\<lambda>_. True) \<rparr>"

definition sample_session :: session where
  "sample_session =
     \<lparr> ss_ctx = ZygiskContext 8 (Some None) [0, 1, 3],
       ss_hook = \<lparr> hk_zygote_unmounted = True, hk_traces = [], hk_spoof_maps = False,
                   hk_unmap = False, hk_live_ready = False, hk_maps = [] \<rparr>,
       ss_used_custom = False, ss_log = [] \<rparr>"

definition sample_app :: app_args where
  "sample_app = \<lparr> aa_uid = 10001, aa_data_dir = None, aa_nice_name = [97] \<rparr>"

lemmas sample_defs = sample_world_def sample_session_def sample_app_def sample_acts_def sample_abi_def

lemmas run_defs = run_modules_pre_def invoke_def onLoad_def preAppSpecialize_def postAppSpecialize_def
  call_app_def emit_def on_ctx_def set_module_def slot_holds_def setOption_def add_module_def
  LoadModuleFromMemfd_def LoadViaCustomLinker_def RegisterModuleImpl_def ZygiskModule_def
  fill_v1_def fill_v2_def fill_v4_def has_def exempt_fd_def can_exempt_fd_def Let_def

text \<open>The session after the modules have run in an application.\<close>

definition app_session :: session where
  "app_session = on_ctx (\<lambda>c. c\<lparr> z_flags := 6 \<rparr>) sample_session"

lemma modules_run_in_order_witness:
  "\<exists>s'. run_modules_pre sample_world app_session = Inr s' \<and>
     List.map zm_entry (z_modules (ss_ctx s')) = [200]"
proof -
  have "\<exists>s'. run_modules_pre sample_world app_session = Inr s'"
    by (simp add: run_defs sample_defs app_session_def ZygiskContext_def numeral_eq_Suc)
  then obtain s' where s': "run_modules_pre sample_world app_session = Inr s'" by blast
  have "z_modules (ss_ctx app_session) = []"
    by (simp add: app_session_def sample_session_def on_ctx_def ZygiskContext_def)
  from modules_run_in_order [OF s' this]
  have "List.map identity (z_modules (ss_ctx s')) = [(0, [97], 100, True, 200)]"
    by (simp add: process_modules_def sample_world_def usable_def loaded_identity_def)
  then have "List.map zm_entry (z_modules (ss_ctx s')) = [200]"
    by (auto simp: identity_def Cons_eq_map_conv)
  with s' show ?thesis by (intro exI [of _ s'] conjI)
qed

lemma unregistered_module_faults_witness:
  "run_modules_pre (sample_world\<lparr> w_acts := \<lambda>_ _. [] \<rparr>) app_session = Inl Null_deref"
  by (rule unregistered_module_faults)
    (simp_all add: app_session_def sample_session_def on_ctx_def ZygiskContext_def sample_world_def
      usable_def has_def)

lemma isolated_without_daemon_witness:
  "\<exists>s'. app_specialize_pre sample_world (sample_app\<lparr> aa_uid := 90001 \<rparr>) sample_session = Inr s' \<and>
     ss_log s' = [Ev_connect]"
  using isolated_without_daemon [of "sample_app\<lparr> aa_uid := 90001 \<rparr>" sample_world sample_session]
  by (auto simp: sample_app_def sample_world_def sample_session_def)

lemma forked_app_fds_witness:
  "\<exists>s'. nativeForkAndSpecialize_pre sample_world sample_app 0 (Some 4) True (Some 7) sample_session =
     Inr s' \<and> set (z_open (ss_ctx s')) = {0, 1, 3, 5}"
proof -
  have "case nativeForkAndSpecialize_pre sample_world sample_app 0 (Some 4) True (Some 7)
      sample_session of Inr s' \<Rightarrow> z_open (ss_ctx s') = [0, 1, 3, 5] \<and> z_exempted (ss_ctx s') = [5]
      | Inl _ \<Rightarrow> False"
    by code_simp
  then obtain s' where s': "nativeForkAndSpecialize_pre sample_world sample_app 0 (Some 4) True
      (Some 7) sample_session = Inr s'" "z_open (ss_ctx s') = [0, 1, 3, 5]"
    "z_exempted (ss_ctx s') = [5]" by (auto split: sum.splits)
  have "set (z_open (ss_ctx s')) \<subseteq> {0, 1, 3, 5}"
    using conjunct1 [OF forked_app_fds [OF s'(1), of 8]] s'(3)
    by (auto simp: sample_session_def ZygiskContext_def)
  with s' show ?thesis by auto
qed

lemma cleanup_exact_witness:
  "\<exists>s'. run_modules_post sample_world
      (on_ctx (\<lambda>c. c\<lparr> z_modules := [(ZygiskModule 0 [97] 100 200 True)\<lparr> zm_mod := Some sample_abi \<rparr>] \<rparr>)
        app_session) = Inr s' \<and> hk_spoof_maps (ss_hook s')"
proof -
  let ?s = "on_ctx (\<lambda>c. c\<lparr> z_modules := [(ZygiskModule 0 [97] 100 200 True)\<lparr> zm_mod := Some sample_abi \<rparr>] \<rparr>)
      app_session"
  have "\<exists>s'. run_modules_post sample_world ?s = Inr s' \<and> length (z_modules (ss_ctx s')) = 1 \<and>
      filter (unload_succeeds sample_world) (z_modules (ss_ctx s')) = [] \<and> z_flags (ss_ctx s') = 7"
    by (simp add: run_modules_post_def tryUnload_session_def unload_succeeds_def run_defs sample_defs
        app_session_def ZygiskContext_def)
  then obtain s' where s': "run_modules_post sample_world ?s = Inr s'"
    "length (z_modules (ss_ctx s')) = 1" "filter (unload_succeeds sample_world) (z_modules (ss_ctx s')) = []"
    "z_flags (ss_ctx s') = 7" by blast
  have "z_modules (ss_ctx ?s) \<noteq> []" by (simp add: on_ctx_def)
  from cleanup_exact [OF s'(1) this] s' have "hk_spoof_maps (ss_hook s')"
    by (simp add: Let_def has_def)
  with s'(1) show ?thesis by blast
qed

end
