(* ===== verification/Hotplug.thy ===== *)
theory Hotplug
  imports Specialize_Properties Hooks "HOL-Library.Code_Target_Nat"
begin

text \<open>
  Loading modules into a running system server (\<open>injector/module.cpp\<close>: the end of
  \<open>server_specialize_post\<close>, the signal handler, \<open>start_live_hotplug_worker\<close> and
  \<open>hotplug_worker\<close>).  A signal writes one byte into a pipe, the worker reads what is there
  and asks the daemon for the modules.  A schedule says in which order signals and the
  worker's polls happen, with the list the daemon answers; Java exceptions a module leaves
  pending are a parameter.
\<close>

section \<open>The state and the handler\<close>

abbreviation (input) PIPE_CAPACITY :: nat where "PIPE_CAPACITY \<equiv> 65536"

record hotplug =
  hp_armed :: bool   \<comment> \<open>\<open>hotplug_pipe[0] >= 0\<close>\<close>
  hp_pending :: nat   \<comment> \<open>bytes in the pipe\<close>
  hp_loaded :: "u8 list list"
  hp_flags :: u32
  hp_started :: bool

definition hotplug_signal_handler :: "hotplug \<Rightarrow> hotplug" where
  "hotplug_signal_handler hp =
     (if hp_armed hp \<and> hp_pending hp < PIPE_CAPACITY then hp\<lparr> hp_pending := hp_pending hp + 1 \<rparr> else hp)"

text \<open>The answers of the system while the loader is armed.\<close>

record arming =
  am_vm :: bool
  am_signal_free :: bool   \<comment> \<open>the query works and the action is the default\<close>
  am_pipe :: bool
  am_action :: bool

definition arm :: "arming \<Rightarrow> u32 \<Rightarrow> hotplug \<Rightarrow> hotplug" where
  "arm A info hp =
     (if \<not> am_vm A then hp
      else let hp1 = hp\<lparr> hp_flags := info \<rparr> in
        if \<not> am_signal_free A \<or> \<not> am_pipe A then hp1
        else if \<not> am_action A then hp1\<lparr> hp_armed := False \<rparr>
        else hp1\<lparr> hp_armed := True, hp_pending := 0 \<rparr>)"

text \<open>The names are kept before the callbacks may unload a library.\<close>

definition server_specialize_post ::
  "world \<Rightarrow> arming \<Rightarrow> hotplug \<Rightarrow> session \<Rightarrow> (hotplug \<times> session) res" where
  "server_specialize_post W A hp s =
     (let hp1 = hp\<lparr> hp_loaded := hp_loaded hp @ map zm_name (z_modules (ss_ctx s)) \<rparr> in
      bind_res (run_modules_post W s) (\<lambda>s1. Inr (arm A (z_info (ss_ctx s1)) hp1, s1)))"

definition nativeForkSystemServer_post ::
  "world \<Rightarrow> arming \<Rightarrow> hotplug \<Rightarrow> session \<Rightarrow> (hotplug \<times> session) res" where
  "nativeForkSystemServer_post W A hp s =
     (if is_child (ss_ctx s) then server_specialize_post W A hp s else Inr (hp, s))"

text \<open>Whether a thread was created, and the state.\<close>

definition start_live_hotplug_worker :: "bool \<Rightarrow> hotplug \<Rightarrow> bool \<times> hotplug" where
  "start_live_hotplug_worker created hp =
     (if hp_started hp then (False, hp) else (created, hp\<lparr> hp_started := created \<rparr>))"

section \<open>One module\<close>

type_synonym exceptions = "u64 \<Rightarrow> callback \<Rightarrow> bool"

definition server_callbacks :: "world \<Rightarrow> exceptions \<Rightarrow> nat \<Rightarrow> session \<Rightarrow> session res" where
  "server_callbacks W raises i s =
     bind_res (invoke W i onLoad s) (\<lambda>s1.
       let md = z_modules (ss_ctx s1) ! i in
       if valid md \<and> \<not> raises (zm_entry md) OnLoad then
         bind_res (invoke W i preServerSpecialize s1) (\<lambda>s2.
           if raises (zm_entry md) PreServer then Inr s2
           else invoke W i postServerSpecialize
                  (on_ctx (\<lambda>c. c\<lparr> z_flags := z_flags c OR POST_SPECIALIZE \<rparr>) s2))
       else Inr s1)"

definition live_load ::
  "world \<Rightarrow> exceptions \<Rightarrow> nat \<Rightarrow> module_entry \<Rightarrow> hotplug \<times> session \<Rightarrow> (hotplug \<times> session) res" where
  "live_load W raises i m st =
     (case st of (hp, s) \<Rightarrow>
        if me_name m \<in> set (hp_loaded hp) then Inr (hp, s)
        else case LoadModuleFromMemfd W (me_memfd m) s of (lm, s1) \<Rightarrow>
          if ld_entry lm = 0 then Inr (hp, s1)
          else let k = length (z_modules (ss_ctx s1));
                   s2 = on_ctx (\<lambda>c. c\<lparr> z_flags := SERVER_FORK_AND_SPECIALIZE \<rparr>)
                          (add_module (of_nat i) (me_name m) lm s1)
               in bind_res (server_callbacks W raises k s2) (\<lambda>s3.
                    let s4 = set_module k (clearApi (z_modules (ss_ctx s3) ! k)) s3 in
                    Inr (hp\<lparr> hp_loaded := hp_loaded hp @ [me_name m] \<rparr>,
                         snd (tryUnload_session W (z_modules (ss_ctx s4) ! k) s4))))"

fun live_batch ::
  "world \<Rightarrow> exceptions \<Rightarrow> nat \<Rightarrow> module_entry list \<Rightarrow> hotplug \<times> session \<Rightarrow> (hotplug \<times> session) res" where
  "live_batch W raises i [] st = Inr st"
| "live_batch W raises i (m # ms) st =
     bind_res (live_load W raises i m st) (live_batch W raises (i + 1) ms)"

section \<open>The worker\<close>

text \<open>
  What happens next: a signal, a poll that is interrupted or fails, or a round of the worker
  with the modules the daemon lists then.  A poll with nothing in the pipe does not return,
  so such a round does not happen.
\<close>

datatype live_event = Live_signal | Poll_interrupted | Poll_failed | Live_round "module_entry list"

definition live_round ::
  "world \<Rightarrow> exceptions \<Rightarrow> module_entry list \<Rightarrow> hotplug \<times> session \<Rightarrow> (hotplug \<times> session) res" where
  "live_round W raises ms st =
     (case st of (hp, s) \<Rightarrow>
        if hp_pending hp = 0 then Inr (hp, s)
        else live_batch W raises 0 ms (hp\<lparr> hp_pending := hp_pending hp - min 64 (hp_pending hp) \<rparr>, s))"

fun worker_loop ::
  "world \<Rightarrow> exceptions \<Rightarrow> live_event list \<Rightarrow> hotplug \<times> session \<Rightarrow> (hotplug \<times> session) res" where
  "worker_loop W raises [] st = Inr st"
| "worker_loop W raises (Live_signal # es) st =
     worker_loop W raises es (hotplug_signal_handler (fst st), snd st)"
| "worker_loop W raises (Poll_interrupted # es) st = worker_loop W raises es st"
| "worker_loop W raises (Poll_failed # es) st = Inr st"
| "worker_loop W raises (Live_round ms # es) st =
     bind_res (live_round W raises ms st) (worker_loop W raises es)"

text \<open>
  The worker has a context of its own for the life of the process; \<open>attached\<close> says whether
  the VM accepts the thread, \<open>fd_max\<close> and \<open>open_fds\<close> are what the context finds.
\<close>

definition hotplug_worker ::
  "world \<Rightarrow> exceptions \<Rightarrow> bool \<Rightarrow> nat \<Rightarrow> int list \<Rightarrow> live_event list \<Rightarrow> hotplug \<times> session \<Rightarrow>
     (hotplug \<times> session) res" where
  "hotplug_worker W raises attached fd_max open_fds es st =
     (if \<not> attached then Inr st
      else case st of (hp, s) \<Rightarrow>
        let c = (ZygiskContext fd_max None open_fds)\<lparr> z_info := hp_flags hp,
                   z_flags := SERVER_FORK_AND_SPECIALIZE \<rparr>
        in worker_loop W raises es (hp, s\<lparr> ss_ctx := c \<rparr>))"

section \<open>Each module once\<close>

text \<open>
  Between two states the worker has taken in the modules \<open>names\<close>: they are the new modules of
  its context and the new names on its list, each once and none of them known before.
\<close>

definition takes_in :: "u8 list list \<Rightarrow> hotplug \<times> session \<Rightarrow> hotplug \<times> session \<Rightarrow> bool" where
  "takes_in names st st' \<longleftrightarrow>
     hp_loaded (fst st') = hp_loaded (fst st) @ names \<and>
     map zm_name (z_modules (ss_ctx (snd st'))) = map zm_name (z_modules (ss_ctx (snd st))) @ names \<and>
     distinct names \<and> set names \<inter> set (hp_loaded (fst st)) = {} \<and>
     hp_armed (fst st') = hp_armed (fst st) \<and> hp_started (fst st') = hp_started (fst st)"

lemma takes_in_none: "hp_loaded hp' = hp_loaded hp \<Longrightarrow> hp_armed hp' = hp_armed hp \<Longrightarrow>
    hp_started hp' = hp_started hp \<Longrightarrow> z_modules (ss_ctx s') = z_modules (ss_ctx s) \<Longrightarrow>
    takes_in [] (hp, s) (hp', s')"
  by (simp add: takes_in_def)

lemma takes_in_trans: "takes_in a st u \<Longrightarrow> takes_in b u st' \<Longrightarrow> takes_in (a @ b) st st'"
  by (auto simp: takes_in_def)

lemma quiet_names: "quiet s s' \<Longrightarrow> map zm_name (z_modules (ss_ctx s')) = map zm_name (z_modules (ss_ctx s))"
proof -
  assume "quiet s s'"
  then have "map identity (z_modules (ss_ctx s')) = map identity (z_modules (ss_ctx s))" by (simp add: quiet_def)
  then have "map (fst \<circ> snd) (map identity (z_modules (ss_ctx s'))) = map (fst \<circ> snd) (map identity (z_modules (ss_ctx s)))"
    by simp
  then show ?thesis by (simp add: identity_def comp_def)
qed

lemma invoke_names:
  "invoke W i d s = Inr s' \<Longrightarrow> map zm_name (z_modules (ss_ctx s')) = map zm_name (z_modules (ss_ctx s))"
  by (erule invoke_quiet) (rule quiet_names)

lemma server_callbacks_names:
  assumes "server_callbacks W raises i s = Inr s'"
  shows "map zm_name (z_modules (ss_ctx s')) = map zm_name (z_modules (ss_ctx s))"
proof -
  obtain s1 where s1: "invoke W i onLoad s = Inr s1" using assms by (auto simp: server_callbacks_def)
  have n1: "map zm_name (z_modules (ss_ctx s1)) = map zm_name (z_modules (ss_ctx s))"
    by (rule invoke_names [OF s1])
  let ?m = "z_modules (ss_ctx s1) ! i"
  show ?thesis
  proof (cases "valid ?m \<and> \<not> raises (zm_entry ?m) OnLoad")
    case False
    with assms have "s' = s1" by (simp add: server_callbacks_def s1 Let_def)
    with n1 show ?thesis by simp
  next
    case True
    with assms obtain s2 where s2: "invoke W i preServerSpecialize s1 = Inr s2"
      and r: "(if raises (zm_entry ?m) PreServer then Inr s2
        else invoke W i postServerSpecialize (on_ctx (\<lambda>c. c\<lparr> z_flags := z_flags c OR POST_SPECIALIZE \<rparr>) s2)) = Inr s'"
      by (auto simp: server_callbacks_def s1 Let_def)
    have n2: "map zm_name (z_modules (ss_ctx s2)) = map zm_name (z_modules (ss_ctx s1))"
      by (rule invoke_names [OF s2])
    show ?thesis
    proof (cases "raises (zm_entry ?m) PreServer")
      case True
      with r n1 n2 show ?thesis by simp
    next
      case False
      let ?s2 = "on_ctx (\<lambda>c. c\<lparr> z_flags := z_flags c OR POST_SPECIALIZE \<rparr>) s2"
      from r False have "invoke W i postServerSpecialize ?s2 = Inr s'" by simp
      then have "map zm_name (z_modules (ss_ctx s')) = map zm_name (z_modules (ss_ctx ?s2))"
        by (rule invoke_names)
      then show ?thesis using n1 n2 by (simp add: on_ctx_def)
    qed
  qed
qed

lemma usable_names:
  assumes "LoadModuleFromMemfd W fd s = (lm, s1)"
  shows "ss_ctx s1 = ss_ctx s"
proof -
  obtain t where "LoadModuleFromMemfd W fd s = (usable W fd, t)" "ss_ctx t = ss_ctx s"
    by (rule LoadModule_usable)
  with assms show ?thesis by simp
qed

lemma tryUnload_names: "z_modules (ss_ctx (snd (tryUnload_session W m s))) = z_modules (ss_ctx s)"
  by (simp add: tryUnload_session_def UnloadModule_def emit_def)

lemma live_load_takes_in:
  assumes "live_load W raises i m (hp, s) = Inr st'"
  shows "\<exists>names. takes_in names (hp, s) st' \<and> set names \<subseteq> {me_name m}"
proof (cases "me_name m \<in> set (hp_loaded hp)")
  case True
  with assms have "st' = (hp, s)" by (simp add: live_load_def)
  then show ?thesis using takes_in_none [of hp hp s s] by auto
next
  case False
  obtain lm s1 where l: "LoadModuleFromMemfd W (me_memfd m) s = (lm, s1)" by fastforce
  have c: "ss_ctx s1 = ss_ctx s" by (rule usable_names [OF l])
  show ?thesis
  proof (cases "ld_entry lm = 0")
    case True
    with assms False l have "st' = (hp, s1)" by (simp add: live_load_def)
    then show ?thesis using takes_in_none [of hp hp s1 s] c by auto
  next
    case loaded: False
    let ?k = "length (z_modules (ss_ctx s1))"
    let ?s2 = "on_ctx (\<lambda>c. c\<lparr> z_flags := SERVER_FORK_AND_SPECIALIZE \<rparr>) (add_module (of_nat i) (me_name m) lm s1)"
    from assms False loaded obtain s3 where s3: "server_callbacks W raises ?k ?s2 = Inr s3"
      and st': "st' = (hp\<lparr> hp_loaded := hp_loaded hp @ [me_name m] \<rparr>,
        snd (tryUnload_session W (z_modules (ss_ctx (set_module ?k (clearApi (z_modules (ss_ctx s3) ! ?k)) s3)) ! ?k)
          (set_module ?k (clearApi (z_modules (ss_ctx s3) ! ?k)) s3)))"
      unfolding live_load_def l prod.case Let_def by auto
    have n2: "map zm_name (z_modules (ss_ctx ?s2)) = map zm_name (z_modules (ss_ctx s)) @ [me_name m]"
      by (simp add: on_ctx_def add_module_def c ZygiskModule_def)
    have "map zm_name (z_modules (ss_ctx (set_module ?k (clearApi (z_modules (ss_ctx s3) ! ?k)) s3))) =
        map zm_name (z_modules (ss_ctx s3))"
      by (simp add: set_module_def on_ctx_def map_update clearApi_def)
        (metis list_update_id map_update)
    then have "map zm_name (z_modules (ss_ctx (snd st'))) = map zm_name (z_modules (ss_ctx s)) @ [me_name m]"
      using st' server_callbacks_names [OF s3] n2 by (auto simp: tryUnload_names)
    then have "takes_in [me_name m] (hp, s) st'" using st' False by (auto simp: takes_in_def)
    then show ?thesis by auto
  qed
qed

lemma live_batch_takes_in:
  "live_batch W raises i ms (hp, s) = Inr st' \<Longrightarrow> \<exists>names. takes_in names (hp, s) st'"
proof (induction ms arbitrary: i hp s)
  case Nil
  then show ?case using takes_in_none [of hp hp s s] by auto
next
  case (Cons m ms)
  then obtain hp1 s1 where l: "live_load W raises i m (hp, s) = Inr (hp1, s1)"
    and b: "live_batch W raises (i + 1) ms (hp1, s1) = Inr st'" by auto
  from live_load_takes_in [OF l] Cons.IH [OF b] show ?case by (blast intro: takes_in_trans)
qed

lemma live_round_takes_in:
  assumes "live_round W raises ms st = Inr st'"
  shows "\<exists>names. takes_in names st st'"
proof -
  obtain hp s where st: "st = (hp, s)" by fastforce
  show ?thesis
  proof (cases "hp_pending hp = 0")
    case True
    with assms show ?thesis using takes_in_none [of hp hp s s] by (auto simp: live_round_def st)
  next
    case False
    let ?hp = "hp\<lparr> hp_pending := hp_pending hp - min 64 (hp_pending hp) \<rparr>"
    from assms False have "live_batch W raises 0 ms (?hp, s) = Inr st'" by (simp add: live_round_def st)
    then obtain names where "takes_in names (?hp, s) st'" using live_batch_takes_in by blast
    then show ?thesis by (auto simp: takes_in_def st)
  qed
qed

lemma worker_loop_takes_in:
  "worker_loop W raises es st = Inr st' \<Longrightarrow> \<exists>names. takes_in names st st'"
proof (induction W raises es st rule: worker_loop.induct)
  case (2 W raises es st)
  have "takes_in [] (fst st, snd st) (hotplug_signal_handler (fst st), snd st)"
    by (rule takes_in_none) (simp_all add: hotplug_signal_handler_def)
  then have "takes_in [] st (hotplug_signal_handler (fst st), snd st)" by simp
  moreover obtain names where "takes_in names (hotplug_signal_handler (fst st), snd st) st'"
    using "2.IH" "2.prems" by auto
  ultimately show ?case using takes_in_trans by blast
next
  case (5 W raises ms es st)
  then obtain st1 where r: "live_round W raises ms st = Inr st1"
    and l: "worker_loop W raises es st1 = Inr st'" by auto
  from live_round_takes_in [OF r] "5.IH" [OF r l] show ?case by (blast intro: takes_in_trans)
qed (auto simp: takes_in_def)


section \<open>A library that registers nothing\<close>

text \<open>
  a library loaded into the running system server that registers no module does no harm:
  it is recorded and no callback of it is called, while the same library would bring an
  application down at its start.
\<close>

theorem live_unregistered_survives:
  assumes "me_name m \<notin> set (hp_loaded hp)" "ld_entry (usable W (me_memfd m)) \<noteq> 0"
    and "w_acts W (ld_entry (usable W (me_memfd m))) OnLoad = []"
  shows "\<exists>s'. live_load W raises i m (hp, s) = Inr (hp\<lparr> hp_loaded := hp_loaded hp @ [me_name m] \<rparr>, s') \<and>
     invocations (ss_log s') =
       invocations (ss_log s) @ [Invoke (ld_entry (usable W (me_memfd m))) OnLoad None]"
proof -
  let ?lm = "usable W (me_memfd m)"
  obtain s1 where l: "LoadModuleFromMemfd W (me_memfd m) s = (?lm, s1)" and c: "ss_ctx s1 = ss_ctx s"
    and lg: "invocations (ss_log s1) = invocations (ss_log s)" by (rule LoadModule_usable)
  let ?k = "length (z_modules (ss_ctx s1))"
  let ?z = "ZygiskModule (of_nat i) (me_name m) (ld_handle ?lm) (ld_entry ?lm) (ld_custom ?lm)"
  let ?s2 = "on_ctx (\<lambda>c. c\<lparr> z_flags := SERVER_FORK_AND_SPECIALIZE \<rparr>) (add_module (of_nat i) (me_name m) ?lm s1)"
  let ?s3 = "emit [Ev_invoke (Invoke (ld_entry ?lm) OnLoad None)] ?s2"
  have z2: "z_modules (ss_ctx ?s2) ! ?k = ?z" by (simp add: on_ctx_def add_module_def nth_append)
  have e: "zm_entry ?z = ld_entry ?lm" by (simp add: ZygiskModule_def)
  have i3: "invoke W ?k onLoad ?s2 = Inr ?s3"
    unfolding invoke_def z2 onLoad_def e using assms(3) by simp
  have "z_modules (ss_ctx ?s3) ! ?k = ?z" using z2 by (simp add: emit_def)
  moreover have "\<not> valid ?z" by (simp add: valid_def ZygiskModule_def)
  ultimately have "server_callbacks W raises ?k ?s2 = Inr ?s3"
    by (simp add: server_callbacks_def i3 Let_def)
  moreover have u: "\<not> zm_unload (z_modules (ss_ctx (set_module ?k (clearApi (z_modules (ss_ctx ?s3) ! ?k)) ?s3)) ! ?k)"
    using \<open>z_modules (ss_ctx ?s3) ! ?k = ?z\<close>
    by (simp add: set_module_def on_ctx_def clearApi_def ZygiskModule_def add_module_def emit_def)
  ultimately show ?thesis
    using assms(1,2) l lg
    by (simp add: live_load_def Let_def tryUnload_session_def)
      (simp add: set_module_def on_ctx_def emit_def add_module_def)
qed

section \<open>The pipe\<close>

text \<open>
  A signal that arrives while the loader is armed keeps the worker from sleeping until it has
  asked the daemon.
\<close>

lemma signal_wakes_worker:
  "hp_armed hp \<Longrightarrow> 0 < hp_pending (hotplug_signal_handler hp)"
  by (auto simp: hotplug_signal_handler_def)

lemma one_worker:
  "start_live_hotplug_worker created hp = (started, hp') \<Longrightarrow> started \<Longrightarrow>
     start_live_hotplug_worker created' hp' = (False, hp')"
  by (auto simp: start_live_hotplug_worker_def split: if_splits)

text \<open>A worker the VM does not accept ends, but counts as started: none is started again.\<close>

lemma rejected_worker_is_final:
  assumes "start_live_hotplug_worker True hp = (True, hp1)"
    and "hotplug_worker W raises False fd_max open_fds es (hp1, s) = Inr (hp2, s2)"
  shows "start_live_hotplug_worker created hp2 = (False, hp2)"
  using assms by (auto simp: start_live_hotplug_worker_def hotplug_worker_def split: if_splits)

section \<open>Concrete runs\<close>

text \<open>A system server booted with module \<open>a\<close>; two signals, with \<open>b\<close> listed twice and again.\<close>

definition booted_session :: session where
  "booted_session =
     on_ctx (\<lambda>c. c\<lparr> z_flags := SERVER_FORK_AND_SPECIALIZE, z_modules := [ZygiskModule 0 [97] 100 200 True],
                    z_pid := 0 \<rparr>) sample_session"

definition quiet_world :: world where
  "quiet_world = sample_world\<lparr> w_acts := (\<lambda>e cb. if cb = OnLoad then [Act_register (Some sample_abi)] else []) \<rparr>"

definition cold_hotplug :: hotplug where
  "cold_hotplug = \<lparr> hp_armed = False, hp_pending = 0, hp_loaded = [], hp_flags = 0, hp_started = False \<rparr>"

definition all_granted :: arming where
  "all_granted = \<lparr> am_vm = True, am_signal_free = True, am_pipe = True, am_action = True \<rparr>"

definition sample_events :: "live_event list" where
  "sample_events =
     [Live_signal, Poll_interrupted,
      Live_round [\<lparr> me_name = [97], me_memfd = 9 \<rparr>, \<lparr> me_name = [98], me_memfd = 10 \<rparr>,
                  \<lparr> me_name = [98], me_memfd = 11 \<rparr>],
      Live_signal, Live_round [\<lparr> me_name = [98], me_memfd = 12 \<rparr>]]"

definition registered_session :: session where
  "registered_session =
     on_ctx (\<lambda>c. c\<lparr> z_modules := map (snd \<circ> RegisterModuleImpl (Some sample_abi)) (z_modules c) \<rparr>) booted_session"

definition armed_hotplug :: hotplug where
  "armed_hotplug = cold_hotplug\<lparr> hp_armed := True, hp_loaded := [[97]] \<rparr>"


lemma live_unregistered_survives_witness:
  "\<exists>s'. live_load (quiet_world\<lparr> w_acts := \<lambda>_ _. [] \<rparr>) (\<lambda>_ _. False) 0 \<lparr> me_name = [98], me_memfd = 10 \<rparr>
       (cold_hotplug, sample_session) = Inr (cold_hotplug\<lparr> hp_loaded := [[98]] \<rparr>, s') \<and>
     invocations (ss_log s') = [Invoke 200 OnLoad None]"
proof -
  let ?W = "quiet_world\<lparr> w_acts := \<lambda>_ _. [] \<rparr>"
  have e: "ld_entry (usable ?W 10) = 200"
    by (simp add: usable_def quiet_world_def sample_world_def)
  show ?thesis
    using live_unregistered_survives [of "\<lparr> me_name = [98], me_memfd = 10 \<rparr>" cold_hotplug ?W "\<lambda>_ _. False" 0 sample_session] e
    by (simp add: cold_hotplug_def sample_session_def)
qed

end
