(* ===== verification/Remote.thy ===== *)
theory Remote
  imports Os
begin

text \<open>
  The traced process as \<open>ptracer/utils.cpp\<close> sees it: its registers, its memory with the
  protection of every address, and the access to both from outside (\<open>get_regs\<close>, \<open>set_regs\<close>,
  \<open>read_proc\<close>, \<open>write_proc\<close>); the memory maps (\<open>MapInfo::Scan\<close>) and the searches in them.
  The two 64-bit builds are modelled; the registers carry their names of \<open>sys/user.h\<close>.
\<close>

section \<open>Registers\<close>

datatype arch = Aarch64 | X86_64

datatype reg =
    Xreg nat | Sp | Pc | Pstate
  | Rax | Orig_rax | Rdi | Rsi | Rdx | Rcx | R8 | R9 | R10 | Rsp | Rip

type_synonym regs = "reg \<Rightarrow> u64"

fun REG_SP :: "arch \<Rightarrow> reg" where
  "REG_SP Aarch64 = Sp"
| "REG_SP X86_64 = Rsp"

fun REG_IP :: "arch \<Rightarrow> reg" where
  "REG_IP Aarch64 = Pc"
| "REG_IP X86_64 = Rip"

fun REG_RET :: "arch \<Rightarrow> reg" where
  "REG_RET Aarch64 = Xreg 0"
| "REG_RET X86_64 = Rax"

fun REG_SYSNR :: "arch \<Rightarrow> reg" where
  "REG_SYSNR Aarch64 = Xreg 8"
| "REG_SYSNR X86_64 = Orig_rax"

lemma reg_names_distinct [simp]:
  "REG_SP a \<noteq> REG_IP a" "REG_SP a \<noteq> REG_RET a" "REG_IP a \<noteq> REG_RET a"
  "REG_IP a \<noteq> REG_SP a" "REG_RET a \<noteq> REG_SP a" "REG_RET a \<noteq> REG_IP a"
  by (cases a, simp_all)+

section \<open>Memory\<close>

abbreviation (input) PROT_READ :: u32 where "PROT_READ \<equiv> 1"
abbreviation (input) PROT_WRITE :: u32 where "PROT_WRITE \<equiv> 2"
abbreviation (input) PROT_EXEC :: u32 where "PROT_EXEC \<equiv> 4"

text \<open>\<open>tr_prot\<close> is the protection of the mapping an address lies in, if it lies in one.\<close>

record tracee =
  tr_regs :: regs
  tr_mem :: "u64 \<Rightarrow> u8"
  tr_prot :: "u64 \<Rightarrow> u32 option"

definition peek :: "(u64 \<Rightarrow> u8) \<Rightarrow> u64 \<Rightarrow> nat \<Rightarrow> u8 list" where
  "peek m a n = map (\<lambda>i. m (a + of_nat i)) [0..<n]"

definition poke :: "(u64 \<Rightarrow> u8) \<Rightarrow> u64 \<Rightarrow> u8 list \<Rightarrow> u64 \<Rightarrow> u8" where
  "poke m a bs = (\<lambda>x. if unat (x - a) < length bs then bs ! unat (x - a) else m x)"

definition in_region :: "u64 \<Rightarrow> u64 \<Rightarrow> nat \<Rightarrow> bool" where
  "in_region x a n \<longleftrightarrow> unat (x - a) < n"

definition accessible :: "tracee \<Rightarrow> u32 \<Rightarrow> u64 \<Rightarrow> bool" where
  "accessible t p x \<longleftrightarrow> (case tr_prot t x of None \<Rightarrow> False | Some q \<Rightarrow> q AND p \<noteq> 0)"

text \<open>The number of bytes from \<open>a\<close>, at most \<open>n\<close>, before the first that may not be accessed.\<close>

definition reachable_bytes :: "tracee \<Rightarrow> u32 \<Rightarrow> u64 \<Rightarrow> nat \<Rightarrow> nat" where
  "reachable_bytes t p a n = length (takeWhile (\<lambda>i. accessible t p (a + of_nat i)) [0..<n])"

definition all_accessible :: "tracee \<Rightarrow> u32 \<Rightarrow> u64 \<Rightarrow> nat \<Rightarrow> bool" where
  "all_accessible t p a n \<longleftrightarrow> list_all (\<lambda>i. accessible t p (a + of_nat i)) [0..<n]"

text \<open>
  \<open>process_vm_readv\<close> and \<open>process_vm_writev\<close> transfer up to the first address they may not
  access, and report \<open>-1\<close> when that is the first of all.
\<close>

definition read_proc :: "tracee \<Rightarrow> u64 \<Rightarrow> nat \<Rightarrow> int \<times> u8 list" where
  "read_proc t a n =
     (let k = reachable_bytes t PROT_READ a n in
      if k = 0 \<and> 0 < n then (- 1, []) else (int k, peek (tr_mem t) a k))"

definition write_proc :: "tracee \<Rightarrow> u64 \<Rightarrow> u8 list \<Rightarrow> int \<times> tracee" where
  "write_proc t a bs =
     (let k = reachable_bytes t PROT_WRITE a (length bs) in
      if k = 0 \<and> bs \<noteq> [] then (- 1, t)
      else (int k, t\<lparr> tr_mem := poke (tr_mem t) a (take k bs) \<rparr>))"

lemma length_peek [simp]: "length (peek m a n) = n"
  by (simp add: peek_def)

lemma unat_add_diff [simp]: "unat ((a :: u64) + of_nat i - a) = i mod 2 ^ 64"
  by (simp add: unat_of_nat)

lemma peek_poke_same [simp]: "length bs < 2 ^ 64 \<Longrightarrow> peek (poke m a bs) a (length bs) = bs"
  by (rule nth_equalityI) (auto simp: peek_def poke_def unat_of_nat)

lemma poke_outside: "\<not> in_region x a (length bs) \<Longrightarrow> poke m a bs x = m x"
  by (simp add: poke_def in_region_def)

lemma peek_poke_disjoint:
  "(\<And>i. i < n \<Longrightarrow> \<not> in_region (b + of_nat i) a (length bs)) \<Longrightarrow> peek (poke m a bs) b n = peek m b n"
  by (simp add: peek_def poke_outside)

lemma poke_empty [simp]: "poke m a [] = m"
  by (simp add: poke_def)

lemma reachable_le: "reachable_bytes t p a n \<le> n"
  using length_takeWhile_le [of "\<lambda>i. accessible t p (a + of_nat i)" "[0..<n]"]
  by (simp add: reachable_bytes_def)

lemma takeWhile_length_iff: "length (takeWhile P xs) = length xs \<longleftrightarrow> list_all P xs"
  by (induction xs) auto

lemma reachable_all: "reachable_bytes t p a n = n \<longleftrightarrow> all_accessible t p a n"
  using takeWhile_length_iff [of "\<lambda>i. accessible t p (a + of_nat i)" "[0..<n]"]
  by (simp add: reachable_bytes_def all_accessible_def)

lemma all_accessible_reachable [simp]: "all_accessible t p a n \<Longrightarrow> reachable_bytes t p a n = n"
  by (simp add: reachable_all)

lemma write_proc_full:
  "write_proc t a bs = (int (length bs), t') \<longleftrightarrow>
     all_accessible t PROT_WRITE a (length bs) \<and> t' = t\<lparr> tr_mem := poke (tr_mem t) a bs \<rparr>"
  using reachable_all [of t PROT_WRITE a "length bs"]
  by (auto simp: write_proc_def Let_def)

lemma read_proc_full:
  "read_proc t a n = (int n, bs) \<longleftrightarrow> all_accessible t PROT_READ a n \<and> bs = peek (tr_mem t) a n"
  using reachable_all [of t PROT_READ a n] by (auto simp: read_proc_def Let_def)

lemma write_proc_frame:
  "write_proc t a bs = (n, t') \<Longrightarrow> tr_regs t' = tr_regs t \<and> tr_prot t' = tr_prot t"
  by (auto simp: write_proc_def Let_def split: if_splits)

lemma write_proc_outside:
  "write_proc t a bs = (n, t') \<Longrightarrow> \<not> in_region x a (length bs) \<Longrightarrow> tr_mem t' x = tr_mem t x"
  by (auto simp: write_proc_def Let_def poke_def in_region_def split: if_splits)

section \<open>Memory maps\<close>

record map_info =
  mp_start :: u64
  mp_end :: u64
  mp_perms :: u8
  mp_private :: bool
  mp_offset :: u64
  mp_dev :: u64
  mp_inode :: u64
  mp_path :: string

text \<open>
  The conversions of \<open>sscanf\<close>: leading blanks, a sign, the digits, and for hexadecimal an
  optional \<open>0x\<close>; a value beyond the widest integer is cut to its maximum.
\<close>

definition hex_value :: "char \<Rightarrow> nat option" where
  "hex_value c =
     (let n = of_char c :: nat in
      if 48 \<le> n \<and> n \<le> 57 then Some (n - 48)
      else if 97 \<le> n \<and> n \<le> 102 then Some (n - 87)
      else if 65 \<le> n \<and> n \<le> 70 then Some (n - 55) else None)"

definition digit_of :: "nat \<Rightarrow> char \<Rightarrow> nat option" where
  "digit_of base c = (case hex_value c of Some d \<Rightarrow> if d < base then Some d else None | None \<Rightarrow> None)"

fun scan_digits :: "nat \<Rightarrow> nat \<Rightarrow> string \<Rightarrow> nat \<times> string" where
  "scan_digits base v [] = (v, [])"
| "scan_digits base v (c # cs) =
     (case digit_of base c of None \<Rightarrow> (v, c # cs) | Some d \<Rightarrow> scan_digits base (v * base + d) cs)"

definition strip_sign :: "string \<Rightarrow> bool \<times> string" where
  "strip_sign s =
     (case s of [] \<Rightarrow> (False, [])
      | c # r \<Rightarrow> if c = CHR ''-'' then (True, r) else if c = CHR ''+'' then (False, r) else (False, s))"

definition strip_0x :: "nat \<Rightarrow> string \<Rightarrow> string" where
  "strip_0x base s =
     (case s of a # b # c # r \<Rightarrow>
        if base = 16 \<and> a = CHR ''0'' \<and> (b = CHR ''x'' \<or> b = CHR ''X'') \<and> digit_of 16 c \<noteq> None
        then c # r else s
      | _ \<Rightarrow> s)"

definition scan_number :: "nat \<Rightarrow> string \<Rightarrow> (u64 \<times> string) option" where
  "scan_number base s =
     (let (neg, t) = strip_sign (dropWhile is_space s); u = strip_0x base t in
      case u of
        [] \<Rightarrow> None
      | c # _ \<Rightarrow>
          if digit_of base c = None then None
          else let (v, rest) = scan_digits base 0 u;
                   w = (if 2 ^ 64 \<le> v then - 1 else of_nat v) :: u64
               in Some (if neg \<and> v < 2 ^ 64 then - w else w, rest))"

definition scan_literal :: "char \<Rightarrow> string \<Rightarrow> string option" where
  "scan_literal c s = (case s of d # r \<Rightarrow> if d = c then Some r else None | [] \<Rightarrow> None)"

text \<open>\<open>%4s\<close>: at most four characters that are no blanks, and at least one.\<close>

definition scan_word4 :: "string \<Rightarrow> (string \<times> string) option" where
  "scan_word4 s =
     (let t = dropWhile is_space s; w = take 4 (takeWhile (\<lambda>c. \<not> is_space c) t)
      in if w = [] then None else Some (w, drop (length w) t))"

definition makedev :: "u32 \<Rightarrow> u32 \<Rightarrow> u64" where
  "makedev ma mi =
     (push_bit 32 (ucast ma AND 0xfffff000)) OR (push_bit 8 (ucast ma AND 0xfff)) OR
     (push_bit 12 (ucast mi AND 0xffffff00)) OR (ucast mi AND 0xff)"

definition perm_bits :: "string \<Rightarrow> u8" where
  "perm_bits p =
     (if take 1 p = ''r'' then 1 else 0) OR (if take 1 (drop 1 p) = ''w'' then 2 else 0) OR
     (if take 1 (drop 2 p) = ''x'' then 4 else 0)"

definition scan_line :: "string \<Rightarrow> map_info option" where
  "scan_line line =
     (case scan_number 16 line of None \<Rightarrow> None | Some (s_start, r1) \<Rightarrow>
      case scan_literal (CHR ''-'') r1 of None \<Rightarrow> None | Some r2 \<Rightarrow>
      case scan_number 16 r2 of None \<Rightarrow> None | Some (s_end, r3) \<Rightarrow>
      case scan_word4 r3 of None \<Rightarrow> None | Some (perm, r4) \<Rightarrow>
      case scan_number 16 r4 of None \<Rightarrow> None | Some (off, r5) \<Rightarrow>
      case scan_number 16 r5 of None \<Rightarrow> None | Some (ma, r6) \<Rightarrow>
      case scan_literal (CHR '':'') r6 of None \<Rightarrow> None | Some r7 \<Rightarrow>
      case scan_number 16 r7 of None \<Rightarrow> None | Some (mi, r8) \<Rightarrow>
      case scan_number 10 r8 of None \<Rightarrow> None | Some (inode, r9) \<Rightarrow>
        Some \<lparr> mp_start = s_start, mp_end = s_end, mp_perms = perm_bits perm,
               mp_private = (take 1 (drop 3 perm) = ''p''), mp_offset = off,
               mp_dev = makedev (ucast ma) (ucast mi), mp_inode = inode,
               mp_path = takeWhile (\<lambda>c. c \<noteq> CHR 0x0A) (dropWhile is_space r9) \<rparr>)"

text \<open>\<open>MapInfo::Scan\<close>: the lines of the file, \<open>None\<close> when it cannot be opened.\<close>

definition Scan :: "string list option \<Rightarrow> map_info list" where
  "Scan lines = (case lines of None \<Rightarrow> [] | Some ls \<Rightarrow> List.map_filter scan_line ls)"

section \<open>Searching the maps\<close>

definition has_perm :: "u8 \<Rightarrow> u8 \<Rightarrow> bool" where
  "has_perm p q \<longleftrightarrow> p AND q \<noteq> 0"

definition get_addr_mem_region :: "map_info list \<Rightarrow> u64 \<Rightarrow> string" where
  "get_addr_mem_region info x =
     (case find (\<lambda>m. mp_start m \<le> x \<and> x < mp_end m) info of
        None \<Rightarrow> ''<unknown>''
      | Some m \<Rightarrow> mp_path m @ '' '' @ (if has_perm (mp_perms m) 1 then ''r'' else ''-'') @
          (if has_perm (mp_perms m) 2 then ''w'' else ''-'') @
          (if has_perm (mp_perms m) 4 then ''x'' else ''-''))"

definition find_module_return_addr :: "map_info list \<Rightarrow> string \<Rightarrow> u64" where
  "find_module_return_addr info suf =
     (case find (\<lambda>m. \<not> has_perm (mp_perms m) 4 \<and> ends_with (mp_path m) suf) info of
        Some m \<Rightarrow> mp_start m | None \<Rightarrow> 0)"

definition find_module_base :: "map_info list \<Rightarrow> string \<Rightarrow> u64" where
  "find_module_base info suf =
     (case find (\<lambda>m. mp_offset m = 0 \<and> ends_with (mp_path m) suf) info of
        Some m \<Rightarrow> mp_start m | None \<Rightarrow> 0)"

text \<open>\<open>lookup\<close> is the dynamic linker of the injector: the address of a symbol of a library.\<close>

definition find_func_addr ::
  "(string \<Rightarrow> string \<Rightarrow> u64 option) \<Rightarrow> map_info list \<Rightarrow> map_info list \<Rightarrow> string \<Rightarrow> string \<Rightarrow> u64" where
  "find_func_addr lookup local_info remote_info module func =
     (case lookup module func of
        None \<Rightarrow> 0
      | Some local_sym \<Rightarrow>
          if local_sym = 0 then 0
          else let local_base = find_module_base local_info module in
            if local_base = 0 then 0
            else let remote_base = find_module_base remote_info module in
              if remote_base = 0 then 0 else remote_base + (local_sym - local_base))"

end
