(* ===== verification/Remote_Call.thy ===== *)
theory Remote_Call
  imports Remote
begin

text \<open>
  The calls and system calls the injector makes in the tracee (\<open>ptracer/utils.cpp\<close>:
  \<open>align_stack\<close>, \<open>push_string\<close>, \<open>remote_call\<close>, \<open>tracee_skip_syscall\<close>, \<open>wait_for_trace\<close>,
  \<open>find_syscall_gadget\<close>, \<open>wait_for_ptrace_syscall_stop\<close>, \<open>remote_syscall\<close>).

  What the tracee does between two stops is not code of the repository.  A script of events
  stands for it: each wait is interrupted, fails, or reports a status, and then the tracee
  has changed by the given function of its state.  A script that ends is a tracee that never
  stops again.  The answers of the ptrace requests come from a list of their own; when it is
  used up they succeed.
\<close>

datatype event = Wait_interrupted | Wait_error | Stops int "tracee \<Rightarrow> tracee"

datatype request =
    Req_getregs | Req_setregs | Req_cont int | Req_syscall | Req_skip
  | Req_seize | Req_attach | Req_setoptions | Req_kill int | Req_detach int

record world =
  wd_tracee :: tracee
  wd_script :: "event list"
  wd_answers :: "bool list"
  wd_requests :: "request list"

text \<open>The injector ends with a code, or waits or runs for ever.\<close>

datatype halt = Exited int | Blocked

type_synonym 'a run = "halt + 'a"

definition ask :: "request \<Rightarrow> world \<Rightarrow> bool \<times> world" where
  "ask q w =
     (case wd_answers w of
        [] \<Rightarrow> (True, w\<lparr> wd_requests := wd_requests w @ [q] \<rparr>)
      | b # bs \<Rightarrow> (b, w\<lparr> wd_requests := wd_requests w @ [q], wd_answers := bs \<rparr>))"

definition get_regs :: "regs \<Rightarrow> world \<Rightarrow> (bool \<times> regs) \<times> world" where
  "get_regs regs w =
     (case ask Req_getregs w of (ok, w1) \<Rightarrow>
        if ok then ((True, tr_regs (wd_tracee w1)), w1) else ((False, regs), w1))"

definition set_regs :: "regs \<Rightarrow> world \<Rightarrow> bool \<times> world" where
  "set_regs regs w =
     (case ask Req_setregs w of (ok, w1) \<Rightarrow>
        if ok then (True, w1\<lparr> wd_tracee := (wd_tracee w1)\<lparr> tr_regs := regs \<rparr> \<rparr>) else (False, w1))"

definition write_remote :: "u64 \<Rightarrow> u8 list \<Rightarrow> world \<Rightarrow> int \<times> world" where
  "write_remote a bs w =
     (case write_proc (wd_tracee w) a bs of (n, t) \<Rightarrow> (n, w\<lparr> wd_tracee := t \<rparr>))"

lemma ask_frame [simp]:
  "wd_tracee (snd (ask q w)) = wd_tracee w" "wd_script (snd (ask q w)) = wd_script w"
  by (simp_all add: ask_def split: list.splits)

section \<open>The stack\<close>

definition STACK_ALIGN_MASK :: u64 where
  "STACK_ALIGN_MASK = NOT 0xf"

definition align_stack :: "arch \<Rightarrow> u64 \<Rightarrow> regs \<Rightarrow> regs" where
  "align_stack a preserve regs =
     regs(REG_SP a := (regs (REG_SP a) - preserve) AND STACK_ALIGN_MASK)"

text \<open>The bytes of a word and of a string with its end.\<close>

definition word_bytes :: "u64 \<Rightarrow> u8 list" where
  "word_bytes v = le_bytes 8 (unat v)"

definition c_string :: "string \<Rightarrow> u8 list" where
  "c_string s = map (\<lambda>c. of_nat (of_char c)) (takeWhile (\<lambda>c. c \<noteq> nul) s) @ [0]"

lemma length_word_bytes [simp]: "length (word_bytes v) = 8"
  by (simp add: word_bytes_def)

definition push_string :: "arch \<Rightarrow> string \<Rightarrow> regs \<Rightarrow> world \<Rightarrow> u64 \<times> regs \<times> world" where
  "push_string a s regs w =
     (let bytes = c_string s;
          regs1 = align_stack a 0 (regs(REG_SP a := regs (REG_SP a) - of_nat (length bytes)));
          remote_addr = regs1 (REG_SP a)
      in case write_remote remote_addr bytes w of (n, w1) \<Rightarrow>
           if n \<noteq> int (length bytes) then (0, regs1, w1) else (remote_addr, regs1, w1))"

section \<open>Waiting\<close>

text \<open>\<open>tracee_skip_syscall\<close> gives up the process when the registers cannot be exchanged.\<close>

definition tracee_skip_syscall :: "arch \<Rightarrow> world \<Rightarrow> world run" where
  "tracee_skip_syscall a w =
     (case get_regs (\<lambda>_. 0) w of ((ok, regs), w1) \<Rightarrow>
        if \<not> ok then Inl (Exited 1)
        else case set_regs (regs(REG_SYSNR a := - 1)) w1 of (ok2, w2) \<Rightarrow>
          if \<not> ok2 then Inl (Exited 1)
          else Inr (case a of Aarch64 \<Rightarrow> w2\<lparr> wd_requests := wd_requests w2 @ [Req_skip] \<rparr>
                            | X86_64 \<Rightarrow> w2))"

definition is_seccomp_stop :: "int \<Rightarrow> bool" where
  "is_seccomp_stop status \<longleftrightarrow> status div 256 = or SIGTRAP (PTRACE_EVENT_SECCOMP * 256)"

definition resume :: "request \<Rightarrow> world \<Rightarrow> world" where
  "resume q w = w\<lparr> wd_requests := wd_requests w @ [q] \<rparr>"

fun wait_loop :: "arch \<Rightarrow> event list \<Rightarrow> world \<Rightarrow> (int \<times> world) run" where
  "wait_loop a [] w = Inl Blocked"
| "wait_loop a (Wait_interrupted # es) w = wait_loop a es w"
| "wait_loop a (Wait_error # es) w = Inl (Exited 1)"
| "wait_loop a (Stops status f # es) w =
     (let w1 = w\<lparr> wd_tracee := f (wd_tracee w) \<rparr> in
      if is_seccomp_stop status then
        bind_res (tracee_skip_syscall a w1) (\<lambda>w2. wait_loop a es (resume (Req_cont 0) w2))
      else if \<not> WIFSTOPPED status then Inl (Exited 1)
      else Inr (status, w1\<lparr> wd_script := es \<rparr>))"

definition wait_for_trace :: "arch \<Rightarrow> world \<Rightarrow> (int \<times> world) run" where
  "wait_for_trace a w = wait_loop a (wd_script w) w"

section \<open>Remote calls\<close>

text \<open>The words on the stack lie at rising addresses.\<close>

definition stack_bytes :: "u64 list \<Rightarrow> u8 list" where
  "stack_bytes ws = concat (map word_bytes ws)"

definition push_words :: "arch \<Rightarrow> u64 list \<Rightarrow> regs \<Rightarrow> world \<Rightarrow> bool \<times> regs \<times> world" where
  "push_words a ws regs w =
     (let n = 8 * length ws; regs1 = regs(REG_SP a := regs (REG_SP a) - of_nat n)
      in case write_remote (regs1 (REG_SP a)) (stack_bytes ws) w of (k, w1) \<Rightarrow>
           (k = int n, regs1, w1))"

definition assign :: "reg list \<Rightarrow> u64 list \<Rightarrow> regs \<Rightarrow> regs" where
  "assign rs vs regs = foldl (\<lambda>r (x, v). r(x := v)) regs (zip rs vs)"

definition call_regs :: "arch \<Rightarrow> reg list" where
  "call_regs a = (case a of X86_64 \<Rightarrow> [Rdi, Rsi, Rdx, Rcx, R8, R9] | Aarch64 \<Rightarrow> map Xreg [0..<8])"

text \<open>The calling convention: the arguments, the return address and the entry.\<close>

definition call_setup_x86_64 ::
  "u64 \<Rightarrow> u64 \<Rightarrow> u64 list \<Rightarrow> regs \<Rightarrow> world \<Rightarrow> bool \<times> regs \<times> world" where
  "call_setup_x86_64 func_addr return_addr args regs w =
     (let regs1 = assign (call_regs X86_64) args regs in
      case (if 6 < length args then push_words X86_64 (drop 6 args) regs1 w else (True, regs1, w)) of
        (ok, regs2, w2) \<Rightarrow>
          if \<not> ok then (False, regs2, w2)
          else case push_words X86_64 [return_addr] regs2 w2 of (ok3, regs3, w3) \<Rightarrow>
            if \<not> ok3 then (False, regs3, w3)
            else (True, regs3(REG_IP X86_64 := func_addr), w3))"

definition call_setup_aarch64 ::
  "u64 \<Rightarrow> u64 \<Rightarrow> u64 list \<Rightarrow> regs \<Rightarrow> world \<Rightarrow> bool \<times> regs \<times> world" where
  "call_setup_aarch64 func_addr return_addr args regs w =
     (let regs1 = assign (call_regs Aarch64) args regs in
      case (if 8 < length args then push_words Aarch64 (drop 8 args) regs1 w else (True, regs1, w)) of
        (ok, regs2, w2) \<Rightarrow>
          if \<not> ok then (False, regs2, w2)
          else (True, regs2(Xreg 30 := return_addr, REG_IP Aarch64 := func_addr), w2))"

definition call_setup ::
  "arch \<Rightarrow> u64 \<Rightarrow> u64 \<Rightarrow> u64 list \<Rightarrow> regs \<Rightarrow> world \<Rightarrow> bool \<times> regs \<times> world" where
  "call_setup a = (case a of X86_64 \<Rightarrow> call_setup_x86_64 | Aarch64 \<Rightarrow> call_setup_aarch64)"

text \<open>The result and whether the call succeeded, the registers, and the world.\<close>

definition remote_call ::
  "arch \<Rightarrow> u64 \<Rightarrow> u64 \<Rightarrow> u64 list \<Rightarrow> regs \<Rightarrow> world \<Rightarrow> ((u64 \<times> bool) \<times> regs \<times> world) run" where
  "remote_call a func_addr return_addr args regs w =
     (case call_setup a func_addr return_addr args (align_stack a 0 regs) w of (ok, regs1, w1) \<Rightarrow>
        if \<not> ok then Inr ((0, False), regs1, w1)
        else case set_regs regs1 w1 of (ok2, w2) \<Rightarrow>
          if \<not> ok2 then Inr ((0, False), regs1, w2)
          else bind_res (wait_for_trace a (resume (Req_cont 0) w2)) (\<lambda>(status, w3).
            case get_regs regs1 w3 of ((ok4, regs4), w4) \<Rightarrow>
              if \<not> ok4 then Inr ((0, False), regs4, w4)
              else if WIFSTOPPED status \<and> regs4 (REG_IP a) = return_addr
              then Inr ((regs4 (REG_RET a), True), regs4, w4)
              else Inr ((0, False), regs4, w4)))"

section \<open>Remote system calls\<close>

definition svc_insn :: "arch \<Rightarrow> u8 list" where
  "svc_insn a = (case a of Aarch64 \<Rightarrow> [0x01, 0x00, 0x00, 0xD4] | X86_64 \<Rightarrow> [0x0F, 0x05])"

fun scan_insn :: "u8 list \<Rightarrow> u8 list \<Rightarrow> nat list \<Rightarrow> nat option" where
  "scan_insn insn buf [] = None"
| "scan_insn insn buf (j # js) =
     (if take (length insn) (drop j buf) = insn then Some j else scan_insn insn buf js)"

text \<open>The offsets \<open>j\<close> with \<open>j + step \<le> n\<close>, a whole number of steps.\<close>

definition insn_offsets :: "nat \<Rightarrow> nat \<Rightarrow> nat list" where
  "insn_offsets st n = map (\<lambda>i. i * st) [0..<n div st]"

fun gadget_pass :: "arch \<Rightarrow> bool \<Rightarrow> tracee \<Rightarrow> map_info list \<Rightarrow> u64 option" where
  "gadget_pass a vdso_only t [] = None"
| "gadget_pass a vdso_only t (m # ms) =
     (if \<not> has_perm (mp_perms m) 4 \<or> str_contains (mp_path m) ''[vdso]'' \<noteq> vdso_only
      then gadget_pass a vdso_only t ms
      else
        let region_size = min (unat (mp_end m - mp_start m)) (if vdso_only then 0x10000 else 0x100000)
        in case read_proc t (mp_start m) region_size of (n, buf) \<Rightarrow>
             if n \<noteq> int region_size then gadget_pass a vdso_only t ms
             else case scan_insn (svc_insn a) buf (insn_offsets (length (svc_insn a)) region_size) of
               Some j \<Rightarrow> Some (mp_start m + of_nat j)
             | None \<Rightarrow> gadget_pass a vdso_only t ms)"

definition find_syscall_gadget :: "arch \<Rightarrow> tracee \<Rightarrow> map_info list \<Rightarrow> u64" where
  "find_syscall_gadget a t maps =
     (case gadget_pass a True t maps of
        Some g \<Rightarrow> g
      | None \<Rightarrow> (case gadget_pass a False t maps of Some g \<Rightarrow> g | None \<Rightarrow> 0))"

fun syscall_stop_loop :: "event list \<Rightarrow> world \<Rightarrow> (bool \<times> world) run" where
  "syscall_stop_loop [] w = Inl Blocked"
| "syscall_stop_loop (Wait_interrupted # es) w = syscall_stop_loop es w"
| "syscall_stop_loop (Wait_error # es) w = Inr (False, w\<lparr> wd_script := es \<rparr>)"
| "syscall_stop_loop (Stops status f # es) w =
     (let w1 = w\<lparr> wd_tracee := f (wd_tracee w) \<rparr> in
      if WIFEXITED status \<or> WIFSIGNALED status then Inr (False, w1\<lparr> wd_script := es \<rparr>)
      else if WIFSTOPPED status then Inr (True, w1\<lparr> wd_script := es \<rparr>)
      else syscall_stop_loop es w1)"

definition wait_for_ptrace_syscall_stop :: "world \<Rightarrow> (bool \<times> world) run" where
  "wait_for_ptrace_syscall_stop w = syscall_stop_loop (wd_script w) w"

definition syscall_regs :: "arch \<Rightarrow> reg list" where
  "syscall_regs a = (case a of Aarch64 \<Rightarrow> map Xreg [0..<6] | X86_64 \<Rightarrow> [Rdi, Rsi, Rdx, R10, R8, R9])"

definition syscall_setup :: "arch \<Rightarrow> u64 \<Rightarrow> u64 \<Rightarrow> u64 list \<Rightarrow> regs \<Rightarrow> regs" where
  "syscall_setup a gadget sysnr args regs =
     (let numbered = (case a of
            Aarch64 \<Rightarrow> regs(Xreg 8 := sysnr)
          | X86_64 \<Rightarrow> regs(Orig_rax := sysnr, Rax := sysnr));
          cleared = assign (syscall_regs a) (replicate 6 0) numbered;
          loaded = (assign (syscall_regs a) args cleared)(REG_IP a := gadget)
      in case a of
           Aarch64 \<Rightarrow> loaded(Pstate := loaded Pstate AND NOT (push_bit 10 3))
         | X86_64 \<Rightarrow> loaded)"

definition restore_regs :: "regs \<Rightarrow> world \<Rightarrow> regs \<times> world" where
  "restore_regs saved w = (saved, snd (set_regs saved w))"

fun step_syscall :: "nat \<Rightarrow> world \<Rightarrow> (bool \<times> world) run" where
  "step_syscall 0 w = Inr (True, w)"
| "step_syscall (Suc n) w =
     (case ask Req_syscall w of (ok, w1) \<Rightarrow>
        if \<not> ok then Inr (False, w1)
        else bind_res (wait_for_ptrace_syscall_stop w1) (\<lambda>(ok2, w2).
          if \<not> ok2 then Inr (False, w2) else step_syscall n w2))"

definition remote_syscall ::
  "arch \<Rightarrow> u64 \<Rightarrow> u64 \<Rightarrow> u64 list \<Rightarrow> regs \<Rightarrow> world \<Rightarrow> (u64 \<times> regs \<times> world) run" where
  "remote_syscall a gadget sysnr args regs w =
     (case get_regs (\<lambda>_. 0) w of ((ok, saved), w1) \<Rightarrow>
        if \<not> ok then Inr (- 1, regs, w1)
        else
          let regs1 = syscall_setup a gadget sysnr args regs in
          case set_regs regs1 w1 of (ok2, w2) \<Rightarrow>
            if \<not> ok2 then Inr (- 1, restore_regs saved w2)
            else bind_res (step_syscall 2 w2) (\<lambda>(ok3, w3).
              if \<not> ok3 then Inr (- 1, restore_regs saved w3)
              else case get_regs regs1 w3 of ((ok4, regs4), w4) \<Rightarrow>
                if \<not> ok4 then Inr (- 1, restore_regs saved w4)
                else Inr (regs4 (REG_RET a), restore_regs saved w4)))"

end
