(* ===== verification/Soinfo_Layout.thy ===== *)
theory Soinfo_Layout
  imports Prelude "HOL-Library.Code_Target_Nat"
begin

text \<open>
  The declaration of \<open>soinfo\<close> the loader carries for the default offsets
  (\<open>include/linker_soinfo.h\<close>), in its 64-bit form, laid out as the C++ ABI does: every member at
  the next multiple of its alignment.
\<close>

text \<open>A member: its name, its size and its alignment.\<close>

type_synonym struct_member = "string \<times> nat \<times> nat"

definition word_member :: "string \<Rightarrow> struct_member" where
  "word_member nm = (nm, 8, 8)"

definition int_member :: "string \<Rightarrow> struct_member" where
  "int_member nm = (nm, 4, 4)"

definition bool_member :: "string \<Rightarrow> struct_member" where
  "bool_member nm = (nm, 1, 1)"

definition aligned_to :: "nat \<Rightarrow> nat \<Rightarrow> nat" where
  "aligned_to al off = (off + al - 1) div al * al"

text \<open>The members with the bytes they occupy: name, offset and size.\<close>

fun laid_out :: "nat \<Rightarrow> struct_member list \<Rightarrow> (string \<times> nat \<times> nat) list" where
  "laid_out off [] = []"
| "laid_out off ((nm, sz, al) # ms) =
     (let o1 = aligned_to al off in (nm, o1, sz) # laid_out (o1 + sz) ms)"

definition offsetof :: "struct_member list \<Rightarrow> string \<Rightarrow> nat option" where
  "offsetof ms nm = map_option fst (map_of (laid_out 0 ms) nm)"

definition soinfo_head :: "struct_member list" where
  "soinfo_head = map word_member [''phdr'', ''phnum'', ''base'', ''size'', ''dynamic'', ''next''] @
     [int_member ''flags_''] @
     map word_member [''strtab_'', ''symtab_'', ''nbucket_'', ''nchain_'', ''bucket_'', ''chain_'',
       ''plt_rel_'', ''plt_rel_count_'', ''rel_'', ''rel_count_'', ''preinit_array_'',
       ''preinit_array_count_'', ''init_array_'', ''init_array_count_'', ''fini_array_'',
       ''fini_array_count_'', ''init_func_'', ''fini_func_'', ''ref_count_''] @
     [(''link_map_head'', 40, 8), bool_member ''constructors_called'', word_member ''load_bias'',
      bool_member ''has_DT_SYMBOLIC'']"

definition soinfo_tail :: "struct_member list" where
  "soinfo_tail = [int_member ''version_''] @
     map word_member [''st_dev_'', ''st_ino_'', ''children_'', ''parents_'', ''file_offset_''] @
     map int_member [''rtld_flags_'', ''dt_flags_1_''] @
     map word_member [''strtab_size_'', ''gnu_nbucket_'', ''gnu_bucket_'', ''gnu_chain_''] @
     map int_member [''gnu_maskwords_'', ''gnu_shift2_''] @
     map word_member [''gnu_bloom_filter_'', ''local_group_root_'', ''android_relocs_'', ''android_relocs_size_''] @
     [(''soname_'', 24, 8), (''realpath_'', 24, 8)] @
     map word_member [''versym_'', ''verdef_ptr_'', ''verdef_cnt_'', ''verneed_ptr_'', ''verneed_cnt_''] @
     [int_member ''target_sdk_version_'']"

definition soinfo_members :: "struct_member list" where
  "soinfo_members = soinfo_head @ soinfo_tail"

definition get_size_offset :: nat where
  "get_size_offset = the (offsetof soinfo_members ''size'')"

definition get_next_offset :: nat where
  "get_next_offset = the (offsetof soinfo_members ''next'')"

definition get_constructors_called_offset :: nat where
  "get_constructors_called_offset = the (offsetof soinfo_members ''constructors_called'')"

definition get_realpath_offset :: nat where
  "get_realpath_offset = the (offsetof soinfo_members ''realpath_'')"

lemma soinfo_offsets:
  "get_size_offset = 24" "get_next_offset = 40" "get_constructors_called_offset = 248"
  "get_realpath_offset = 416"
  by code_simp+

text \<open>Every member the accessors use is declared.\<close>

lemma soinfo_declared:
  "list_all (\<lambda>nm. offsetof soinfo_members nm \<noteq> None)
     [''size'', ''next'', ''constructors_called'', ''realpath_'', ''link_map_head'']"
  by code_simp

text \<open>
  The setter of \<open>constructors_called\<close> writes eight bytes.  In the declared layout the seven
  behind the flag belong to no member.
\<close>

lemma flag_write_hits_padding:
  "list_all (\<lambda>(nm, off, sz). off + sz \<le> get_constructors_called_offset + 1 \<or>
       get_constructors_called_offset + 8 \<le> off) (laid_out 0 soinfo_members)"
  unfolding soinfo_offsets by code_simp

text \<open>The flag follows the \<open>link_map\<close> directly, which is how the heuristic looks for it.\<close>

lemma flag_behind_link_map:
  "map_option (\<lambda>off. off + 40) (offsetof soinfo_members ''link_map_head'') = Some get_constructors_called_offset"
  by code_simp

end
