(* ===== verification/Solist.thy ===== *)
theory Solist
  imports Remote_Call Soinfo_Layout
begin

text \<open>
  The list of loaded libraries inside the dynamic linker (\<open>injector/solist.cpp\<close>,
  \<open>include/solist.hpp\<close>): finding the private variables of the linker by name, guessing the
  layout of \<open>soinfo\<close> from the values in memory, removing records by path and putting the
  module counters back.  The memory of the process is a function from addresses to bytes; the
  answers of the ELF reader about the linker's file and the linker's own functions are
  parameters.
\<close>

section \<open>Memory\<close>

type_synonym memory = "u64 \<Rightarrow> u8"

definition load8 :: "memory \<Rightarrow> u64 \<Rightarrow> u64" where
  "load8 m a = of_nat (le_value (peek m a 8))"

definition store8 :: "memory \<Rightarrow> u64 \<Rightarrow> u64 \<Rightarrow> memory" where
  "store8 m a v = poke m a (word_bytes v)"

text \<open>\<open>strcmp(s, p) == 0\<close> for a string without NUL.\<close>

definition c_equal :: "memory \<Rightarrow> u64 \<Rightarrow> string \<Rightarrow> bool" where
  "c_equal m p s \<longleftrightarrow> peek m p (length (c_string s)) = c_string s"

section \<open>The linker's variables\<close>

text \<open>
  \<open>li_address\<close> is \<open>findSymbolAddress\<close>, zero for no symbol; \<open>li_prefix\<close> is
  \<open>findSymbolNameByPrefix\<close>, empty for no name.
\<close>

record linker_image =
  li_address :: "string \<Rightarrow> u64"
  li_prefix :: "string \<Rightarrow> string"
  li_path :: string

record linker_vars =
  lv_solinker :: u64
  lv_somain :: u64
  lv_load_counter :: u64
  lv_unload_counter :: u64
  lv_size_off :: u64
  lv_next_off :: u64
  lv_ctor_off :: u64
  lv_path_off :: u64
  lv_realpath :: u64
  lv_free :: u64
  lv_unload :: u64
  lv_guard_ctor :: u64
  lv_guard_dtor :: u64

text \<open>Before the first initialization: nothing found, the declared offsets.\<close>

definition initial_vars :: linker_vars where
  "initial_vars = \<lparr> lv_solinker = 0, lv_somain = 0, lv_load_counter = 0, lv_unload_counter = 0,
     lv_size_off = of_nat get_size_offset, lv_next_off = of_nat get_next_offset,
     lv_ctor_off = of_nat get_constructors_called_offset, lv_path_off = of_nat get_realpath_offset,
     lv_realpath = 0, lv_free = 0, lv_unload = 0, lv_guard_ctor = 0, lv_guard_dtor = 0 \<rparr>"

text \<open>The functions of the linker and of its library, by what they do to memory.\<close>

record linker_code =
  lc_realpath :: "memory \<Rightarrow> u64 \<Rightarrow> string option"
  lc_string :: "memory \<Rightarrow> u64 \<Rightarrow> string"   \<comment> \<open>the \<open>std::string\<close> at an address\<close>
  lc_free :: "memory \<Rightarrow> u64 \<Rightarrow> memory"
  lc_unload :: "memory \<Rightarrow> u64 \<Rightarrow> memory"

definition first_symbol :: "linker_image \<Rightarrow> string \<Rightarrow> string \<Rightarrow> u64" where
  "first_symbol I primary fallback =
     (if li_address I primary \<noteq> 0 then li_address I primary else li_address I fallback)"

text \<open>\<open>ProtectedDataGuard::setup\<close>.\<close>

definition guard_setup :: "linker_image \<Rightarrow> linker_vars \<Rightarrow> bool \<times> linker_vars" where
  "guard_setup I V =
     (let c = first_symbol I ''__dl__ZN18ProtectedDataGuardC2Ev'' ''__dl__ZN18ProtectedDataGuardC1Ev'';
          d = first_symbol I ''__dl__ZN18ProtectedDataGuardD2Ev'' ''__dl__ZN18ProtectedDataGuardD1Ev''
      in (c \<noteq> 0 \<and> d \<noteq> 0, V\<lparr> lv_guard_ctor := c, lv_guard_dtor := d \<rparr>))"

text \<open>\<open>resolveSymbolPointer\<close>: the pointer stored at the symbol.\<close>

definition resolve_pointer :: "linker_image \<Rightarrow> memory \<Rightarrow> string \<Rightarrow> u64" where
  "resolve_pointer I m nm = (if li_address I nm = 0 then 0 else load8 m (li_address I nm))"

text \<open>
  The suffix the compiler gave the private variables is taken from the name of \<open>somain\<close>: at
  most 26 characters are copied, and the buffers of the other names hold no more.
\<close>

abbreviation (input) LLVM_SUFFIX_SIZE :: nat where "LLVM_SUFFIX_SIZE \<equiv> 26"

definition llvm_suffix :: "string \<Rightarrow> string" where
  "llvm_suffix somain_sym_name =
     take LLVM_SUFFIX_SIZE (drop (length ''__dl__ZL6somain'') somain_sym_name)"

section \<open>Guessing the layout\<close>

abbreviation (input) size_minimal :: u64 where "size_minimal \<equiv> 0x100"
abbreviation (input) size_maximal :: u64 where "size_maximal \<equiv> 0x100000"
abbreviation (input) BLOCK_WORDS :: nat where "BLOCK_WORDS \<equiv> 128"

definition plausible_size :: "memory \<Rightarrow> linker_vars \<Rightarrow> nat \<Rightarrow> bool" where
  "plausible_size m V i \<longleftrightarrow>
     (let s = load8 m (lv_somain V + of_nat (8 * i)) in s < size_maximal \<and> size_minimal < s)"

definition plausible_next :: "memory \<Rightarrow> u64 \<Rightarrow> linker_vars \<Rightarrow> nat \<Rightarrow> bool" where
  "plausible_next m vdso V i \<longleftrightarrow>
     (let p = load8 m (lv_solinker V + of_nat (8 * i)) in p = lv_somain V \<or> vdso \<noteq> 0 \<and> p = vdso)"

text \<open>A \<open>link_map\<close> of five words that names the linker, and a flag that is set after it.\<close>

definition plausible_link_map :: "memory \<Rightarrow> string \<Rightarrow> linker_vars \<Rightarrow> nat \<Rightarrow> bool" where
  "plausible_link_map m linker_name V i \<longleftrightarrow>
     (let a = lv_solinker V + of_nat (8 * i) in
      m (a + 40) = 1 \<and> load8 m a \<noteq> 0 \<and> load8 m (a + 8) \<noteq> 0 \<and>
      c_equal m (load8 m (a + 8)) linker_name)"

definition plausible_path :: "linker_code \<Rightarrow> memory \<Rightarrow> string \<Rightarrow> linker_vars \<Rightarrow> nat \<Rightarrow> bool" where
  "plausible_path C m linker_name V i \<longleftrightarrow> lc_string C m (lv_solinker V + of_nat (8 * i)) = linker_name"

text \<open>What has been found so far: the size, the next pointer, the flag.\<close>

datatype progress = Want_size | Want_next | Want_ctor | Want_path

function heuristic_loop ::
  "linker_code \<Rightarrow> memory \<Rightarrow> string \<Rightarrow> u64 \<Rightarrow> nat \<Rightarrow> progress \<Rightarrow> linker_vars \<Rightarrow> progress \<times> linker_vars" where
  "heuristic_loop C m nm vdso i pr V =
     (if \<not> i < BLOCK_WORDS then (pr, V)
      else case pr of
        Want_size \<Rightarrow>
          if plausible_size m V i
          then heuristic_loop C m nm vdso (i + 1) Want_next (V\<lparr> lv_size_off := of_nat (8 * i) \<rparr>)
          else heuristic_loop C m nm vdso (i + 1) Want_size V
      | Want_next \<Rightarrow>
          if plausible_next m vdso V i
          then heuristic_loop C m nm vdso (i + 1) Want_ctor (V\<lparr> lv_next_off := of_nat (8 * i) \<rparr>)
          else heuristic_loop C m nm vdso (i + 1) Want_next V
      | Want_ctor \<Rightarrow>
          if plausible_link_map m nm V i
          then heuristic_loop C m nm vdso (i + 5 + 1) Want_path (V\<lparr> lv_ctor_off := of_nat (8 * i) + 40 \<rparr>)
          else heuristic_loop C m nm vdso (i + 1) Want_ctor V
      | Want_path \<Rightarrow>
          if lv_realpath V \<noteq> 0 then (Want_path, V)
          else if plausible_path C m nm V i then (Want_path, V\<lparr> lv_path_off := of_nat (8 * i) \<rparr>)
          else heuristic_loop C m nm vdso (i + 1) Want_path V)"
  by pat_completeness auto
termination by (relation "measure (\<lambda>(C, m, nm, vdso, i, pr, V). BLOCK_WORDS - i)") auto

declare heuristic_loop.simps [simp del]

definition findHeuristicOffsets ::
  "linker_code \<Rightarrow> memory \<Rightarrow> string \<Rightarrow> u64 \<Rightarrow> linker_vars \<Rightarrow> bool \<times> linker_vars" where
  "findHeuristicOffsets C m nm vdso V =
     (case heuristic_loop C m nm vdso 0 Want_size V of (pr, V1) \<Rightarrow> (pr = Want_path, V1))"

section \<open>Initialization\<close>

definition initialize :: "linker_code \<Rightarrow> linker_image \<Rightarrow> memory \<Rightarrow> linker_vars \<Rightarrow> bool \<times> linker_vars" where
  "initialize C I m V =
     (case guard_setup I V of (ok, V1) \<Rightarrow>
        if \<not> ok then (False, V1)
        else let somain_name = li_prefix I ''__dl__ZL6somain'' in
          if somain_name = [] then (False, V1)
          else let free_name = li_prefix I ''__dl__ZL11soinfo_freeP6soinfo'' in
            if free_name = [] then (False, V1)
            else let unload_name = li_prefix I ''__dl__ZL13soinfo_unloadP6soinfo'' in
              if unload_name = [] then (False, V1)
              else
                let suf = llvm_suffix somain_name;
                    a = resolve_pointer I m (''__dl__ZL8solinker'' @ suf);
                    b = (if a = 0 then resolve_pointer I m (''__dl__ZL6solist'' @ suf) else a);
                    V2 = V1\<lparr> lv_solinker := b \<rparr>
                in if b = 0 then (False, V2)
                   else
                     let vdso = resolve_pointer I m (''__dl__ZL4vdso'' @ suf);
                         V3 = V2\<lparr> lv_realpath := li_address I ''__dl__ZNK6soinfo12get_realpathEv'',
                                  lv_free := li_address I free_name \<rparr>
                     in if lv_free V3 = 0 then (False, V3)
                        else let V4 = V3\<lparr> lv_unload := li_address I unload_name \<rparr> in
                          if lv_unload V4 = 0 then (False, V4)
                          else let V5 = V4\<lparr> lv_load_counter := li_address I ''__dl__ZL21g_module_load_counter'',
                                            lv_unload_counter := li_address I ''__dl__ZL23g_module_unload_counter'',
                                            lv_somain := resolve_pointer I m somain_name \<rparr>
                               in if lv_somain V5 = 0 then (False, V5)
                                  else findHeuristicOffsets C m (li_path I) vdso V5)"

text \<open>Both callers initialize only while \<open>solinker\<close> is null.\<close>

definition ensure_initialized ::
  "linker_code \<Rightarrow> linker_image \<Rightarrow> memory \<Rightarrow> linker_vars \<Rightarrow> bool \<times> linker_vars" where
  "ensure_initialized C I m V = (if lv_solinker V \<noteq> 0 then (True, V) else initialize C I m V)"

section \<open>Removing records\<close>

definition getPath :: "linker_code \<Rightarrow> linker_vars \<Rightarrow> memory \<Rightarrow> u64 \<Rightarrow> string option" where
  "getPath C V m so =
     (if lv_realpath V \<noteq> 0 then lc_realpath C m so else Some (lc_string C m (so + lv_path_off V)))"

definition getSize :: "linker_vars \<Rightarrow> memory \<Rightarrow> u64 \<Rightarrow> u64" where
  "getSize V m so = load8 m (so + lv_size_off V)"

definition setSize :: "linker_vars \<Rightarrow> u64 \<Rightarrow> u64 \<Rightarrow> memory \<Rightarrow> memory" where
  "setSize V so v m = store8 m (so + lv_size_off V) v"

definition getNext :: "linker_vars \<Rightarrow> memory \<Rightarrow> u64 \<Rightarrow> u64" where
  "getNext V m so = load8 m (so + lv_next_off V)"

text \<open>The flag is written as a whole \<open>size_t\<close>.\<close>

definition setConstructorCalled :: "linker_vars \<Rightarrow> u64 \<Rightarrow> bool \<Rightarrow> memory \<Rightarrow> memory" where
  "setConstructorCalled V so b m = store8 m (so + lv_ctor_off V) (if b then 1 else 0)"

definition matches :: "linker_code \<Rightarrow> linker_vars \<Rightarrow> memory \<Rightarrow> string \<Rightarrow> u64 \<Rightarrow> bool" where
  "matches C V m target so =
     (case getPath C V m so of None \<Rightarrow> False | Some p \<Rightarrow> str_contains p target)"

text \<open>One record; a function that was not found is called through null.\<close>

definition drop_record :: "linker_code \<Rightarrow> linker_vars \<Rightarrow> bool \<Rightarrow> u64 \<Rightarrow> memory \<Rightarrow> memory res" where
  "drop_record C V unload so m =
     (let span = getSize V m so; m1 = setSize V so 0 m in
      if unload then
        (if lv_unload V = 0 then Inl Null_deref
         else Inr (setConstructorCalled V so True
                     (lc_unload C (setConstructorCalled V so False m1) so)))
      else (if lv_free V = 0 then Inl Null_deref else Inr (setSize V so span (lc_free C m1 so))))"

text \<open>The records dropped, in order, and the memory.  A list that never ends gives \<open>None\<close>.\<close>

partial_function (option) drop_loop ::
  "linker_code \<Rightarrow> linker_vars \<Rightarrow> string \<Rightarrow> bool \<Rightarrow> u64 \<Rightarrow> u64 list \<Rightarrow> memory \<Rightarrow>
     (u64 list \<times> memory) res option" where
  "drop_loop C V target unload iter dropped m =
     (if iter = 0 then Some (Inr (dropped, m))
      else if matches C V m target iter \<and> 0 < getSize V m iter then
        (case drop_record C V unload iter m of
           Inl e \<Rightarrow> Some (Inl e)
         | Inr m1 \<Rightarrow> drop_loop C V target unload (getNext V m1 iter) (dropped @ [iter]) m1)
      else drop_loop C V target unload (getNext V m iter) dropped m)"

declare drop_loop.simps [code]

definition dropSoPath ::
  "linker_code \<Rightarrow> linker_image \<Rightarrow> string \<Rightarrow> bool \<Rightarrow> linker_vars \<times> memory \<Rightarrow>
     (u64 list \<times> linker_vars \<times> memory) res option" where
  "dropSoPath C I target unload st =
     (case st of (V, m) \<Rightarrow>
        case ensure_initialized C I m V of (ok, V1) \<Rightarrow>
          if \<not> ok then Some (Inr ([], V1, m))
          else map_option (\<lambda>r. bind_res r (\<lambda>(dropped, m1). Inr (dropped, V1, m1)))
                 (drop_loop C V1 target unload (lv_solinker V1) [] m))"

section \<open>The counters\<close>

definition lower :: "u64 \<Rightarrow> u64 \<Rightarrow> memory \<Rightarrow> memory" where
  "lower counter by m =
     (let n = load8 m counter in if by \<le> n then store8 m counter (n - by) else m)"

definition resetCounters ::
  "linker_code \<Rightarrow> linker_image \<Rightarrow> u64 \<Rightarrow> u64 \<Rightarrow> linker_vars \<times> memory \<Rightarrow> linker_vars \<times> memory" where
  "resetCounters C I load unload st =
     (case st of (V, m) \<Rightarrow>
        case ensure_initialized C I m V of (ok, V1) \<Rightarrow>
          if \<not> ok then (V1, m)
          else if lv_load_counter V1 = 0 \<or> lv_unload_counter V1 = 0 then (V1, m)
          else (V1, lower (lv_unload_counter V1) unload (lower (lv_load_counter V1) load m)))"

text \<open>\<open>clean_linker_trace\<close> (\<open>injector/clean.cpp\<close>): with \<open>unload_soinfo\<close> both counters go down alike.\<close>

definition clean_linker_trace ::
  "linker_code \<Rightarrow> linker_image \<Rightarrow> string \<Rightarrow> u64 \<Rightarrow> u64 \<Rightarrow> bool \<Rightarrow> linker_vars \<times> memory \<Rightarrow>
     (u64 list \<times> linker_vars \<times> memory) res option" where
  "clean_linker_trace C I path loaded unloaded unload_soinfo st =
     map_option (\<lambda>r. bind_res r (\<lambda>(dropped, V1, m1).
       Inr (dropped, resetCounters C I loaded (if unload_soinfo then loaded else unloaded) (V1, m1))))
     (dropSoPath C I path unload_soinfo st)"

end
