(* ===== verification/Solist_Properties.thy ===== *)
theory Solist_Properties
  imports Solist
begin

text \<open>
  What the cleaning of the linker's list guarantees: the guess of the layout is a sequence of
  first matches, removal visits every record of a well-formed list when the linker keeps the
  freed record readable and stops at the first one when it clears it, and the counters never
  wrap.
\<close>

section \<open>Words in memory\<close>

text \<open>Two words of eight bytes that do not overlap.\<close>

definition apart :: "u64 \<Rightarrow> u64 \<Rightarrow> bool" where
  "apart a b \<longleftrightarrow> 8 \<le> unat (b - a) \<and> 8 \<le> unat (a - b)"

lemma apart_sym: "apart a b \<Longrightarrow> apart b a"
  by (simp add: apart_def)

lemma apart_region:
  assumes "apart a b" "i < 8"
  shows "\<not> in_region (b + of_nat i) a 8"
proof -
  let ?d = "b - a"
  have "a \<noteq> b" using assms by (auto simp: apart_def)
  then have "unat a \<noteq> unat b" by (simp add: word_unat_eq_iff)
  then have "unat (a - b) = 2 ^ 64 - unat ?d"
    using unsigned_less [where 'a = nat, of a] unsigned_less [where 'a = nat, of b] by (auto simp: unat_sub_if')
  with assms have le: "8 \<le> unat ?d" "unat ?d + i < 2 ^ 64"
    using unsigned_less [where 'a = nat, of ?d] by (auto simp: apart_def)
  have i: "unat (of_nat i :: u64) = i" using assms(2) by (simp add: unat_of_nat)
  have "unat (?d + of_nat i) = unat ?d + i"
    using le(2) i by (simp add: unat_word_ariths(1))
  with le(1) show ?thesis by (simp add: in_region_def algebra_simps)
qed

lemma load8_store8_apart [simp]: "apart a b \<Longrightarrow> load8 (store8 m a v) b = load8 m b"
  by (simp add: load8_def store8_def peek_poke_disjoint apart_region)

lemma load8_store8_same [simp]: "load8 (store8 m a v) a = v"
proof -
  have "peek (poke m a (word_bytes v)) a 8 = word_bytes v"
    using peek_poke_same [of "word_bytes v" m a] by simp
  moreover have "unat v mod 256 ^ 8 = unat v"
    using unsigned_less [where 'a = nat, of v] by simp
  ultimately show ?thesis by (simp add: load8_def store8_def word_bytes_def le_value_le_bytes)
qed

lemma store8_outside: "\<not> in_region x a 8 \<Longrightarrow> store8 m a v x = m x"
  by (simp add: store8_def poke_outside)

section \<open>The guess of the layout\<close>

text \<open>The first index from \<open>i\<close> on, within the block, that satisfies \<open>P\<close>.\<close>

definition first_word :: "(nat \<Rightarrow> bool) \<Rightarrow> nat \<Rightarrow> nat option" where
  "first_word P i = List.find P [i..<BLOCK_WORDS]"

lemma first_word_step:
  "first_word P i = (if \<not> i < BLOCK_WORDS then None else if P i then Some i else first_word P (Suc i))"
  by (simp add: first_word_def upt_rec)

lemma first_word_bound: "first_word P i = Some k \<Longrightarrow> i \<le> k \<and> k < BLOCK_WORDS \<and> P k"
  unfolding first_word_def find_Some_iff by auto

lemma path_search:
  "heuristic_loop C m nm vdso i Want_path V =
     (Want_path, if lv_realpath V \<noteq> 0 then V
                 else case first_word (plausible_path C m nm V) i of None \<Rightarrow> V
                      | Some k \<Rightarrow> V\<lparr> lv_path_off := of_nat (8 * k) \<rparr>)"
proof (induction "BLOCK_WORDS - i" arbitrary: i rule: less_induct)
  case less
  show ?case
    using less [of "Suc i"]
    by (subst heuristic_loop.simps, subst first_word_step) (auto split: option.splits)
qed

lemma ctor_search:
  "heuristic_loop C m nm vdso i Want_ctor V =
     (case first_word (plausible_link_map m nm V) i of None \<Rightarrow> (Want_ctor, V)
      | Some k \<Rightarrow> heuristic_loop C m nm vdso (k + 6) Want_path (V\<lparr> lv_ctor_off := of_nat (8 * k) + 40 \<rparr>))"
proof (induction "BLOCK_WORDS - i" arbitrary: i rule: less_induct)
  case less
  show ?case
    using less [of "Suc i"]
    by (subst heuristic_loop.simps, subst first_word_step) (auto simp: add.commute)
qed

lemma next_search:
  "heuristic_loop C m nm vdso i Want_next V =
     (case first_word (plausible_next m vdso V) i of None \<Rightarrow> (Want_next, V)
      | Some k \<Rightarrow> heuristic_loop C m nm vdso (Suc k) Want_ctor (V\<lparr> lv_next_off := of_nat (8 * k) \<rparr>))"
proof (induction "BLOCK_WORDS - i" arbitrary: i rule: less_induct)
  case less
  show ?case
    using less [of "Suc i"]
    by (subst heuristic_loop.simps, subst first_word_step) auto
qed

lemma size_search:
  "heuristic_loop C m nm vdso i Want_size V =
     (case first_word (plausible_size m V) i of None \<Rightarrow> (Want_size, V)
      | Some k \<Rightarrow> heuristic_loop C m nm vdso (Suc k) Want_next (V\<lparr> lv_size_off := of_nat (8 * k) \<rparr>))"
proof (induction "BLOCK_WORDS - i" arbitrary: i rule: less_induct)
  case less
  show ?case
    using less [of "Suc i"]
    by (subst heuristic_loop.simps, subst first_word_step) auto
qed

text \<open>What the search sets, as four searches one after the other.\<close>

definition guessed_layout ::
  "linker_code \<Rightarrow> memory \<Rightarrow> string \<Rightarrow> u64 \<Rightarrow> linker_vars \<Rightarrow> bool \<times> linker_vars" where
  "guessed_layout C m nm vdso V =
     (case first_word (plausible_size m V) 0 of None \<Rightarrow> (False, V)
      | Some i \<Rightarrow> let V1 = V\<lparr> lv_size_off := of_nat (8 * i) \<rparr> in
        case first_word (plausible_next m vdso V) (Suc i) of None \<Rightarrow> (False, V1)
      | Some j \<Rightarrow> let V2 = V1\<lparr> lv_next_off := of_nat (8 * j) \<rparr> in
        case first_word (plausible_link_map m nm V) (Suc j) of None \<Rightarrow> (False, V2)
      | Some k \<Rightarrow> let V3 = V2\<lparr> lv_ctor_off := of_nat (8 * k) + 40 \<rparr> in
        (True, if lv_realpath V \<noteq> 0 then V3
               else case first_word (plausible_path C m nm V) (k + 6) of None \<Rightarrow> V3
                    | Some l \<Rightarrow> V3\<lparr> lv_path_off := of_nat (8 * l) \<rparr>))"

lemma plausible_frame [simp]:
  "plausible_next m vdso (V\<lparr> lv_size_off := x \<rparr>) = plausible_next m vdso V"
  "plausible_link_map m nm (V\<lparr> lv_size_off := x \<rparr>) = plausible_link_map m nm V"
  "plausible_link_map m nm (V\<lparr> lv_next_off := x \<rparr>) = plausible_link_map m nm V"
  "plausible_path C m nm (V\<lparr> lv_size_off := x \<rparr>) = plausible_path C m nm V"
  "plausible_path C m nm (V\<lparr> lv_next_off := x \<rparr>) = plausible_path C m nm V"
  "plausible_path C m nm (V\<lparr> lv_ctor_off := x \<rparr>) = plausible_path C m nm V"
  by (rule ext, simp add: plausible_next_def plausible_link_map_def plausible_path_def)+

lemma layout_search: "findHeuristicOffsets C m nm vdso V = guessed_layout C m nm vdso V"
  by (simp add: findHeuristicOffsets_def guessed_layout_def size_search next_search ctor_search
      path_search Let_def split: option.split)

text \<open>
  C35: the single loop that guesses the layout of \<open>soinfo\<close> finds the first plausible size, the
  first plausible next pointer after it, the first \<open>link_map\<close> of the linker after that, and the
  first copy of the path behind the map; it fails exactly when one of the first three is missing.
\<close>

theorem layout_guess_exact:
  "findHeuristicOffsets C m nm vdso V = guessed_layout C m nm vdso V"
  by (rule layout_search)

text \<open>The offsets a failed search leaves are the declared ones as long as nothing was found.\<close>

lemma no_guess_keeps_declared:
  assumes "first_word (plausible_size m V) 0 = None"
  shows "findHeuristicOffsets C m nm vdso V = (False, V)"
  using assms by (simp add: layout_search guessed_layout_def)

section \<open>Removing records\<close>

text \<open>The records on the list that starts at an address, in order.\<close>

primrec chain :: "linker_vars \<Rightarrow> memory \<Rightarrow> u64 \<Rightarrow> u64 list \<Rightarrow> bool" where
  "chain V m a [] \<longleftrightarrow> a = 0"
| "chain V m a (n # ns) \<longleftrightarrow> a = n \<and> n \<noteq> 0 \<and> chain V m (getNext V m n) ns"

text \<open>The records \<open>ns\<close> look the same in two memories.\<close>

definition same_records :: "linker_code \<Rightarrow> linker_vars \<Rightarrow> string \<Rightarrow> u64 list \<Rightarrow> memory \<Rightarrow> memory \<Rightarrow> bool" where
  "same_records C V target ns m m1 \<longleftrightarrow>
     list_all (\<lambda>k. getNext V m1 k = getNext V m k \<and> getSize V m1 k = getSize V m k \<and>
       matches C V m1 target k = matches C V m target k) ns"

lemma same_records_refl [simp]: "same_records C V target ns m m"
  by (simp add: same_records_def list_all_iff)

lemma same_records_trans:
  "same_records C V target ns m m1 \<Longrightarrow> same_records C V target ns m1 m2 \<Longrightarrow> same_records C V target ns m m2"
  by (simp add: same_records_def list_all_iff)

lemma same_recordsD:
  assumes "same_records C V target ns m m1" "k \<in> set ns"
  shows "getNext V m1 k = getNext V m k" "getSize V m1 k = getSize V m k"
    "matches C V m1 target k = matches C V m target k"
  using assms by (auto simp: same_records_def list_all_iff)

lemma chain_same: "same_records C V target ns m m1 \<Longrightarrow> chain V m1 a ns = chain V m a ns"
  by (induction ns arbitrary: a) (auto simp: same_records_def)

lemma same_records_mono:
  "same_records C V target ns m m1 \<Longrightarrow> set ks \<subseteq> set ns \<Longrightarrow> same_records C V target ks m m1"
  by (auto simp: same_records_def list_all_iff)

abbreviation selected :: "linker_code \<Rightarrow> linker_vars \<Rightarrow> string \<Rightarrow> memory \<Rightarrow> u64 \<Rightarrow> bool" where
  "selected C V target m n \<equiv> matches C V m target n \<and> 0 < getSize V m n"

lemma drop_step:
  assumes "n \<noteq> 0"
  shows "selected C V target m n \<Longrightarrow> drop_record C V unload n m = Inr m1 \<Longrightarrow>
      drop_loop C V target unload n ds m = drop_loop C V target unload (getNext V m1 n) (ds @ [n]) m1"
    and "\<not> selected C V target m n \<Longrightarrow>
      drop_loop C V target unload n ds m = drop_loop C V target unload (getNext V m n) ds m"
  using assms by (auto simp: drop_loop.simps [of C V target unload n])

lemma drop_walk:
  assumes "chain V m a ks" "set ks \<subseteq> set ns"
    and "\<And>n m. n \<in> set ns \<Longrightarrow> \<exists>m1. drop_record C V unload n m = Inr m1 \<and> same_records C V target ns m m1"
  shows "\<exists>m'. drop_loop C V target unload a ds m = Some (Inr (ds @ filter (selected C V target m) ks, m')) \<and>
     same_records C V target ns m m'"
  using assms(1,2)
proof (induction ks arbitrary: a m ds)
  case Nil
  then show ?case by (auto simp: drop_loop.simps)
next
  case (Cons n ks)
  then have n: "a = n" "n \<noteq> 0" "n \<in> set ns" "set ks \<subseteq> set ns" by auto
  show ?case
  proof (cases "selected C V target m n")
    case True
    from assms(3) [OF n(3), of m] obtain m1 where
      d: "drop_record C V unload n m = Inr m1" and s: "same_records C V target ns m m1" by blast
    have c: "chain V m1 (getNext V m1 n) ks"
      using Cons.prems(1) chain_same [OF same_records_mono [OF s n(4)]] same_recordsD(1) [OF s n(3)] by simp
    have f: "filter (selected C V target m1) ks = filter (selected C V target m) ks"
      using same_recordsD [OF s] n(4) by (intro filter_cong) auto
    from Cons.IH [OF c n(4), where ds = "ds @ [n]"] obtain m' where
      "drop_loop C V target unload (getNext V m1 n) (ds @ [n]) m1 =
         Some (Inr ((ds @ [n]) @ filter (selected C V target m1) ks, m'))"
      "same_records C V target ns m1 m'" by blast
    with drop_step(1) [OF n(2) True d] f True same_records_trans [OF s] n(1) show ?thesis by auto
  next
    case False
    from Cons.IH [where a = "getNext V m n" and m = m and ds = ds] Cons.prems n drop_step(2) [OF n(2) False]
    show ?thesis using False by auto
  qed
qed

text \<open>
  The layout of the records: no size field shares bytes with the next pointer or the size of a
  record of the list.
\<close>

definition fields_apart :: "linker_vars \<Rightarrow> u64 list \<Rightarrow> bool" where
  "fields_apart V ns \<longleftrightarrow>
     list_all (\<lambda>n. list_all (\<lambda>k. apart (n + lv_size_off V) (k + lv_next_off V) \<and>
       (n \<noteq> k \<longrightarrow> apart (n + lv_size_off V) (k + lv_size_off V))) ns) ns"

lemma sizes_keep_fields:
  assumes "fields_apart V ns" "n \<in> set ns" "k \<in> set ns"
  shows "getNext V (setSize V n v m) k = getNext V m k"
    and "getSize V (setSize V n v m) k = (if n = k then v else getSize V m k)"
  using assms by (auto simp: fields_apart_def list_all_iff getNext_def getSize_def setSize_def)

lemma freed_record_same:
  assumes "fields_apart V ns" "lv_free V \<noteq> 0" "n \<in> set ns"
    and path: "\<And>n k v m. n \<in> set ns \<Longrightarrow> k \<in> set ns \<Longrightarrow>
      matches C V (setSize V n v m) target k = matches C V m target k"
    and free: "\<And>n k m. n \<in> set ns \<Longrightarrow> k \<in> set ns \<Longrightarrow> getNext V (lc_free C m n) k = getNext V m k \<and>
      (k \<noteq> n \<longrightarrow> getSize V (lc_free C m n) k = getSize V m k) \<and>
      matches C V (lc_free C m n) target k = matches C V m target k"
  shows "\<exists>m1. drop_record C V False n m = Inr m1 \<and> same_records C V target ns m m1"
  using assms by (auto simp: drop_record_def Let_def same_records_def list_all_iff sizes_keep_fields)


text \<open>
  The allocator of the linker clears a block it takes back.  The walk reads the next pointer of
  the freed record, so it ends there.
\<close>

lemma cleared_walk:
  assumes "chain V m a ks" "set ks \<subseteq> set ns" "fields_apart V ns" "lv_free V \<noteq> 0"
    and clear: "\<And>n m. n \<in> set ns \<Longrightarrow> getNext V (lc_free C m n) n = 0"
  shows "\<exists>m'. drop_loop C V target False a [] m =
     Some (Inr (take 1 (filter (selected C V target m) ks), m'))"
  using assms(1,2)
proof (induction ks arbitrary: a)
  case Nil
  then show ?case by (auto simp: drop_loop.simps)
next
  case (Cons n ks)
  then have n: "a = n" "n \<noteq> 0" "n \<in> set ns" by auto
  show ?case
  proof (cases "selected C V target m n")
    case True
    obtain m1 where d: "drop_record C V False n m = Inr m1" and z: "getNext V m1 n = 0"
      using assms(4) clear [OF n(3)] sizes_keep_fields(1) [OF assms(3) n(3) n(3)]
      by (auto simp: drop_record_def Let_def)
    show ?thesis
      using drop_step(1) [OF n(2) True d, of "[]"] True n(1) by (simp add: z drop_loop.simps [of C V target False 0])
  next
    case False
    then show ?thesis
      using Cons n drop_step(2) [OF n(2) False] by auto
  qed
qed

text \<open>
  when \<open>soinfo_free\<close> clears the record, as the linker's block allocator does, the walk stops
  after the first removal: later records of the same library stay on the list.
\<close>

theorem walk_ends_at_cleared_record:
  assumes "lv_solinker V \<noteq> 0" "lv_free V \<noteq> 0" "chain V m (lv_solinker V) ns" "fields_apart V ns"
    and "\<And>n m. n \<in> set ns \<Longrightarrow> getNext V (lc_free C m n) n = 0"
  shows "\<exists>m'. dropSoPath C I target False (V, m) =
     Some (Inr (take 1 (filter (\<lambda>n. matches C V m target n \<and> 0 < getSize V m n) ns), V, m'))"
  using cleared_walk [OF assms(3) subset_refl assms(4,2,5), where target = target] assms(1)
  by (auto simp: dropSoPath_def ensure_initialized_def)

section \<open>The flag and the first initialization\<close>

text \<open>The flag is one byte; its setter writes eight and clears the seven behind it.\<close>

lemma flag_bytes: "word_bytes 0 = [0, 0, 0, 0, 0, 0, 0, 0]" "word_bytes 1 = [1, 0, 0, 0, 0, 0, 0, 0]"
  by code_simp+

lemma ctor_flag_overwrites:
  assumes "0 < i" "i < 8"
  shows "setConstructorCalled V so b m (so + lv_ctor_off V + of_nat i) = 0"
proof -
  have i: "i \<in> {1, 2, 3, 4, 5, 6, 7}" using assms by auto
  have n: "unat (of_nat i :: u64) = i" using assms by (simp add: unat_of_nat)
  have "poke m a (word_bytes v) (a + of_nat i) = word_bytes v ! i" for a v
    using assms n by (simp add: poke_def in_region_def)
  with i show ?thesis by (auto simp: setConstructorCalled_def store8_def flag_bytes)
qed

text \<open>Once \<open>solinker\<close> is set, an initialization that failed later counts as done.\<close>

lemma failed_initialization_believed:
  assumes "ensure_initialized C I m V = (False, V1)" "lv_solinker V1 \<noteq> 0"
  shows "ensure_initialized C I2 m2 V1 = (True, V1)"
  using assms(2) by (simp add: ensure_initialized_def)

section \<open>The counters\<close>

definition lowered :: "u64 \<Rightarrow> u64 \<Rightarrow> u64" where
  "lowered n by = (if by \<le> n then n - by else n)"

lemma load8_lower: "load8 (lower a n m) a = lowered (load8 m a) n"
  by (simp add: lower_def lowered_def Let_def)

lemma lower_apart: "apart a b \<Longrightarrow> load8 (lower a n m) b = load8 m b"
  by (simp add: lower_def Let_def)

lemma lower_outside: "\<not> in_region x a 8 \<Longrightarrow> lower a n m x = m x"
  by (simp add: lower_def Let_def store8_outside)

text \<open>
  each module counter is lowered by the given number when it holds at least that many and
  left alone otherwise, so neither ever wraps or rises; no other byte changes.
\<close>

theorem counters_never_wrap:
  assumes "lv_solinker V \<noteq> 0" "lv_load_counter V \<noteq> 0" "lv_unload_counter V \<noteq> 0"
    and "apart (lv_load_counter V) (lv_unload_counter V)"
    and "resetCounters C I load unload (V, m) = (V', m')"
  shows "V' = V \<and>
     load8 m' (lv_load_counter V) = lowered (load8 m (lv_load_counter V)) load \<and>
     load8 m' (lv_unload_counter V) = lowered (load8 m (lv_unload_counter V)) unload \<and>
     load8 m' (lv_load_counter V) \<le> load8 m (lv_load_counter V) \<and>
     load8 m' (lv_unload_counter V) \<le> load8 m (lv_unload_counter V) \<and>
     (\<forall>x. \<not> in_region x (lv_load_counter V) 8 \<longrightarrow> \<not> in_region x (lv_unload_counter V) 8 \<longrightarrow> m' x = m x)"
proof -
  have m': "V' = V" "m' = lower (lv_unload_counter V) unload (lower (lv_load_counter V) load m)"
    using assms by (auto simp: resetCounters_def ensure_initialized_def)
  have le: "lowered n k \<le> n" for n k
    by (auto simp: lowered_def word_sub_le)
  show ?thesis
    using lower_apart [OF assms(4)] lower_apart [OF apart_sym [OF assms(4)]]
    by (simp add: m' load8_lower lower_outside le)
qed

section \<open>A concrete list\<close>

text \<open>The linker and two records of one library; the linker's functions know only the paths.\<close>

definition list_vars :: linker_vars where
  "list_vars = \<lparr> lv_solinker = 0x1000, lv_somain = 0x2000, lv_load_counter = 0x5000,
     lv_unload_counter = 0x5008, lv_size_off = 24, lv_next_off = 40, lv_ctor_off = 208,
     lv_path_off = 400, lv_realpath = 0x8000, lv_free = 0x8100, lv_unload = 0x8200,
     lv_guard_ctor = 0x8300, lv_guard_dtor = 0x8400 \<rparr>"

definition list_memory :: memory where
  "list_memory = (\<lambda>_. 0) (0x1019 := 9, 0x1029 := 0x20, 0x2019 := 0x40, 0x2029 := 0x30, 0x3019 := 0x60,
     0x5000 := 9, 0x5008 := 1)"

definition list_paths :: "memory \<Rightarrow> u64 \<Rightarrow> string option" where
  "list_paths m so = Some (if so = 0x1000 then ''/linker64'' else ''/zygisk/lib.so'')"

definition marking_linker :: linker_code where
  "marking_linker = \<lparr> lc_realpath = list_paths, lc_string = (\<lambda>_ _. []),
     lc_free = (\<lambda>m so. m(so := 0xff)), lc_unload = (\<lambda>m so. m) \<rparr>"

definition clearing_linker :: linker_code where
  "clearing_linker = \<lparr> lc_realpath = list_paths, lc_string = (\<lambda>_ _. []),
     lc_free = (\<lambda>m so x. if in_region x so 512 then 0 else m x), lc_unload = (\<lambda>m so. m) \<rparr>"

definition no_symbols :: linker_image where
  "no_symbols = \<lparr> li_address = (\<lambda>_. 0), li_prefix = (\<lambda>_. []), li_path = [] \<rparr>"

lemma load8_bytes:
  "load8 m a = of_nat (le_value [m a, m (a + 1), m (a + 2), m (a + 3), m (a + 4), m (a + 5), m (a + 6), m (a + 7)])"
  by (simp add: load8_def peek_def upt_rec)

lemmas list_simps = load8_bytes list_memory_def list_vars_def getNext_def getSize_def

lemma list_layout: "fields_apart list_vars [0x1000, 0x2000, 0x3000]"
  by (simp add: fields_apart_def apart_def list_vars_def)

lemma list_chain: "chain list_vars list_memory (lv_solinker list_vars) [0x1000, 0x2000, 0x3000]"
  by (simp add: list_simps)

lemma list_ready: "lv_solinker list_vars \<noteq> 0" "lv_free list_vars \<noteq> 0"
  by (simp_all add: list_vars_def)

lemma list_path:
  assumes "lc_realpath C = list_paths"
  shows "matches C list_vars m ''zygisk'' n \<longleftrightarrow> n \<noteq> 0x1000"
proof -
  have "str_contains ''/zygisk/lib.so'' ''zygisk''" "\<not> str_contains ''/linker64'' ''zygisk''"
    by code_simp+
  then show ?thesis
    using assms by (simp add: matches_def getPath_def list_vars_def list_paths_def)
qed

lemma list_selection:
  assumes "lc_realpath C = list_paths"
  shows "filter (\<lambda>n. matches C list_vars list_memory ''zygisk'' n \<and> 0 < getSize list_vars list_memory n)
     [0x1000, 0x2000, 0x3000] = [0x2000, 0x3000]"
  unfolding list_path [OF assms] by (simp add: list_simps)

lemma linkers_by_path [simp]: "lc_realpath marking_linker = list_paths" "lc_realpath clearing_linker = list_paths"
  by (simp_all add: marking_linker_def clearing_linker_def)

lemma load8_upd:
  assumes "8 \<le> unat (x - a)"
  shows "load8 (m(x := v)) a = load8 m a"
proof -
  have "a + of_nat i \<noteq> x" if "i < 8" for i
    using assms that by (auto simp: unat_of_nat)
  then have "peek (m(x := v)) a 8 = peek m a 8" by (simp add: peek_def)
  then show ?thesis by (simp add: load8_def)
qed

lemma marked_record:
  assumes "n \<in> set [0x1000, 0x2000, 0x3000]" "k \<in> set [0x1000, 0x2000, 0x3000]"
  shows "getNext list_vars (lc_free marking_linker m n) k = getNext list_vars m k"
    and "getSize list_vars (lc_free marking_linker m n) k = getSize list_vars m k"
  using assms by (auto simp: getNext_def getSize_def load8_upd marking_linker_def list_vars_def)

lemma cleared_record: "getNext list_vars (lc_free clearing_linker m n) n = 0"
proof -
  have "in_region (n + 40 + of_nat i) n 512" if "i < 8" for i
  proof -
    have "n + 40 + of_nat i - n = of_nat (40 + i)" by simp
    then show ?thesis using that by (simp add: in_region_def unat_of_nat del: of_nat_add)
  qed
  then have "peek (lc_free clearing_linker m n) (n + 40) 8 = map (\<lambda>_. 0) [0..<8]"
    unfolding peek_def clearing_linker_def by simp
  also have "le_value \<dots> = 0" by (simp add: upt_rec)
  finally show ?thesis
    by (simp add: getNext_def load8_def list_vars_def)
qed


theorem walk_ends_at_cleared_record_witness:
  "\<exists>m'. dropSoPath clearing_linker no_symbols ''zygisk'' False (list_vars, list_memory) =
     Some (Inr ([0x2000], list_vars, m'))"
  using walk_ends_at_cleared_record [OF list_ready list_chain list_layout cleared_record, of no_symbols "''zygisk''"]
  by (simp add: list_selection del: filter.simps)

theorem counters_never_wrap_witness:
  "load8 (snd (resetCounters marking_linker no_symbols 2 2 (list_vars, list_memory))) 0x5000 = 7 \<and>
   load8 (snd (resetCounters marking_linker no_symbols 2 2 (list_vars, list_memory))) 0x5008 = 1"
proof -
  have f: "lv_load_counter list_vars = 0x5000" "lv_unload_counter list_vars = 0x5008"
    "load8 list_memory 0x5000 = 9" "load8 list_memory 0x5008 = 1" "apart 0x5000 0x5008"
    by (simp_all add: list_simps apart_def)
  then show ?thesis
    using counters_never_wrap [of list_vars marking_linker no_symbols 2 2 list_memory,
        OF list_ready(1) _ _ _ surjective_pairing]
    by (simp add: lowered_def word_le_nat_alt)
qed

end
