(* ===== verification/Plt_Elf.thy ===== *)
theory Plt_Elf
  imports Elf_Lookup Remote_Call
begin

text \<open>
  \<open>Elf\<close> of the hook library (\<open>external/lsplt/.../elf_util.cc\<close>, \<open>elf_util.hpp\<close>): the reader of an
  image the dynamic linker has loaded, and the search for the slots a symbol is called through.
  The image is memory, a function from addresses to bytes; reading what is not mapped is outside
  the model.  The System V chain may be cyclic and the GNU chain may never end: then the
  search gives \<open>None\<close>.
\<close>

section \<open>State\<close>

record elf =
  pe_base_addr :: u64
  pe_bias_addr :: u64
  pe_dynamic :: u64
  pe_dynamic_size :: u32
  pe_dyn_str :: u64
  pe_dyn_sym :: u64
  pe_rel_plt :: u64
  pe_rel_plt_size :: u32
  pe_rel_dyn :: u64
  pe_rel_dyn_size :: u32
  pe_rel_android :: u64
  pe_rel_android_size :: u32
  pe_bucket :: u64
  pe_bucket_count :: u32
  pe_chain :: u64
  pe_sym_offset :: u32
  pe_bloom :: u64
  pe_bloom_size :: u32
  pe_bloom_shift :: u32
  pe_use_rela :: bool
  pe_valid :: bool

definition unread_elf :: "u64 \<Rightarrow> elf" where
  "unread_elf base = \<lparr> pe_base_addr = base, pe_bias_addr = 0, pe_dynamic = 0, pe_dynamic_size = 0,
     pe_dyn_str = 0, pe_dyn_sym = 0, pe_rel_plt = 0, pe_rel_plt_size = 0, pe_rel_dyn = 0,
     pe_rel_dyn_size = 0, pe_rel_android = 0, pe_rel_android_size = 0, pe_bucket = 0,
     pe_bucket_count = 0, pe_chain = 0, pe_sym_offset = 0, pe_bloom = 0, pe_bloom_size = 0,
     pe_bloom_shift = 0, pe_use_rela = False, pe_valid = False \<rparr>"

type_synonym image = "u64 \<Rightarrow> u8"

definition ld2 :: "image \<Rightarrow> u64 \<Rightarrow> nat" where
  "ld2 m a = le_value (peek m a 2)"

definition ld4 :: "image \<Rightarrow> u64 \<Rightarrow> u32" where
  "ld4 m a = of_nat (le_value (peek m a 4))"

definition ld8 :: "image \<Rightarrow> u64 \<Rightarrow> u64" where
  "ld8 m a = of_nat (le_value (peek m a 8))"

section \<open>Reading the image\<close>

definition machine :: "arch \<Rightarrow> nat" where
  "machine a = (case a of Aarch64 \<Rightarrow> 183 | X86_64 \<Rightarrow> 62)"

definition header_ok :: "arch \<Rightarrow> image \<Rightarrow> u64 \<Rightarrow> bool" where
  "header_ok a m h \<longleftrightarrow>
     peek m h 4 = [0x7f, 0x45, 0x4c, 0x46] \<and> m (h + 4) = 2 \<and> m (h + 5) = 1 \<and> m (h + 6) = 1 \<and>
     (ld2 m (h + 16) = 2 \<or> ld2 m (h + 16) = 3) \<and> ld2 m (h + 18) = machine a \<and> ld4 m (h + 20) = 1"

text \<open>The program headers; the count is what is left.\<close>

fun phdr_loop :: "image \<Rightarrow> u64 \<Rightarrow> nat \<Rightarrow> u64 \<Rightarrow> elf \<Rightarrow> elf" where
  "phdr_loop m entsize 0 ph e = e"
| "phdr_loop m entsize (Suc n) ph e =
     (let p_type = ld4 m ph; p_offset = ld8 m (ph + 8); p_vaddr = ld8 m (ph + 16) in
      phdr_loop m entsize n (ph + entsize)
        (if p_type = 1 \<and> p_offset = 0 then
           (if p_vaddr \<le> pe_base_addr e then e\<lparr> pe_bias_addr := pe_base_addr e - p_vaddr \<rparr> else e)
         else if p_type = 2 then
           e\<lparr> pe_dynamic := p_vaddr, pe_dynamic_size := ucast (ld8 m (ph + 40)) \<rparr>
         else e))"

text \<open>\<open>SetByOffset\<close>: the pointer, null when it does not lie above the base.\<close>

definition SetByOffset :: "elf \<Rightarrow> u64 \<Rightarrow> u64" where
  "SetByOffset e off = (if pe_base_addr e < pe_bias_addr e + off then pe_bias_addr e + off else 0)"

text \<open>
  One entry of the dynamic section: \<open>Some\<close> the image read so far to go on with, \<open>None\<close> for a
  pointer below the base, where the constructor returns.
\<close>

definition dynamic_entry :: "image \<Rightarrow> u64 \<Rightarrow> u64 \<Rightarrow> elf \<Rightarrow> elf option" where
  "dynamic_entry m tag v e =
     (let p = SetByOffset e v; raw = pe_bias_addr e + v in
      if tag = 5 then (if p = 0 then None else Some (e\<lparr> pe_dyn_str := p \<rparr>))
      else if tag = 6 then (if p = 0 then None else Some (e\<lparr> pe_dyn_sym := p \<rparr>))
      else if tag = 20 then Some (e\<lparr> pe_use_rela := (v = 7) \<rparr>)
      else if tag = 23 then (if p = 0 then None else Some (e\<lparr> pe_rel_plt := p \<rparr>))
      else if tag = 2 then Some (e\<lparr> pe_rel_plt_size := ucast v \<rparr>)
      else if tag = 17 \<or> tag = 7 then (if p = 0 then None else Some (e\<lparr> pe_rel_dyn := p \<rparr>))
      else if tag = 18 \<or> tag = 8 then Some (e\<lparr> pe_rel_dyn_size := ucast v \<rparr>)
      else if tag = 0x6000000f \<or> tag = 0x60000011 then
        (if p = 0 then None else Some (e\<lparr> pe_rel_android := p \<rparr>))
      else if tag = 0x60000010 \<or> tag = 0x60000012 then Some (e\<lparr> pe_rel_android_size := ucast v \<rparr>)
      else if tag = 4 then
        (if pe_bloom e \<noteq> 0 then Some e
         else let n = ld4 m raw in
           Some (e\<lparr> pe_bucket_count := n, pe_bucket := raw + 8, pe_chain := raw + 8 + 4 * ucast n \<rparr>))
      else if tag = 0x6ffffef5 then
        (let n = ld4 m raw; off = ld4 m (raw + 4); bs = ld4 m (raw + 8); bucket = raw + 16 + 8 * ucast bs in
         Some (e\<lparr> pe_bucket_count := n, pe_sym_offset := off, pe_bloom_size := bs,
                  pe_bloom_shift := ld4 m (raw + 12), pe_bloom := raw + 16, pe_bucket := bucket,
                  pe_chain := bucket + 4 * ucast n - 4 * ucast off \<rparr>))
      else Some e)"

fun dynamic_loop :: "image \<Rightarrow> nat \<Rightarrow> u64 \<Rightarrow> elf \<Rightarrow> elf option" where
  "dynamic_loop m 0 d e = Some e"
| "dynamic_loop m (Suc n) d e =
     (if ld8 m d = 0 then Some e
      else case dynamic_entry m (ld8 m d) (ld8 m (d + 8)) e of
        None \<Rightarrow> None | Some e1 \<Rightarrow> dynamic_loop m n (d + 16) e1)"

text \<open>The header of packed relocations is skipped; an image with another one is not used.\<close>

definition android_header :: "image \<Rightarrow> elf \<Rightarrow> elf option" where
  "android_header m e =
     (if pe_rel_android e = 0 then Some e
      else if pe_rel_android_size e < 4 \<or> peek m (pe_rel_android e) 4 \<noteq> [0x41, 0x50, 0x53, 0x32] then None
      else Some (e\<lparr> pe_rel_android := pe_rel_android e + 4,
                    pe_rel_android_size := pe_rel_android_size e - 4 \<rparr>))"

text \<open>The constructor; an image it gives up on is not valid.\<close>

definition Elf :: "arch \<Rightarrow> image \<Rightarrow> u64 \<Rightarrow> elf" where
  "Elf a m base =
     (let e0 = unread_elf base in
      if \<not> header_ok a m base then e0
      else let e1 = phdr_loop m (of_nat (ld2 m (base + 54))) (ld2 m (base + 56)) (base + ld8 m (base + 32)) e0 in
        if pe_dynamic e1 = 0 \<or> pe_bias_addr e1 = 0 then e1
        else let e2 = e1\<lparr> pe_dynamic := pe_bias_addr e1 + pe_dynamic e1 \<rparr> in
          case dynamic_loop m (unat (pe_dynamic_size e2) div 16) (pe_dynamic e2) e2 of
            None \<Rightarrow> e2
          | Some e3 \<Rightarrow> (case android_header m e3 of None \<Rightarrow> e3 | Some e4 \<Rightarrow> e4\<lparr> pe_valid := True \<rparr>))"

section \<open>Looking up a symbol\<close>

text \<open>The comparison of a view with the C string of a symbol.\<close>

definition named :: "image \<Rightarrow> elf \<Rightarrow> bytes \<Rightarrow> nat \<Rightarrow> bool" where
  "named m e nm i \<longleftrightarrow>
     0 \<notin> set nm \<and>
     peek m (pe_dyn_str e + ucast (ld4 m (pe_dyn_sym e + of_nat (24 * i)))) (length nm + 1) = nm @ [0]"

definition gnu_hash :: "bytes \<Rightarrow> u32" where
  "gnu_hash nm = foldl (\<lambda>h c. h + (push_bit 5 h + ucast c)) 5381 nm"

definition sysv_hash :: "bytes \<Rightarrow> u32" where
  "sysv_hash nm =
     foldl (\<lambda>h c. let h1 = push_bit 4 h + ucast c; tmp = h1 AND 0xf0000000 in
                 (h1 XOR tmp) XOR drop_bit 24 tmp) 0 nm"

partial_function (option) gnu_chain :: "image \<Rightarrow> elf \<Rightarrow> bytes \<Rightarrow> u32 \<Rightarrow> u32 \<Rightarrow> nat res option" where
  "gnu_chain m e nm h idx =
     (let c = ld4 m (pe_chain e + 4 * ucast idx) in
      if drop_bit 1 (c XOR h) = 0 \<and> named m e nm (unat idx) then Some (Inr (unat idx))
      else if c AND 1 = 0 then gnu_chain m e nm h (idx + 1) else Some (Inr 0))"

definition GnuLookup :: "image \<Rightarrow> elf \<Rightarrow> bytes \<Rightarrow> nat res option" where
  "GnuLookup m e nm =
     (if pe_bucket e = 0 \<or> pe_bloom e = 0 then Some (Inr 0)
      else if pe_bloom_size e = 0 then Some (Inl Div_by_zero)
      else let h = gnu_hash nm;
               bloom_word = ld8 m (pe_bloom e + 8 * ucast (h div 64 mod pe_bloom_size e));
               mask = push_bit (unat (h mod 64)) (1 :: u64) OR
                      push_bit (unat (drop_bit (unat (pe_bloom_shift e)) h mod 64)) 1
           in if mask AND bloom_word \<noteq> mask then Some (Inr 0)
              else if pe_bucket_count e = 0 then Some (Inl Div_by_zero)
              else let idx = ld4 m (pe_bucket e + 4 * ucast (h mod pe_bucket_count e)) in
                if pe_sym_offset e \<le> idx then gnu_chain m e nm h idx else Some (Inr 0))"

partial_function (option) sysv_chain_walk :: "image \<Rightarrow> elf \<Rightarrow> bytes \<Rightarrow> u32 \<Rightarrow> nat res option" where
  "sysv_chain_walk m e nm idx =
     (if idx = 0 then Some (Inr 0)
      else if named m e nm (unat idx) then Some (Inr (unat idx))
      else sysv_chain_walk m e nm (ld4 m (pe_chain e + 4 * ucast idx)))"

declare gnu_chain.simps [code] sysv_chain_walk.simps [code]

definition ElfLookup :: "image \<Rightarrow> elf \<Rightarrow> bytes \<Rightarrow> nat res option" where
  "ElfLookup m e nm =
     (if pe_bucket e = 0 \<or> pe_bloom e \<noteq> 0 then Some (Inr 0)
      else if pe_bucket_count e = 0 then Some (Inl Div_by_zero)
      else sysv_chain_walk m e nm (ld4 m (pe_bucket e + 4 * ucast (sysv_hash nm mod pe_bucket_count e))))"

definition LinearLookup :: "image \<Rightarrow> elf \<Rightarrow> bytes \<Rightarrow> nat res option" where
  "LinearLookup m e nm =
     (if pe_dyn_sym e = 0 \<or> pe_sym_offset e = 0 then Some (Inr 0)
      else case find (named m e nm) [0..<unat (pe_sym_offset e)] of
        None \<Rightarrow> Some (Inr 0) | Some i \<Rightarrow> Some (Inr i))"

definition lookup_index :: "image \<Rightarrow> elf \<Rightarrow> bytes \<Rightarrow> nat res option" where
  "lookup_index m e = first_hit (first_hit (GnuLookup m e) (ElfLookup m e)) (LinearLookup m e)"

section \<open>The slots of a symbol\<close>

record plt_types =
  pt_jump_slot :: u32
  pt_glob_dat :: u32
  pt_abs :: u32

definition relocation_types :: "arch \<Rightarrow> plt_types" where
  "relocation_types a =
     (case a of Aarch64 \<Rightarrow> \<lparr> pt_jump_slot = 1026, pt_glob_dat = 1025, pt_abs = 257 \<rparr>
      | X86_64 \<Rightarrow> \<lparr> pt_jump_slot = 7, pt_glob_dat = 6, pt_abs = 1 \<rparr>)"

text \<open>\<open>looper\<close>: in the table of the linkage it stops at the first match.\<close>

definition wanted :: "arch \<Rightarrow> image \<Rightarrow> nat \<Rightarrow> bool \<Rightarrow> u64 \<Rightarrow> bool" where
  "wanted a m idx is_plt rel \<longleftrightarrow>
     (let r_info = ld8 m (rel + 8); r_type = ucast r_info :: u32; T = relocation_types a in
      unat (drop_bit 32 r_info) = idx \<and>
      (if is_plt then r_type = pt_jump_slot T else r_type = pt_abs T \<or> r_type = pt_glob_dat T))"

fun looper :: "arch \<Rightarrow> image \<Rightarrow> elf \<Rightarrow> nat \<Rightarrow> bool \<Rightarrow> u64 \<Rightarrow> nat \<Rightarrow> u64 \<Rightarrow> u64 list" where
  "looper a m e idx is_plt entsize 0 rel = []"
| "looper a m e idx is_plt entsize (Suc n) rel =
     (if \<not> wanted a m idx is_plt rel then looper a m e idx is_plt entsize n (rel + entsize)
      else let addr = pe_bias_addr e + ld8 m rel;
               hit = (if pe_base_addr e < addr then [addr] else [])
           in if is_plt then hit else hit @ looper a m e idx is_plt entsize n (rel + entsize))"

text \<open>A table is read as long as an entry starts inside it.\<close>

definition table_slots :: "arch \<Rightarrow> image \<Rightarrow> elf \<Rightarrow> nat \<Rightarrow> u64 \<times> u32 \<times> bool \<Rightarrow> u64 list" where
  "table_slots a m e idx t =
     (case t of (rel, rel_size, is_plt) \<Rightarrow>
        if rel = 0 then []
        else let k = (if pe_use_rela e then 24 else 16) in
          looper a m e idx is_plt (of_nat k) ((unat rel_size + k - 1) div k) rel)"

definition tables :: "elf \<Rightarrow> (u64 \<times> u32 \<times> bool) list" where
  "tables e = [(pe_rel_plt e, pe_rel_plt_size e, True), (pe_rel_dyn e, pe_rel_dyn_size e, False),
     (pe_rel_android e, pe_rel_android_size e, False)]"

definition FindPltAddr :: "arch \<Rightarrow> image \<Rightarrow> elf \<Rightarrow> bytes \<Rightarrow> u64 list res option" where
  "FindPltAddr a m e nm =
     map_option (\<lambda>r. bind_res r (\<lambda>idx.
       if idx = 0 then Inr [] else Inr (concat (map (table_slots a m e idx) (tables e)))))
     (lookup_index m e nm)"

end
