(* ===== verification/Vm.thy ===== *)
theory Vm
  imports Remote_Call Module_Api
begin

text \<open>
  The address space of the process the loader lives in, for \<open>injector/clean.cpp\<close> and the hook
  library \<open>external/lsplt\<close>: every mapped address has a byte, a protection, the path of the file
  behind it (none for anonymous memory) and the pointer to the name given to it.  A kernel
  answers each call from the number of calls so far; it chooses where new mappings go.
\<close>

section \<open>The address space\<close>

abbreviation (input) P_READ :: u8 where "P_READ \<equiv> 1"
abbreviation (input) P_WRITE :: u8 where "P_WRITE \<equiv> 2"
abbreviation (input) P_EXEC :: u8 where "P_EXEC \<equiv> 4"

record cell =
  cl_byte :: u8
  cl_prot :: u8
  cl_path :: string
  cl_tag :: u64

type_synonym space = "u64 \<Rightarrow> cell option"

definition anon_cell :: "u8 \<Rightarrow> cell" where
  "anon_cell p = \<lparr> cl_byte = 0, cl_prot = p, cl_path = [], cl_tag = 0 \<rparr>"

definition map_anon :: "u64 \<Rightarrow> nat \<Rightarrow> u8 \<Rightarrow> space \<Rightarrow> space" where
  "map_anon a n p s = (\<lambda>x. if in_region x a n then Some (anon_cell p) else s x)"

definition unmap :: "u64 \<Rightarrow> nat \<Rightarrow> space \<Rightarrow> space" where
  "unmap a n s = (\<lambda>x. if in_region x a n then None else s x)"

definition protect :: "u64 \<Rightarrow> nat \<Rightarrow> u8 \<Rightarrow> space \<Rightarrow> space" where
  "protect a n p s = (\<lambda>x. if in_region x a n then map_option (\<lambda>c. c\<lparr> cl_prot := p \<rparr>) (s x) else s x)"

text \<open>A name is kept for memory without a file only.\<close>

definition name_range :: "u64 \<Rightarrow> nat \<Rightarrow> u64 \<Rightarrow> space \<Rightarrow> space" where
  "name_range a n ptr s =
     (\<lambda>x. if in_region x a n
          then map_option (\<lambda>c. if cl_path c = [] then c\<lparr> cl_tag := ptr \<rparr> else c) (s x) else s x)"

text \<open>Moving a mapping; \<open>left\<close> is what stays at the old place, nothing unless it is asked for.\<close>

definition move_mapping :: "u64 \<Rightarrow> u64 \<Rightarrow> nat \<Rightarrow> (cell \<Rightarrow> cell option) \<Rightarrow> space \<Rightarrow> space" where
  "move_mapping src dst n left s =
     (\<lambda>x. if in_region x dst n then s (src + (x - dst))
          else if in_region x src n then Option.bind (s x) left else s x)"

definition allowed :: "u8 \<Rightarrow> u64 \<Rightarrow> nat \<Rightarrow> space \<Rightarrow> bool" where
  "allowed p a n s \<longleftrightarrow>
     list_all (\<lambda>i. case s (a + of_nat i) of None \<Rightarrow> False | Some c \<Rightarrow> cl_prot c AND p \<noteq> 0) [0..<n]"

text \<open>\<open>memcpy\<close>, and storing bytes; both are used after \<open>allowed\<close> was checked.\<close>

definition byte_at :: "space \<Rightarrow> u64 \<Rightarrow> u8" where
  "byte_at s x = (case s x of None \<Rightarrow> 0 | Some c \<Rightarrow> cl_byte c)"

definition copy_bytes :: "u64 \<Rightarrow> u64 \<Rightarrow> nat \<Rightarrow> space \<Rightarrow> space" where
  "copy_bytes dst src n s =
     (\<lambda>x. if in_region x dst n
          then map_option (\<lambda>c. c\<lparr> cl_byte := byte_at s (src + (x - dst)) \<rparr>) (s x) else s x)"

definition store_bytes :: "u64 \<Rightarrow> u8 list \<Rightarrow> space \<Rightarrow> space" where
  "store_bytes a bs s =
     (\<lambda>x. if in_region x a (length bs)
          then map_option (\<lambda>c. c\<lparr> cl_byte := bs ! unat (x - a) \<rparr>) (s x) else s x)"

definition load_bytes :: "space \<Rightarrow> u64 \<Rightarrow> nat \<Rightarrow> u8 list" where
  "load_bytes s a n = peek (byte_at s) a n"

section \<open>System calls\<close>

text \<open>
  \<open>vk_others\<close> is what the other threads do to the address space before a call, and \<open>vk_left\<close>
  what \<open>MREMAP_DONTUNMAP\<close> leaves behind.
\<close>

record vm_kernel =
  vk_mmap :: "nat \<Rightarrow> space \<Rightarrow> nat \<Rightarrow> u64 option"
  vk_mmap_fixed :: "nat \<Rightarrow> bool"
  vk_mremap :: "nat \<Rightarrow> bool"
  vk_mprotect :: "nat \<Rightarrow> bool"
  vk_prctl :: "nat \<Rightarrow> bool"
  vk_others :: "nat \<Rightarrow> space \<Rightarrow> space"
  vk_left :: "cell \<Rightarrow> cell option"

record vm =
  vm_space :: space
  vm_calls :: nat

definition enter :: "vm_kernel \<Rightarrow> vm \<Rightarrow> vm" where
  "enter K v = v\<lparr> vm_space := vk_others K (vm_calls v) (vm_space v), vm_calls := vm_calls v + 1 \<rparr>"

definition sys_mmap :: "vm_kernel \<Rightarrow> nat \<Rightarrow> u8 \<Rightarrow> vm \<Rightarrow> u64 option \<times> vm" where
  "sys_mmap K n p v =
     (let v1 = enter K v in
      case vk_mmap K (vm_calls v) (vm_space v1) n of
        None \<Rightarrow> (None, v1)
      | Some a \<Rightarrow> (Some a, v1\<lparr> vm_space := map_anon a n p (vm_space v1) \<rparr>))"

definition sys_mmap_fixed :: "vm_kernel \<Rightarrow> u64 \<Rightarrow> nat \<Rightarrow> u8 \<Rightarrow> vm \<Rightarrow> bool \<times> vm" where
  "sys_mmap_fixed K a n p v =
     (let v1 = enter K v in
      if vk_mmap_fixed K (vm_calls v) then (True, v1\<lparr> vm_space := map_anon a n p (vm_space v1) \<rparr>)
      else (False, v1))"

definition sys_munmap :: "vm_kernel \<Rightarrow> u64 \<Rightarrow> nat \<Rightarrow> vm \<Rightarrow> vm" where
  "sys_munmap K a n v = (let v1 = enter K v in v1\<lparr> vm_space := unmap a n (vm_space v1) \<rparr>)"

definition sys_mprotect :: "vm_kernel \<Rightarrow> u64 \<Rightarrow> nat \<Rightarrow> u8 \<Rightarrow> vm \<Rightarrow> bool \<times> vm" where
  "sys_mprotect K a n p v =
     (let v1 = enter K v in
      if vk_mprotect K (vm_calls v) then (True, v1\<lparr> vm_space := protect a n p (vm_space v1) \<rparr>)
      else (False, v1))"

definition sys_mremap :: "vm_kernel \<Rightarrow> u64 \<Rightarrow> u64 \<Rightarrow> nat \<Rightarrow> bool \<Rightarrow> vm \<Rightarrow> bool \<times> vm" where
  "sys_mremap K src dst n dontunmap v =
     (let v1 = enter K v in
      if vk_mremap K (vm_calls v)
      then (True, v1\<lparr> vm_space := move_mapping src dst n (if dontunmap then vk_left K else (\<lambda>_. None)) (vm_space v1) \<rparr>)
      else (False, v1))"

definition prctl_anon_name :: "vm_kernel \<Rightarrow> u64 \<Rightarrow> nat \<Rightarrow> u64 \<Rightarrow> vm \<Rightarrow> bool \<times> vm" where
  "prctl_anon_name K a n ptr v =
     (let v1 = enter K v in
      if vk_prctl K (vm_calls v) then (True, v1\<lparr> vm_space := name_range a n ptr (vm_space v1) \<rparr>)
      else (False, v1))"

section \<open>Laws\<close>

text \<open>New mappings go where nothing is mapped, and never to the null page.\<close>

definition fresh_mappings :: "vm_kernel \<Rightarrow> bool" where
  "fresh_mappings K \<longleftrightarrow>
     (\<forall>t s n a. vk_mmap K t s n = Some a \<longrightarrow> a \<noteq> 0 \<and> (\<forall>x. in_region x a n \<longrightarrow> s x = None))"

text \<open>No other thread changes the address space.\<close>

definition single_threaded :: "vm_kernel \<Rightarrow> bool" where
  "single_threaded K \<longleftrightarrow> (\<forall>t s. vk_others K t s = s)"

text \<open>Whatever was mapped stays mapped with the same byte.\<close>

definition keeps :: "space \<Rightarrow> space \<Rightarrow> bool" where
  "keeps s s' \<longleftrightarrow> (\<forall>x c. s x = Some c \<longrightarrow> (\<exists>c'. s' x = Some c' \<and> cl_byte c' = cl_byte c))"

lemma keeps_refl [simp]: "keeps s s"
  by (simp add: keeps_def)

lemma keeps_trans [trans]: "keeps s s1 \<Longrightarrow> keeps s1 s2 \<Longrightarrow> keeps s s2"
  unfolding keeps_def by metis

lemma keeps_byte: "keeps s s' \<Longrightarrow> s x \<noteq> None \<Longrightarrow> byte_at s' x = byte_at s x"
  unfolding keeps_def byte_at_def by (fastforce split: option.splits)

lemma keeps_mapped: "keeps s s' \<Longrightarrow> s x \<noteq> None \<Longrightarrow> s' x \<noteq> None"
  unfolding keeps_def by fastforce

lemma keeps_protect [simp]: "keeps s (protect a n p s)"
  by (auto simp: keeps_def protect_def)

lemma keeps_name_range [simp]: "keeps s (name_range a n p s)"
  by (auto simp: keeps_def name_range_def)

lemma keeps_map_anon: "(\<And>x. in_region x a n \<Longrightarrow> s x = None) \<Longrightarrow> keeps s (map_anon a n p s)"
  by (auto simp: keeps_def map_anon_def)

lemma allowed_iff:
  "allowed p a n s \<longleftrightarrow> (\<forall>i<n. \<exists>c. s (a + of_nat i) = Some c \<and> cl_prot c AND p \<noteq> 0)"
  unfolding allowed_def list_all_iff by (fastforce split: option.splits)

lemma region_offset: "i < n \<Longrightarrow> in_region (a + of_nat i) a n"
  using le_less_trans [OF mod_less_eq_dividend [of i "2 ^ 64"]] by (simp add: in_region_def unat_of_nat)

lemma in_region_offset: "in_region x a n \<Longrightarrow> \<exists>i<n. x = a + of_nat i"
  by (rule exI [of _ "unat (x - a)"]) (simp add: in_region_def)

lemma allowed_mapped: "allowed p a n s \<Longrightarrow> in_region x a n \<Longrightarrow> s x \<noteq> None"
  using in_region_offset [of x a n] by (auto simp: allowed_iff)

lemma allowedI:
  assumes "\<And>x. in_region x a n \<Longrightarrow> \<exists>c. s x = Some c \<and> cl_prot c AND p \<noteq> 0"
  shows "allowed p a n s"
  using assms region_offset by (auto simp: allowed_iff)

lemma enter_space [simp]: "single_threaded K \<Longrightarrow> vm_space (enter K v) = vm_space v"
  by (simp add: enter_def single_threaded_def)

lemma vm_calls_enter [simp]: "vm_calls (enter K v) = vm_calls v + 1"
  by (simp add: enter_def)

end
