(* ===== verification/Plt_Hooks.thy ===== *)
theory Plt_Hooks
  imports Plt_Elf Vm
begin

text \<open>
  The hook library (\<open>external/lsplt/.../lsplt.cc\<close>, \<open>lsplt.hpp\<close>): requests, the state of every hooked
  mapping, and the remapping that puts a writable copy in the place of a library while the pristine
  mapping waits at its backup address.  A mapping that is hooked is kept in a map from its start,
  ordered downwards; its hooks in a map from the address of the slot, ordered upwards.  A slot is
  eight bytes.
\<close>

section \<open>State\<close>

record hook_request =
  rq_dev :: u64
  rq_inode :: u64
  rq_lo :: u64
  rq_hi :: u64
  rq_symbol :: bytes
  rq_callback :: u64
  rq_backup :: u64

record hook_info =
  hi_map :: lsplt_map
  hi_hooks :: "(u64 \<times> u64) list"
  hi_backup :: u64
  hi_elf :: "elf option"
  hi_self :: bool

type_synonym hook_infos = "(u64 \<times> hook_info) list"

record plt =
  pl_infos :: hook_infos
  pl_vm :: vm

record hook_lib =
  hl_pending :: "hook_request list"
  hl_infos :: hook_infos
  hl_vm :: vm
  hl_self_dev :: u64
  hl_self_inode :: u64

text \<open>\<open>std::map\<close>: \<open>emplace\<close> keeps the entry of a key that is there.\<close>

fun emplace_down :: "u64 \<Rightarrow> 'a \<Rightarrow> (u64 \<times> 'a) list \<Rightarrow> (u64 \<times> 'a) list" where
  "emplace_down k v [] = [(k, v)]"
| "emplace_down k v ((k1, v1) # xs) =
     (if k1 < k then (k, v) # (k1, v1) # xs else if k = k1 then (k1, v1) # xs
      else (k1, v1) # emplace_down k v xs)"

fun emplace_up :: "u64 \<Rightarrow> 'a \<Rightarrow> (u64 \<times> 'a) list \<Rightarrow> (u64 \<times> 'a) list" where
  "emplace_up k v [] = [(k, v)]"
| "emplace_up k v ((k1, v1) # xs) =
     (if k < k1 then (k, v) # (k1, v1) # xs else if k = k1 then (k1, v1) # xs
      else (k1, v1) # emplace_up k v xs)"

definition erase_key :: "u64 \<Rightarrow> (u64 \<times> 'a) list \<Rightarrow> (u64 \<times> 'a) list" where
  "erase_key k xs = filter (\<lambda>(k1, _). k1 \<noteq> k) xs"

definition replace_key :: "u64 \<Rightarrow> 'a \<Rightarrow> (u64 \<times> 'a) list \<Rightarrow> (u64 \<times> 'a) list" where
  "replace_key k v xs = map (\<lambda>(k1, v1). (k1, if k1 = k then v else v1)) xs"

section \<open>Targets\<close>

definition Match :: "hook_info \<Rightarrow> hook_request \<Rightarrow> bool" where
  "Match info rq \<longleftrightarrow> rq_dev rq = lm_dev (hi_map info) \<and> rq_inode rq = lm_inode (hi_map info) \<and>
     rq_lo rq \<le> lm_offset (hi_map info) \<and> lm_offset (hi_map info) < rq_hi rq"

text \<open>The library's own file, found once by a return address.\<close>

definition find_self :: "u64 \<Rightarrow> lsplt_map list \<Rightarrow> u64 \<times> u64 \<Rightarrow> u64 \<times> u64" where
  "find_self ret maps self =
     (if snd self \<noteq> 0 then self
      else case find (\<lambda>mp. lm_start mp \<le> ret \<and> ret < lm_end mp) maps of
        None \<Rightarrow> self | Some mp \<Rightarrow> (lm_dev mp, lm_inode mp))"

definition hookable :: "lsplt_map \<Rightarrow> bool" where
  "hookable mp \<longleftrightarrow> lm_private mp \<and> lm_perms mp AND P_READ \<noteq> 0 \<and> lm_path mp \<noteq> [] \<and> hd (lm_path mp) \<noteq> CHR ''[''"

definition add_target :: "u64 \<times> u64 \<Rightarrow> hook_infos \<Rightarrow> lsplt_map \<Rightarrow> hook_infos" where
  "add_target self infos mp =
     (if \<not> hookable mp then infos
      else emplace_down (lm_start mp)
             \<lparr> hi_map = mp, hi_hooks = [], hi_backup = 0, hi_elf = None,
               hi_self = (lm_inode mp = snd self \<and> lm_dev mp = fst self) \<rparr> infos)"

definition CreateTargetsFromMemoryMaps :: "u64 \<times> u64 \<Rightarrow> lsplt_map list \<Rightarrow> hook_infos" where
  "CreateTargetsFromMemoryMaps self maps = foldl (add_target self) [] maps"

definition Filter :: "hook_request list \<Rightarrow> hook_infos \<Rightarrow> hook_infos" where
  "Filter rqs infos = filter (\<lambda>(_, info). list_ex (Match info) rqs) infos"

definition merge_one :: "u64 \<times> hook_info \<Rightarrow> hook_infos \<Rightarrow> hook_infos" where
  "merge_one e new =
     (case e of (k, info) \<Rightarrow>
        let new1 = (if hi_backup info \<noteq> 0 then erase_key (hi_backup info) new else new) in
        if map_of new1 k \<noteq> None then replace_key k info new1
        else if hi_backup info \<noteq> 0 then emplace_down k info new1 else new1)"

definition Merge :: "hook_infos \<Rightarrow> hook_infos \<Rightarrow> hook_infos" where
  "Merge old new = fold merge_one old new"

section \<open>One slot\<close>

definition read_slot :: "vm \<Rightarrow> u64 \<Rightarrow> u64" where
  "read_slot v a = of_nat (le_value (load_bytes (vm_space v) a 8))"

definition write_slot :: "u64 \<Rightarrow> u64 \<Rightarrow> vm \<Rightarrow> vm" where
  "write_slot a x v = v\<lparr> vm_space := store_bytes a (word_bytes x) (vm_space v) \<rparr>"

definition info_len :: "hook_info \<Rightarrow> nat" where
  "info_len info = unat (lm_end (hi_map info) - lm_start (hi_map info))"

text \<open>\<open>lower_bound\<close> in a map that is ordered downwards: the last mapping that starts at or below.\<close>

definition lower_bound :: "u64 \<Rightarrow> hook_infos \<Rightarrow> (u64 \<times> hook_info) option" where
  "lower_bound addr infos = find (\<lambda>(k, _). k \<le> addr) infos"

text \<open>
  The mapping goes to a place of its own, an anonymous copy takes its place: the address of the
  backup, \<open>None\<close> when a call failed.
\<close>

definition move_away :: "vm_kernel \<Rightarrow> u64 \<Rightarrow> nat \<Rightarrow> u64 \<Rightarrow> vm \<Rightarrow> bool \<times> vm" where
  "move_away K start len backup v =
     (case sys_mremap K start backup len True v of
        (True, v1) \<Rightarrow> (True, v1)
      | (False, v1) \<Rightarrow> sys_mremap K start backup len False v1)"

definition make_backup :: "vm_kernel \<Rightarrow> hook_info \<Rightarrow> vm \<Rightarrow> (u64 option \<times> vm) res" where
  "make_backup K info v =
     (let start = lm_start (hi_map info); len = info_len info in
      case sys_mmap K len 0 v of
        (None, v1) \<Rightarrow> Inr (None, v1)
      | (Some backup, v1) \<Rightarrow>
          (case move_away K start len backup v1 of
             (False, v2) \<Rightarrow> Inr (None, v2)
           | (True, v2) \<Rightarrow>
               (case sys_mmap_fixed K start len (P_READ OR P_WRITE OR lm_perms (hi_map info)) v2 of
                  (False, v3) \<Rightarrow> Inr (None, v3)
                | (True, v3) \<Rightarrow>
                    if \<not> allowed P_READ backup len (vm_space v3) then Inl Bad_read
                    else Inr (Some backup, v3\<lparr> vm_space := copy_bytes start backup len (vm_space v3) \<rparr>))))"

text \<open>The writes: the slot, and the old value to the pointer of the request when there is one.\<close>

definition store_callback :: "u64 \<Rightarrow> u64 \<Rightarrow> u64 \<Rightarrow> vm \<Rightarrow> (u64 \<times> vm) res" where
  "store_callback addr callback backup v =
     (if \<not> allowed P_READ addr 8 (vm_space v) then Inl Bad_read
      else let the_backup = read_slot v addr in
        if the_backup = callback then Inr (the_backup, v)
        else if \<not> allowed P_WRITE addr 8 (vm_space v) then Inl Bad_read
        else let v1 = write_slot addr callback v in
          if backup = 0 then Inr (the_backup, v1)
          else if \<not> allowed P_WRITE backup 8 (vm_space v1) then Inl Bad_read
          else Inr (the_backup, write_slot backup the_backup v1))"

definition record_hook :: "u64 \<Rightarrow> u64 \<Rightarrow> u64 \<Rightarrow> (u64 \<times> u64) list \<Rightarrow> (u64 \<times> u64) list" where
  "record_hook addr callback the_backup hooks =
     (case map_of hooks addr of
        Some orig \<Rightarrow> if orig = callback then erase_key addr hooks else hooks
      | None \<Rightarrow> emplace_up addr the_backup hooks)"

definition open_self :: "vm_kernel \<Rightarrow> hook_info \<Rightarrow> vm \<Rightarrow> hook_info \<times> vm" where
  "open_self K info v =
     (let mp = hi_map info in
      if hi_self info \<and> lm_perms mp AND P_WRITE = 0
      then (info\<lparr> hi_map := mp\<lparr> lm_perms := lm_perms mp OR P_WRITE \<rparr> \<rparr>,
            snd (sys_mprotect K (lm_start mp) (info_len info) (lm_perms mp OR P_WRITE) v))
      else (info, v))"

text \<open>With the last hook gone the pristine mapping moves back.\<close>

definition put_back :: "vm_kernel \<Rightarrow> hook_info \<Rightarrow> vm \<Rightarrow> bool \<times> hook_info \<times> vm" where
  "put_back K info v =
     (if hi_hooks info = [] \<and> \<not> hi_self info then
        (case sys_mremap K (hi_backup info) (lm_start (hi_map info)) (info_len info) False v of
           (False, v1) \<Rightarrow> (False, info, v1)
         | (True, v1) \<Rightarrow> (True, info\<lparr> hi_backup := 0 \<rparr>, v1))
      else (True, info, v))"

definition patch_info ::
  "vm_kernel \<Rightarrow> u64 \<Rightarrow> u64 \<Rightarrow> u64 \<Rightarrow> hook_info \<Rightarrow> vm \<Rightarrow> (bool \<times> hook_info \<times> vm) res" where
  "patch_info K addr callback backup info v =
     bind_res (if hi_backup info = 0 \<and> \<not> hi_self info then make_backup K info v
               else Inr (Some (hi_backup info), v)) (\<lambda>(b, v1).
       case b of None \<Rightarrow> Inr (False, info, v1)
       | Some b \<Rightarrow>
           (case open_self K (info\<lparr> hi_backup := b \<rparr>) v1 of (info2, v2) \<Rightarrow>
              bind_res (store_callback addr callback backup v2) (\<lambda>(the_backup, v3).
                Inr (put_back K (info2\<lparr> hi_hooks := record_hook addr callback the_backup (hi_hooks info2) \<rparr>) v3))))"

definition PatchPLTEntry :: "vm_kernel \<Rightarrow> u64 \<Rightarrow> u64 \<Rightarrow> u64 \<Rightarrow> plt \<Rightarrow> (bool \<times> plt) res" where
  "PatchPLTEntry K addr callback backup st =
     (case lower_bound addr (pl_infos st) of
        None \<Rightarrow> Inr (False, st)
      | Some (k, info) \<Rightarrow>
          if lm_end (hi_map info) \<le> addr then Inr (False, st)
          else bind_res (patch_info K addr callback backup info (pl_vm st)) (\<lambda>(ok, info1, v1).
                 Inr (ok, \<lparr> pl_infos = replace_key k info1 (pl_infos st), pl_vm = v1 \<rparr>)))"

section \<open>Restoring\<close>

text \<open>
  One request against every mapping, upwards.  \<open>restored\<close> is the result of the last mapping that has a
  matching hook, \<open>res\<close> the conjunction of all of them.
\<close>

fun restore_in ::
  "vm_kernel \<Rightarrow> hook_request \<Rightarrow> u64 list \<Rightarrow> bool \<Rightarrow> bool \<Rightarrow> plt \<Rightarrow> (bool \<times> bool \<times> plt) res" where
  "restore_in K rq [] restored r st = Inr (restored, r, st)"
| "restore_in K rq (k # ks) restored r st =
     (case map_of (pl_infos st) k of
        None \<Rightarrow> restore_in K rq ks restored r st
      | Some info \<Rightarrow>
          if hi_hooks info = [] \<or> lm_dev (hi_map info) \<noteq> rq_dev rq \<or> lm_inode (hi_map info) \<noteq> rq_inode rq
          then restore_in K rq ks restored r st
          else case find (\<lambda>(_, orig). orig = rq_callback rq) (hi_hooks info) of
            None \<Rightarrow> restore_in K rq ks restored r st
          | Some (hooked_addr, original_addr) \<Rightarrow>
              bind_res (PatchPLTEntry K hooked_addr original_addr 0 st) (\<lambda>(ok, st1).
                restore_in K rq ks ok (ok \<and> r) st1))"

text \<open>The requests that were not restored are kept; \<open>res\<close> starts out true.\<close>

fun restore_requests ::
  "vm_kernel \<Rightarrow> hook_request list \<Rightarrow> bool \<Rightarrow> plt \<Rightarrow> (bool \<times> hook_request list \<times> plt) res" where
  "restore_requests K [] r st = Inr (r, [], st)"
| "restore_requests K (rq # rqs) r st =
     bind_res (restore_in K rq (rev (map fst (pl_infos st))) False r st) (\<lambda>(restored, r1, st1).
       bind_res (restore_requests K rqs r1 st1) (\<lambda>(r2, left, st2).
         Inr (r2, if restored then left else rq # left, st2)))"

definition RestoreFunction ::
  "vm_kernel \<Rightarrow> hook_request list \<Rightarrow> plt \<Rightarrow> (bool \<times> hook_request list \<times> plt) res" where
  "RestoreFunction K rqs st = restore_requests K rqs True st"

section \<open>Hooking\<close>

text \<open>A symbol search that does not end gives \<open>None\<close>.\<close>

definition bind_search :: "'a res option \<Rightarrow> ('a \<Rightarrow> 'b res option) \<Rightarrow> 'b res option" where
  "bind_search x f = (case x of None \<Rightarrow> None | Some (Inl e) \<Rightarrow> Some (Inl e) | Some (Inr y) \<Rightarrow> f y)"

fun patch_all :: "vm_kernel \<Rightarrow> u64 list \<Rightarrow> hook_request \<Rightarrow> bool \<Rightarrow> plt \<Rightarrow> (bool \<times> plt) res" where
  "patch_all K [] rq r st = Inr (r, st)"
| "patch_all K (a # as) rq r st =
     bind_res (PatchPLTEntry K a (rq_callback rq) (rq_backup rq) st) (\<lambda>(ok, st1).
       patch_all K as rq (ok \<and> r) st1)"

text \<open>One request at the mapping of its file's header; an image that is not valid is passed over.\<close>

definition process_one ::
  "vm_kernel \<Rightarrow> arch \<Rightarrow> u64 \<Rightarrow> hook_request \<Rightarrow> bool \<Rightarrow> plt \<Rightarrow> (bool \<times> plt) res option" where
  "process_one K a k rq r st =
     (case map_of (pl_infos st) k of
        None \<Rightarrow> Some (Inr (r, st))
      | Some info \<Rightarrow>
          let e = (case hi_elf info of
                     Some e \<Rightarrow> e | None \<Rightarrow> Elf a (byte_at (vm_space (pl_vm st))) (lm_start (hi_map info)));
              st1 = st\<lparr> pl_infos := replace_key k (info\<lparr> hi_elf := Some e \<rparr>) (pl_infos st) \<rparr>
          in if \<not> pe_valid e then Some (Inr (r, st1))
             else bind_search (FindPltAddr a (byte_at (vm_space (pl_vm st1))) e (rq_symbol rq)) (\<lambda>addrs.
               if addrs = [] then Some (Inr (False, st1)) else Some (patch_all K addrs rq r st1)))"

fun process_requests ::
  "vm_kernel \<Rightarrow> arch \<Rightarrow> u64 \<Rightarrow> hook_request list \<Rightarrow> bool \<Rightarrow> plt \<Rightarrow>
     (bool \<times> hook_request list \<times> plt) res option" where
  "process_requests K a k [] r st = Some (Inr (r, [], st))"
| "process_requests K a k (rq # rqs) r st =
     (if (case map_of (pl_infos st) k of
            None \<Rightarrow> True | Some info \<Rightarrow> lm_offset (hi_map info) \<noteq> rq_lo rq \<or> \<not> Match info rq)
      then bind_search (process_requests K a k rqs r st) (\<lambda>(r1, left, st1). Some (Inr (r1, rq # left, st1)))
      else bind_search (process_one K a k rq r st) (\<lambda>(r1, st1). process_requests K a k rqs r1 st1))"

fun process_infos ::
  "vm_kernel \<Rightarrow> arch \<Rightarrow> u64 list \<Rightarrow> hook_request list \<Rightarrow> bool \<Rightarrow> plt \<Rightarrow>
     (bool \<times> hook_request list \<times> plt) res option" where
  "process_infos K a [] rqs r st = Some (Inr (r, rqs, st))"
| "process_infos K a (k # ks) rqs r st =
     bind_search (process_requests K a k rqs r st) (\<lambda>(r1, left, st1). process_infos K a ks left r1 st1)"

definition ProcessRequest ::
  "vm_kernel \<Rightarrow> arch \<Rightarrow> hook_request list \<Rightarrow> plt \<Rightarrow> (bool \<times> hook_request list \<times> plt) res option" where
  "ProcessRequest K a rqs st = process_infos K a (rev (map fst (pl_infos st))) rqs True st"

section \<open>The interface\<close>

definition RegisterHook_range ::
  "u64 \<Rightarrow> u64 \<Rightarrow> u64 \<Rightarrow> u64 \<Rightarrow> bytes \<Rightarrow> u64 \<Rightarrow> u64 \<Rightarrow> hook_lib \<Rightarrow> bool \<times> hook_lib" where
  "RegisterHook_range dev inode off sz symbol callback backup L =
     (if dev = 0 \<or> inode = 0 \<or> symbol = [] \<or> callback = 0 then (False, L)
      else (True, L\<lparr> hl_pending := hl_pending L @
              [\<lparr> rq_dev = dev, rq_inode = inode, rq_lo = off, rq_hi = off + sz, rq_symbol = symbol,
                 rq_callback = callback, rq_backup = backup \<rparr>] \<rparr>))"

definition RegisterHook_file ::
  "u64 \<Rightarrow> u64 \<Rightarrow> bytes \<Rightarrow> u64 \<Rightarrow> u64 \<Rightarrow> hook_lib \<Rightarrow> bool \<times> hook_lib" where
  "RegisterHook_file dev inode symbol callback backup L =
     (if dev = 0 \<or> inode = 0 \<or> symbol = [] \<or> callback = 0 then (False, L)
      else (True, L\<lparr> hl_pending := hl_pending L @
              [\<lparr> rq_dev = dev, rq_inode = inode, rq_lo = 0, rq_hi = - 1, rq_symbol = symbol,
                 rq_callback = callback, rq_backup = backup \<rparr>] \<rparr>))"

text \<open>\<open>ret\<close> is the return address that finds the library itself in the maps.\<close>

definition CommitHook ::
  "vm_kernel \<Rightarrow> arch \<Rightarrow> u64 \<Rightarrow> lsplt_map list \<Rightarrow> bool \<Rightarrow> hook_lib \<Rightarrow> (bool \<times> hook_lib) res option" where
  "CommitHook K a ret maps unhook L =
     (if hl_pending L = [] then Some (Inr (True, L))
      else
        let self = find_self ret maps (hl_self_dev L, hl_self_inode L);
            L1 = L\<lparr> hl_self_dev := fst self, hl_self_inode := snd self \<rparr>;
            targets = CreateTargetsFromMemoryMaps self maps
        in if targets = [] then Some (Inr (False, L1))
           else
             let infos = Merge (hl_infos L) (Filter (hl_pending L) targets);
                 finish = (\<lambda>(r, left, st). L1\<lparr> hl_pending := left, hl_infos := pl_infos st, hl_vm := pl_vm st \<rparr>);
                 st = \<lparr> pl_infos = infos, pl_vm = hl_vm L \<rparr>
             in if unhook then
                  bind_search (Some (RestoreFunction K (hl_pending L) st)) (\<lambda>(r, left, st1).
                    if r then Some (Inr (True, finish (r, left, st1)))
                    else bind_search (ProcessRequest K a left st1) (\<lambda>x. Some (Inr (fst x, finish x))))
                else bind_search (ProcessRequest K a (hl_pending L) st) (\<lambda>x. Some (Inr (fst x, finish x))))"

text \<open>\<open>MapInfo::Scan\<close>: the last byte of every line is cut off, also when it is no newline.\<close>

definition lsplt_line :: "string \<Rightarrow> lsplt_map option" where
  "lsplt_line l =
     map_option (\<lambda>i. \<lparr> lm_start = mp_start i, lm_end = mp_end i, lm_perms = mp_perms i,
         lm_private = mp_private i, lm_offset = mp_offset i, lm_dev = mp_dev i, lm_inode = mp_inode i,
         lm_path = mp_path i \<rparr>) (scan_line (butlast l))"

definition lsplt_Scan :: "string list option \<Rightarrow> lsplt_map list" where
  "lsplt_Scan lines = (case lines of None \<Rightarrow> [] | Some ls \<Rightarrow> List.map_filter lsplt_line ls)"

definition CommitHook_scan ::
  "vm_kernel \<Rightarrow> arch \<Rightarrow> u64 \<Rightarrow> string list option \<Rightarrow> hook_lib \<Rightarrow> (bool \<times> hook_lib) res option" where
  "CommitHook_scan K a ret lines L = CommitHook K a ret (lsplt_Scan lines) False L"

section \<open>Giving up the copies\<close>

text \<open>
  \<open>CleanupAllHooks\<close>: the pristine mapping moves back and the hooks are written into it; \<open>ps\<close> is the
  page size.
\<close>

definition page_down :: "nat \<Rightarrow> u64 \<Rightarrow> u64" where
  "page_down ps a = of_nat (unat a div ps * ps)"

fun write_hooks :: "(u64 \<times> u64) list \<Rightarrow> vm \<Rightarrow> vm" where
  "write_hooks [] v = v"
| "write_hooks ((addr, x) # hs) v = write_hooks hs (write_slot addr x v)"

definition cleanup_info :: "vm_kernel \<Rightarrow> nat \<Rightarrow> hook_info \<Rightarrow> vm \<Rightarrow> bool \<times> hook_info \<times> vm" where
  "cleanup_info K ps info v =
     (if hi_backup info = 0 then (True, info, v)
      else
        let hooks = map (\<lambda>(addr, _). (addr, read_slot v addr)) (hi_hooks info);
            start = lm_start (hi_map info); len = info_len info
        in case sys_mremap K (hi_backup info) start len False v of
             (False, v1) \<Rightarrow> (False, info\<lparr> hi_hooks := [] \<rparr>, v1)
           | (True, v1) \<Rightarrow>
               (True, info\<lparr> hi_hooks := [], hi_backup := 0 \<rparr>,
                case sys_mprotect K (page_down ps start) len P_WRITE v1 of
                  (False, v2) \<Rightarrow> v2
                | (True, v2) \<Rightarrow>
                    snd (sys_mprotect K (page_down ps start) len (lm_perms (hi_map info)) (write_hooks hooks v2))))"

fun CleanupAllHooks :: "vm_kernel \<Rightarrow> nat \<Rightarrow> hook_infos \<Rightarrow> vm \<Rightarrow> bool \<times> hook_infos \<times> vm" where
  "CleanupAllHooks K ps [] v = (True, [], v)"
| "CleanupAllHooks K ps ((k, info) # infos) v =
     (case cleanup_info K ps info v of (ok, info1, v1) \<Rightarrow>
        case CleanupAllHooks K ps infos v1 of (r, infos1, v2) \<Rightarrow> (ok \<and> r, (k, info1) # infos1, v2))"

definition InvalidateBackup :: "vm_kernel \<Rightarrow> nat \<Rightarrow> hook_lib \<Rightarrow> bool \<times> hook_lib" where
  "InvalidateBackup K ps L =
     (case CleanupAllHooks K ps (hl_infos L) (hl_vm L) of (r, infos, v) \<Rightarrow>
        (r, L\<lparr> hl_infos := infos, hl_vm := v \<rparr>))"

end
