(* ===== verification/Plt_Elf_Properties.thy ===== *)
theory Plt_Elf_Properties
  imports Plt_Elf "HOL-Library.Code_Target_Nat"
begin

text \<open>
  What the reader of loaded images promises: its three lookups obey the contract of the other ELF
  reader of the repository and use the same hash functions, and the slots it returns are exactly
  those the relocation tables list for the symbol of that name.
\<close>

section \<open>The hash functions are those of the file reader\<close>

lemma gnu_hash_agrees: "gnu_hash nm = calculateGnuHash nm"
  unfolding gnu_hash_def calculateGnuHash_def by (simp add: ac_simps)

lemma sysv_step_agrees:
  fixes h1 :: u32
  assumes "g = h1 AND 0xf0000000"
  shows "(h1 XOR g) XOR drop_bit 24 g = (h1 XOR drop_bit 24 g) AND NOT g"
proof -
  have m: "(0xf0000000 :: u32) = push_bit 28 (mask 4)" by (simp add: mask_eq_exp_minus_1)
  show ?thesis
    unfolding assms m
    by (rule bit_word_eqI) (auto simp: bit_simps)
qed

lemma sysv_hash_agrees: "sysv_hash nm = calculateSysvHash nm"
proof -
  have "(let h1 = push_bit 4 h + ucast c; tmp = h1 AND 0xf0000000 in (h1 XOR tmp) XOR drop_bit 24 tmp) =
      sysv_step h c" for h and c :: u8
  proof -
    have "(if g \<noteq> 0 then h1 XOR drop_bit 24 g else h1) = h1 XOR drop_bit 24 g" for h1 g :: u32 by simp
    then show ?thesis unfolding sysv_step_def Let_def by (simp only: sysv_step_agrees [OF refl])
  qed
  then show ?thesis unfolding sysv_hash_def calculateSysvHash_def by simp
qed

section \<open>The lookups\<close>

definition loaded_entry :: "image \<Rightarrow> elf \<Rightarrow> bytes \<Rightarrow> nat \<Rightarrow> bool" where
  "loaded_entry m e nm i \<longleftrightarrow> named m e nm i"

lemma gnu_chain_sound:
  "gnu_chain m e nm h idx = Some r \<Longrightarrow> r = Inr v \<Longrightarrow> 0 < v \<Longrightarrow> named m e nm v"
proof (induction rule: gnu_chain.raw_induct [rotated 1, consumes 1])
  case (1 walk m e nm h idx r)
  then show ?case by (auto simp: Let_def split: if_splits)
qed

lemma sysv_chain_sound:
  "sysv_chain_walk m e nm idx = Some r \<Longrightarrow> r = Inr v \<Longrightarrow> 0 < v \<Longrightarrow> named m e nm v"
proof (induction rule: sysv_chain_walk.raw_induct [rotated 1, consumes 1])
  case (1 walk m e nm idx r)
  then show ?case by (auto split: if_splits)
qed

interpretation gnu_source: symbol_source "GnuLookup m e" "loaded_entry m e" for m e
  by unfold_locales
    (auto simp: GnuLookup_def Let_def loaded_entry_def split: if_splits dest: gnu_chain_sound)

interpretation sysv_source: symbol_source "ElfLookup m e" "loaded_entry m e" for m e
  by unfold_locales (auto simp: ElfLookup_def loaded_entry_def split: if_splits dest: sysv_chain_sound)

interpretation linear_source: symbol_source "LinearLookup m e" "loaded_entry m e" for m e
  by unfold_locales
    (auto simp: LinearLookup_def loaded_entry_def find_Some_iff split: if_splits option.splits)

interpretation hashed_source: lookup_chain "GnuLookup m e" "loaded_entry m e" "ElfLookup m e" for m e
  by unfold_locales

interpretation all_sources:
  lookup_chain "first_hit (GnuLookup m e) (ElfLookup m e)" "loaded_entry m e" "LinearLookup m e" for m e
  by unfold_locales

lemma lookup_index_sound: "lookup_index m e nm = Some (Inr i) \<Longrightarrow> 0 < i \<Longrightarrow> named m e nm i"
  using all_sources.chain_sound [of m e nm i] by (simp add: lookup_index_def loaded_entry_def)

section \<open>The slots\<close>

text \<open>The entries of a table, and the slots of a symbol among them.\<close>

definition entries :: "u64 \<Rightarrow> nat \<Rightarrow> u64 \<Rightarrow> u64 list" where
  "entries entsize n rel = map (\<lambda>i. rel + entsize * of_nat i) [0..<n]"

definition slots_of :: "arch \<Rightarrow> image \<Rightarrow> elf \<Rightarrow> nat \<Rightarrow> bool \<Rightarrow> u64 list \<Rightarrow> u64 list" where
  "slots_of a m e idx is_plt rs =
     (let hits = filter (wanted a m idx is_plt) rs in
      filter (\<lambda>x. pe_base_addr e < x)
        (map (\<lambda>r. pe_bias_addr e + ld8 m r) (if is_plt then take 1 hits else hits)))"

lemma entries_Suc: "entries k (Suc n) rel = rel # entries k n (rel + k)"
proof -
  have "map (\<lambda>i. rel + k * of_nat i) [0..<Suc n] = rel # map (\<lambda>i. rel + k * of_nat i) (map Suc [0..<n])"
    by (simp only: upt_conv_Cons map_Suc_upt zero_less_Suc) simp
  then show ?thesis by (simp add: entries_def algebra_simps)
qed

lemma looper_entries: "looper a m e idx is_plt k n rel = slots_of a m e idx is_plt (entries k n rel)"
proof (induction n arbitrary: rel)
  case 0
  then show ?case by (simp add: slots_of_def entries_def)
next
  case (Suc n)
  show ?case
    using Suc.IH [of "rel + k"] by (cases is_plt) (auto simp: entries_Suc slots_of_def Let_def)
qed

definition table_entries :: "elf \<Rightarrow> u64 \<Rightarrow> u32 \<Rightarrow> u64 list" where
  "table_entries e rel rel_size =
     (let k = (if pe_use_rela e then 24 else 16) in
      if rel = 0 then [] else entries (of_nat k) ((unat rel_size + k - 1) div k) rel)"

lemma table_slots_entries:
  "table_slots a m e idx (rel, sz, is_plt) = slots_of a m e idx is_plt (table_entries e rel sz)"
  by (simp add: table_slots_def table_entries_def looper_entries Let_def) (simp add: slots_of_def)

text \<open>
  the slots found for a name are those of one symbol that bears it: the first jump slot of the
  linkage table, and all data slots of the two other tables, as far as they lie above the base.
\<close>

theorem plt_slots_exact:
  assumes "FindPltAddr a m e nm = Some (Inr addrs)" "addrs \<noteq> []"
  shows "\<exists>idx. 0 < idx \<and> named m e nm idx \<and>
     addrs = slots_of a m e idx True (table_entries e (pe_rel_plt e) (pe_rel_plt_size e)) @
       slots_of a m e idx False (table_entries e (pe_rel_dyn e) (pe_rel_dyn_size e)) @
       slots_of a m e idx False (table_entries e (pe_rel_android e) (pe_rel_android_size e))"
proof -
  from assms obtain idx where l: "lookup_index m e nm = Some (Inr idx)" "0 < idx"
    and a: "addrs = concat (map (table_slots a m e idx) (tables e))"
    by (auto simp: FindPltAddr_def split: if_splits)
  show ?thesis
    using lookup_index_sound [OF l] l(2) a
    by (intro exI [of _ idx]) (simp add: tables_def table_slots_entries)
qed

section \<open>A concrete image\<close>

text \<open>An image with a symbol \<open>f\<close>, found by the linear search, and one jump slot for it.\<close>

definition small_image :: image where
  "small_image = (\<lambda>_. 0)(0x118 := 1, 0x201 := 102, 0x300 := 0x50, 0x308 := 7, 0x30c := 1)"

definition small_elf :: elf where
  "small_elf = (unread_elf 0x10)\<lparr> pe_bias_addr := 0x20, pe_dyn_str := 0x200, pe_dyn_sym := 0x100,
     pe_rel_plt := 0x300, pe_rel_plt_size := 24, pe_sym_offset := 2, pe_use_rela := True, pe_valid := True \<rparr>"

lemmas small_image_simps = small_image_def small_elf_def unread_elf_def ld4_def ld8_def peek_def upt_rec

lemma small_image_names: "\<not> named small_image small_elf [102] 0" "named small_image small_elf [102] 1"
  by (simp_all add: named_def small_image_simps)

lemma small_image_index: "lookup_index small_image small_elf [102] = Some (Inr 1)"
proof -
  have "find (named small_image small_elf [102]) [0..<2] = Some 1"
    using small_image_names by (simp add: upt_rec)
  then show ?thesis
    by (simp add: lookup_index_def first_hit_def GnuLookup_def ElfLookup_def LinearLookup_def small_elf_def
        unread_elf_def)
qed

lemma small_image_wanted: "wanted X86_64 small_image (Suc 0) True 0x300" "ld8 small_image 0x300 = 0x50"
  by (simp_all add: wanted_def relocation_types_def small_image_simps)

lemma small_image_slots: "FindPltAddr X86_64 small_image small_elf [102] = Some (Inr [0x70])"
proof -
  have "table_slots X86_64 small_image small_elf (Suc 0) (0x300, 24, True) = [0x70]"
    by (simp add: table_slots_def Let_def small_image_wanted small_elf_def unread_elf_def)
  moreover have "tables small_elf = [(0x300, 24, True), (0, 0, False), (0, 0, False)]"
    by (simp add: tables_def small_elf_def unread_elf_def)
  ultimately show ?thesis
    by (simp add: FindPltAddr_def small_image_index) (simp add: table_slots_def)
qed

theorem plt_slots_exact_witness:
  "\<exists>idx. 0 < idx \<and> named small_image small_elf [102] idx"
  using plt_slots_exact [OF small_image_slots] by auto

end
