(* ===== verification/Clean.thy ===== *)
theory Clean
  imports Vm
begin

text \<open>
  Hiding mapped libraries (\<open>injector/clean.cpp\<close>): replacing a range by an anonymous copy of itself,
  naming it, and the sweep over the memory maps.  The maps are those the process scanned before.
\<close>

section \<open>The name\<close>

definition kAnonName :: string where
  "kAnonName = ''wwb_hidden''"

text \<open>The name with its NUL, as \<open>memcpy\<close> copies it.\<close>

definition anon_name_bytes :: "u8 list" where
  "anon_name_bytes = map of_char kAnonName @ [0]"

text \<open>Four pages that are never freed, used in turn; zero is no page.\<close>

abbreviation (input) kPoolSize :: nat where "kPoolSize \<equiv> 4"

record name_pool =
  np_slots :: "u64 list"
  np_next :: nat

definition empty_pool :: name_pool where
  "empty_pool = \<lparr> np_slots = replicate kPoolSize 0, np_next = 0 \<rparr>"

definition name_slot :: "vm_kernel \<Rightarrow> vm \<times> name_pool \<Rightarrow> u64 option \<times> vm \<times> name_pool" where
  "name_slot K st =
     (case st of (v, pool) \<Rightarrow>
        let i = np_next pool mod kPoolSize; pool1 = pool\<lparr> np_next := np_next pool + 1 \<rparr> in
        if np_slots pool ! i \<noteq> 0 then (Some (np_slots pool ! i), v, pool1)
        else case sys_mmap K 4096 (P_READ OR P_WRITE) v of
          (None, v1) \<Rightarrow> (None, v1, pool1)
        | (Some mem, v1) \<Rightarrow>
            (Some mem, v1\<lparr> vm_space := store_bytes mem anon_name_bytes (vm_space v1) \<rparr>,
             pool1\<lparr> np_slots := (np_slots pool)[i := mem] \<rparr>))"

definition name_anon_region :: "vm_kernel \<Rightarrow> u64 \<Rightarrow> nat \<Rightarrow> vm \<times> name_pool \<Rightarrow> u64 \<times> vm \<times> name_pool" where
  "name_anon_region K addr sz st =
     (case name_slot K st of
        (None, v1, pool1) \<Rightarrow> (0, v1, pool1)
      | (Some slot, v1, pool1) \<Rightarrow>
          (case prctl_anon_name K addr sz slot v1 of
             (True, v2) \<Rightarrow> (slot, v2, pool1)
           | (False, v2) \<Rightarrow> (0, v2, pool1)))"

section \<open>One range\<close>

text \<open>The copy is made in a mapping of its own that is then moved over the range.\<close>

definition anonymize_range :: "vm_kernel \<Rightarrow> u64 \<Rightarrow> nat \<Rightarrow> u8 \<Rightarrow> vm \<Rightarrow> (bool \<times> vm) res" where
  "anonymize_range K addr sz perms v =
     (case sys_mmap K sz P_WRITE v of
        (None, v1) \<Rightarrow> Inr (False, v1)
      | (Some copy, v1) \<Rightarrow>
          let v2 = (if perms AND P_READ = 0 then snd (sys_mprotect K addr sz P_READ v1) else v1) in
          if \<not> (allowed P_READ addr sz (vm_space v2) \<and> allowed P_WRITE copy sz (vm_space v2))
          then Inl Bad_read
          else
            let v3 = v2\<lparr> vm_space := copy_bytes copy addr sz (vm_space v2) \<rparr> in
            case sys_mremap K copy addr sz False v3 of (moved, v4) \<Rightarrow>
              Inr (moved, sys_munmap K copy sz v4))"

section \<open>The sweep\<close>

definition range_size :: "lsplt_map \<Rightarrow> nat" where
  "range_size mp = unat (lm_end mp - lm_start mp)"

definition hide_entry :: "vm_kernel \<Rightarrow> string \<Rightarrow> lsplt_map \<Rightarrow> vm \<times> name_pool \<Rightarrow> (vm \<times> name_pool) res" where
  "hide_entry K path mp st =
     (if \<not> str_contains (lm_path mp) path then Inr st
      else case st of (v, pool) \<Rightarrow>
        bind_res (anonymize_range K (lm_start mp) (range_size mp) (lm_perms mp) v) (\<lambda>(anonymised, v1).
          case (if anonymised then snd (name_anon_region K (lm_start mp) (range_size mp) (v1, pool))
                else (v1, pool)) of (v2, pool2) \<Rightarrow>
            Inr (snd (sys_mprotect K (lm_start mp) (range_size mp) (lm_perms mp) v2), pool2)))"

definition drop_write :: "vm_kernel \<Rightarrow> bool \<Rightarrow> lsplt_map \<Rightarrow> vm \<Rightarrow> vm" where
  "drop_write K clear_write_permission mp v =
     (if clear_write_permission \<and> lm_path mp \<noteq> [] \<and>
         lm_perms mp AND (P_READ OR P_WRITE OR P_EXEC) = (P_READ OR P_WRITE OR P_EXEC)
      then snd (sys_mprotect K (lm_start mp) (range_size mp) (lm_perms mp AND NOT P_WRITE) v) else v)"

fun spoof_loop :: "vm_kernel \<Rightarrow> string \<Rightarrow> bool \<Rightarrow> lsplt_map list \<Rightarrow> vm \<times> name_pool \<Rightarrow> (vm \<times> name_pool) res" where
  "spoof_loop K path clear [] st = Inr st"
| "spoof_loop K path clear (mp # mps) st =
     bind_res (hide_entry K path mp st) (\<lambda>(v, pool).
       spoof_loop K path clear mps (drop_write K clear mp v, pool))"

definition spoof_virtual_maps ::
  "vm_kernel \<Rightarrow> lsplt_map list \<Rightarrow> string \<Rightarrow> bool \<Rightarrow> vm \<times> name_pool \<Rightarrow> (vm \<times> name_pool) res" where
  "spoof_virtual_maps K scan path clear_write_permission st = spoof_loop K path clear_write_permission scan st"

end
