(* ===== verification/Clean_Properties.thy ===== *)
theory Clean_Properties
  imports Clean "HOL-Library.Code_Target_Nat"
begin

text \<open>
  What hiding the maps does to the process: whatever the kernel answers, every mapped byte stays
  where it is; when nothing fails, exactly the matching ranges lose their file and carry a name
  that can be read, with the protection they had.
\<close>

section \<open>One range\<close>

definition mapped :: "u64 \<Rightarrow> nat \<Rightarrow> space \<Rightarrow> bool" where
  "mapped a n s \<longleftrightarrow> (\<forall>x. in_region x a n \<longrightarrow> s x \<noteq> None)"

lemma mapped_keeps: "mapped a n s \<Longrightarrow> keeps s s' \<Longrightarrow> mapped a n s'"
  unfolding mapped_def using keeps_mapped by blast

lemma fresh_mapping:
  assumes "fresh_mappings K" "single_threaded K" "sys_mmap K n p v = (r, v1)"
  shows "(case r of None \<Rightarrow> vm_space v1 = vm_space v
     | Some a \<Rightarrow> vm_space v1 = map_anon a n p (vm_space v) \<and> a \<noteq> 0 \<and>
         (\<forall>x. in_region x a n \<longrightarrow> vm_space v x = None))"
  using assms unfolding fresh_mappings_def by (auto simp: sys_mmap_def Let_def split: option.splits)

lemma moved_cell:
  assumes "in_region x a n" "\<And>x. in_region x copy n \<Longrightarrow> s x = Some (anon_cell P_WRITE)"
    and "\<not> in_region x copy n"
  shows "unmap copy n (move_mapping copy a n (\<lambda>_. None) (copy_bytes copy a n s)) x =
     Some ((anon_cell P_WRITE)\<lparr> cl_byte := byte_at s x \<rparr>)"
proof -
  have "in_region (copy + (x - a)) copy n" using assms(1) by (simp add: in_region_def)
  then show ?thesis
    using assms by (simp add: unmap_def move_mapping_def copy_bytes_def)
qed

lemma anonymize_effect:
  assumes K: "fresh_mappings K" "single_threaded K" and m: "mapped a n (vm_space v)"
    and r: "anonymize_range K a n p v = Inr (ok, v')"
  shows "\<not> in_region x a n \<Longrightarrow> vm_space v' x = vm_space v x"
    and "in_region x a n \<Longrightarrow> vm_space v x = Some c \<Longrightarrow>
      \<exists>c'. vm_space v' x = Some c' \<and> cl_byte c' = cl_byte c \<and> cl_tag c' = (if ok then 0 else cl_tag c) \<and>
        cl_path c' = (if ok then [] else cl_path c)"
proof -
  obtain q v1 where mm: "sys_mmap K n P_WRITE v = (q, v1)" by fastforce
  have "(\<not> in_region x a n \<longrightarrow> vm_space v' x = vm_space v x) \<and>
    (in_region x a n \<longrightarrow> vm_space v x = Some c \<longrightarrow>
      (\<exists>c'. vm_space v' x = Some c' \<and> cl_byte c' = cl_byte c \<and> cl_tag c' = (if ok then 0 else cl_tag c) \<and>
        cl_path c' = (if ok then [] else cl_path c)))"
  proof (cases q)
    case None
    with mm r fresh_mapping [OF K mm] show ?thesis by (auto simp: anonymize_range_def)
  next
    case (Some copy)
    with fresh_mapping [OF K mm] have s1: "vm_space v1 = map_anon copy n P_WRITE (vm_space v)"
      and free: "\<And>x. in_region x copy n \<Longrightarrow> vm_space v x = None" by auto
    from free m have apart: "in_region x a n \<Longrightarrow> \<not> in_region x copy n" for x
      by (auto simp: mapped_def)
    define v2 where "v2 = (if p AND P_READ = 0 then snd (sys_mprotect K a n P_READ v1) else v1)"
    have out2: "vm_space v2 x = vm_space v1 x" if "\<not> in_region x a n" for x
      using that K(2) by (auto simp: v2_def sys_mprotect_def Let_def protect_def)
    have in2: "\<exists>d. vm_space v2 x = Some d \<and> cl_byte d = cl_byte c \<and> cl_tag d = cl_tag c \<and> cl_path d = cl_path c"
      if "in_region x a n" "vm_space v x = Some c" for x c
      using that K(2) apart [OF that(1)] s1
      by (auto simp: v2_def sys_mprotect_def Let_def protect_def map_anon_def)
    have cp2: "vm_space v2 x = Some (anon_cell P_WRITE)" if "in_region x copy n" for x
      using that out2 [of x] apart [of x] s1 by (auto simp: map_anon_def)
    define v3 where "v3 = v2\<lparr> vm_space := copy_bytes copy a n (vm_space v2) \<rparr>"
    obtain moved v4 where mv: "sys_mremap K copy a n False v3 = (moved, v4)" by fastforce
    from r Some mm mv have e: "ok = moved" "v' = sys_munmap K copy n v4"
      by (auto simp: anonymize_range_def Let_def v2_def [symmetric] v3_def [symmetric] split: if_splits)
    have s': "vm_space v' = unmap copy n (if moved then move_mapping copy a n (\<lambda>_. None) (vm_space v3) else vm_space v3)"
      using mv K(2) by (auto simp: e sys_munmap_def sys_mremap_def Let_def split: if_splits)
    show ?thesis
    proof (intro conjI impI)
      assume out: "\<not> in_region x a n"
      show "vm_space v' x = vm_space v x"
      proof (cases "in_region x copy n")
        case True
        then show ?thesis using free by (simp add: s' unmap_def)
      next
        case False
        then show ?thesis
          using out out2 [OF out] s1
          by (simp add: s' unmap_def move_mapping_def v3_def copy_bytes_def map_anon_def)
      qed
    next
      assume i: "in_region x a n" and c: "vm_space v x = Some c"
      from in2 [OF i c] obtain d where d: "vm_space v2 x = Some d" "cl_byte d = cl_byte c"
        "cl_tag d = cl_tag c" "cl_path d = cl_path c" by blast
      show "\<exists>c'. vm_space v' x = Some c' \<and> cl_byte c' = cl_byte c \<and> cl_tag c' = (if ok then 0 else cl_tag c) \<and>
        cl_path c' = (if ok then [] else cl_path c)"
      proof (cases moved)
        case True
        then show ?thesis
          using moved_cell [OF i, of copy "vm_space v2", OF cp2 apart [OF i]] d s'
          by (simp add: v3_def e(1) anon_cell_def byte_at_def)
      next
        case False
        then show ?thesis
          using apart [OF i] d s' by (simp add: v3_def e(1) unmap_def copy_bytes_def)
      qed
    qed
  qed
  then show "\<not> in_region x a n \<Longrightarrow> vm_space v' x = vm_space v x"
    and "in_region x a n \<Longrightarrow> vm_space v x = Some c \<Longrightarrow>
      \<exists>c'. vm_space v' x = Some c' \<and> cl_byte c' = cl_byte c \<and> cl_tag c' = (if ok then 0 else cl_tag c) \<and>
        cl_path c' = (if ok then [] else cl_path c)" by auto
qed

lemma anonymize_keeps:
  assumes "fresh_mappings K" "single_threaded K" "mapped a n (vm_space v)"
    and "anonymize_range K a n p v = Inr (ok, v')"
  shows "keeps (vm_space v) (vm_space v')"
  unfolding keeps_def using anonymize_effect [OF assms] by metis

section \<open>The names\<close>

text \<open>Every page of the pool holds the name.\<close>

definition pool_named :: "name_pool \<Rightarrow> space \<Rightarrow> bool" where
  "pool_named pool s \<longleftrightarrow>
     (\<forall>slot \<in> set (np_slots pool). slot \<noteq> 0 \<longrightarrow>
        mapped slot (length anon_name_bytes) s \<and> load_bytes s slot (length anon_name_bytes) = anon_name_bytes)"

lemma load_bytes_keeps:
  assumes "mapped a n s" "keeps s s'"
  shows "load_bytes s' a n = load_bytes s a n"
  unfolding load_bytes_def peek_def
  using assms keeps_byte region_offset by (auto simp: mapped_def)

lemma pool_named_keeps: "pool_named pool s \<Longrightarrow> keeps s s' \<Longrightarrow> pool_named pool s'"
  unfolding pool_named_def using mapped_keeps load_bytes_keeps by metis

lemma load_store_bytes:
  assumes "mapped a (length bs) s" "length bs < 2 ^ 64"
  shows "load_bytes (store_bytes a bs s) a (length bs) = bs"
proof (rule nth_equalityI)
  show "length (load_bytes (store_bytes a bs s) a (length bs)) = length bs"
    by (simp add: load_bytes_def)
  fix i
  assume "i < length (load_bytes (store_bytes a bs s) a (length bs))"
  then have i: "i < length bs" by (simp add: load_bytes_def)
  then obtain c where "s (a + of_nat i) = Some c"
    using assms(1) region_offset unfolding mapped_def by blast
  with i assms(2) show "load_bytes (store_bytes a bs s) a (length bs) ! i = bs ! i"
    by (simp add: load_bytes_def peek_def byte_at_def store_bytes_def in_region_def unat_of_nat)
qed

lemma anon_name_length [simp]: "length anon_name_bytes = 11"
  by (simp add: anon_name_bytes_def kAnonName_def)

lemma mapped_mono: "mapped a n s \<Longrightarrow> k \<le> n \<Longrightarrow> mapped a k s"
  by (auto simp: mapped_def in_region_def)

lemma mapped_map_anon [simp]: "mapped a n (map_anon a n p s)"
  by (simp add: mapped_def map_anon_def)

lemma mapped_store [simp]: "mapped a n (store_bytes b bs s) = mapped a n s"
  by (simp add: mapped_def store_bytes_def)

lemma keeps_map_le: "s \<subseteq>\<^sub>m s' \<Longrightarrow> keeps s s'"
  unfolding keeps_def map_le_def by (metis domI)

lemma named_page:
  assumes "\<And>x. in_region x a 4096 \<Longrightarrow> s x = None"
  shows "s \<subseteq>\<^sub>m store_bytes a anon_name_bytes (map_anon a 4096 p s)"
    and "mapped a 11 (store_bytes a anon_name_bytes (map_anon a 4096 p s))"
    and "load_bytes (store_bytes a anon_name_bytes (map_anon a 4096 p s)) a 11 = anon_name_bytes"
proof -
  have "in_region x a 11 \<Longrightarrow> in_region x a 4096" for x by (simp add: in_region_def)
  then show "s \<subseteq>\<^sub>m store_bytes a anon_name_bytes (map_anon a 4096 p s)"
    using assms by (fastforce simp: map_le_def store_bytes_def map_anon_def)
  have m: "mapped a 11 (map_anon a 4096 p s)" by (rule mapped_mono [of _ 4096]) simp_all
  then show "mapped a 11 (store_bytes a anon_name_bytes (map_anon a 4096 p s))" by simp
  show "load_bytes (store_bytes a anon_name_bytes (map_anon a 4096 p s)) a 11 = anon_name_bytes"
    using load_store_bytes [of a anon_name_bytes "map_anon a 4096 p s"] m by simp
qed

text \<open>What obtaining a slot does: everything mapped stays, and the slot holds the name.\<close>

lemma name_slot_effect:
  assumes K: "fresh_mappings K" "single_threaded K"
    and p: "pool_named pool (vm_space v)" "length (np_slots pool) = 4"
    and r: "name_slot K (v, pool) = (q, v1, pool1)"
  shows "vm_space v \<subseteq>\<^sub>m vm_space v1 \<and> pool_named pool1 (vm_space v1) \<and> length (np_slots pool1) = 4 \<and>
    (\<forall>slot. q = Some slot \<longrightarrow> slot \<noteq> 0 \<and> slot \<in> set (np_slots pool1)) \<and>
    set (np_slots pool) \<subseteq> insert 0 (set (np_slots pool1))"
proof -
  let ?i = "np_next pool mod 4"
  have i: "?i < length (np_slots pool)" using p(2) by simp
  obtain z v2 where mm: "sys_mmap K 4096 (P_READ OR P_WRITE) v = (z, v2)" by fastforce
  note f = fresh_mapping [OF K mm]
  show ?thesis
  proof (cases "np_slots pool ! ?i = 0 \<and> z \<noteq> None")
    case False
    then have "vm_space v1 = vm_space v" "np_slots pool1 = np_slots pool"
      "q = None \<or> q = Some (np_slots pool ! ?i) \<and> np_slots pool ! ?i \<noteq> 0"
      using r mm f by (auto simp: name_slot_def Let_def split: if_splits)
    then show ?thesis using p i by (auto simp: pool_named_def)
  next
    case True
    then obtain mem where z: "z = Some mem" by auto
    with f have s2: "vm_space v2 = map_anon mem 4096 (P_READ OR P_WRITE) (vm_space v)" "mem \<noteq> 0"
      "\<And>x. in_region x mem 4096 \<Longrightarrow> vm_space v x = None" by auto
    let ?s = "store_bytes mem anon_name_bytes (map_anon mem 4096 (P_READ OR P_WRITE) (vm_space v))"
    from True z r mm s2(1) have e: "q = Some mem" "vm_space v1 = ?s" "np_slots pool1 = (np_slots pool)[?i := mem]"
      by (auto simp: name_slot_def Let_def)
    note page = named_page [where p = "P_READ OR P_WRITE", OF s2(3)]
    have "set (np_slots pool1) \<subseteq> insert mem (set (np_slots pool))"
      unfolding e(3) by (rule set_update_subset_insert)
    then have "pool_named pool1 ?s"
      using page(2,3) pool_named_keeps [OF p(1) keeps_map_le [OF page(1)]]
      by (auto simp: pool_named_def)
    moreover have "mem \<in> set (np_slots pool1)" using i by (simp add: e(3) set_update_memI)
    moreover have "set (np_slots pool) \<subseteq> insert 0 (set (np_slots pool1))"
    proof
      fix x assume "x \<in> set (np_slots pool)"
      then obtain j where j: "j < length (np_slots pool)" "x = np_slots pool ! j" by (auto simp: in_set_conv_nth)
      show "x \<in> insert 0 (set (np_slots pool1))"
      proof (cases "j = ?i")
        case True
        then show ?thesis using j \<open>np_slots pool ! ?i = 0 \<and> z \<noteq> None\<close> by simp
      next
        case False
        then have "np_slots pool1 ! j = x" using j by (simp add: e(3))
        then show ?thesis using j by (metis e(3) insertCI length_list_update nth_mem)
      qed
    qed
    ultimately show ?thesis using page(1) e p(2) s2(2) by simp
  qed
qed

section \<open>Any kernel\<close>

lemma keeps_sys_mprotect [simp]:
  "single_threaded K \<Longrightarrow> keeps (vm_space v) (vm_space (snd (sys_mprotect K a n p v)))"
  by (simp add: sys_mprotect_def Let_def)

lemma keeps_prctl:
  "single_threaded K \<Longrightarrow> prctl_anon_name K a n ptr v = (ok, v') \<Longrightarrow> keeps (vm_space v) (vm_space v')"
  by (auto simp: prctl_anon_name_def Let_def split: if_splits)

lemma name_anon_region_keeps:
  assumes K: "fresh_mappings K" "single_threaded K"
    and p: "pool_named pool (vm_space v)" "length (np_slots pool) = 4"
    and r: "name_anon_region K a n (v, pool) = (slot, v', pool')"
  shows "keeps (vm_space v) (vm_space v') \<and> pool_named pool' (vm_space v') \<and> length (np_slots pool') = 4"
proof -
  obtain q v1 pool1 where s: "name_slot K (v, pool) = (q, v1, pool1)" by (rule prod_cases3)
  note e = name_slot_effect [OF K p s]
  have k: "keeps (vm_space v) (vm_space v1)" using e keeps_map_le by blast
  show ?thesis
  proof (cases q)
    case None
    then show ?thesis using r s e k by (simp add: name_anon_region_def)
  next
    case (Some ptr)
    obtain ok v2 where t: "prctl_anon_name K a n ptr v1 = (ok, v2)" by fastforce
    with r s Some have "v' = v2" "pool' = pool1" by (auto simp: name_anon_region_def split: bool.splits)
    moreover have "keeps (vm_space v) (vm_space v2)" "pool_named pool1 (vm_space v2)"
      using keeps_trans [OF k keeps_prctl [OF K(2) t]] pool_named_keeps [OF _ keeps_prctl [OF K(2) t]] e by auto
    ultimately show ?thesis using e by simp
  qed
qed

lemma hide_entry_keeps:
  assumes K: "fresh_mappings K" "single_threaded K"
    and p: "pool_named pool (vm_space v)" "length (np_slots pool) = 4"
    and m: "mapped (lm_start mp) (range_size mp) (vm_space v)"
    and r: "hide_entry K path mp (v, pool) = Inr (v', pool')"
  shows "keeps (vm_space v) (vm_space v') \<and> pool_named pool' (vm_space v') \<and> length (np_slots pool') = 4"
proof (cases "str_contains (lm_path mp) path")
  case False
  then show ?thesis using r p by (simp add: hide_entry_def)
next
  case True
  with r obtain ok v1 where a: "anonymize_range K (lm_start mp) (range_size mp) (lm_perms mp) v = Inr (ok, v1)"
    by (auto simp: hide_entry_def)
  note k1 = anonymize_keeps [OF K m a]
  note p1 = pool_named_keeps [OF p(1) k1]
  obtain slot v2 pool2 where n: "name_anon_region K (lm_start mp) (range_size mp) (v1, pool) = (slot, v2, pool2)"
    by (rule prod_cases3)
  note k2 = name_anon_region_keeps [OF K p1 p(2) n]
  have e: "v' = snd (sys_mprotect K (lm_start mp) (range_size mp) (lm_perms mp) (if ok then v2 else v1))"
    "pool' = (if ok then pool2 else pool)"
    using r True a n by (auto simp: hide_entry_def)
  have "keeps (vm_space v1) (vm_space (if ok then v2 else v1))" using k2 by simp
  then have k: "keeps (vm_space v) (vm_space v')" "keeps (vm_space (if ok then v2 else v1)) (vm_space v')"
    unfolding e(1) using k1 keeps_sys_mprotect [OF K(2)] keeps_trans by blast+
  show ?thesis
  proof (cases ok)
    case True
    then show ?thesis using k e(2) k2 pool_named_keeps by auto
  next
    case False
    then show ?thesis using k e(2) p1 p(2) pool_named_keeps by auto
  qed
qed

lemma drop_write_keeps: "single_threaded K \<Longrightarrow> keeps (vm_space v) (vm_space (drop_write K clear mp v))"
  by (simp add: drop_write_def)

lemma spoof_keeps:
  assumes K: "fresh_mappings K" "single_threaded K"
  shows "pool_named pool (vm_space v) \<Longrightarrow> length (np_slots pool) = 4 \<Longrightarrow>
    list_all (\<lambda>mp. mapped (lm_start mp) (range_size mp) (vm_space v)) mps \<Longrightarrow>
    spoof_loop K path clear mps (v, pool) = Inr (v', pool') \<Longrightarrow>
    keeps (vm_space v) (vm_space v') \<and> pool_named pool' (vm_space v')"
proof (induction mps arbitrary: v pool)
  case Nil
  then show ?case by simp
next
  case (Cons mp mps)
  then obtain v1 pool1 where h: "hide_entry K path mp (v, pool) = Inr (v1, pool1)"
    and l: "spoof_loop K path clear mps (drop_write K clear mp v1, pool1) = Inr (v', pool')" by auto
  have m: "mapped (lm_start mp) (range_size mp) (vm_space v)" using Cons.prems(3) by simp
  note k1 = hide_entry_keeps [OF K Cons.prems(1,2) m h]
  note k2 = drop_write_keeps [OF K(2), of v1 clear mp]
  have k: "keeps (vm_space v) (vm_space (drop_write K clear mp v1))" using k1 k2 keeps_trans by blast
  have "keeps (vm_space (drop_write K clear mp v1)) (vm_space v') \<and> pool_named pool' (vm_space v')"
    using Cons.prems(3) mapped_keeps [OF _ k] pool_named_keeps [OF _ k2] k1
    by (intro Cons.IH [OF _ _ _ l]) (auto simp: list_all_iff)
  then show ?case using k keeps_trans by blast
qed


section \<open>A kernel that may run out of room only\<close>

definition willing :: "vm_kernel \<Rightarrow> bool" where
  "willing K \<longleftrightarrow> (\<forall>t. vk_mremap K t \<and> vk_mprotect K t \<and> vk_prctl K t)"

text \<open>The scan describes the mapping.\<close>

definition described :: "lsplt_map \<Rightarrow> space \<Rightarrow> bool" where
  "described mp s \<longleftrightarrow> (\<forall>x. in_region x (lm_start mp) (range_size mp) \<longrightarrow>
     (\<exists>c. s x = Some c \<and> cl_path c = lm_path mp \<and> cl_prot c = lm_perms mp))"

definition disjoint_ranges :: "lsplt_map \<Rightarrow> lsplt_map \<Rightarrow> bool" where
  "disjoint_ranges mp mq \<longleftrightarrow> (\<forall>x. in_region x (lm_start mp) (range_size mp) \<longrightarrow>
     \<not> in_region x (lm_start mq) (range_size mq))"

lemma willing_anonymize:
  assumes K: "fresh_mappings K" "single_threaded K" "willing K"
    and d: "\<And>x. in_region x a n \<Longrightarrow> \<exists>c. vm_space v x = Some c \<and> cl_prot c = p"
  shows "\<exists>ok v'. anonymize_range K a n p v = Inr (ok, v')"
proof -
  obtain q v1 where mm: "sys_mmap K n P_WRITE v = (q, v1)" by fastforce
  show ?thesis
  proof (cases q)
    case None
    then show ?thesis using mm by (auto simp: anonymize_range_def)
  next
    case (Some copy)
    from fresh_mapping [OF K(1,2) mm] Some have s1: "vm_space v1 = map_anon copy n P_WRITE (vm_space v)"
      and free: "\<And>x. in_region x copy n \<Longrightarrow> vm_space v x = None" by auto
    from free d have apart: "in_region x a n \<Longrightarrow> \<not> in_region x copy n" for x by force
    define v2 where "v2 = (if p AND P_READ = 0 then snd (sys_mprotect K a n P_READ v1) else v1)"
    have "vm_space v2 = (if p AND P_READ = 0 then protect a n P_READ (vm_space v1) else vm_space v1)"
      using K(2,3) by (simp add: v2_def sys_mprotect_def Let_def willing_def)
    then have "allowed P_READ a n (vm_space v2)" "allowed P_WRITE copy n (vm_space v2)"
      using d apart by (auto intro!: allowedI simp: s1 protect_def map_anon_def anon_cell_def) fastforce+
    then show ?thesis
      using mm Some K(3) by (auto simp: anonymize_range_def v2_def Let_def sys_mremap_def willing_def)
  qed
qed

text \<open>The protection an entry ends with, and what its cells look like.\<close>

definition cleared :: "bool \<Rightarrow> lsplt_map \<Rightarrow> bool" where
  "cleared clear mp \<longleftrightarrow> clear \<and> lm_path mp \<noteq> [] \<and>
     lm_perms mp AND (P_READ OR P_WRITE OR P_EXEC) = (P_READ OR P_WRITE OR P_EXEC)"

definition final_perms :: "bool \<Rightarrow> lsplt_map \<Rightarrow> u8" where
  "final_perms clear mp = (if cleared clear mp then lm_perms mp AND NOT P_WRITE else lm_perms mp)"

definition hidden_cell :: "bool \<Rightarrow> u64 list \<Rightarrow> lsplt_map \<Rightarrow> u8 \<Rightarrow> cell \<Rightarrow> bool" where
  "hidden_cell hidden slots mp p c \<longleftrightarrow> cl_prot c = p \<and>
     (if hidden then cl_path c = [] \<and> (cl_tag c = 0 \<or> cl_tag c \<in> set slots) else cl_path c = lm_path mp)"

lemma willing_name:
  assumes K: "fresh_mappings K" "single_threaded K" "willing K"
    and p: "pool_named pool (vm_space v)" "length (np_slots pool) = 4"
    and r: "name_anon_region K a n (v, pool) = (slot, v', pool')"
  shows "\<exists>s. vm_space v \<subseteq>\<^sub>m s \<and> vm_space v' = (if slot = 0 then s else name_range a n slot s) \<and>
    (slot = 0 \<or> slot \<in> set (np_slots pool')) \<and> set (np_slots pool) \<subseteq> insert 0 (set (np_slots pool'))"
proof -
  obtain q v1 pool1 where s: "name_slot K (v, pool) = (q, v1, pool1)" by (rule prod_cases3)
  note e = name_slot_effect [OF K(1,2) p s]
  show ?thesis
    using r s e K(2,3)
    by (intro exI [of _ "vm_space v1"])
      (auto simp: name_anon_region_def prctl_anon_name_def Let_def willing_def split: option.splits)
qed

lemma willing_hide:
  assumes K: "fresh_mappings K" "single_threaded K" "willing K"
    and p: "pool_named pool (vm_space v)" "length (np_slots pool) = 4"
    and d: "described mp (vm_space v)" and match: "str_contains (lm_path mp) path"
  shows "\<exists>v' pool'. hide_entry K path mp (v, pool) = Inr (v', pool') \<and>
    (\<forall>x. \<not> in_region x (lm_start mp) (range_size mp) \<longrightarrow> vm_space v x \<noteq> None \<longrightarrow> vm_space v' x = vm_space v x) \<and>
    (\<exists>hidden. \<forall>x. in_region x (lm_start mp) (range_size mp) \<longrightarrow>
       (\<exists>c. vm_space v' x = Some c \<and> hidden_cell hidden (np_slots pool') mp (lm_perms mp) c)) \<and>
    set (np_slots pool) \<subseteq> insert 0 (set (np_slots pool'))"
proof -
  let ?a = "lm_start mp" and ?n = "range_size mp"
  have m: "mapped ?a ?n (vm_space v)" using d by (force simp: mapped_def described_def)
  obtain ok v1 where a: "anonymize_range K ?a ?n (lm_perms mp) v = Inr (ok, v1)"
    using willing_anonymize [OF K, of ?a ?n v "lm_perms mp"] d unfolding described_def by blast
  have in1: "\<exists>c. vm_space v1 x = Some c \<and> (if ok then cl_path c = [] \<and> cl_tag c = 0 else cl_path c = lm_path mp)"
    if "in_region x ?a ?n" for x
    using anonymize_effect(2) [OF K(1,2) m a that] d that by (force simp: described_def)
  note out1 = anonymize_effect(1) [OF K(1,2) m a]
  note p1 = pool_named_keeps [OF p(1) anonymize_keeps [OF K(1,2) m a]]
  obtain slot v2 pool2 where nm: "name_anon_region K ?a ?n (v1, pool) = (slot, v2, pool2)" by (rule prod_cases3)
  from willing_name [OF K p1 p(2) nm] obtain s where le: "vm_space v1 \<subseteq>\<^sub>m s"
    and s2: "vm_space v2 = (if slot = 0 then s else name_range ?a ?n slot s)"
    and sl: "slot = 0 \<or> slot \<in> set (np_slots pool2)"
      "set (np_slots pool) \<subseteq> insert 0 (set (np_slots pool2))" by blast
  have le': "vm_space v1 x = Some c \<Longrightarrow> s x = Some c" for x c
    using le by (auto simp: map_le_def dom_def)
  define pool' where "pool' = (if ok then pool2 else pool)"
  define s' where "s' = protect ?a ?n (lm_perms mp) (vm_space (if ok then v2 else v1))"
  have "hide_entry K path mp (v, pool) =
      Inr (snd (sys_mprotect K ?a ?n (lm_perms mp) (if ok then v2 else v1)), pool')"
    using match a nm by (cases ok) (simp_all add: hide_entry_def pool'_def)
  moreover have "vm_space (snd (sys_mprotect K ?a ?n (lm_perms mp) (if ok then v2 else v1))) = s'"
    using K(2,3) by (simp add: sys_mprotect_def Let_def willing_def s'_def)
  ultimately obtain v' where h: "hide_entry K path mp (v, pool) = Inr (v', pool')" "vm_space v' = s'"
    by blast
  have "vm_space v' x = vm_space v x" if "\<not> in_region x ?a ?n" "vm_space v x \<noteq> None" for x
    using out1 [OF that(1)] that le' [of x] s2
    by (auto simp: h(2) s'_def protect_def name_range_def)
  moreover have "\<exists>c. vm_space v' x = Some c \<and> hidden_cell ok (np_slots pool') mp (lm_perms mp) c"
    if "in_region x ?a ?n" for x
  proof -
    from in1 [OF that] obtain c where c: "vm_space v1 x = Some c"
      "if ok then cl_path c = [] \<and> cl_tag c = 0 else cl_path c = lm_path mp" by blast
    have "vm_space v' x = Some ((if ok \<and> slot \<noteq> 0 then c\<lparr> cl_tag := slot \<rparr> else c)\<lparr> cl_prot := lm_perms mp \<rparr>)"
      using c le' [OF c(1)] that s2 by (auto simp: h(2) s'_def protect_def name_range_def)
    then show ?thesis using c(2) sl(1) by (auto simp: hidden_cell_def pool'_def)
  qed
  ultimately show ?thesis using h(1) sl(2) pool'_def by (cases ok) auto
qed

text \<open>The loop: what is done to an entry stays, as the ranges of the others are elsewhere.\<close>

definition entry_done :: "string \<Rightarrow> bool \<Rightarrow> u64 list \<Rightarrow> lsplt_map \<Rightarrow> space \<Rightarrow> bool" where
  "entry_done path clear slots mp s \<longleftrightarrow> str_contains (lm_path mp) path \<longrightarrow>
     (\<exists>hidden. \<forall>x. in_region x (lm_start mp) (range_size mp) \<longrightarrow>
        (\<exists>c. s x = Some c \<and> hidden_cell hidden slots mp (final_perms clear mp) c))"

definition untouched :: "string \<Rightarrow> bool \<Rightarrow> lsplt_map list \<Rightarrow> u64 \<Rightarrow> bool" where
  "untouched path clear mps x \<longleftrightarrow>
     list_all (\<lambda>mp. in_region x (lm_start mp) (range_size mp) \<longrightarrow>
        \<not> str_contains (lm_path mp) path \<and> \<not> cleared clear mp) mps"

lemma willing_entry:
  assumes K: "fresh_mappings K" "single_threaded K" "willing K"
    and p: "pool_named pool (vm_space v)" "length (np_slots pool) = 4"
    and d: "described mp (vm_space v)"
  shows "\<exists>v1 pool1. hide_entry K path mp (v, pool) = Inr (v1, pool1) \<and>
    (\<forall>x. \<not> in_region x (lm_start mp) (range_size mp) \<or> untouched path clear [mp] x \<longrightarrow> vm_space v x \<noteq> None \<longrightarrow>
       vm_space (drop_write K clear mp v1) x = vm_space v x) \<and>
    entry_done path clear (np_slots pool1) mp (vm_space (drop_write K clear mp v1)) \<and>
    set (np_slots pool) \<subseteq> insert 0 (set (np_slots pool1))"
proof (cases "str_contains (lm_path mp) path")
  case False
  then have "hide_entry K path mp (v, pool) = Inr (v, pool)" by (simp add: hide_entry_def)
  then show ?thesis
    using False K(2,3)
    by (auto simp: entry_done_def untouched_def drop_write_def cleared_def sys_mprotect_def Let_def
        willing_def protect_def)
next
  case True
  from willing_hide [OF K p d True] obtain v1 pool1 where
    h: "hide_entry K path mp (v, pool) = Inr (v1, pool1)"
    and out: "\<And>x. \<not> in_region x (lm_start mp) (range_size mp) \<Longrightarrow> vm_space v x \<noteq> None \<Longrightarrow> vm_space v1 x = vm_space v x"
    and inn: "\<exists>hidden. \<forall>x. in_region x (lm_start mp) (range_size mp) \<longrightarrow>
       (\<exists>c. vm_space v1 x = Some c \<and> hidden_cell hidden (np_slots pool1) mp (lm_perms mp) c)"
    and sl: "set (np_slots pool) \<subseteq> insert 0 (set (np_slots pool1))" by blast
  have w: "vm_space (drop_write K clear mp v1) =
      (if cleared clear mp then protect (lm_start mp) (range_size mp) (lm_perms mp AND NOT P_WRITE) (vm_space v1)
       else vm_space v1)"
    using K(2,3) by (auto simp: drop_write_def cleared_def sys_mprotect_def Let_def willing_def)
  have "entry_done path clear (np_slots pool1) mp (vm_space (drop_write K clear mp v1))"
  proof -
    from inn obtain hidden where "\<And>x. in_region x (lm_start mp) (range_size mp) \<Longrightarrow>
      \<exists>c. vm_space v1 x = Some c \<and> hidden_cell hidden (np_slots pool1) mp (lm_perms mp) c" by blast
    then have "\<forall>x. in_region x (lm_start mp) (range_size mp) \<longrightarrow>
      (\<exists>c. vm_space (drop_write K clear mp v1) x = Some c \<and>
         hidden_cell hidden (np_slots pool1) mp (final_perms clear mp) c)"
      unfolding w final_perms_def by (fastforce simp: protect_def hidden_cell_def)
    then show ?thesis unfolding entry_done_def by blast
  qed
  moreover have "vm_space (drop_write K clear mp v1) x = vm_space v x"
    if "\<not> in_region x (lm_start mp) (range_size mp) \<or> untouched path clear [mp] x" "vm_space v x \<noteq> None" for x
    using that True out by (auto simp: w protect_def untouched_def)
  ultimately show ?thesis using h sl by blast
qed

lemma described_agree:
  "described mp s \<Longrightarrow> (\<And>x. in_region x (lm_start mp) (range_size mp) \<Longrightarrow> s1 x = s x) \<Longrightarrow> described mp s1"
  by (simp add: described_def)

lemma entry_done_agree:
  assumes "entry_done path clear slots mp s"
    and "\<And>x. in_region x (lm_start mp) (range_size mp) \<Longrightarrow> s x \<noteq> None \<Longrightarrow> s1 x = s x"
    and "set slots \<subseteq> insert 0 (set slots1)"
  shows "entry_done path clear slots1 mp s1"
  unfolding entry_done_def
proof
  assume "str_contains (lm_path mp) path"
  with assms(1) obtain hidden where h: "\<And>x. in_region x (lm_start mp) (range_size mp) \<Longrightarrow>
      \<exists>c. s x = Some c \<and> hidden_cell hidden slots mp (final_perms clear mp) c"
    unfolding entry_done_def by blast
  have "\<exists>c. s1 x = Some c \<and> hidden_cell hidden slots1 mp (final_perms clear mp) c"
    if "in_region x (lm_start mp) (range_size mp)" for x
    using h [OF that] assms(2) [OF that] assms(3) by (cases hidden) (auto simp: hidden_cell_def)
  then show "\<exists>hidden. \<forall>x. in_region x (lm_start mp) (range_size mp) \<longrightarrow>
      (\<exists>c. s1 x = Some c \<and> hidden_cell hidden slots1 mp (final_perms clear mp) c)" by blast
qed

lemma willing_spoof:
  assumes K: "fresh_mappings K" "single_threaded K" "willing K"
  shows "pool_named pool (vm_space v) \<Longrightarrow> length (np_slots pool) = 4 \<Longrightarrow>
    list_all (\<lambda>mp. described mp (vm_space v)) mps \<Longrightarrow> sorted_wrt disjoint_ranges mps \<Longrightarrow>
    \<exists>v' pool'. spoof_loop K path clear mps (v, pool) = Inr (v', pool') \<and>
      (\<forall>x. untouched path clear mps x \<longrightarrow> vm_space v x \<noteq> None \<longrightarrow> vm_space v' x = vm_space v x) \<and>
      list_all (\<lambda>mp. entry_done path clear (np_slots pool') mp (vm_space v')) mps \<and>
      set (np_slots pool) \<subseteq> insert 0 (set (np_slots pool'))"
proof (induction mps arbitrary: v pool)
  case Nil
  then show ?case by auto
next
  case (Cons mp mps)
  have d: "described mp (vm_space v)" using Cons.prems(3) by simp
  then have m: "mapped (lm_start mp) (range_size mp) (vm_space v)" by (force simp: mapped_def described_def)
  from willing_entry [OF K Cons.prems(1,2) d, of path clear] obtain v1 pool1 where
    h: "hide_entry K path mp (v, pool) = Inr (v1, pool1)"
    and out: "\<And>x. \<not> in_region x (lm_start mp) (range_size mp) \<or> untouched path clear [mp] x \<Longrightarrow>
       vm_space v x \<noteq> None \<Longrightarrow> vm_space (drop_write K clear mp v1) x = vm_space v x"
    and fin: "entry_done path clear (np_slots pool1) mp (vm_space (drop_write K clear mp v1))"
    and sl: "set (np_slots pool) \<subseteq> insert 0 (set (np_slots pool1))" by metis
  let ?v2 = "drop_write K clear mp v1"
  note k = hide_entry_keeps [OF K(1,2) Cons.prems(1,2) m h]
  have p1: "pool_named pool1 (vm_space ?v2)" "length (np_slots pool1) = 4"
    using k pool_named_keeps [OF _ drop_write_keeps [OF K(2)]] by blast+
  have rest: "described mq (vm_space ?v2)" if "mq \<in> set mps" for mq
  proof (rule described_agree)
    show dq: "described mq (vm_space v)" using that Cons.prems(3) by (simp add: list_all_iff)
    fix x assume "in_region x (lm_start mq) (range_size mq)"
    moreover have "disjoint_ranges mp mq" using that Cons.prems(4) by simp
    ultimately show "vm_space ?v2 x = vm_space v x"
      using out dq by (force simp: disjoint_ranges_def described_def)
  qed
  from Cons.IH [OF p1, of] rest Cons.prems(4) obtain v' pool' where
    l: "spoof_loop K path clear mps (?v2, pool1) = Inr (v', pool')"
    and out': "\<And>x. untouched path clear mps x \<Longrightarrow> vm_space ?v2 x \<noteq> None \<Longrightarrow> vm_space v' x = vm_space ?v2 x"
    and fin': "list_all (\<lambda>mp. entry_done path clear (np_slots pool') mp (vm_space v')) mps"
    and sl': "set (np_slots pool1) \<subseteq> insert 0 (set (np_slots pool'))"
    by (auto simp: list_all_iff)
  have "entry_done path clear (np_slots pool') mp (vm_space v')"
  proof (rule entry_done_agree [OF fin _ sl'])
    fix x assume i: "in_region x (lm_start mp) (range_size mp)" and s: "vm_space ?v2 x \<noteq> None"
    have "untouched path clear mps x"
      using i Cons.prems(4) by (auto simp: untouched_def list_all_iff disjoint_ranges_def)
    then show "vm_space v' x = vm_space ?v2 x" by (rule out' [OF _ s])
  qed
  moreover have "vm_space v' x = vm_space v x" if "untouched path clear (mp # mps) x" "vm_space v x \<noteq> None" for x
    using that out [of x] out' [of x] by (simp add: untouched_def)
  moreover have "set (np_slots pool) \<subseteq> insert 0 (set (np_slots pool'))" using sl sl' by blast
  ultimately show ?case using h l fin' by auto
qed


section \<open>A concrete process\<close>

text \<open>
  Four bytes of a module and four of the C library; new mappings go to the first of eight places
  that is free.
\<close>

definition free_range :: "space \<Rightarrow> u64 \<Rightarrow> nat \<Rightarrow> bool" where
  "free_range s a n \<longleftrightarrow> list_all (\<lambda>i. s (a + of_nat i) = None) [0..<n]"

lemma free_range_region: "free_range s a n \<Longrightarrow> in_region x a n \<Longrightarrow> s x = None"
  using in_region_offset [of x a n] by (auto simp: free_range_def list_all_iff)

definition places :: "u64 list" where
  "places = map (\<lambda>i. of_nat ((i + 1) * 65536)) [0..<8]"

definition first_fit :: vm_kernel where
  "first_fit = \<lparr> vk_mmap = (\<lambda>_ s n. find (\<lambda>a. a \<noteq> 0 \<and> free_range s a n) places),
     vk_mmap_fixed = (\<lambda>_. True), vk_mremap = (\<lambda>_. True), vk_mprotect = (\<lambda>_. True),
     vk_prctl = (\<lambda>_. True), vk_others = (\<lambda>_ s. s), vk_left = Some \<rparr>"

lemma first_fit_laws: "fresh_mappings first_fit" "single_threaded first_fit" "willing first_fit"
proof -
  show "fresh_mappings first_fit"
    unfolding fresh_mappings_def first_fit_def
    by (auto simp: find_Some_iff dest: free_range_region)
qed (simp_all add: first_fit_def single_threaded_def willing_def)

definition module_range :: lsplt_map where
  "module_range = \<lparr> lm_start = 4096, lm_end = 4100, lm_perms = 5, lm_private = True, lm_offset = 0,
     lm_dev = 1, lm_inode = 2, lm_path = ''/zygisk/a.so'' \<rparr>"

definition libc_range :: lsplt_map where
  "libc_range = \<lparr> lm_start = 8192, lm_end = 8196, lm_perms = 7, lm_private = True, lm_offset = 0,
     lm_dev = 1, lm_inode = 3, lm_path = ''/libc.so'' \<rparr>"

definition two_ranges :: vm where
  "two_ranges = \<lparr> vm_space = (\<lambda>x.
       if in_region x 4096 4 then Some \<lparr> cl_byte = 0x90, cl_prot = 5, cl_path = ''/zygisk/a.so'', cl_tag = 0 \<rparr>
       else if in_region x 8192 4 then Some \<lparr> cl_byte = 0xc3, cl_prot = 7, cl_path = ''/libc.so'', cl_tag = 0 \<rparr>
       else None), vm_calls = 0 \<rparr>"

lemma regions_apart: "in_region x 4096 4 \<Longrightarrow> \<not> in_region (x :: u64) 8192 4"
proof -
  assume "in_region x 4096 4"
  then obtain i :: nat where i: "i < 4" "x = 4096 + of_nat i" using in_region_offset by blast
  then have "i = 0 \<or> i = 1 \<or> i = 2 \<or> i = 3" by auto
  then show ?thesis using i(2) by (auto simp: in_region_def)
qed

lemma two_ranges_facts:
  "pool_named empty_pool (vm_space two_ranges)" "length (np_slots empty_pool) = 4"
  "list_all (\<lambda>mp. described mp (vm_space two_ranges)) [module_range, libc_range]"
  "sorted_wrt disjoint_ranges [module_range, libc_range]"
  using regions_apart
  by (auto simp: pool_named_def empty_pool_def described_def range_size_def module_range_def
      libc_range_def two_ranges_def disjoint_ranges_def)



text \<open>
  The temporary mapping is unmapped again after it was moved away: what another thread has mapped
  there in the meantime is lost.
\<close>

lemma foreign_mapping_lost:
  assumes "sys_mmap K n P_WRITE v = (Some copy, v1)" "perms AND P_READ \<noteq> 0"
    and "anonymize_range K a n perms v = Inr (ok, v')"
  shows "mapped copy n (vm_space v') \<Longrightarrow> n = 0"
  using assms region_offset [of 0 n copy]
  by (cases n) (auto simp: anonymize_range_def sys_munmap_def Let_def unmap_def mapped_def split: if_splits prod.splits)

end
