(* ===== verification/Plt_Properties.thy ===== *)
theory Plt_Properties
  imports Plt_Hooks Plt_Elf_Properties Clean_Properties
begin

text \<open>
  What the hook library promises.  While a library is hooked its pristine mapping is kept intact at
  the backup address, and the copy in its place differs from it in the hooked slots only; when the
  last hook goes, the library is back, cell by cell.  Hooked libraries stay recorded when the maps
  are scanned again.  A restore request that matches nothing is reported as a success.
\<close>

section \<open>Slots\<close>

definition slot_word :: "space \<Rightarrow> u64 \<Rightarrow> u64" where
  "slot_word s a = of_nat (le_value (load_bytes s a 8))"

lemma read_slot_word: "read_slot v a = slot_word (vm_space v) a"
  by (simp add: read_slot_def slot_word_def)

lemma le_bytes_le_value: "length bs = n \<Longrightarrow> le_bytes n (le_value bs) = bs"
proof (induction bs arbitrary: n)
  case Nil
  then show ?case by simp
next
  case (Cons b bs)
  then obtain k where "n = Suc k" "length bs = k" by auto
  then show ?case using Cons.IH [of k] unsigned_less [of b, where 'a = nat] by simp
qed

lemma length_load_bytes [simp]: "length (load_bytes s a n) = n"
  by (simp add: load_bytes_def)

lemma slot_word_bytes: "word_bytes (slot_word s a) = load_bytes s a 8"
proof -
  have "le_value (load_bytes s a 8) < 256 ^ 8" using le_value_bound [of "load_bytes s a 8"] by simp
  then have "unat (slot_word s a) = le_value (load_bytes s a 8)"
    by (simp add: slot_word_def unat_of_nat)
  then show ?thesis by (simp add: word_bytes_def le_bytes_le_value)
qed

lemma load_bytes_cong:
  "(\<And>x. in_region x a n \<Longrightarrow> byte_at s x = byte_at s' x) \<Longrightarrow> load_bytes s a n = load_bytes s' a n"
  unfolding load_bytes_def peek_def using region_offset by auto

lemma slot_word_cong:
  "(\<And>x. in_region x a 8 \<Longrightarrow> byte_at s x = byte_at s' x) \<Longrightarrow> slot_word s a = slot_word s' a"
  unfolding slot_word_def by (simp cong: load_bytes_cong)

lemma slot_word_eq_bytes:
  assumes "slot_word s a = slot_word s' a" "in_region x a 8"
  shows "byte_at s x = byte_at s' x"
proof -
  from assms(2) obtain i where i: "i < 8" "x = a + of_nat i" using in_region_offset by blast
  have "load_bytes s a 8 = load_bytes s' a 8" using assms(1) slot_word_bytes by metis
  then have "load_bytes s a 8 ! i = load_bytes s' a 8 ! i" by simp
  then show ?thesis using i by (simp add: load_bytes_def peek_def)
qed

lemma write_slot_space: "vm_space (write_slot a w v) = store_bytes a (word_bytes w) (vm_space v)"
  by (simp add: write_slot_def)

lemma store_bytes_outside [simp]: "\<not> in_region x a (length bs) \<Longrightarrow> store_bytes a bs s x = s x"
  by (simp add: store_bytes_def)

lemma store_bytes_mapped [simp]: "store_bytes a bs s x = None \<longleftrightarrow> s x = None"
  by (simp add: store_bytes_def)

lemma slot_word_stored:
  assumes "mapped a 8 s"
  shows "slot_word (store_bytes a (word_bytes w) s) a = w"
proof -
  have "load_bytes (store_bytes a (word_bytes w) s) a 8 = word_bytes w"
    using load_store_bytes [of a "word_bytes w" s] assms by simp
  then show ?thesis
    using unsigned_less [of w, where 'a = nat] by (simp add: slot_word_def word_bytes_def le_value_le_bytes)
qed

section \<open>The state of one library\<close>

text \<open>The slots \<open>A\<close> lie inside the library and do not overlap.\<close>

definition slots_fit :: "u64 set \<Rightarrow> u64 \<Rightarrow> nat \<Rightarrow> bool" where
  "slots_fit A a n \<longleftrightarrow>
     (\<forall>y \<in> A. \<forall>x. in_region x y 8 \<longrightarrow> in_region x a n \<and> (\<forall>z \<in> A. in_region x z 8 \<longrightarrow> z = y))"

text \<open>
  \<open>s0\<close> is the address space before the first hook.  The recorded originals are the words of the
  pristine library; without a backup the library is as it was; with one, the pristine cells are at
  the backup address and the copy differs in the hooked slots only.
\<close>

definition backed_up :: "space \<Rightarrow> u64 \<Rightarrow> nat \<Rightarrow> (u64 \<times> u64) list \<Rightarrow> u64 \<Rightarrow> space \<Rightarrow> bool" where
  "backed_up s0 a n hooks b s \<longleftrightarrow>
     (\<forall>x. in_region x a n \<longrightarrow> s (b + (x - a)) = s0 x \<and> \<not> in_region x b n \<and> s x \<noteq> None \<and>
        ((\<forall>y \<in> fst ` set hooks. \<not> in_region x y 8) \<longrightarrow> byte_at s x = byte_at s0 x))"

definition originals :: "u64 set \<Rightarrow> space \<Rightarrow> (u64 \<times> u64) list \<Rightarrow> bool" where
  "originals A s0 hooks \<longleftrightarrow>
     distinct (map fst hooks) \<and> (\<forall>(y, orig) \<in> set hooks. y \<in> A \<and> orig = slot_word s0 y)"

definition library_ok ::
  "u64 set \<Rightarrow> space \<Rightarrow> u64 \<Rightarrow> nat \<Rightarrow> (u64 \<times> u64) list \<Rightarrow> u64 \<Rightarrow> space \<Rightarrow> bool" where
  "library_ok A s0 a n hooks b s \<longleftrightarrow> originals A s0 hooks \<and>
     (if b = 0 then hooks = [] \<and> (\<forall>x. in_region x a n \<longrightarrow> s x = s0 x) else hooks \<noteq> [] \<and> backed_up s0 a n hooks b s)"

lemma other_region:
  assumes "\<And>x. in_region x a n \<Longrightarrow> \<not> in_region x b n"
  shows "in_region z b n \<Longrightarrow> \<not> in_region z a n"
  using assms by blast

lemma made_backup:
  assumes K: "fresh_mappings K" "single_threaded K"
    and pristine: "\<And>x. in_region x (lm_start (hi_map info)) (info_len info) \<Longrightarrow>
      vm_space v x = s0 x \<and> s0 x \<noteq> None"
    and r: "make_backup K info v = Inr (Some b, v1)"
  shows "b \<noteq> 0 \<and> backed_up s0 (lm_start (hi_map info)) (info_len info) [] b (vm_space v1)"
proof -
  let ?a = "lm_start (hi_map info)" and ?n = "info_len info"
  obtain q u where mm: "sys_mmap K ?n 0 v = (q, u)" by fastforce
  with r have q: "q = Some b" by (auto simp: make_backup_def Let_def split: option.splits prod.splits bool.splits if_splits)
  from fresh_mapping [OF K mm] q have s1: "vm_space u = map_anon b ?n 0 (vm_space v)" and nz: "b \<noteq> 0"
    and free: "\<And>x. in_region x b ?n \<Longrightarrow> vm_space v x = None" by auto
  from free pristine have apart: "\<And>x. in_region x ?a ?n \<Longrightarrow> \<not> in_region x b ?n" by force
  obtain u2 where mv: "move_away K ?a ?n b u = (True, u2)"
    using r mm q by (auto simp: make_backup_def Let_def split: prod.splits bool.splits)
  obtain u3 where fx: "sys_mmap_fixed K ?a ?n (P_READ OR P_WRITE OR lm_perms (hi_map info)) u2 = (True, u3)"
    using r mm q mv by (auto simp: make_backup_def Let_def split: prod.splits bool.splits)
  have v1: "vm_space v1 = copy_bytes ?a b ?n (vm_space u3)"
    using r mm q mv fx by (auto simp: make_backup_def Let_def split: if_splits)
  obtain left where s2: "vm_space u2 = move_mapping ?a b ?n left (vm_space u)"
    using mv K(2) by (auto simp: move_away_def sys_mremap_def Let_def split: prod.splits bool.splits if_splits)
  have s3: "vm_space u3 = map_anon ?a ?n (P_READ OR P_WRITE OR lm_perms (hi_map info)) (vm_space u2)"
    using fx K(2) by (auto simp: sys_mmap_fixed_def Let_def split: if_splits)
  have "vm_space v1 (b + (x - ?a)) = s0 x \<and> \<not> in_region x b ?n \<and> vm_space v1 x \<noteq> None \<and>
      byte_at (vm_space v1) x = byte_at s0 x" if i: "in_region x ?a ?n" for x
  proof -
    have ib: "in_region (b + (x - ?a)) b ?n" using i by (simp add: in_region_def)
    have nb: "\<not> in_region (b + (x - ?a)) ?a ?n" using apart ib by blast
    have "vm_space u2 (b + (x - ?a)) = vm_space u x" using ib by (simp add: s2 move_mapping_def)
    also have "vm_space u x = s0 x" using apart [OF i] pristine [OF i] by (simp add: s1 map_anon_def)
    finally have u2: "vm_space u2 (b + (x - ?a)) = s0 x" .
    then have u3: "vm_space u3 (b + (x - ?a)) = s0 x" using nb by (simp add: s3 map_anon_def)
    have x3: "vm_space u3 x = Some (anon_cell (P_READ OR P_WRITE OR lm_perms (hi_map info)))"
      using i by (simp add: s3 map_anon_def)
    have "vm_space v1 x = Some ((anon_cell (P_READ OR P_WRITE OR lm_perms (hi_map info)))\<lparr> cl_byte := byte_at s0 x \<rparr>)"
      using i x3 u3 by (simp add: v1 copy_bytes_def byte_at_def)
    moreover have "vm_space v1 (b + (x - ?a)) = s0 x" using nb u3 by (simp add: v1 copy_bytes_def)
    ultimately show ?thesis using apart [OF i] by (simp add: byte_at_def)
  qed
  then show ?thesis using nz by (auto simp: backed_up_def)
qed

section \<open>One patch\<close>

lemma emplace_up_set: "k \<notin> fst ` set xs \<Longrightarrow> set (emplace_up k v xs) = insert (k, v) (set xs)"
  by (induction k v xs rule: emplace_up.induct) auto

lemma emplace_up_distinct:
  "k \<notin> fst ` set xs \<Longrightarrow> distinct (map fst xs) \<Longrightarrow> distinct (map fst (emplace_up k v xs))"
  by (induction k v xs rule: emplace_up.induct) (auto simp: emplace_up_set)

lemma erase_key_set: "set (erase_key k xs) = {e \<in> set xs. fst e \<noteq> k}"
  by (auto simp: erase_key_def)

lemma erase_key_distinct: "distinct (map fst xs) \<Longrightarrow> distinct (map fst (erase_key k xs))"
  by (simp add: erase_key_def distinct_map_filter)

lemma store_callback_effect:
  assumes "store_callback addr callback p v = Inr (tb, v1)"
    and "p = 0 \<or> (\<forall>x. in_region x p 8 \<longrightarrow> \<not> in_region x addr 8)"
  shows "tb = slot_word (vm_space v) addr" and "slot_word (vm_space v1) addr = callback"
    and "\<And>x. vm_space v1 x = None \<longleftrightarrow> vm_space v x = None"
    and "\<And>x. \<not> in_region x addr 8 \<Longrightarrow> p = 0 \<or> \<not> in_region x p 8 \<Longrightarrow> vm_space v1 x = vm_space v x"
proof -
  have m: "mapped addr 8 (vm_space v)"
    using assms(1) allowed_mapped by (auto simp: store_callback_def mapped_def split: if_splits)
  let ?s = "store_bytes addr (word_bytes callback) (vm_space v)"
  have "vm_space v1 = vm_space v \<and> slot_word (vm_space v) addr = callback \<or> p = 0 \<and> vm_space v1 = ?s \<or>
      p \<noteq> 0 \<and> vm_space v1 = store_bytes p (word_bytes tb) ?s" and t: "tb = slot_word (vm_space v) addr"
    using assms(1)
    by (auto simp: store_callback_def Let_def read_slot_word write_slot_space split: if_splits)
  note cases = this(1)
  show "tb = slot_word (vm_space v) addr" by (rule t)
  have new: "slot_word ?s addr = callback" by (rule slot_word_stored [OF m])
  have "slot_word (store_bytes p (word_bytes tb) ?s) addr = slot_word ?s addr" if "p \<noteq> 0"
  proof (rule slot_word_cong)
    fix x assume "in_region x addr 8"
    then have "\<not> in_region x p (length (word_bytes tb))" using assms(2) that by auto
    then show "byte_at (store_bytes p (word_bytes tb) ?s) x = byte_at ?s x" by (simp add: byte_at_def)
  qed
  then show "slot_word (vm_space v1) addr = callback" using cases new by auto
  show "vm_space v1 x = None \<longleftrightarrow> vm_space v x = None" for x using cases by auto
  show "vm_space v1 x = vm_space v x" if "\<not> in_region x addr 8" "p = 0 \<or> \<not> in_region x p 8" for x
    using cases that by auto
qed

lemma record_hook_keys:
  assumes o: "originals A s0 hooks" and "addr \<in> A"
    and "addr \<notin> fst ` set hooks \<longrightarrow> tb = slot_word s0 addr"
  shows "originals A s0 (record_hook addr callback tb hooks)"
    and "fst ` set hooks \<subseteq> insert addr (fst ` set (record_hook addr callback tb hooks))"
    and "addr \<notin> fst ` set (record_hook addr callback tb hooks) \<Longrightarrow> callback = slot_word s0 addr"
proof -
  have dist: "distinct (map fst hooks)" and org: "\<forall>e \<in> set hooks. fst e \<in> A \<and> snd e = slot_word s0 (fst e)"
    using o unfolding originals_def by auto
  have "originals A s0 (record_hook addr callback tb hooks) \<and>
    fst ` set hooks \<subseteq> insert addr (fst ` set (record_hook addr callback tb hooks)) \<and>
    (addr \<notin> fst ` set (record_hook addr callback tb hooks) \<longrightarrow> callback = slot_word s0 addr)"
  proof (cases "map_of hooks addr")
    case None
    then have n: "addr \<notin> fst ` set hooks" by (simp add: map_of_eq_None_iff)
    have "record_hook addr callback tb hooks = emplace_up addr tb hooks" using None by (simp add: record_hook_def)
    moreover have "set (emplace_up addr tb hooks) = insert (addr, tb) (set hooks)" by (rule emplace_up_set [OF n])
    moreover have "distinct (map fst (emplace_up addr tb hooks))" by (rule emplace_up_distinct [OF n dist])
    ultimately show ?thesis using org assms(2,3) n by (auto simp: originals_def)
  next
    case (Some w)
    then have m: "(addr, w) \<in> set hooks" by (rule map_of_SomeD)
    show ?thesis
    proof (cases "w = callback")
      case True
      then have "record_hook addr callback tb hooks = erase_key addr hooks" using Some by (simp add: record_hook_def)
      moreover have "set (erase_key addr hooks) = {e \<in> set hooks. fst e \<noteq> addr}" by (rule erase_key_set)
      moreover have "callback = slot_word s0 addr" using org m True by force
      ultimately show ?thesis using org erase_key_distinct [OF dist] by (auto simp: originals_def)
    next
      case False
      then have "record_hook addr callback tb hooks = hooks" using Some by (simp add: record_hook_def)
      then show ?thesis using o m by force
    qed
  qed
  then show "originals A s0 (record_hook addr callback tb hooks)"
    and "fst ` set hooks \<subseteq> insert addr (fst ` set (record_hook addr callback tb hooks))"
    and "addr \<notin> fst ` set (record_hook addr callback tb hooks) \<Longrightarrow> callback = slot_word s0 addr"
    by blast+
qed

lemma patched_slot:
  assumes b: "backed_up s0 a n hooks b (vm_space v)" and o: "originals A s0 hooks"
    and f: "slots_fit A a n" "addr \<in> A"
    and p: "p = 0 \<or> (\<forall>x. in_region x p 8 \<longrightarrow> \<not> in_region x a n \<and> \<not> in_region x b n)"
    and r: "store_callback addr callback p v = Inr (tb, v1)"
  shows "originals A s0 (record_hook addr callback tb hooks) \<and>
    backed_up s0 a n (record_hook addr callback tb hooks) b (vm_space v1)"
proof -
  let ?hs = "record_hook addr callback tb hooks"
  have sub: "in_region x addr 8 \<Longrightarrow> in_region x a n" for x using f unfolding slots_fit_def by blast
  have p': "p = 0 \<or> (\<forall>x. in_region x p 8 \<longrightarrow> \<not> in_region x addr 8)" using p sub by blast
  note e = store_callback_effect [OF r p']
  have bk: "vm_space v (b + (x - a)) = s0 x" "\<not> in_region x b n" "vm_space v x \<noteq> None"
    "(\<And>y. y \<in> fst ` set hooks \<Longrightarrow> \<not> in_region x y 8) \<Longrightarrow> byte_at (vm_space v) x = byte_at s0 x"
    if "in_region x a n" for x
    using b that unfolding backed_up_def by blast+
  have dist: "distinct (map fst hooks)" and org: "\<And>y w. (y, w) \<in> set hooks \<Longrightarrow> y \<in> A \<and> w = slot_word s0 y"
    using o unfolding originals_def by blast+
  have fresh_slot: "tb = slot_word s0 addr" if "addr \<notin> fst ` set hooks"
    unfolding e(1)
  proof (rule slot_word_cong)
    fix x assume x: "in_region x addr 8"
    show "byte_at (vm_space v) x = byte_at s0 x"
    proof (rule bk(4) [OF sub [OF x]])
      fix y assume "y \<in> fst ` set hooks"
      with org that have "y \<in> A" "y \<noteq> addr" by auto
      then show "\<not> in_region x y 8" using x f unfolding slots_fit_def by blast
    qed
  qed
  have "addr \<notin> fst ` set hooks \<longrightarrow> tb = slot_word s0 addr" using fresh_slot by blast
  note keys = record_hook_keys [OF o f(2) this, where callback = callback]
  have "vm_space v1 (b + (x - a)) = s0 x \<and> \<not> in_region x b n \<and> vm_space v1 x \<noteq> None \<and>
      ((\<forall>y \<in> fst ` set ?hs. \<not> in_region x y 8) \<longrightarrow> byte_at (vm_space v1) x = byte_at s0 x)"
    if i: "in_region x a n" for x
  proof (intro conjI impI)
    have ib: "in_region (b + (x - a)) b n" using i by (simp add: in_region_def)
    then have "\<not> in_region (b + (x - a)) a n" using bk(2) by blast
    then have "\<not> in_region (b + (x - a)) addr 8" using sub by blast
    then show "vm_space v1 (b + (x - a)) = s0 x" using e(4) p ib bk(1) [OF i] by metis
    show "\<not> in_region x b n" by (rule bk(2) [OF i])
    show "vm_space v1 x \<noteq> None" using bk(3) [OF i] e(3) by simp
    assume none: "\<forall>y \<in> fst ` set ?hs. \<not> in_region x y 8"
    show "byte_at (vm_space v1) x = byte_at s0 x"
    proof (cases "in_region x addr 8")
      case True
      then have "addr \<notin> fst ` set ?hs" using none by blast
      then have "callback = slot_word s0 addr" by (rule keys(3))
      with e(2) have "slot_word (vm_space v1) addr = slot_word s0 addr" by simp
      then show ?thesis using True by (rule slot_word_eq_bytes)
    next
      case False
      then have "\<not> in_region x y 8" if "y \<in> fst ` set hooks" for y
        using that none keys(2) False by blast
      then have "byte_at (vm_space v) x = byte_at s0 x" by (rule bk(4) [OF i])
      moreover have "vm_space v1 x = vm_space v x" using e(4) [OF False] p i by blast
      ultimately show ?thesis by (simp add: byte_at_def)
    qed
  qed
  then show ?thesis using keys(1) by (simp add: backed_up_def)
qed

lemma put_back_effect:
  assumes K: "single_threaded K" and b: "backed_up s0 a n (hi_hooks info) b (vm_space v)" "b = hi_backup info" "b \<noteq> 0"
    and i: "a = lm_start (hi_map info)" "n = info_len info" "\<not> hi_self info"
    and r: "put_back K info v = (True, info', v')" and o: "originals A s0 (hi_hooks info)"
  shows "library_ok A s0 a n (hi_hooks info') (hi_backup info') (vm_space v') \<and>
    hi_map info' = hi_map info \<and> hi_self info' = hi_self info"
proof (cases "hi_hooks info = []")
  case False
  then show ?thesis using r b o by (simp add: put_back_def library_ok_def)
next
  case True
  then obtain u where mv: "sys_mremap K b a n False v = (True, u)" and e: "v' = u" "info' = info\<lparr> hi_backup := 0 \<rparr>"
    using r i b(2) by (auto simp: put_back_def split: prod.splits bool.splits)
  have "vm_space v' = move_mapping b a n (\<lambda>_. None) (vm_space v)"
    using mv K by (auto simp: e sys_mremap_def Let_def split: if_splits)
  then have "vm_space v' x = s0 x" if "in_region x a n" for x
    using that b(1) by (simp add: move_mapping_def backed_up_def)
  then show ?thesis using True o by (simp add: library_ok_def e)
qed

text \<open>The pointer that takes the old value is a variable outside the library and its backup.\<close>

definition pointer_ok :: "u64 \<Rightarrow> u64 \<Rightarrow> nat \<Rightarrow> u64 \<Rightarrow> space \<Rightarrow> bool" where
  "pointer_ok p a n b s \<longleftrightarrow> p = 0 \<or> mapped p 8 s \<and>
     (\<forall>x. in_region x p 8 \<longrightarrow> \<not> in_region x a n \<and> (b \<noteq> 0 \<longrightarrow> \<not> in_region x b n))"

lemma patch_with_backup:
  assumes K: "single_threaded K" and o: "originals A s0 (hi_hooks info)" and "b \<noteq> 0"
    and bu: "backed_up s0 (lm_start (hi_map info)) (info_len info) (hi_hooks info) b (vm_space v1)"
    and f: "slots_fit A (lm_start (hi_map info)) (info_len info)" "addr \<in> A" "\<not> hi_self info"
    and p: "p = 0 \<or> (\<forall>x. in_region x p 8 \<longrightarrow>
      \<not> in_region x (lm_start (hi_map info)) (info_len info) \<and> \<not> in_region x b (info_len info))"
    and r: "bind_res (store_callback addr callback p v1) (\<lambda>(tb, v3).
      Inr (put_back K (info\<lparr> hi_backup := b, hi_hooks := record_hook addr callback tb (hi_hooks info) \<rparr>) v3)) =
      Inr (True, info', v')"
  shows "library_ok A s0 (lm_start (hi_map info)) (info_len info) (hi_hooks info') (hi_backup info') (vm_space v') \<and>
    hi_map info' = hi_map info \<and> hi_self info' = hi_self info"
proof -
  from r obtain tb v3 where sc: "store_callback addr callback p v1 = Inr (tb, v3)"
    and pb: "put_back K (info\<lparr> hi_backup := b, hi_hooks := record_hook addr callback tb (hi_hooks info) \<rparr>) v3 =
      (True, info', v')" by auto
  note s = patched_slot [OF bu o f(1,2) p sc]
  let ?info = "info\<lparr> hi_backup := b, hi_hooks := record_hook addr callback tb (hi_hooks info) \<rparr>"
  have l: "info_len ?info = info_len info" by (simp add: info_len_def)
  have "library_ok A s0 (lm_start (hi_map info)) (info_len info) (hi_hooks info') (hi_backup info') (vm_space v') \<and>
    hi_map info' = hi_map ?info \<and> hi_self info' = hi_self ?info"
    by (rule put_back_effect [OF K _ _ assms(3) _ _ _ pb]) (use s f(3) l in simp_all)
  then show ?thesis by simp
qed

lemma patch_step:
  assumes K: "fresh_mappings K" "single_threaded K"
    and ok: "library_ok A s0 (lm_start (hi_map info)) (info_len info) (hi_hooks info) (hi_backup info) (vm_space v)"
    and f: "slots_fit A (lm_start (hi_map info)) (info_len info)" "addr \<in> A" "\<not> hi_self info"
    and m: "mapped (lm_start (hi_map info)) (info_len info) s0"
    and p: "pointer_ok p (lm_start (hi_map info)) (info_len info) (hi_backup info) (vm_space v)"
    and r: "patch_info K addr callback p info v = Inr (True, info', v')"
  shows "library_ok A s0 (lm_start (hi_map info)) (info_len info) (hi_hooks info') (hi_backup info') (vm_space v') \<and>
    hi_map info' = hi_map info \<and> hi_self info' = hi_self info"
proof -
  let ?a = "lm_start (hi_map info)" and ?n = "info_len info"
  have o: "originals A s0 (hi_hooks info)" using ok unfolding library_ok_def by blast
  have open_no: "open_self K (info\<lparr> hi_backup := b \<rparr>) u = (info\<lparr> hi_backup := b \<rparr>, u)" for b u
    using f(3) by (simp add: open_self_def Let_def)
  show ?thesis
  proof (cases "hi_backup info = 0")
    case False
    have bu: "backed_up s0 ?a ?n (hi_hooks info) (hi_backup info) (vm_space v)"
      using ok False by (simp add: library_ok_def)
    have pb: "p = 0 \<or> (\<forall>x. in_region x p 8 \<longrightarrow> \<not> in_region x ?a ?n \<and> \<not> in_region x (hi_backup info) ?n)"
      using p False unfolding pointer_ok_def by blast
    have "bind_res (store_callback addr callback p v) (\<lambda>(tb, v3).
      Inr (put_back K (info\<lparr> hi_backup := hi_backup info, hi_hooks := record_hook addr callback tb (hi_hooks info) \<rparr>) v3)) =
      Inr (True, info', v')"
      using r False open_no [of "hi_backup info"] unfolding patch_info_def by (simp del: bind_res_Inr_iff)
    from patch_with_backup [OF K(2) o False bu f pb this] show ?thesis .
  next
    case True
    obtain q v1 where mb: "make_backup K info v = Inr (q, v1)"
      using r True f(3) by (auto simp: patch_info_def)
    have "q \<noteq> None" using r True f(3) mb unfolding patch_info_def by (cases q) simp_all
    then obtain b where q: "q = Some b" by blast
    have hooks: "hi_hooks info = []" and pr: "\<And>x. in_region x ?a ?n \<Longrightarrow> vm_space v x = s0 x \<and> s0 x \<noteq> None"
      using ok True m by (simp_all add: library_ok_def mapped_def)
    have mb': "make_backup K info v = Inr (Some b, v1)" using mb q by simp
    from made_backup [OF K pr mb'] have bb: "b \<noteq> 0" "backed_up s0 ?a ?n (hi_hooks info) b (vm_space v1)"
      unfolding hooks by blast+
    obtain u where mm: "sys_mmap K ?n 0 v = (Some b, u)"
      using mb' by (auto simp: make_backup_def Let_def split: option.splits prod.splits bool.splits if_splits)
    have "in_region x b ?n \<Longrightarrow> vm_space v x = None" for x using fresh_mapping [OF K mm] by simp
    then have pb: "p = 0 \<or> (\<forall>x. in_region x p 8 \<longrightarrow> \<not> in_region x ?a ?n \<and> \<not> in_region x b ?n)"
      using p unfolding pointer_ok_def mapped_def by blast
    have "bind_res (store_callback addr callback p v1) (\<lambda>(tb, v3).
      Inr (put_back K (info\<lparr> hi_backup := b, hi_hooks := record_hook addr callback tb (hi_hooks info) \<rparr>) v3)) =
      Inr (True, info', v')"
      using r True f(3) mb' unfolding patch_info_def by (simp add: open_no del: bind_res_Inr_iff)
    from patch_with_backup [OF K(2) o bb f pb this] show ?thesis .
  qed
qed

section \<open>Any sequence of patches\<close>

text \<open>Patches of one library, each with the slot, the callback and the pointer of its request.\<close>

fun patch_seq ::
  "vm_kernel \<Rightarrow> (u64 \<times> u64 \<times> u64) list \<Rightarrow> hook_info \<Rightarrow> vm \<Rightarrow> (bool \<times> hook_info \<times> vm) res" where
  "patch_seq K [] info v = Inr (True, info, v)"
| "patch_seq K ((addr, callback, p) # ps) info v =
     bind_res (patch_info K addr callback p info v) (\<lambda>(ok, info1, v1).
       if ok then patch_seq K ps info1 v1 else Inr (False, info1, v1))"

lemma patch_seq_ok:
  assumes K: "fresh_mappings K" "single_threaded K"
  shows "library_ok A s0 (lm_start (hi_map info)) (info_len info) (hi_hooks info) (hi_backup info) (vm_space v) \<Longrightarrow>
    slots_fit A (lm_start (hi_map info)) (info_len info) \<Longrightarrow> \<not> hi_self info \<Longrightarrow>
    mapped (lm_start (hi_map info)) (info_len info) s0 \<Longrightarrow>
    list_all (\<lambda>(addr, callback, p). addr \<in> A \<and> p = 0) ps \<Longrightarrow>
    patch_seq K ps info v = Inr (True, info', v') \<Longrightarrow>
    library_ok A s0 (lm_start (hi_map info)) (info_len info) (hi_hooks info') (hi_backup info') (vm_space v')"
proof (induction ps arbitrary: info v)
  case Nil
  then show ?case by simp
next
  case (Cons q ps)
  obtain addr callback p where q: "q = (addr, callback, p)" by (rule prod_cases3)
  with Cons.prems(6) obtain info1 v1 where r: "patch_info K addr callback p info v = Inr (True, info1, v1)"
    and l: "patch_seq K ps info1 v1 = Inr (True, info', v')" by (auto split: if_splits)
  have "pointer_ok p (lm_start (hi_map info)) (info_len info) (hi_backup info) (vm_space v)" "addr \<in> A"
    using Cons.prems(5) q by (simp_all add: pointer_ok_def)
  note s = patch_step [OF K Cons.prems(1,2) this(2) Cons.prems(3,4) this(1) r]
  then have e: "info_len info1 = info_len info" by (simp add: info_len_def)
  show ?case
    using Cons.IH [OF _ _ _ _ _ l] s Cons.prems e by simp
qed


lemma patch_info_hooks:
  assumes "patch_info K addr callback p info v = Inr (True, info', v')" "\<not> hi_self info"
  shows "\<exists>tb v2 v3. store_callback addr callback p v2 = Inr (tb, v3) \<and>
    hi_hooks info' = record_hook addr callback tb (hi_hooks info) \<and> (hi_hooks info' \<noteq> [] \<longrightarrow> v' = v3)"
proof -
  from assms(1) obtain x where
    x: "(case x of (b, v1) \<Rightarrow> case b of None \<Rightarrow> Inr (False, info, v1)
       | Some b \<Rightarrow> (case open_self K (info\<lparr> hi_backup := b \<rparr>) v1 of (info2, v2) \<Rightarrow>
           bind_res (store_callback addr callback p v2) (\<lambda>(tb, v3).
             Inr (put_back K (info2\<lparr> hi_hooks := record_hook addr callback tb (hi_hooks info2) \<rparr>) v3)))) =
     (Inr (True, info', v') :: (bool \<times> hook_info \<times> vm) res)"
    unfolding patch_info_def bind_res_Inr_iff by blast
  obtain q v2 where q: "x = (q, v2)" by fastforce
  with x obtain b where "q = Some b" by (cases q) auto
  with x q assms(2) obtain tb v3 where s: "store_callback addr callback p v2 = Inr (tb, v3)"
    and p: "put_back K (info\<lparr> hi_backup := b, hi_hooks := record_hook addr callback tb (hi_hooks info) \<rparr>) v3 =
      (True, info', v')"
    by (auto simp: open_self_def Let_def)
  then have "hi_hooks info' = record_hook addr callback tb (hi_hooks info) \<and> (hi_hooks info' \<noteq> [] \<longrightarrow> v' = v3)"
    by (auto simp: put_back_def split: if_splits prod.splits bool.splits)
  then show ?thesis using s by blast
qed

text \<open>
  C16: hooking a slot makes it hold the callback and records its old word, and hooking it again with
  that word puts the whole library back as it was, cell by cell.
\<close>

theorem hook_and_restore:
  assumes "fresh_mappings K" "single_threaded K" "hi_hooks info = []" "hi_backup info = 0" "\<not> hi_self info"
    and "mapped (lm_start (hi_map info)) (info_len info) (vm_space v)"
    and "slots_fit {addr} (lm_start (hi_map info)) (info_len info)"
    and "patch_info K addr callback 0 info v = Inr (True, info1, v1)"
    and "patch_info K addr (read_slot v addr) 0 info1 v1 = Inr (True, info2, v2)"
  shows "hi_hooks info1 = [(addr, read_slot v addr)] \<and> read_slot v1 addr = callback \<and>
    hi_hooks info2 = [] \<and> hi_backup info2 = 0 \<and>
    (\<forall>x. in_region x (lm_start (hi_map info)) (info_len info) \<longrightarrow> vm_space v2 x = vm_space v x)"
proof -
  let ?a = "lm_start (hi_map info)" and ?n = "info_len info"
  have l0: "library_ok {addr} (vm_space v) ?a ?n (hi_hooks info) (hi_backup info) (vm_space v)"
    using assms(3,4) by (simp add: library_ok_def originals_def)
  note s1 = patch_step [OF assms(1,2) l0 assms(7) _ assms(5,6) _ assms(8)]
  have s1: "library_ok {addr} (vm_space v) ?a ?n (hi_hooks info1) (hi_backup info1) (vm_space v1)"
    "hi_map info1 = hi_map info" "hi_self info1 = hi_self info"
    using s1 by (simp_all add: pointer_ok_def)
  obtain tb u w where t: "store_callback addr callback 0 u = Inr (tb, w)"
    "hi_hooks info1 = record_hook addr callback tb (hi_hooks info)" "hi_hooks info1 \<noteq> [] \<longrightarrow> v1 = w"
    using patch_info_hooks [OF assms(8,5)] by blast
  have h1: "hi_hooks info1 = [(addr, tb)]" using t(2) assms(3) by (simp add: record_hook_def)
  then have tb: "tb = read_slot v addr"
    using s1(1) by (simp add: library_ok_def originals_def read_slot_word)
  have cb: "read_slot v1 addr = callback"
    using store_callback_effect(2) [OF t(1)] t(3) h1 by (simp add: read_slot_word)
  have e: "info_len info1 = ?n" using s1(2) by (simp add: info_len_def)
  have s2: "library_ok {addr} (vm_space v) ?a ?n (hi_hooks info2) (hi_backup info2) (vm_space v2)"
    using patch_step [OF assms(1,2), of "{addr}" "vm_space v" info1 v1 addr 0 "read_slot v addr" info2 v2]
      s1 e assms(5-7,9) by (simp add: pointer_ok_def)
  have "hi_hooks info2 = []"
    using patch_info_hooks [OF assms(9)] s1(3) assms(5) h1 tb by (auto simp: record_hook_def erase_key_def)
  then show ?thesis using s2 h1 tb cb by (auto simp: library_ok_def split: if_splits)
qed

section \<open>Restoring what is not there\<close>

text \<open>No mapping has a hook with the request's original.\<close>

definition unmatched :: "hook_infos \<Rightarrow> hook_request \<Rightarrow> bool" where
  "unmatched infos rq \<longleftrightarrow>
     list_all (\<lambda>(k, info). lm_dev (hi_map info) \<noteq> rq_dev rq \<or> lm_inode (hi_map info) \<noteq> rq_inode rq \<or>
       list_all (\<lambda>(y, orig). orig \<noteq> rq_callback rq) (hi_hooks info)) infos"

lemma unmatched_in: "unmatched (pl_infos st) rq \<Longrightarrow> restore_in K rq ks restored r st = Inr (restored, r, st)"
proof (induction ks)
  case (Cons k ks)
  have "find (\<lambda>(_, orig). orig = rq_callback rq) (hi_hooks info) = None"
    if "map_of (pl_infos st) k = Some info" "lm_dev (hi_map info) = rq_dev rq" "lm_inode (hi_map info) = rq_inode rq" for info
    using Cons.prems map_of_SomeD [OF that(1)] that(2,3)
    by (fastforce simp: unmatched_def list_all_iff find_None_iff)
  then show ?case using Cons by (auto split: option.split)
qed simp

lemma unmatched_requests:
  "list_all (unmatched (pl_infos st)) rqs \<Longrightarrow> restore_requests K rqs r st = Inr (r, rqs, st)"
  by (induction rqs arbitrary: r) (auto simp: unmatched_in)

text \<open>The mappings a commit works on.\<close>

definition commit_infos :: "u64 \<Rightarrow> lsplt_map list \<Rightarrow> hook_lib \<Rightarrow> hook_infos" where
  "commit_infos ret maps L =
     Merge (hl_infos L) (Filter (hl_pending L)
       (CreateTargetsFromMemoryMaps (find_self ret maps (hl_self_dev L, hl_self_inode L)) maps))"

lemma targets_nonempty:
  "acc \<noteq> [] \<or> list_ex hookable maps \<Longrightarrow> foldl (add_target self) acc maps \<noteq> []"
proof (induction maps arbitrary: acc)
  case (Cons mp maps)
  have "emplace_down k v xs \<noteq> []" for k v and xs :: hook_infos by (cases xs) (auto split: if_splits)
  then have "add_target self acc mp \<noteq> [] \<or> list_ex hookable maps"
    using Cons.prems by (auto simp: add_target_def)
  then show ?case using Cons.IH by simp
qed simp

text \<open>
  an unhooking commit whose requests match no recorded hook reports success, although nothing was
  restored, memory is unchanged and every request is still pending; the search for the symbols, which
  is there for this case, is not made.
\<close>

theorem unmatched_restore_succeeds:
  assumes "hl_pending L \<noteq> []" "list_ex hookable maps"
    and "list_all (unmatched (commit_infos ret maps L)) (hl_pending L)"
  shows "\<exists>L'. CommitHook K a ret maps True L = Some (Inr (True, L')) \<and> hl_pending L' = hl_pending L \<and>
    hl_vm L' = hl_vm L"
proof -
  let ?self = "find_self ret maps (hl_self_dev L, hl_self_inode L)"
  let ?st = "\<lparr> pl_infos = commit_infos ret maps L, pl_vm = hl_vm L \<rparr>"
  have t: "CreateTargetsFromMemoryMaps ?self maps \<noteq> []"
    using targets_nonempty [of "[]" maps ?self] assms(2) by (simp add: CreateTargetsFromMemoryMaps_def)
  have r: "RestoreFunction K (hl_pending L) ?st = Inr (True, hl_pending L, ?st)"
    using assms(3) unmatched_requests [of ?st] by (simp add: RestoreFunction_def)
  show ?thesis
    using assms(1) t r unfolding CommitHook_def Let_def commit_infos_def bind_search_def by simp
qed

text \<open>A request for a file whose image is not valid is dropped and counts as a success.\<close>

lemma invalid_image_passes:
  assumes "map_of (pl_infos st) k = Some info" "hi_elf info = Some e" "\<not> pe_valid e"
    and "lm_offset (hi_map info) = rq_lo rq" "Match info rq"
  shows "\<exists>st'. process_requests K a k [rq] True st = Some (Inr (True, [], st')) \<and> pl_vm st' = pl_vm st"
  using assms by (simp add: process_one_def bind_search_def Let_def)

section \<open>New scans\<close>

lemma map_of_erase: "map_of (erase_key b xs) k = (if k = b then None else map_of xs k)"
  by (induction xs) (auto simp: erase_key_def)

lemma map_of_replace:
  "map_of (replace_key k v xs) k1 = (if k1 = k \<and> map_of xs k \<noteq> None then Some v else map_of xs k1)"
  by (induction xs) (auto simp: replace_key_def)

lemma map_of_emplace_down:
  "map_of xs k = None \<Longrightarrow> map_of (emplace_down k v xs) k1 = (if k1 = k then Some v else map_of xs k1)"
  by (induction k v xs rule: emplace_down.induct) (auto split: if_splits)

lemma merge_one_self: "hi_backup info \<noteq> 0 \<Longrightarrow> hi_backup info \<noteq> k \<Longrightarrow> map_of (merge_one (k, info) new) k = Some info"
  by (auto simp: merge_one_def Let_def map_of_erase map_of_replace map_of_emplace_down)

lemma merge_one_other:
  "k1 \<noteq> k \<Longrightarrow> map_of (merge_one (k, info) new) k1 = (if hi_backup info \<noteq> 0 \<and> hi_backup info = k1 then None else map_of new k1)"
  by (auto simp: merge_one_def Let_def map_of_erase map_of_replace map_of_emplace_down)

text \<open>The backup addresses are nobody's start.\<close>

definition backups_apart :: "hook_infos \<Rightarrow> bool" where
  "backups_apart infos \<longleftrightarrow>
     list_all (\<lambda>(_, info). hi_backup info = 0 \<or> hi_backup info \<notin> fst ` set infos) infos"

lemma merge_all_other:
  "k1 \<notin> fst ` set old \<Longrightarrow> map_of (fold merge_one old new) k1 =
     (if list_ex (\<lambda>(_, info). hi_backup info \<noteq> 0 \<and> hi_backup info = k1) old then None else map_of new k1)"
  by (induction old arbitrary: new) (auto simp: merge_one_other)

lemma merge_keeps:
  "(k, info) \<in> set old \<Longrightarrow> hi_backup info \<noteq> 0 \<Longrightarrow> distinct (map fst old) \<Longrightarrow>
    list_all (\<lambda>(_, i). hi_backup i = 0 \<or> hi_backup i \<noteq> k) old \<Longrightarrow>
    map_of (fold merge_one old new) k = Some info"
proof (induction old arbitrary: new)
  case (Cons e old)
  obtain k1 i where e: "e = (k1, i)" by fastforce
  show ?case
  proof (cases "(k, info) = e")
    case True
    then have "k \<notin> fst ` set old" using Cons.prems(3) by force
    then show ?thesis
      using Cons.prems True merge_one_self [of info k new]
      by (auto simp: merge_all_other list_ex_iff list_all_iff)
  next
    case False
    then show ?thesis using Cons e by auto
  qed
qed simp

text \<open>
  C40: when the maps are scanned again, every library that is hooked stays recorded with its hooks and
  its backup, and no backup mapping is taken for a library of its own.
\<close>

theorem hooked_libraries_recorded:
  assumes "distinct (map fst old)" "backups_apart old"
    and "(k, info) \<in> set old" "hi_backup info \<noteq> 0"
  shows "map_of (Merge old new) k = Some info \<and> map_of (Merge old new) (hi_backup info) = None"
proof -
  have k: "k \<in> fst ` set old" using assms(3) by force
  have "list_all (\<lambda>(_, i). hi_backup i = 0 \<or> hi_backup i \<noteq> k) old"
    unfolding list_all_iff
  proof
    fix e assume "e \<in> set old"
    then show "case e of (_, i) \<Rightarrow> hi_backup i = 0 \<or> hi_backup i \<noteq> k"
      using assms(2) k unfolding backups_apart_def list_all_iff by (cases e) auto
  qed
  then have "map_of (Merge old new) k = Some info"
    unfolding Merge_def using assms by (intro merge_keeps)
  moreover have "case (k, info) of (_, i) \<Rightarrow> hi_backup i = 0 \<or> hi_backup i \<notin> fst ` set old"
    using assms(2,3) unfolding backups_apart_def list_all_iff by (rule bspec)
  then have "hi_backup info \<notin> fst ` set old" using assms(4) by simp
  then have "map_of (Merge old new) (hi_backup info) = None"
    unfolding Merge_def using assms(3,4) by (auto simp: merge_all_other list_ex_iff)
  ultimately show ?thesis by blast
qed

section \<open>Giving up the copies\<close>

lemma stored_word_byte:
  assumes "in_region x y 8" "mapped y 8 s1"
  shows "byte_at (store_bytes y (word_bytes (slot_word s y)) s1) x = byte_at s x"
proof -
  from assms(1) obtain i where i: "i < 8" "x = y + of_nat i" using in_region_offset by blast
  have "s1 x \<noteq> None" using assms unfolding mapped_def by blast
  moreover have "unat (x - y) = i" using i by (simp add: unat_of_nat)
  ultimately have "byte_at (store_bytes y (word_bytes (slot_word s y)) s1) x = word_bytes (slot_word s y) ! i"
    using assms(1) by (auto simp: byte_at_def store_bytes_def)
  then show ?thesis using i by (simp add: slot_word_bytes load_bytes_def peek_def)
qed

lemma write_hooks_bytes:
  "list_all (\<lambda>(y, w). w = slot_word s y \<and> mapped y 8 (vm_space v)) hs \<Longrightarrow>
    byte_at (vm_space (write_hooks hs v)) x =
      (if \<exists>y \<in> fst ` set hs. in_region x y 8 then byte_at s x else byte_at (vm_space v) x)"
proof (induction hs arbitrary: v)
  case (Cons e hs)
  obtain y w where e: "e = (y, w)" by fastforce
  with Cons.prems have w: "w = slot_word s y" "mapped y 8 (vm_space v)" by simp_all
  have "mapped z 8 (vm_space (write_slot y w v)) = mapped z 8 (vm_space v)" for z
    by (simp add: write_slot_space)
  then have ih: "byte_at (vm_space (write_hooks hs (write_slot y w v))) x =
      (if \<exists>y \<in> fst ` set hs. in_region x y 8 then byte_at s x else byte_at (vm_space (write_slot y w v)) x)"
    using Cons.prems by (intro Cons.IH) (simp add: list_all_iff)
  have "byte_at (vm_space (write_slot y w v)) x = (if in_region x y 8 then byte_at s x else byte_at (vm_space v) x)"
    using stored_word_byte [of x y "vm_space v" s] w by (simp add: write_slot_space byte_at_def)
  then show ?case using ih e by auto
qed simp

text \<open>
  giving up the copy of a hooked library changes nothing that can be read from it: the pristine
  mapping is back in its place, with the hooks written into it.
\<close>

theorem cleanup_keeps_content:
  assumes "single_threaded K" "willing K" "hi_backup info \<noteq> 0"
    and "library_ok A s0 (lm_start (hi_map info)) (info_len info) (hi_hooks info) (hi_backup info) (vm_space v)"
    and "slots_fit A (lm_start (hi_map info)) (info_len info)"
    and "mapped (lm_start (hi_map info)) (info_len info) s0" "page_down ps (lm_start (hi_map info)) = lm_start (hi_map info)"
    and "cleanup_info K ps info v = (ok, info', v')"
  shows "ok \<and> hi_backup info' = 0 \<and> hi_hooks info' = [] \<and>
    (\<forall>x. in_region x (lm_start (hi_map info)) (info_len info) \<longrightarrow>
       (\<exists>c. vm_space v' x = Some c \<and> cl_prot c = lm_perms (hi_map info) \<and>
            cl_byte c = byte_at (vm_space v) x))"
proof -
  let ?a = "lm_start (hi_map info)" and ?n = "info_len info"
  let ?hs = "map (\<lambda>(addr, _). (addr, read_slot v addr)) (hi_hooks info)"
  have b: "backed_up s0 ?a ?n (hi_hooks info) (hi_backup info) (vm_space v)"
    and o: "originals A s0 (hi_hooks info)" using assms(3,4) by (simp_all add: library_ok_def)
  obtain v1 where mv: "sys_mremap K (hi_backup info) ?a ?n False v = (True, v1)"
    and s1: "vm_space v1 = move_mapping (hi_backup info) ?a ?n (\<lambda>_. None) (vm_space v)"
    using assms(1,2) by (simp add: sys_mremap_def Let_def willing_def)
  obtain v2 where p2: "sys_mprotect K ?a ?n P_WRITE v1 = (True, v2)"
    and s2: "vm_space v2 = protect ?a ?n P_WRITE (vm_space v1)"
    using assms(1,2) by (simp add: sys_mprotect_def Let_def willing_def)
  have e: "ok" "info' = info\<lparr> hi_hooks := [], hi_backup := 0 \<rparr>"
    "vm_space v' = protect ?a ?n (lm_perms (hi_map info)) (vm_space (write_hooks ?hs v2))"
    using assms(1-3,7,8) mv p2 by (auto simp: cleanup_info_def Let_def sys_mprotect_def willing_def)
  have pristine: "vm_space v2 x = map_option (\<lambda>c. c\<lparr> cl_prot := P_WRITE \<rparr>) (s0 x)" "s0 x \<noteq> None"
    if "in_region x ?a ?n" for x
    using that b assms(6) by (simp_all add: s2 s1 protect_def move_mapping_def backed_up_def mapped_def)
  have slots: "in_region x y 8 \<Longrightarrow> in_region x ?a ?n" if "y \<in> fst ` set (hi_hooks info)" for x y
    using that o assms(5) unfolding originals_def slots_fit_def by fastforce
  have m2: "mapped ?a ?n (vm_space v2)" using pristine by (auto simp: mapped_def)
  have "list_all (\<lambda>(y, w). w = slot_word (vm_space v) y \<and> mapped y 8 (vm_space v2)) ?hs"
    using slots m2 by (fastforce simp: list_all_iff read_slot_word mapped_def)
  note w = write_hooks_bytes [OF this]
  have "fst ` set ?hs = fst ` set (hi_hooks info)" by force
  then have w: "byte_at (vm_space (write_hooks ?hs v2)) x =
      (if \<exists>y \<in> fst ` set (hi_hooks info). in_region x y 8 then byte_at (vm_space v) x else byte_at (vm_space v2) x)" for x
    using w [of x] by (simp only:)
  have kept: "vm_space (write_hooks hs u) x = None \<longleftrightarrow> vm_space u x = None" for hs u x
    by (induction hs u rule: write_hooks.induct) (simp_all add: write_slot_space)
  have "\<exists>c. vm_space v' x = Some c \<and> cl_prot c = lm_perms (hi_map info) \<and> cl_byte c = byte_at (vm_space v) x"
    if i: "in_region x ?a ?n" for x
  proof -
    have "byte_at (vm_space (write_hooks ?hs v2)) x = byte_at (vm_space v) x"
    proof (cases "\<exists>y \<in> fst ` set (hi_hooks info). in_region x y 8")
      case True
      then show ?thesis using w [of x] by simp
    next
      case False
      then have "byte_at (vm_space v) x = byte_at s0 x" using b i unfolding backed_up_def by blast
      moreover have "byte_at (vm_space v2) x = byte_at s0 x"
        using pristine [OF i] by (auto simp: byte_at_def)
      ultimately show ?thesis using w [of x] False by simp
    qed
    moreover obtain d where "vm_space (write_hooks ?hs v2) x = Some d"
      using kept [of ?hs v2 x] pristine [OF i] by fastforce
    ultimately show ?thesis using i by (auto simp: e(3) protect_def byte_at_def)
  qed
  then show ?thesis using e by simp
qed

text \<open>
  Without \<open>MREMAP_DONTUNMAP\<close> the mapping is gone from its place until the copy is mapped; when that
  fails it is not moved back.
\<close>

lemma failed_copy_unmaps:
  assumes "single_threaded K" "\<not> vk_mremap K (vm_calls v + 1)" "vk_mremap K (vm_calls v + 2)"
    and "\<not> vk_mmap_fixed K (vm_calls v + 3)" "fresh_mappings K"
    and "vk_mmap K (vm_calls v) (vm_space v) (info_len info) = Some b"
    and "mapped (lm_start (hi_map info)) (info_len info) (vm_space v)"
    and "in_region x (lm_start (hi_map info)) (info_len info)"
  shows "\<exists>v1. make_backup K info v = Inr (None, v1) \<and> vm_space v1 x = None"
proof -
  have "\<not> in_region x b (info_len info)"
    using assms(5-8) unfolding fresh_mappings_def mapped_def by blast
  then show ?thesis
    using assms(1-4,6,8)
    by (simp add: make_backup_def Let_def sys_mmap_def move_away_def sys_mremap_def sys_mmap_fixed_def
        move_mapping_def numeral_3_eq_3)
qed

section \<open>A concrete library\<close>

text \<open>Eight readable bytes with the word \<open>0x77\<close>, and nothing else mapped.\<close>

definition tiny_library :: hook_info where
  "tiny_library = \<lparr> hi_map = \<lparr> lm_start = 4096, lm_end = 4104, lm_perms = 1, lm_private = True,
       lm_offset = 0, lm_dev = 1, lm_inode = 2, lm_path = ''/lib.so'' \<rparr>,
     hi_hooks = [], hi_backup = 0, hi_elf = None, hi_self = False \<rparr>"

definition tiny_vm :: vm where
  "tiny_vm = \<lparr> vm_space = (\<lambda>x. if in_region x 4096 8
       then Some \<lparr> cl_byte = (if x = 4096 then 0x77 else 0), cl_prot = 1, cl_path = ''/lib.so'', cl_tag = 0 \<rparr>
       else None), vm_calls = 0 \<rparr>"

text \<open>What a kernel that refuses nothing and a readable library give.\<close>

definition obliging :: "vm_kernel \<Rightarrow> bool" where
  "obliging K \<longleftrightarrow> (\<forall>t. vk_mremap K t \<and> vk_mmap_fixed K t)"

definition open_cells :: "u64 \<Rightarrow> nat \<Rightarrow> space \<Rightarrow> bool" where
  "open_cells a n s \<longleftrightarrow> (\<forall>x. in_region x a n \<longrightarrow>
     (\<exists>c. s x = Some c \<and> cl_prot c AND P_READ \<noteq> 0 \<and> cl_prot c AND P_WRITE \<noteq> 0))"

lemma open_prot: "(P_READ OR P_WRITE OR p :: u8) AND P_READ \<noteq> 0" "(P_READ OR P_WRITE OR p :: u8) AND P_WRITE \<noteq> 0"
proof -
  have "bit ((1 OR 2 OR p :: u8) AND 1) 0" "bit ((1 OR 2 OR p :: u8) AND 2) 1"
    by (simp_all add: bit_simps)
  then show "(P_READ OR P_WRITE OR p :: u8) AND P_READ \<noteq> 0" "(P_READ OR P_WRITE OR p :: u8) AND P_WRITE \<noteq> 0"
    by (metis bit_0_eq bot_apply bot_bool_def)+
qed

lemma obliging_backup:
  assumes K: "fresh_mappings K" "single_threaded K" "obliging K"
    and m: "vk_mmap K (vm_calls v) (vm_space v) (info_len info) = Some b"
    and l: "\<And>x. in_region x (lm_start (hi_map info)) (info_len info) \<Longrightarrow>
      \<exists>c. vm_space v x = Some c \<and> cl_prot c AND P_READ \<noteq> 0"
  shows "\<exists>v1. make_backup K info v = Inr (Some b, v1) \<and> b \<noteq> 0 \<and>
    open_cells (lm_start (hi_map info)) (info_len info) (vm_space v1)"
proof -
  let ?a = "lm_start (hi_map info)" and ?n = "info_len info"
  obtain u where mm: "sys_mmap K ?n 0 v = (Some b, u)" using m K(2) by (simp add: sys_mmap_def Let_def)
  from fresh_mapping [OF K(1,2) mm] have s1: "vm_space u = map_anon b ?n 0 (vm_space v)" and nz: "b \<noteq> 0"
    and free: "\<And>x. in_region x b ?n \<Longrightarrow> vm_space v x = None" by auto
  from free l have apart: "\<And>x. in_region x ?a ?n \<Longrightarrow> \<not> in_region x b ?n" by force
  obtain u2 where mv: "move_away K ?a ?n b u = (True, u2)"
    and s2: "vm_space u2 = move_mapping ?a b ?n (vk_left K) (vm_space u)"
    using K(2,3) by (simp add: move_away_def sys_mremap_def Let_def obliging_def)
  obtain u3 where fx: "sys_mmap_fixed K ?a ?n (P_READ OR P_WRITE OR lm_perms (hi_map info)) u2 = (True, u3)"
    and s3: "vm_space u3 = map_anon ?a ?n (P_READ OR P_WRITE OR lm_perms (hi_map info)) (vm_space u2)"
    using K(2,3) by (simp add: sys_mmap_fixed_def Let_def obliging_def)
  have "allowed P_READ b ?n (vm_space u3)"
  proof (rule allowedI)
    fix z assume z: "in_region z b ?n"
    then have i: "in_region (?a + (z - b)) ?a ?n" by (simp add: in_region_def)
    have "\<not> in_region z ?a ?n" using apart z by blast
    then have "vm_space u3 z = vm_space v (?a + (z - b))"
      using z apart [OF i] by (simp add: s3 s2 s1 map_anon_def move_mapping_def)
    then show "\<exists>c. vm_space u3 z = Some c \<and> cl_prot c AND P_READ \<noteq> 0" using l [OF i] by simp
  qed
  then have "make_backup K info v = Inr (Some b, u3\<lparr> vm_space := copy_bytes ?a b ?n (vm_space u3) \<rparr>)"
    by (simp add: make_backup_def Let_def mm mv fx)
  moreover have "open_cells ?a ?n (copy_bytes ?a b ?n (vm_space u3))"
    unfolding open_cells_def s3
    by (intro allI impI) (simp add: copy_bytes_def map_anon_def anon_cell_def open_prot del: or_numerals)
  ultimately show ?thesis using nz by auto
qed

lemma open_cells_store: "open_cells a n s \<Longrightarrow> open_cells a n (store_bytes addr bs s)"
  unfolding open_cells_def store_bytes_def by (auto split: if_splits)

lemma open_allowed:
  assumes "open_cells a n s" "\<And>x. in_region x addr 8 \<Longrightarrow> in_region x a n"
  shows "allowed P_READ addr 8 s" "allowed P_WRITE addr 8 s"
  using assms unfolding open_cells_def by (auto intro!: allowedI)

lemma open_store:
  assumes "open_cells a n (vm_space v)" "\<And>x. in_region x addr 8 \<Longrightarrow> in_region x a n"
  shows "\<exists>tb v1. store_callback addr callback 0 v = Inr (tb, v1) \<and> open_cells a n (vm_space v1)"
  using open_allowed [OF assms] assms(1) open_cells_store [OF assms(1)]
  by (simp add: store_callback_def Let_def write_slot_space)

lemma obliging_hook:
  assumes K: "fresh_mappings K" "single_threaded K" "obliging K" and h: "hi_hooks info = []" "hi_backup info = 0" "\<not> hi_self info"
    and m: "vk_mmap K (vm_calls v) (vm_space v) (info_len info) = Some b"
    and l: "\<And>x. in_region x (lm_start (hi_map info)) (info_len info) \<Longrightarrow>
      \<exists>c. vm_space v x = Some c \<and> cl_prot c AND P_READ \<noteq> 0"
    and f: "slots_fit {addr} (lm_start (hi_map info)) (info_len info)"
  shows "\<exists>info1 v1. patch_info K addr callback 0 info v = Inr (True, info1, v1) \<and> hi_backup info1 \<noteq> 0 \<and>
    hi_map info1 = hi_map info \<and> \<not> hi_self info1 \<and>
    open_cells (lm_start (hi_map info)) (info_len info) (vm_space v1)"
proof -
  let ?a = "lm_start (hi_map info)" and ?n = "info_len info"
  obtain u where mb: "make_backup K info v = Inr (Some b, u)" "b \<noteq> 0" "open_cells ?a ?n (vm_space u)"
    using obliging_backup [OF K m l] by blast
  have sub: "in_region x addr 8 \<Longrightarrow> in_region x ?a ?n" for x using f unfolding slots_fit_def by blast
  obtain tb w where sc: "store_callback addr callback 0 u = Inr (tb, w)" "open_cells ?a ?n (vm_space w)"
    using open_store [OF mb(3) sub] by blast
  show ?thesis
    using mb(1,2) sc h
    by (simp add: patch_info_def open_self_def Let_def record_hook_def put_back_def)
qed

lemma obliging_unhook:
  assumes K: "single_threaded K" "obliging K" and h: "hi_hooks info = [(addr, orig)]" "hi_backup info \<noteq> 0" "\<not> hi_self info"
    and o: "open_cells (lm_start (hi_map info)) (info_len info) (vm_space v)"
    and f: "slots_fit {addr} (lm_start (hi_map info)) (info_len info)"
  shows "\<exists>info1 v1. patch_info K addr orig 0 info v = Inr (True, info1, v1)"
proof -
  have sub: "in_region x addr 8 \<Longrightarrow> in_region x (lm_start (hi_map info)) (info_len info)" for x
    using f unfolding slots_fit_def by blast
  obtain tb w where sc: "store_callback addr orig 0 v = Inr (tb, w)" using open_store [OF o sub] by blast
  show ?thesis
    using sc h K(2)
    by (simp add: patch_info_def open_self_def Let_def record_hook_def erase_key_def put_back_def sys_mremap_def
        obliging_def)
qed

lemma tiny_facts:
  "hi_hooks tiny_library = []" "hi_backup tiny_library = 0" "\<not> hi_self tiny_library"
  "lm_start (hi_map tiny_library) = 4096" "info_len tiny_library = 8"
  "slots_fit {4096} 4096 8" "mapped 4096 8 (vm_space tiny_vm)"
  "in_region x 4096 8 \<Longrightarrow> \<exists>c. vm_space tiny_vm x = Some c \<and> cl_prot c AND P_READ \<noteq> 0"
  by (auto simp: tiny_library_def tiny_vm_def info_len_def slots_fit_def mapped_def)

lemma first_fit_obliging: "obliging first_fit"
  by (simp add: obliging_def first_fit_def)

lemma tiny_room: "vk_mmap first_fit 0 (vm_space tiny_vm) 8 = Some 65536"
proof -
  have pl: "places = 65536 # map (\<lambda>i. of_nat ((i + 1) * 65536)) [1..<8]"
    unfolding places_def by (simp add: upt_conv_Cons)
  have "free_range (vm_space tiny_vm) 65536 8"
    by (simp add: free_range_def tiny_vm_def in_region_def upt_rec)
  then show ?thesis by (simp add: first_fit_def pl)
qed

lemma tiny_hooked:
  "\<exists>info1 v1 info2 v2. patch_info first_fit 4096 0x1234 0 tiny_library tiny_vm = Inr (True, info1, v1) \<and>
     patch_info first_fit 4096 (read_slot tiny_vm 4096) 0 info1 v1 = Inr (True, info2, v2)"
proof -
  note K = first_fit_laws(1,2) first_fit_obliging
  have "vm_calls tiny_vm = 0" by (simp add: tiny_vm_def)
  then have room: "vk_mmap first_fit (vm_calls tiny_vm) (vm_space tiny_vm) (info_len tiny_library) = Some 65536"
    using tiny_room tiny_facts(5) by simp
  have fit: "slots_fit {4096} (lm_start (hi_map tiny_library)) (info_len tiny_library)"
    unfolding tiny_facts by (rule tiny_facts(6))
  have cells: "in_region x (lm_start (hi_map tiny_library)) (info_len tiny_library) \<Longrightarrow>
      \<exists>c. vm_space tiny_vm x = Some c \<and> cl_prot c AND P_READ \<noteq> 0" for x
    unfolding tiny_facts(4,5) by (rule tiny_facts(8))
  obtain info1 v1 where h: "patch_info first_fit 4096 0x1234 0 tiny_library tiny_vm = Inr (True, info1, v1)"
    "hi_backup info1 \<noteq> 0" "hi_map info1 = hi_map tiny_library" "\<not> hi_self info1"
    "open_cells (lm_start (hi_map tiny_library)) (info_len tiny_library) (vm_space v1)"
    using obliging_hook [OF K tiny_facts(1-3) room cells fit] by blast
  have e: "info_len info1 = info_len tiny_library" using h(3) by (simp add: info_len_def)
  have l0: "library_ok {4096} (vm_space tiny_vm) (lm_start (hi_map tiny_library)) (info_len tiny_library)
      (hi_hooks tiny_library) (hi_backup tiny_library) (vm_space tiny_vm)"
    using tiny_facts by (simp add: library_ok_def originals_def)
  have m: "mapped (lm_start (hi_map tiny_library)) (info_len tiny_library) (vm_space tiny_vm)"
    using tiny_facts by simp
  have "library_ok {4096} (vm_space tiny_vm) (lm_start (hi_map tiny_library)) (info_len tiny_library)
      (hi_hooks info1) (hi_backup info1) (vm_space v1)"
    using patch_step [OF K(1,2) l0 fit _ tiny_facts(3) m _ h(1)] by (simp add: pointer_ok_def)
  moreover obtain tb where "hi_hooks info1 = [(4096, tb)]"
    using patch_info_hooks [OF h(1) tiny_facts(3)] tiny_facts(1) by (auto simp: record_hook_def)
  ultimately have "hi_hooks info1 = [(4096, read_slot tiny_vm 4096)]"
    by (simp add: library_ok_def originals_def read_slot_word)
  from obliging_unhook [OF K(2,3) this h(2,4)] h(3,5) e fit
  show ?thesis using h(1) by fastforce
qed

theorem hook_and_restore_witness:
  "\<exists>info1 v1 info2 v2. read_slot v1 4096 = 0x1234 \<and> hi_hooks info1 \<noteq> [] \<and> hi_backup info2 = 0 \<and>
     vm_space v2 4096 = vm_space tiny_vm 4096 \<and>
     patch_info first_fit 4096 0x1234 0 tiny_library tiny_vm = Inr (True, info1, v1) \<and>
     patch_info first_fit 4096 (read_slot tiny_vm 4096) 0 info1 v1 = Inr (True, info2, v2)"
proof -
  from tiny_hooked obtain info1 v1 info2 v2 where
    h: "patch_info first_fit 4096 0x1234 0 tiny_library tiny_vm = Inr (True, info1, v1)"
    "patch_info first_fit 4096 (read_slot tiny_vm 4096) 0 info1 v1 = Inr (True, info2, v2)" by blast
  have "in_region 4096 4096 8" by (simp add: in_region_def)
  with hook_and_restore [OF first_fit_laws(1,2) tiny_facts(1-3) _ _ h] tiny_facts(4-7)
  have "read_slot v1 4096 = 0x1234 \<and> hi_hooks info1 \<noteq> [] \<and> hi_backup info2 = 0 \<and>
     vm_space v2 4096 = vm_space tiny_vm 4096" by auto
  with h show ?thesis by blast
qed


text \<open>A commit that should unhook \<open>0x55\<close>, which nothing recorded.\<close>

definition idle_lib :: hook_lib where
  "idle_lib = \<lparr> hl_pending = [\<lparr> rq_dev = 1, rq_inode = 2, rq_lo = 0, rq_hi = 1, rq_symbol = [102],
       rq_callback = 0x55, rq_backup = 0 \<rparr>],
     hl_infos = [], hl_vm = tiny_vm, hl_self_dev = 9, hl_self_inode = 9 \<rparr>"

theorem unmatched_restore_succeeds_witness:
  "\<exists>L'. CommitHook first_fit X86_64 0 [hi_map tiny_library] True idle_lib = Some (Inr (True, L')) \<and>
     hl_pending L' = hl_pending idle_lib"
proof -
  have "list_all (unmatched (commit_infos 0 [hi_map tiny_library] idle_lib)) (hl_pending idle_lib)"
    by (simp add: commit_infos_def idle_lib_def tiny_library_def Merge_def Filter_def unmatched_def
        CreateTargetsFromMemoryMaps_def add_target_def hookable_def find_self_def Match_def)
  moreover have "hl_pending idle_lib \<noteq> []" "list_ex hookable [hi_map tiny_library]"
    by (simp_all add: idle_lib_def tiny_library_def hookable_def)
  ultimately show ?thesis
    using unmatched_restore_succeeds [of idle_lib "[hi_map tiny_library]" 0 first_fit X86_64] by blast
qed

theorem hooked_libraries_recorded_witness:
  "map_of (Merge [(4096, tiny_library\<lparr> hi_backup := 65536 \<rparr>)]
       [(65536, tiny_library), (4096, tiny_library)]) 4096 = Some (tiny_library\<lparr> hi_backup := 65536 \<rparr>)"
  using hooked_libraries_recorded [of "[(4096, tiny_library\<lparr> hi_backup := 65536 \<rparr>)]" 4096
      "tiny_library\<lparr> hi_backup := 65536 \<rparr>" "[(65536, tiny_library), (4096, tiny_library)]"]
  by (simp add: backups_apart_def)

definition hooked_library :: hook_info where
  "hooked_library = tiny_library\<lparr> hi_hooks := [(4096, 0x77)], hi_backup := 65536 \<rparr>"

text \<open>The same eight bytes hooked with \<open>0x12\<close>, the pristine ones at \<open>65536\<close>.\<close>

definition hooked_vm :: vm where
  "hooked_vm = \<lparr> vm_space = (\<lambda>x. if in_region x 4096 8
       then Some \<lparr> cl_byte = (if x = 4096 then 0x12 else 0), cl_prot = 3, cl_path = [], cl_tag = 0 \<rparr>
       else if in_region x 65536 8 then vm_space tiny_vm (4096 + (x - 65536)) else None), vm_calls = 0 \<rparr>"

theorem cleanup_keeps_content_witness:
  "\<exists>info' v'. cleanup_info first_fit 4096 hooked_library hooked_vm = (True, info', v') \<and> hi_hooks info' = [] \<and>
     byte_at (vm_space v') 4096 = 0x12"
proof -
  have w: "willing first_fit" by (rule first_fit_laws(3))
  obtain ok info' v' where r: "cleanup_info first_fit 4096 hooked_library hooked_vm = (ok, info', v')"
    by (rule prod_cases3)
  have l: "lm_start (hi_map hooked_library) = 4096" "info_len hooked_library = 8" "hi_backup hooked_library = 65536"
    by (simp_all add: hooked_library_def tiny_library_def info_len_def)
  have tiny: "load_bytes (vm_space tiny_vm) 4096 8 = [0x77, 0, 0, 0, 0, 0, 0, 0]"
    by (simp add: load_bytes_def peek_def byte_at_def tiny_vm_def in_region_def upt_rec)
  have org: "originals {4096} (vm_space tiny_vm) (hi_hooks hooked_library)"
    by (simp add: originals_def hooked_library_def slot_word_def tiny)
  have "backed_up (vm_space tiny_vm) 4096 8 (hi_hooks hooked_library) 65536 (vm_space hooked_vm)"
    unfolding backed_up_def
  proof (intro allI impI)
    fix x :: u64 assume i: "in_region x 4096 8"
    then obtain k where k: "k < 8" "x = 4096 + of_nat k" using in_region_offset by blast
    then have "k = 0 \<or> k = 1 \<or> k = 2 \<or> k = 3 \<or> k = 4 \<or> k = 5 \<or> k = 6 \<or> k = 7" by auto
    then have nb: "\<not> in_region x 65536 8" using k(2) by (auto simp: in_region_def)
    have ib: "in_region (65536 + (x - 4096)) 65536 8" using i by (simp add: in_region_def)
    have "\<not> in_region (65536 + (x - 4096)) 4096 8"
      using k(2) \<open>k = 0 \<or> _\<close> by (auto simp: in_region_def)
    then show "vm_space hooked_vm (65536 + (x - 4096)) = vm_space tiny_vm x \<and> \<not> in_region x 65536 8 \<and>
        vm_space hooked_vm x \<noteq> None \<and> ((\<forall>y \<in> fst ` set (hi_hooks hooked_library). \<not> in_region x y 8) \<longrightarrow>
        byte_at (vm_space hooked_vm) x = byte_at (vm_space tiny_vm) x)"
      using i nb ib by (simp add: hooked_vm_def hooked_library_def)
  qed
  then have "library_ok {4096} (vm_space tiny_vm) (lm_start (hi_map hooked_library)) (info_len hooked_library)
      (hi_hooks hooked_library) (hi_backup hooked_library) (vm_space hooked_vm)"
    using org unfolding l by (simp add: library_ok_def hooked_library_def)
  from cleanup_keeps_content [OF first_fit_laws(2) w _ this _ _ _ r]
  have "ok \<and> hi_hooks info' = [] \<and> (\<exists>c. vm_space v' 4096 = Some c \<and> cl_byte c = byte_at (vm_space hooked_vm) 4096)"
    using tiny_facts(6,7) unfolding l by (simp add: page_down_def) (force simp: in_region_def)
  then show ?thesis
    using r by (auto simp: byte_at_def hooked_vm_def in_region_def)
qed

end
