(* ===== verification/Text_Input.thy ===== *)
theory Text_Input
  imports Sanitize Fd_Guard Monitor_Run
begin

text \<open>
  \<open>common/files.cpp\<close> and \<open>common/misc.cpp\<close>: reading a text file line by line into a callback
  and reading a decimal number, and \<open>fgets\<close> as \<open>injector/ptrace_clear.cpp\<close> uses it.  The
  properties tie them to the components that read through them: the status file of the
  monitor and the directory of open descriptors.
\<close>

section \<open>Lines\<close>

text \<open>
  One call of \<open>fgets\<close> with room for \<open>n\<close> characters and the terminator: up to \<open>n\<close> characters,
  not beyond a newline; and what is left of the file.
\<close>

definition fgets :: "nat \<Rightarrow> string \<Rightarrow> string \<times> string" where
  "fgets n s =
     (let k = min n (Suc (length (takeWhile (\<lambda>c. c \<noteq> newline) s))) in (take k s, drop k s))"

function fgets_all :: "nat \<Rightarrow> string \<Rightarrow> string list" where
  "fgets_all n s =
     (if s = [] \<or> n = 0 then [] else case fgets n s of (l, r) \<Rightarrow> l # fgets_all n r)"
  by pat_completeness auto
termination by (relation "measure (\<lambda>(n, s). length s)") (auto simp: fgets_def Let_def)

declare fgets_all.simps [simp del]

text \<open>\<open>getline\<close> grows its buffer to the line, so that only a newline or the end stops it.\<close>

definition getlines :: "string \<Rightarrow> string list" where
  "getlines s = fgets_all (length s) s"

text \<open>
  What \<open>file_readline\<close> hands to the callback: with \<open>trim\<close> without the blanks at both ends;
  always a C string, which ends at the first NUL.
\<close>

definition line_view :: "bool \<Rightarrow> string \<Rightarrow> string" where
  "line_view trim l =
     (if trim then
        dropWhile (\<lambda>c. c = CHR 0x20) (takeWhile (\<lambda>c. c \<noteq> nul)
          (rev (dropWhile (\<lambda>c. c \<in> set [newline, CHR 0x0D, CHR 0x20]) (rev l))))
      else takeWhile (\<lambda>c. c \<noteq> nul) l)"

text \<open>The loop ends early when the callback, which may change a state, returns false.\<close>

fun feed_lines :: "(string \<Rightarrow> 's \<Rightarrow> bool \<times> 's) \<Rightarrow> bool \<Rightarrow> string list \<Rightarrow> 's \<Rightarrow> 's" where
  "feed_lines fn trim [] s = s"
| "feed_lines fn trim (l # ls) s =
     (case fn (line_view trim l) s of (go_on, s1) \<Rightarrow> if go_on then feed_lines fn trim ls s1 else s1)"

definition file_readline :: "bool \<Rightarrow> string \<Rightarrow> (string \<Rightarrow> 's \<Rightarrow> bool \<times> 's) \<Rightarrow> 's \<Rightarrow> 's" where
  "file_readline trim text fn s = feed_lines fn trim (getlines text) s"

text \<open>The variant that opens the file, \<open>None\<close> when that fails.\<close>

definition file_readline_path ::
  "bool \<Rightarrow> string option \<Rightarrow> (string \<Rightarrow> 's \<Rightarrow> bool \<times> 's) \<Rightarrow> 's \<Rightarrow> 's" where
  "file_readline_path trim file fn s =
     (case file of None \<Rightarrow> s | Some text \<Rightarrow> file_readline trim text fn s)"

text \<open>The callback \<open>prepare_environment\<close> passes, on the section it builds.\<close>

definition prop_callback :: "string \<Rightarrow> string \<Rightarrow> bool \<times> string" where
  "prop_callback line pre =
     (if starts_with line ''updateJson='' then (True, pre)
      else if starts_with line ''description='' then (True, pre)
      else (True, (pre @ [CHR 0x09]) @ line))"

section \<open>Numbers\<close>

text \<open>
  \<open>parse_int\<close>: \<open>std::from_chars\<close> takes an optional minus sign and decimal digits, no blanks
  and no plus; a value outside \<open>int\<close> is an error, and so is anything after the digits.
\<close>

definition parse_int :: "string \<Rightarrow> int" where
  "parse_int s =
     (let neg = (case s of c # _ \<Rightarrow> c = CHR 0x2D | [] \<Rightarrow> False);
          u = (if neg then tl s else s);
          ds = takeWhile is_digit u;
          v = (if neg then - digits_value ds else digits_value ds)
      in if ds = [] then - 1
         else if v < - (2 ^ 31) \<or> 2 ^ 31 - 1 < v then - 1
         else if dropWhile is_digit u = [] then v
         else - 1)"

text \<open>The names \<open>readdir\<close> gives for a directory of descriptors read through descriptor \<open>d\<close>.\<close>

definition fd_dir_names :: "int list \<Rightarrow> int \<Rightarrow> string list" where
  "fd_dir_names opened d = ''.'' # ''..'' # map int_string (opened @ [d])"

section \<open>Lemmas\<close>

lemma fgets_parts: "fgets n s = (l, r) \<Longrightarrow> l @ r = s \<and> length l \<le> n"
  by (auto simp: fgets_def Let_def)

lemma fgets_progress: "s \<noteq> [] \<Longrightarrow> 0 < n \<Longrightarrow> fgets n s = (l, r) \<Longrightarrow> l \<noteq> []"
  by (auto simp: fgets_def Let_def)

lemma fgets_all_concat: "0 < n \<Longrightarrow> concat (fgets_all n s) = s"
proof (induction n s rule: fgets_all.induct)
  case (1 n s)
  show ?case
  proof (cases "s = []")
    case False
    obtain l r where f: "fgets n s = (l, r)" by fastforce
    have "concat (fgets_all n r) = r"
      using "1.IH" False "1.prems" f by simp
    then show ?thesis
      using False "1.prems" f fgets_parts [OF f] by (simp add: fgets_all.simps [of n s])
  qed (simp add: fgets_all.simps)
qed

lemma takeWhile_newline: "newline \<notin> set l \<Longrightarrow> takeWhile (\<lambda>c. c \<noteq> newline) l = l"
  by (induction l) auto

lemma takeWhile_newline_append:
  "newline \<notin> set l \<Longrightarrow> takeWhile (\<lambda>c. c \<noteq> newline) (l @ newline # r) = l"
  by (induction l) auto

lemma fgets_whole_line:
  "newline \<notin> set l \<Longrightarrow> length l < n \<Longrightarrow> fgets n (l @ newline # r) = (l @ [newline], r)"
  using takeWhile_newline_append [of l r] by (simp add: fgets_def Let_def min.absorb2)

lemma fgets_last_line: "newline \<notin> set l \<Longrightarrow> length l \<le> n \<Longrightarrow> fgets n l = (l, [])"
  by (simp add: fgets_def Let_def takeWhile_newline)

text \<open>A file of short lines is read line by line by either function.\<close>

lemma fgets_all_lines:
  assumes "\<forall>l \<in> set ls. newline \<notin> set l \<and> length l < n" "newline \<notin> set rest" "length rest \<le> n" "0 < n"
  shows "fgets_all n (concat (map (\<lambda>l. l @ [newline]) ls) @ rest) =
           map (\<lambda>l. l @ [newline]) ls @ (if rest = [] then [] else [rest])"
  using assms(1)
proof (induction ls)
  case Nil
  then show ?case
    using assms(2-4) fgets_last_line [of rest n]
    by (simp add: fgets_all.simps [of n rest] fgets_all.simps [of n "[]"])
next
  case (Cons l ls)
  then show ?case
    using fgets_whole_line [of l n] assms(4)
    by (simp add: fgets_all.simps [of n "l @ _"])
qed

lemma feed_prop_callback:
  "feed_lines prop_callback False ls pre = pre @ concat (map prop_line ls)"
  by (induction ls arbitrary: pre)
     (auto simp: prop_callback_def line_view_def prop_line_def Let_def)

lemma digit_char_value: "d < 10 \<Longrightarrow> (of_char (digit_char d) :: nat) = 48 + d"
  by (simp add: digit_char_def)

lemma digits_value_snoc: "digits_value (ds @ [c]) = digits_value ds * 10 + (int (of_char c) - 48)"
  by (simp add: digits_value_def)

lemma nat_string_digits: "list_all is_digit (nat_string 10 n) \<and> digits_value (nat_string 10 n) = int n"
proof (induction n rule: less_induct)
  case (less n)
  show ?case
  proof (cases "n < 10")
    case True
    then have "nat_string 10 n = [digit_char n]" by (simp add: nat_string.simps)
    then show ?thesis
      using digit_char_value [OF True] True by (simp add: is_digit_def digits_value_def)
  next
    case False
    then have e: "nat_string 10 n = nat_string 10 (n div 10) @ [digit_char (n mod 10)]"
      by (subst nat_string.simps) simp
    have "n div 10 < n" using False by simp
    note IH = less [OF this]
    have d: "(of_char (digit_char (n mod 10)) :: nat) = 48 + n mod 10" by (rule digit_char_value) simp
    have "n mod 10 < 10" by simp
    then have "is_digit (digit_char (n mod 10))" unfolding is_digit_def d by linarith
    moreover have "int (n div 10) * 10 + int (n mod 10) = int n"
      by (metis of_nat_add of_nat_mult of_nat_numeral div_mult_mod_eq)
    then have "digits_value (nat_string 10 n) = int n"
      unfolding e digits_value_snoc conjunct2 [OF IH] d by simp
    ultimately show ?thesis unfolding e using IH by simp
  qed
qed

lemma digits_takeWhile:
  "list_all is_digit ds \<Longrightarrow> takeWhile is_digit ds = ds \<and> dropWhile is_digit ds = []"
  by (induction ds) auto

lemma minus_no_digit [simp]: "\<not> is_digit (CHR 0x2D)"
  by (simp add: is_digit_def)

text \<open>The numerals \<open>from_chars\<close> reads as a whole.\<close>

definition numeral_of :: "string \<Rightarrow> int \<Rightarrow> bool" where
  "numeral_of s v \<longleftrightarrow>
     (\<exists>ds. ds \<noteq> [] \<and> list_all is_digit ds \<and>
        (s = ds \<and> v = digits_value ds \<or> s = CHR 0x2D # ds \<and> v = - digits_value ds))"

lemma parse_plain:
  "ds \<noteq> [] \<Longrightarrow> list_all is_digit ds \<Longrightarrow>
     parse_int ds = (if digits_value ds < - (2 ^ 31) \<or> 2 ^ 31 - 1 < digits_value ds then - 1 else digits_value ds)"
proof -
  assume a: "ds \<noteq> []" "list_all is_digit ds"
  then obtain c r where c: "ds = c # r" "c \<noteq> CHR 0x2D"
    by (metis minus_no_digit list.pred_inject(2) neq_Nil_conv)
  from digits_takeWhile [OF a(2)] have t: "takeWhile is_digit (c # r) = c # r" "dropWhile is_digit (c # r) = []"
    unfolding c(1) by blast+
  show ?thesis unfolding parse_int_def Let_def c(1) list.case t using c(2) by (simp add: t del: takeWhile.simps dropWhile.simps)
qed

lemma parse_minus:
  "ds \<noteq> [] \<Longrightarrow> list_all is_digit ds \<Longrightarrow>
     parse_int (CHR 0x2D # ds) =
       (if - digits_value ds < - (2 ^ 31) \<or> 2 ^ 31 - 1 < - digits_value ds then - 1 else - digits_value ds)"
proof -
  assume a: "ds \<noteq> []" "list_all is_digit ds"
  from digits_takeWhile [OF a(2)] a(1) show ?thesis by (simp only: parse_int_def Let_def list.case if_True list.sel simp_thms if_False)
qed

lemma numeral_of_int_string: "numeral_of (int_string i) i"
proof (cases "i < 0")
  case True
  then show ?thesis
    using nat_string_digits [of "nat (- i)"] unfolding numeral_of_def int_string_def
    by (intro exI [of _ "nat_string 10 (nat (- i))"]) simp
next
  case False
  then show ?thesis
    using nat_string_digits [of "nat i"] unfolding numeral_of_def int_string_def
    by (intro exI [of _ "nat_string 10 (nat i)"]) simp
qed

lemma parse_int_numeral:
  "numeral_of s v \<Longrightarrow> parse_int s = (if v < - (2 ^ 31) \<or> 2 ^ 31 - 1 < v then - 1 else v)"
  unfolding numeral_of_def using parse_plain parse_minus by blast

lemma parse_int_sound: "parse_int s = v \<Longrightarrow> v \<noteq> - 1 \<Longrightarrow> numeral_of s v"
proof -
  assume p: "parse_int s = v" and n: "v \<noteq> - 1"
  let ?neg = "case s of c # _ \<Rightarrow> c = CHR 0x2D | [] \<Rightarrow> False"
  let ?u = "if ?neg then tl s else s"
  let ?ds = "takeWhile is_digit ?u"
  have d: "?ds \<noteq> []" "dropWhile is_digit ?u = []" and
    v: "v = (if ?neg then - digits_value ?ds else digits_value ?ds)"
    using p n unfolding parse_int_def Let_def by (simp_all split: if_splits)
  have u: "?u = ?ds" using takeWhile_dropWhile_id [of is_digit ?u] unfolding d(2) append_Nil2 by (rule sym)
  have a: "list_all is_digit ?ds" by (auto simp: list_all_iff dest: set_takeWhileD)
  have s: "s = (if ?neg then CHR 0x2D # ?u else ?u)" by (cases s) auto
  show "numeral_of s v"
    unfolding numeral_of_def using d(1) a s u v by (intro exI [of _ ?ds]) (auto split: if_splits)
qed

section \<open>Properties\<close>

text \<open>
  the numbers \<open>parse_int\<close> accepts.  Its result is a value other than the error value -1
  exactly for a decimal numeral of that value, with at most a minus sign in front and nothing
  around it, that fits an \<open>int\<close>.
\<close>

theorem parse_int_exact:
  assumes "v \<noteq> - 1"
  shows "parse_int s = v \<longleftrightarrow> numeral_of s v \<and> - (2 ^ 31) \<le> v \<and> v < 2 ^ 31"
proof
  assume p: "parse_int s = v"
  note n = parse_int_sound [OF p assms]
  with parse_int_numeral [OF n] p assms show "numeral_of s v \<and> - (2 ^ 31) \<le> v \<and> v < 2 ^ 31"
    by (auto split: if_splits)
qed (use parse_int_numeral in auto)

lemma parse_int_exact_witness:
  "numeral_of ''217'' 217 \<and> parse_int ''0x1'' = - 1 \<and> parse_int ''4294967296'' = - 1"
proof -
  have "parse_int ''217'' = 217" by code_simp
  with parse_int_exact [of 217 "''217''"] have "numeral_of ''217'' 217" by simp
  moreover have "parse_int ''0x1'' = - 1" "parse_int ''4294967296'' = - 1" by code_simp+
  ultimately show ?thesis by blast
qed

lemma parse_int_string: "- (2 ^ 31) \<le> i \<Longrightarrow> i < 2 ^ 31 \<Longrightarrow> parse_int (int_string i) = i"
  using parse_int_numeral [OF numeral_of_int_string [of i]] by simp

text \<open>
  what the descriptor guard reads from \<open>/proc/self/fd\<close>.  Parsing the names of the directory
  yields -1 for the two entries that are not descriptors, then every open descriptor, the
  directory's own last: the list the loops of \<open>fork_pre\<close> and \<open>sanitize_fds\<close> run over.
\<close>

theorem fd_names_parsed:
  assumes "\<forall>fd \<in> set (opened @ [d]). 0 \<le> fd \<and> fd < 2 ^ 31"
  shows "map parse_int (fd_dir_names opened d) = dir_entries opened d"
proof -
  have dots: "parse_int ''.'' = - 1" "parse_int ''..'' = - 1" by code_simp+
  have "parse_int (int_string fd) = fd" if "fd \<in> set (opened @ [d])" for fd
    by (rule parse_int_string) (use assms that in fastforce)+
  then have "map parse_int (map int_string (opened @ [d])) = opened @ [d]"
    unfolding list.map_comp by (intro map_idI) simp
  then show ?thesis by (simp add: fd_dir_names_def dir_entries_def dots)
qed

lemma fd_names_parsed_witness: "map parse_int (fd_dir_names [0, 1, 27] 28) = [- 1, - 1, 0, 1, 27, 28]"
  using fd_names_parsed [of "[0, 1, 27]" 28] by (simp add: dir_entries_def)

text \<open>
  reading lines loses and reorders nothing.  The lines \<open>getline\<close> returns joined are the
  file; and for a file of newline-terminated lines with an unterminated rest they are those
  lines, whatever their length.
\<close>

theorem getlines_exact:
  "concat (getlines contents) = contents \<and>
   (newline \<notin> \<Union> (set ` set (rest # ls)) \<longrightarrow>
      getlines (concat (map (\<lambda>l. l @ [newline]) ls) @ rest) =
        map (\<lambda>l. l @ [newline]) ls @ (if rest = [] then [] else [rest]))"
proof (intro conjI impI)
  show "concat (getlines contents) = contents"
    using fgets_all_concat [of "length contents" contents]
    by (cases "contents = []") (auto simp: getlines_def fgets_all.simps)
next
  assume n: "newline \<notin> \<Union> (set ` set (rest # ls))"
  let ?t = "concat (map (\<lambda>l. l @ [newline]) ls) @ rest"
  have len: "length l < length ?t" if "l \<in> set ls" for l
  proof -
    from that obtain a b where "ls = a @ l # b" by (meson split_list)
    then show ?thesis by simp
  qed
  show "getlines ?t = map (\<lambda>l. l @ [newline]) ls @ (if rest = [] then [] else [rest])"
  proof (cases "?t = []")
    case True
    then show ?thesis by (cases ls) (simp_all add: getlines_def fgets_all.simps)
  next
    case False
    then have "0 < length ?t" by simp
    with n len show ?thesis unfolding getlines_def by (intro fgets_all_lines) auto
  qed
qed

lemma getlines_exact_witness: "getlines (''ab'' @ [newline] @ [newline] @ ''c'') = [''ab'' @ [newline], [newline], ''c'']"
  using getlines_exact [of "[]" "''c''" "[''ab'', []]"] by (simp add: newline_def)

text \<open>
  the monitor's copy of \<open>module.prop\<close>.  Read through \<open>file_readline\<close> with the callback of
  \<open>prepare_environment\<close>, a file of newline-terminated lines becomes the section the model of
  the monitor builds from its lines.
\<close>

theorem prop_section_read:
  "file_readline False contents prop_callback pre = pre @ concat (map prop_line (getlines contents))"
  by (simp add: file_readline_def feed_prop_callback)

end
