(* ===== verification/Entry.thy ===== *)
theory Entry
  imports Hooks Solist Seccomp_Filter Text_Input
begin

text \<open>
  \<open>injector/entry.cpp\<close>, \<open>injector/ptrace_clear.cpp\<close> and \<open>hook_entry\<close> of \<open>injector/hook.cpp\<close>:
  what the injected library does when the loader calls it.  The link to the daemon, the hooks,
  the linker's list and the two filters are those of their theories; the kernel's evaluation
  of the filters of a process is modelled with its documented meaning.
\<close>

section \<open>Clearing the message of ptrace\<close>

text \<open>The text of \<open>/proc/self/status\<close>, \<open>None\<close> when it cannot be opened; the buffer has 256 bytes.\<close>

definition seccomp_filters_visible :: "string option \<Rightarrow> bool" where
  "seccomp_filters_visible status =
     (case status of
        None \<Rightarrow> True
      | Some text \<Rightarrow> list_ex (\<lambda>l. starts_with l ''Seccomp_filters:'') (fgets_all 255 text))"

definition ptrace_clear_filter :: "u32 \<Rightarrow> u32 list \<Rightarrow> bpf list" where
  "ptrace_clear_filter NR_exit_group args =
     [Ld_abs 0, Jeq NR_exit_group 0 9,
      Ld_abs (arg_offset 0), Jeq (args ! 0) 0 7,
      Ld_abs (arg_offset 1), Jeq (args ! 1) 0 5,
      Ld_abs (arg_offset 2), Jeq (args ! 2) 0 3,
      Ld_abs (arg_offset 3), Jeq (args ! 3) 0 1,
      Ret SECCOMP_RET_TRACE, Ret SECCOMP_RET_ALLOW]"

datatype random_read = Open_failed | Read_short | Random "u32 list"

definition perform_ptrace_message_clear ::
  "u32 \<Rightarrow> string option \<Rightarrow> random_read \<Rightarrow> bool \<Rightarrow> seccomp_action list" where
  "perform_ptrace_message_clear NR status random install_ok =
     (if seccomp_filters_visible status then []
      else case random of
        Open_failed \<Rightarrow> []
      | Read_short \<Rightarrow> []
      | Random r \<Rightarrow>
          let args = r[0 := r ! 0 OR 0x10000]; filter = ptrace_clear_filter NR args
          in if \<not> install_ok then [Install filter] else [Install filter, Exit_group args])"

section \<open>The kernel's side\<close>

text \<open>
  All filters of the process are run on a system call and the lowest action wins, compared
  as signed numbers without the data in the low half.
\<close>

definition action_of :: "u32 \<Rightarrow> u32" where
  "action_of r = r AND 0xffff0000"

fun run_filters :: "bpf list list \<Rightarrow> seccomp_data \<Rightarrow> u32" where
  "run_filters [] d = SECCOMP_RET_ALLOW"
| "run_filters (f # fs) d =
     (case bpf_run (data_word d) 0 f of
        None \<Rightarrow> 0
      | Some r \<Rightarrow>
          let acc = run_filters fs d
          in if sint (action_of r) < sint (action_of acc) then r else acc)"

text \<open>
  A traced call stops the process when its tracer asked for these events with
  \<open>PTRACE_O_TRACESECCOMP\<close>; without such a tracer it is not made and fails with \<open>ENOSYS\<close>.
  The other actions occur in no filter of the program.
\<close>

datatype verdict = Runs | Fails_ENOSYS | Event_stop | Other_action

abbreviation (input) PTRACE_O_TRACESECCOMP :: u32 where "PTRACE_O_TRACESECCOMP \<equiv> 0x80"

definition verdict_of :: "u32 \<Rightarrow> u32 \<Rightarrow> verdict" where
  "verdict_of options r =
     (if action_of r = SECCOMP_RET_ALLOW then Runs
      else if action_of r = SECCOMP_RET_TRACE then
        (if has options PTRACE_O_TRACESECCOMP then Event_stop else Fails_ENOSYS)
      else Other_action)"

text \<open>The options the injector attaches with, before and instead of a failed seize.\<close>

definition injector_options :: u32 where
  "injector_options = 0x100000"

text \<open>
  The actions of one of the two functions: \<open>ok\<close> is the answer of \<open>prctl\<close>, \<open>regs\<close> what the
  kernel sees of a call of \<open>exit_group\<close> with these 32-bit arguments.
\<close>

fun perform ::
  "u32 \<Rightarrow> (u32 list \<Rightarrow> seccomp_data) \<Rightarrow> bool \<Rightarrow> seccomp_action list \<Rightarrow> bpf list list \<times> verdict list \<Rightarrow>
     bpf list list \<times> verdict list" where
  "perform options regs ok [] (fs, vs) = (fs, vs)"
| "perform options regs ok (Install f # as) (fs, vs) =
     perform options regs ok as (if ok then f # fs else fs, vs)"
| "perform options regs ok (Exit_group args # as) (fs, vs) =
     perform options regs ok as (fs, vs @ [verdict_of options (run_filters fs (regs args))])"

section \<open>The entry point\<close>

text \<open>
  The library's own \<open>__cxa_atexit\<close>: it reports success and registers nothing, whether or not
  \<open>dladdr\<close> can name the handler for the log.
\<close>

definition cxa_atexit :: "'h \<Rightarrow> 'h list \<Rightarrow> int \<times> 'h list" where
  "cxa_atexit func registered = (0, registered)"

record entry_env =
  en_lsplt :: lsplt
  en_scan :: "lsplt_map list"
  en_code :: linker_code
  en_image :: linker_image
  en_NR_exit_group :: u32
  en_regs :: "u32 list \<Rightarrow> seccomp_data"
  en_options :: u32
  en_status :: "string option"
  en_status_lines :: "string list option"
  en_random :: random_read
  en_random2 :: "u32 list option"
  en_install :: bool
  en_install2 :: bool

record entry_state =
  es_link :: link
  es_block :: "(u64 \<times> u64) option"
  es_hooks :: "hook_state option"
  es_linker :: "linker_vars \<times> memory"
  es_seccomp :: "bpf list list \<times> verdict list"

definition HookContext :: hook_state where
  "HookContext = \<lparr> hs_old = (\<lambda>_. 0), hs_backup = [], hs_maps = [], hs_calls = [],
                   hs_unmap = False, hs_skip_unloader = False \<rparr>"

definition hook_entry ::
  "entry_env \<Rightarrow> u64 \<Rightarrow> u64 \<Rightarrow> bool \<Rightarrow> entry_state \<Rightarrow> entry_state res option" where
  "hook_entry E start_addr block_size custom_loaded st =
     (let st1 = st\<lparr> es_block := Some (start_addr, block_size),
                    es_hooks := Some (hook_plt (en_lsplt E) (en_scan E) HookContext) \<rparr>
      in if custom_loaded then Some (Inr st1)
         else map_option (\<lambda>r. bind_res r (\<lambda>(_, linker). Inr (st1\<lparr> es_linker := linker \<rparr>)))
                (clean_linker_trace (en_code E) (en_image E) (link.tmp_path (es_link st1)) 1 0 True (es_linker st1)))"

definition clear_phase :: "entry_env \<Rightarrow> entry_state \<Rightarrow> entry_state" where
  "clear_phase E st =
     st\<lparr> es_seccomp := perform (en_options E) (en_regs E) (en_install E)
           (perform_ptrace_message_clear (en_NR_exit_group E) (en_status E) (en_random E) (en_install E))
           (es_seccomp st) \<rparr>"

definition event_phase :: "entry_env \<Rightarrow> entry_state \<Rightarrow> entry_state" where
  "event_phase E st =
     st\<lparr> es_seccomp := perform (en_options E) (en_regs E) (en_install2 E)
           (send_seccomp_event_if_needed (en_NR_exit_group E) (en_status_lines E) (en_random2 E) (en_install2 E))
           (es_seccomp st) \<rparr>"

text \<open>\<open>None\<close>: the walk over the linker's list does not end.\<close>

definition entry ::
  "entry_env \<Rightarrow> u64 \<Rightarrow> u64 \<Rightarrow> string \<Rightarrow> bool \<Rightarrow> entry_state \<Rightarrow> entry_state res option" where
  "entry E addr block_size path custom_loaded st =
     (case PingHeartbeat (Init path (es_link st)) of
        Inl e \<Rightarrow> Some (Inl e)
      | Inr (alive, w) \<Rightarrow>
          let st1 = st\<lparr> es_link := w \<rparr> in
          if \<not> alive then Some (Inr st1)
          else map_option (\<lambda>r. bind_res r (\<lambda>st2. Inr (event_phase E (clear_phase E st2))))
                 (hook_entry E addr block_size custom_loaded st1))"

text \<open>A line as \<open>std::getline\<close> returns it, without its newline.\<close>

definition chomp :: "string \<Rightarrow> string" where
  "chomp l = (if l \<noteq> [] \<and> last l = newline then butlast l else l)"

section \<open>Lemmas\<close>

lemma starts_with_newline:
  assumes "newline \<notin> set p"
  shows "starts_with (l @ [newline]) p = starts_with l p"
proof
  assume "starts_with (l @ [newline]) p"
  then obtain t where t: "l @ [newline] = p @ t" unfolding starts_with_iff by blast
  show "starts_with l p"
  proof (cases t rule: rev_cases)
    case Nil
    with t have "p = l @ [newline]" by simp
    with assms show ?thesis by simp
  next
    case (snoc u c)
    with t have "l = p @ u" by simp
    then show ?thesis unfolding starts_with_iff by blast
  qed
next
  assume "starts_with l p"
  then obtain u where "l = p @ u" unfolding starts_with_iff by blast
  then have "l @ [newline] = p @ u @ [newline]" by simp
  then show "starts_with (l @ [newline]) p" unfolding starts_with_iff by blast
qed

lemma starts_with_needle:
  "starts_with (l @ [newline]) ''Seccomp_filters:'' = starts_with l ''Seccomp_filters:''"
  by (rule starts_with_newline) (simp add: newline_def)

lemma ptrace_clear_filter_same: "ptrace_clear_filter = seccomp_filter"
  by (intro ext) (simp add: ptrace_clear_filter_def seccomp_filter_def)

lemma sig_filter_run:
  "bpf_run (data_word d) 0 (seccomp_filter NR args) =
     Some (if nr d = NR \<and> (\<forall>i < 4. ucast (sargs d ! i) = args ! i)
           then SECCOMP_RET_TRACE else SECCOMP_RET_ALLOW)"
proof -
  have "(\<forall>i < 4. P i) \<longleftrightarrow> P 0 \<and> P 1 \<and> P 2 \<and> P (3::nat)" for P
    by (auto simp: less_Suc_eq numeral_eq_Suc)
  then show ?thesis by (simp add: seccomp_filter_def arg_offset_def data_word_def)
qed

text \<open>Filters that allow or trap: one that traps decides.\<close>

definition mild :: "bpf list \<Rightarrow> bool" where
  "mild f \<longleftrightarrow> (\<forall>d. bpf_run (data_word d) 0 f = Some SECCOMP_RET_ALLOW \<or>
                   bpf_run (data_word d) 0 f = Some SECCOMP_RET_TRACE)"

lemma mild_filter [simp]: "mild (seccomp_filter NR args)"
  by (simp add: mild_def sig_filter_run)

lemma action_simps [simp]:
  "action_of SECCOMP_RET_ALLOW = SECCOMP_RET_ALLOW" "action_of SECCOMP_RET_TRACE = SECCOMP_RET_TRACE"
  "SECCOMP_RET_ALLOW \<noteq> SECCOMP_RET_TRACE" "SECCOMP_RET_TRACE \<noteq> SECCOMP_RET_ALLOW"
  "sint SECCOMP_RET_TRACE < sint SECCOMP_RET_ALLOW" "\<not> sint SECCOMP_RET_ALLOW < sint SECCOMP_RET_TRACE"
  by (simp_all add: action_of_def SECCOMP_RET_ALLOW_def SECCOMP_RET_TRACE_def)

lemma run_mild:
  "\<forall>f \<in> set fs. mild f \<Longrightarrow>
     run_filters fs d =
       (if \<exists>f \<in> set fs. bpf_run (data_word d) 0 f = Some SECCOMP_RET_TRACE
        then SECCOMP_RET_TRACE else SECCOMP_RET_ALLOW)"
proof (induction fs)
  case (Cons f fs)
  then have "mild f" by simp
  then consider "bpf_run (data_word d) 0 f = Some SECCOMP_RET_ALLOW" |
    "bpf_run (data_word d) 0 f = Some SECCOMP_RET_TRACE" unfolding mild_def by blast
  then show ?case using Cons by cases (auto simp: Let_def)
qed simp

definition answer :: "u32 \<Rightarrow> verdict" where
  "answer options = (if has options PTRACE_O_TRACESECCOMP then Event_stop else Fails_ENOSYS)"

text \<open>What the kernel passes on of a call with 32-bit arguments: their low halves.\<close>

definition passes :: "u32 \<Rightarrow> (u32 list \<Rightarrow> seccomp_data) \<Rightarrow> bool" where
  "passes NR regs \<longleftrightarrow>
     (\<forall>args. length args = 4 \<longrightarrow> nr (regs args) = NR \<and> (\<forall>i < 4. ucast (sargs (regs args) ! i) = args ! i))"

text \<open>The state of the filters after a phase: they allow what is no \<open>exit_group\<close>.\<close>

definition guarded :: "u32 \<Rightarrow> u32 \<Rightarrow> bpf list list \<times> verdict list \<Rightarrow> bool" where
  "guarded NR options S \<longleftrightarrow>
     (\<forall>f \<in> set (fst S). \<exists>args. f = seccomp_filter NR args) \<and> set (snd S) \<subseteq> {answer options}"

lemma guarded_step:
  assumes "guarded NR options (fs, vs)" "passes NR regs" "length args = 4"
  shows "guarded NR options (perform options regs True [Install (seccomp_filter NR args), Exit_group args] (fs, vs))"
proof -
  let ?f = "seccomp_filter NR args"
  have m: "\<forall>f \<in> set (?f # fs). mild f" using assms(1) by (auto simp: guarded_def)
  have "bpf_run (data_word (regs args)) 0 ?f = Some SECCOMP_RET_TRACE"
    using assms(2,3) by (simp add: sig_filter_run passes_def)
  then have "run_filters (?f # fs) (regs args) = SECCOMP_RET_TRACE"
    unfolding run_mild [OF m] by simp
  then have "verdict_of options (run_filters (?f # fs) (regs args)) = answer options"
    by (simp add: verdict_of_def answer_def)
  with assms(1) show ?thesis by (auto simp: guarded_def simp del: run_filters.simps)
qed

lemma guarded_install:
  "guarded NR options (fs, vs) \<Longrightarrow> guarded NR options (perform options regs ok [Install (seccomp_filter NR args)] (fs, vs))"
  by (auto simp: guarded_def)

lemma clear_guarded:
  assumes "guarded NR options S" "passes NR regs" "\<forall>r. random = Random r \<longrightarrow> length r = 4"
  shows "guarded NR options (perform options regs ok (perform_ptrace_message_clear NR status random ok) S)"
  using assms guarded_step [of NR options "fst S" "snd S" regs] guarded_install [of NR options "fst S" "snd S" regs]
  by (cases S; cases ok)
     (auto simp: perform_ptrace_message_clear_def ptrace_clear_filter_same Let_def
       split: random_read.split simp del: perform.simps(2,3))

lemma event_guarded:
  assumes "guarded NR options S" "passes NR regs" "\<forall>r. random = Some r \<longrightarrow> length r = 4"
  shows "guarded NR options (perform options regs ok (send_seccomp_event_if_needed NR status random ok) S)"
  using assms guarded_step [of NR options "fst S" "snd S" regs] guarded_install [of NR options "fst S" "snd S" regs]
  by (cases S; cases ok)
     (auto simp: send_seccomp_event_if_needed_def Let_def split: option.split simp del: perform.simps(2,3))

text \<open>What a run of the entry point is made of.\<close>

lemma entry_cases:
  assumes "entry E addr n path custom st = Some (Inr st')"
  obtains (dead) w where "PingHeartbeat (Init path (es_link st)) = Inr (False, w)" "st' = st\<lparr> es_link := w \<rparr>"
  | (alive) w st2 where "PingHeartbeat (Init path (es_link st)) = Inr (True, w)"
      "hook_entry E addr n custom (st\<lparr> es_link := w \<rparr>) = Some (Inr st2)"
      "st' = event_phase E (clear_phase E st2)"
  using assms by (auto simp: entry_def Let_def split: sum.splits if_splits)

lemma hook_entry_frame:
  assumes "hook_entry E addr n custom st = Some (Inr st')"
  shows "es_seccomp st' = es_seccomp st \<and> es_link st' = es_link st"
  using assms by (auto simp: hook_entry_def Let_def split: if_splits)

lemma entry_guarded:
  assumes "entry E addr n path custom st = Some (Inr st')" "es_seccomp st = ([], [])"
    and "passes (en_NR_exit_group E) (en_regs E)"
    and "\<forall>r. en_random E = Random r \<longrightarrow> length r = 4" "\<forall>r. en_random2 E = Some r \<longrightarrow> length r = 4"
  shows "guarded (en_NR_exit_group E) (en_options E) (es_seccomp st')"
  using assms(1)
proof (cases rule: entry_cases)
  case (alive w st2)
  from hook_entry_frame [OF alive(2)] assms(2) have s: "es_seccomp st2 = ([], [])" by simp
  have "guarded (en_NR_exit_group E) (en_options E) ([], [])" by (simp add: guarded_def)
  from event_guarded [OF clear_guarded [OF this assms(3,4)] assms(3,5)]
  show ?thesis unfolding alive(3) by (simp add: event_phase_def clear_phase_def s)
qed (use assms(2) in \<open>simp add: guarded_def\<close>)

section \<open>Properties\<close>

text \<open>
  C17: zygote survives its own injection.  Every call of \<open>exit_group\<close> the entry point makes is
  answered by an event or by \<open>ENOSYS\<close>, as the tracer's options decide, and never made; and the
  filters it leaves in the process let every other system call run.
\<close>

theorem entry_survives:
  assumes "entry E addr n path custom st = Some (Inr st')" "es_seccomp st = ([], [])"
    and "passes (en_NR_exit_group E) (en_regs E)"
    and "\<forall>r. en_random E = Random r \<longrightarrow> length r = 4" "\<forall>r. en_random2 E = Some r \<longrightarrow> length r = 4"
  shows "Runs \<notin> set (snd (es_seccomp st')) \<and> Other_action \<notin> set (snd (es_seccomp st')) \<and>
         (nr d \<noteq> en_NR_exit_group E \<longrightarrow> verdict_of (en_options E) (run_filters (fst (es_seccomp st')) d) = Runs)"
proof -
  from entry_guarded [OF assms] have g: "guarded (en_NR_exit_group E) (en_options E) (es_seccomp st')" .
  then have m: "\<forall>f \<in> set (fst (es_seccomp st')). mild f" by (auto simp: guarded_def)
  have "run_filters (fst (es_seccomp st')) d = SECCOMP_RET_ALLOW" if "nr d \<noteq> en_NR_exit_group E"
    using g that unfolding run_mild [OF m] by (auto simp: guarded_def sig_filter_run)
  with g show ?thesis by (auto simp: guarded_def answer_def verdict_of_def split: if_splits)
qed

text \<open>
  C39: the event that should clear the message of ptrace is never sent.  Under the options the
  injector attaches with, which do not ask for the events of seccomp filters, each call the
  entry point makes for it fails with \<open>ENOSYS\<close>, and the tracer sees no stop.
\<close>

theorem no_seccomp_event:
  assumes "entry E addr n path custom st = Some (Inr st')" "es_seccomp st = ([], [])"
    and "passes (en_NR_exit_group E) (en_regs E)"
    and "\<forall>r. en_random E = Random r \<longrightarrow> length r = 4" "\<forall>r. en_random2 E = Some r \<longrightarrow> length r = 4"
    and "en_options E = injector_options"
  shows "set (snd (es_seccomp st')) \<subseteq> {Fails_ENOSYS}"
proof -
  have "answer injector_options = Fails_ENOSYS" by (simp add: answer_def injector_options_def has_def)
  with entry_guarded [OF assms(1-5)] assms(6) show ?thesis by (simp add: guarded_def)
qed

text \<open>
  without a daemon the entry point does nothing.  When the heartbeat is not answered no
  hook is installed, the linker's list and the filters of the process stay as they are.
\<close>

theorem entry_without_daemon:
  assumes "PingHeartbeat (Init path (es_link st)) = Inr (False, w)"
  shows "entry E addr n path custom st = Some (Inr (st\<lparr> es_link := w \<rparr>))"
  using assms by (simp add: entry_def Let_def)

text \<open>
  an image the injector mapped itself is not searched in the linker's list: the entry point
  then always returns, and leaves the linker's memory and variables alone.
\<close>

theorem custom_entry:
  "\<exists>r. entry E addr n path True st = Some r \<and>
     (\<forall>st'. r = Inr st' \<longrightarrow> es_linker st' = es_linker st)"
  by (auto simp: entry_def hook_entry_def event_phase_def clear_phase_def Let_def split: sum.split)

text \<open>
  the two filters look for the same line.  On a status file whose lines are shorter than
  the buffer of \<open>fgets\<close>, \<open>perform_ptrace_message_clear\<close> finds the filter count visible exactly
  when \<open>send_seccomp_event_if_needed\<close> does.
\<close>

theorem status_checks_agree:
  assumes "\<forall>l \<in> set ls. newline \<notin> set l \<and> length l < 255"
  shows "seccomp_filters_visible (Some (concat (map (\<lambda>l. l @ [newline]) ls))) =
         should_skip_seccomp_injection (Some (map chomp (getlines (concat (map (\<lambda>l. l @ [newline]) ls)))))"
proof -
  let ?t = "concat (map (\<lambda>l. l @ [newline]) ls)"
  have a: "fgets_all 255 ?t = map (\<lambda>l. l @ [newline]) ls"
    using fgets_all_lines [of ls 255 "[]"] assms by simp
  have "fgets_all (length ?t) ?t = map (\<lambda>l. l @ [newline]) ls"
  proof (cases "?t = []")
    case False
    have "length l < length ?t" if "l \<in> set ls" for l
      using split_list [OF that] by auto
    then show ?thesis using fgets_all_lines [of ls "length ?t" "[]"] assms False by simp
  qed (cases ls; simp add: fgets_all.simps)
  then have b: "map chomp (getlines ?t) = ls"
    by (simp add: getlines_def chomp_def comp_def map_idI)
  show ?thesis
    unfolding seccomp_filters_visible_def should_skip_seccomp_injection_def option.case a b
    by (simp add: list_ex_iff starts_with_needle)
qed

section \<open>Witnesses\<close>

text \<open>
  A zygote in which nothing resolves and every call to the kernel succeeds, on a kernel whose
  status file shows no filters; the daemon answers or is absent.
\<close>

definition plain_regs :: "u32 list \<Rightarrow> seccomp_data" where
  "plain_regs args = \<lparr> nr = 94, arch = 0xC00000B7, instruction_pointer = 0x7000,
                       sargs = map ucast args @ [0, 0] \<rparr>"

definition plain_entry_env :: entry_env where
  "plain_entry_env =
     \<lparr> en_lsplt = \<lparr> ls_register = (\<lambda>_. True), ls_commit = (\<lambda>_. True), ls_resolves = (\<lambda>_ _. None), ls_new = (\<lambda>_. 5) \<rparr>,
       en_scan = [],
       en_code = \<lparr> lc_realpath = (\<lambda>_ _. None), lc_string = (\<lambda>_ _. []), lc_free = (\<lambda>m _. m), lc_unload = (\<lambda>m _. m) \<rparr>,
       en_image = \<lparr> li_address = (\<lambda>_. 0), li_prefix = (\<lambda>_. []), li_path = [] \<rparr>,
       en_NR_exit_group = 94, en_regs = plain_regs, en_options = injector_options,
       en_status = Some [], en_status_lines = Some [], en_random = Random [1, 2, 3, 4],
       en_random2 = Some [5, 6, 7, 8], en_install = True, en_install2 = True \<rparr>"

definition plain_entry_state :: "bool \<Rightarrow> entry_state" where
  "plain_entry_state alive =
     \<lparr> es_link = \<lparr> link.tmp_path = [], socket_result = 7, connects = (if alive then [False, True] else []),
                   conn = \<lparr> s_fd = - 1, rx = [], tx = [], sched = [], cmsg_junk = 0, heap_junk = [], leaked = 0 \<rparr>,
                   closed = [], sleeps = 0 \<rparr>,
       es_block = None, es_hooks = None, es_linker = (initial_vars, \<lambda>_. 0), es_seccomp = ([], []) \<rparr>"

lemma plain_passes: "passes 94 plain_regs"
proof -
  have u: "ucast (ucast (w :: u32) :: u64) = w" for w
    by (rule bit_eqI) (auto simp: bit_simps dest: bit_imp_le_length)
  show ?thesis unfolding passes_def plain_regs_def by (auto simp: nth_append u)
qed

lemma plain_ping:
  "\<exists>w. PingHeartbeat (Init ''/data'' (es_link (plain_entry_state alive))) = Inr (alive, w)"
proof -
  have c: "connect_loop 5 [False, True] = (True, [], 1)" "connect_loop 5 [] = (False, [], 4)"
    by code_simp+
  show ?thesis
    by (cases alive)
       (simp_all add: PingHeartbeat_def with_daemon_def Connect_def Init_def plain_entry_state_def
          kCPSocketName_def Let_def c)
qed

lemma plain_run:
  "\<exists>st'. entry plain_entry_env 0x1000 0x2000 ''/data'' True (plain_entry_state True) = Some (Inr st')"
proof -
  from plain_ping [of True] obtain w where
    "PingHeartbeat (Init ''/data'' (es_link (plain_entry_state True))) = Inr (True, w)" by blast
  then show ?thesis by (simp add: entry_def hook_entry_def Let_def)
qed

lemmas plain_env_fields = plain_entry_env_def plain_passes

lemma entry_survives_witness:
  "\<exists>st'. entry plain_entry_env 0x1000 0x2000 ''/data'' True (plain_entry_state True) = Some (Inr st') \<and>
         Runs \<notin> set (snd (es_seccomp st')) \<and>
         verdict_of injector_options (run_filters (fst (es_seccomp st')) ((plain_regs [])\<lparr> nr := 63 \<rparr>)) = Runs"
proof -
  from plain_run obtain st' where
    r: "entry plain_entry_env 0x1000 0x2000 ''/data'' True (plain_entry_state True) = Some (Inr st')" by blast
  have "es_seccomp (plain_entry_state True) = ([], [])" by (simp add: plain_entry_state_def)
  from entry_survives [OF r this, where d = "(plain_regs [])\<lparr> nr := 63 \<rparr>"] r show ?thesis
    by (auto simp: plain_env_fields)
qed

lemma no_seccomp_event_witness:
  "\<exists>st'. entry plain_entry_env 0x1000 0x2000 ''/data'' True (plain_entry_state True) = Some (Inr st') \<and>
         set (snd (es_seccomp st')) \<subseteq> {Fails_ENOSYS}"
proof -
  from plain_run obtain st' where
    r: "entry plain_entry_env 0x1000 0x2000 ''/data'' True (plain_entry_state True) = Some (Inr st')" by blast
  have "es_seccomp (plain_entry_state True) = ([], [])" by (simp add: plain_entry_state_def)
  from no_seccomp_event [OF r this] r show ?thesis by (auto simp: plain_env_fields)
qed

lemma entry_without_daemon_witness:
  "\<exists>w. entry plain_entry_env 0x1000 0x2000 ''/data'' True (plain_entry_state False) =
         Some (Inr ((plain_entry_state False)\<lparr> es_link := w \<rparr>))"
proof -
  from plain_ping [of False] obtain w where
    "PingHeartbeat (Init ''/data'' (es_link (plain_entry_state False))) = Inr (False, w)" by blast
  from entry_without_daemon [OF this] show ?thesis by blast
qed

lemma custom_entry_witness:
  "\<exists>r. entry plain_entry_env 0x1000 0x2000 ''/data'' True (plain_entry_state True) = Some r"
  using custom_entry [where E = plain_entry_env and addr = "0x1000" and n = "0x2000" and path = "''/data''"
      and st = "plain_entry_state True"] by blast

lemma status_checks_agree_witness:
  "seccomp_filters_visible (Some (''Seccomp:'' @ [newline] @ ''Seccomp_filters:0'' @ [newline])) =
   should_skip_seccomp_injection (Some (map chomp (getlines (''Seccomp:'' @ [newline] @ ''Seccomp_filters:0'' @ [newline]))))"
  using status_checks_agree [of "[''Seccomp:'', ''Seccomp_filters:0'']"] by (simp add: newline_def)

end
