(* ===== verification/Cso_Image.thy ===== *)
theory Cso_Image
  imports Remote Paging
begin

text \<open>
  The reading half of \<open>ptracer/remote_csoloader.cpp\<close>: the library file, its program headers
  and the span they need, its dynamic section with the number of symbols, and the lookups
  of symbols.  A file is the function that reads \<open>n\<close> bytes at an offset, \<open>None\<close> when
  \<open>pread_full\<close> fails; \<open>pread_full\<close> itself is modelled over a schedule of short and
  interrupted reads.  Allocations succeed.
\<close>

section \<open>The file\<close>

type_synonym elf_file = "u64 \<Rightarrow> nat \<Rightarrow> u8 list option"

datatype pread_event = Pread_interrupted | Pread_failed | Pread_at_most nat

text \<open>When the schedule is used up, every \<open>pread\<close> delivers all it can.\<close>

fun pread_loop :: "u8 list \<Rightarrow> nat \<Rightarrow> nat \<Rightarrow> u8 list \<Rightarrow> pread_event list \<Rightarrow> u8 list option" where
  "pread_loop img off len acc [] =
     (if length acc < len
      then (let got = take (len - length acc) (drop (off + length acc) img)
            in if length acc + length got < len then None else Some (acc @ got))
      else Some acc)"
| "pread_loop img off len acc (e # es) =
     (if length acc < len
      then (case e of
              Pread_interrupted \<Rightarrow> pread_loop img off len acc es
            | Pread_failed \<Rightarrow> None
            | Pread_at_most n \<Rightarrow>
                let got = take (min n (len - length acc)) (drop (off + length acc) img)
                in if got = [] then None else pread_loop img off len (acc @ got) es)
      else Some acc)"

definition pread_full :: "u8 list \<Rightarrow> pread_event list \<Rightarrow> u64 \<Rightarrow> nat \<Rightarrow> u8 list option" where
  "pread_full img es off n = pread_loop img (unat off) n [] es"

text \<open>What a file without read errors delivers.\<close>

definition disk_file :: "u8 list \<Rightarrow> elf_file" where
  "disk_file img off n =
     (if n = 0 then Some []
      else if unat off + n \<le> length img then Some (take n (drop (unat off) img)) else None)"

definition fld :: "u8 list \<Rightarrow> nat \<Rightarrow> nat \<Rightarrow> nat" where
  "fld bs off n = le_value (take n (drop off bs))"

section \<open>Program headers\<close>

record ehdr =
  eh_ident :: "u8 list"
  eh_phoff :: u64
  eh_phnum :: nat

record phdr =
  ph_type :: nat
  ph_flags :: u32
  ph_offset :: u64
  ph_vaddr :: u64
  ph_filesz :: u64
  ph_memsz :: u64

definition decode_ehdr :: "u8 list \<Rightarrow> ehdr" where
  "decode_ehdr b = \<lparr> eh_ident = take 4 b, eh_phoff = of_nat (fld b 32 8), eh_phnum = fld b 56 2 \<rparr>"

definition decode_phdr :: "u8 list \<Rightarrow> phdr" where
  "decode_phdr b =
     \<lparr> ph_type = fld b 0 4, ph_flags = of_nat (fld b 4 4), ph_offset = of_nat (fld b 8 8),
       ph_vaddr = of_nat (fld b 16 8), ph_filesz = of_nat (fld b 32 8), ph_memsz = of_nat (fld b 40 8) \<rparr>"

definition decode_phdrs :: "u8 list \<Rightarrow> nat \<Rightarrow> phdr list" where
  "decode_phdrs b n = map (\<lambda>i. decode_phdr (take 56 (drop (56 * i) b))) [0..<n]"

abbreviation (input) PHT_LOAD :: nat where "PHT_LOAD \<equiv> 1"
abbreviation (input) PHT_DYNAMIC :: nat where "PHT_DYNAMIC \<equiv> 2"

fun load_span :: "phdr list \<Rightarrow> u64 \<times> u64 \<Rightarrow> u64 \<times> u64" where
  "load_span [] sp = sp"
| "load_span (p # ps) (lo, hi) =
     (if ph_type p \<noteq> PHT_LOAD then load_span ps (lo, hi)
      else let e = ph_vaddr p + ph_memsz p
           in load_span ps (if ph_vaddr p < lo then ph_vaddr p else lo, if hi < e then e else hi))"

text \<open>The headers, the lowest page and the size of the span.\<close>

definition compute_load_layout ::
  "elf_file \<Rightarrow> u64 \<Rightarrow> (ehdr \<times> phdr list \<times> u64 \<times> u64) option" where
  "compute_load_layout f page_size =
     (case f 0 64 of None \<Rightarrow> None | Some hb \<Rightarrow>
        let eh = decode_ehdr hb in
        if eh_ident eh \<noteq> [0x7F, 0x45, 0x4C, 0x46] then None
        else case f (eh_phoff eh) (eh_phnum eh * 56) of None \<Rightarrow> None | Some pb \<Rightarrow>
          let phs = decode_phdrs pb (eh_phnum eh) in
          case load_span phs (- 1, 0) of (lo, hi) \<Rightarrow>
            if hi \<le> lo then None
            else let lo1 = page_start page_size lo; hi1 = page_end page_size hi
                 in Some (eh, phs, lo1, hi1 - lo1))"

fun vaddr_to_offset :: "phdr list \<Rightarrow> u64 \<Rightarrow> u64 option" where
  "vaddr_to_offset [] v = None"
| "vaddr_to_offset (p # ps) v =
     (if ph_type p \<noteq> PHT_LOAD then vaddr_to_offset ps v
      else if v < ph_vaddr p \<or> ph_vaddr p + ph_filesz p \<le> v then vaddr_to_offset ps v
      else Some (ph_offset p + (v - ph_vaddr p)))"

text \<open>The file name of a path: what follows the last slash.\<close>

definition file_name :: "string \<Rightarrow> string" where
  "file_name p = rev (takeWhile (\<lambda>c. c \<noteq> CHR ''/'') (rev p))"

definition find_remote_module_path :: "map_info list \<Rightarrow> string \<Rightarrow> string option" where
  "find_remote_module_path maps soname =
     map_option mp_path
       (find (\<lambda>m. mp_path m \<noteq> [] \<and> mp_offset m = 0 \<and> file_name (mp_path m) = soname) maps)"

section \<open>The dynamic section\<close>

record dyn_info =
  di_symtab_off :: u64
  di_strtab_off :: u64
  di_rel_off :: u64
  di_rel_sz :: u64
  di_rela_off :: u64
  di_rela_sz :: u64
  di_jmprel_off :: u64
  di_jmprel_sz :: u64
  di_pltrel_type :: u32
  di_syment :: u64
  di_strsz :: u64
  di_nsyms :: u64
  di_strtab :: "u8 list"
  di_needed :: "u64 list"
  di_init_vaddr :: u64
  di_init_array_vaddr :: u64
  di_init_array_sz :: u64

record dyn_tags =
  dt_symtab :: u64
  dt_strtab :: u64
  dt_strsz :: u64
  dt_syment :: u64
  dt_rel :: u64
  dt_relsz :: u64
  dt_rela :: u64
  dt_relasz :: u64
  dt_jmprel :: u64
  dt_pltrelsz :: u64
  dt_pltrel :: u32
  dt_gnu_hash :: u64
  dt_init :: u64
  dt_init_array :: u64
  dt_init_arraysz :: u64
  dt_needed :: "u64 list"

definition no_tags :: dyn_tags where
  "no_tags = \<lparr> dt_symtab = 0, dt_strtab = 0, dt_strsz = 0, dt_syment = 0, dt_rel = 0, dt_relsz = 0,
               dt_rela = 0, dt_relasz = 0, dt_jmprel = 0, dt_pltrelsz = 0, dt_pltrel = 0,
               dt_gnu_hash = 0, dt_init = 0, dt_init_array = 0, dt_init_arraysz = 0, dt_needed = [] \<rparr>"

definition dyn_tag :: "u64 \<Rightarrow> u64 \<Rightarrow> dyn_tags \<Rightarrow> dyn_tags" where
  "dyn_tag t v d =
     (if t = 6 then d\<lparr> dt_symtab := v \<rparr> else if t = 5 then d\<lparr> dt_strtab := v \<rparr>
      else if t = 10 then d\<lparr> dt_strsz := v \<rparr> else if t = 11 then d\<lparr> dt_syment := v \<rparr>
      else if t = 17 then d\<lparr> dt_rel := v \<rparr> else if t = 18 then d\<lparr> dt_relsz := v \<rparr>
      else if t = 7 then d\<lparr> dt_rela := v \<rparr> else if t = 8 then d\<lparr> dt_relasz := v \<rparr>
      else if t = 23 then d\<lparr> dt_jmprel := v \<rparr> else if t = 2 then d\<lparr> dt_pltrelsz := v \<rparr>
      else if t = 20 then d\<lparr> dt_pltrel := ucast v \<rparr> else if t = 0x6ffffef5 then d\<lparr> dt_gnu_hash := v \<rparr>
      else if t = 12 then d\<lparr> dt_init := v \<rparr> else if t = 25 then d\<lparr> dt_init_array := v \<rparr>
      else if t = 27 then d\<lparr> dt_init_arraysz := v \<rparr>
      else if t = 1 then d\<lparr> dt_needed := dt_needed d @ [v] \<rparr> else d)"

text \<open>The entries up to the first \<open>DT_NULL\<close>.\<close>

fun dyn_scan :: "(u64 \<times> u64) list \<Rightarrow> dyn_tags \<Rightarrow> dyn_tags" where
  "dyn_scan [] d = d"
| "dyn_scan ((t, v) # es) d = (if t = 0 then d else dyn_scan es (dyn_tag t v d))"

definition decode_dyns :: "u8 list \<Rightarrow> nat \<Rightarrow> (u64 \<times> u64) list" where
  "decode_dyns b n = map (\<lambda>i. (of_nat (fld b (16 * i) 8), of_nat (fld b (16 * i + 8) 8))) [0..<n]"

text \<open>The largest bucket, and the walk along its chain to the last symbol.\<close>

fun bucket_loop :: "elf_file \<Rightarrow> u64 \<Rightarrow> nat \<Rightarrow> u32 \<Rightarrow> u32 \<Rightarrow> u32" where
  "bucket_loop f off 0 b mx = mx"
| "bucket_loop f off (Suc n) b mx =
     (case f (off + ucast (b * 4)) 4 of
        None \<Rightarrow> mx
      | Some bs \<Rightarrow> let v = of_nat (fld bs 0 4) in bucket_loop f off n (b + 1) (if mx < v then v else mx))"

partial_function (option) chain_walk :: "elf_file \<Rightarrow> u64 \<Rightarrow> u32 \<Rightarrow> u32 \<Rightarrow> u64 option" where
  "chain_walk f off idx mx =
     (case f (off + ucast (idx * 4)) 4 of
        None \<Rightarrow> Some (ucast (mx + 1))
      | Some bs \<Rightarrow>
          if odd (fld bs 0 4) then Some (ucast (mx + 1))
          else chain_walk f off (idx + 1) (mx + 1))"

declare chain_walk.simps [code]

definition gnu_symbol_count :: "elf_file \<Rightarrow> phdr list \<Rightarrow> u64 \<Rightarrow> u64 option" where
  "gnu_symbol_count f phs gnu_hash_vaddr =
     (if gnu_hash_vaddr = 0 then Some 0
      else case vaddr_to_offset phs gnu_hash_vaddr of None \<Rightarrow> Some 0 | Some off \<Rightarrow>
        case f off 16 of None \<Rightarrow> Some 0 | Some h \<Rightarrow>
          let nbuckets = of_nat (fld h 0 4) :: u32; symoffset = of_nat (fld h 4 4) :: u32;
              bloom_size = of_nat (fld h 8 4) :: u32;
              buckets_off = off + 16 + ucast bloom_size * 8;
              max_bucket = bucket_loop f buckets_off (unat nbuckets) 0 0
          in if symoffset \<le> max_bucket
             then chain_walk f (buckets_off + ucast (nbuckets * 4)) (max_bucket - symoffset) max_bucket
             else Some (ucast symoffset))"

text \<open>A table that is present must lie in a segment; an absent one has no entries.\<close>

definition table_off :: "phdr list \<Rightarrow> u64 \<Rightarrow> u64 \<Rightarrow> (u64 \<times> u64) option" where
  "table_off phs vaddr sz =
     (if vaddr = 0 \<or> sz = 0 then Some (0, 0)
      else map_option (\<lambda>off. (off, sz)) (vaddr_to_offset phs vaddr))"

definition dyn_info_of :: "elf_file \<Rightarrow> phdr list \<Rightarrow> dyn_tags \<Rightarrow> dyn_info option option" where
  "dyn_info_of f phs d =
     (if dt_symtab d = 0 \<or> dt_strtab d = 0 \<or> dt_strsz d = 0 then Some None
      else case (vaddr_to_offset phs (dt_symtab d), vaddr_to_offset phs (dt_strtab d)) of
        (Some symoff, Some stroff) \<Rightarrow>
          (case (table_off phs (dt_rel d) (dt_relsz d), table_off phs (dt_rela d) (dt_relasz d),
                 table_off phs (dt_jmprel d) (dt_pltrelsz d), f stroff (unat (dt_strsz d))) of
             (Some (rel_off, rel_sz), Some (rela_off, rela_sz), Some (jmp_off, jmp_sz), Some strtab) \<Rightarrow>
               map_option (\<lambda>n. Some
                 \<lparr> di_symtab_off = symoff, di_strtab_off = stroff, di_rel_off = rel_off,
                   di_rel_sz = rel_sz, di_rela_off = rela_off, di_rela_sz = rela_sz,
                   di_jmprel_off = jmp_off, di_jmprel_sz = jmp_sz, di_pltrel_type = dt_pltrel d,
                   di_syment = (if dt_syment d = 0 then 24 else dt_syment d), di_strsz = dt_strsz d,
                   di_nsyms = n, di_strtab = strtab, di_needed = dt_needed d,
                   di_init_vaddr = dt_init d, di_init_array_vaddr = dt_init_array d,
                   di_init_array_sz = dt_init_arraysz d \<rparr>)
                 (gnu_symbol_count f phs (dt_gnu_hash d))
           | _ \<Rightarrow> Some None)
      | _ \<Rightarrow> Some None)"

text \<open>The outer \<open>None\<close> is a chain walk that never ends.\<close>

definition elf_load_dyn_info :: "elf_file \<Rightarrow> phdr list \<Rightarrow> dyn_info option option" where
  "elf_load_dyn_info f phs =
     (case find (\<lambda>p. ph_type p = PHT_DYNAMIC) phs of
        None \<Rightarrow> Some None
      | Some p \<Rightarrow>
          if ph_filesz p = 0 then Some None
          else let dyn_count = unat (ph_filesz p) div 16 in
            case f (ph_offset p) (dyn_count * 16) of
              None \<Rightarrow> Some None
            | Some b \<Rightarrow> dyn_info_of f phs (dyn_scan (decode_dyns b dyn_count) no_tags))"

section \<open>Symbols\<close>

text \<open>A name in the string table, which ends with an added NUL.\<close>

definition name_at :: "dyn_info \<Rightarrow> nat \<Rightarrow> string" where
  "name_at d off = map (\<lambda>b. char_of (unat b)) (takeWhile (\<lambda>b. b \<noteq> 0) (drop off (di_strtab d)))"

record elf_sym =
  sy_name :: nat
  sy_shndx :: nat
  sy_value :: u64

definition decode_sym :: "u8 list \<Rightarrow> elf_sym" where
  "decode_sym b = \<lparr> sy_name = fld b 0 4, sy_shndx = fld b 6 2, sy_value = of_nat (fld b 8 8) \<rparr>"

definition sym_at :: "elf_file \<Rightarrow> dyn_info \<Rightarrow> u64 \<Rightarrow> elf_sym option" where
  "sym_at f d i = map_option decode_sym (f (di_symtab_off d + i * di_syment d) 24)"

fun dynsym_loop :: "elf_file \<Rightarrow> dyn_info \<Rightarrow> string \<Rightarrow> nat \<Rightarrow> u64 \<Rightarrow> u64 option" where
  "dynsym_loop f d nm 0 i = None"
| "dynsym_loop f d nm (Suc n) i =
     (case sym_at f d i of
        None \<Rightarrow> None
      | Some sy \<Rightarrow>
          if sy_name sy = 0 \<or> unat (di_strsz d) \<le> sy_name sy then dynsym_loop f d nm n (i + 1)
          else if name_at d (sy_name sy) \<noteq> nm \<or> sy_shndx sy = 0 then dynsym_loop f d nm n (i + 1)
          else Some (sy_value sy))"

definition find_dynsym_value :: "elf_file \<Rightarrow> dyn_info \<Rightarrow> string \<Rightarrow> u64 option" where
  "find_dynsym_value f d nm = dynsym_loop f d nm (unat (di_nsyms d)) 0"

definition linker_dl_symbol :: "string \<Rightarrow> string option" where
  "linker_dl_symbol nm =
     (if nm = ''dlsym'' then Some ''__dl_dlsym''
      else if nm = ''dlerror'' then Some ''__dl_dlerror''
      else if nm = ''dl_iterate_phdr'' then Some ''__dl_dl_iterate_phdr''
      else if nm = ''dlclose'' then Some ''__dl_dlclose''
      else if nm = ''dlopen'' then Some ''__dl_dlopen'' else None)"

text \<open>The libraries the injector can look symbols up in, and the maps of both processes.\<close>

record link_env =
  lk_lookup :: "string \<Rightarrow> string \<Rightarrow> u64 option"
  lk_local :: "map_info list"
  lk_remote :: "map_info list"

definition env_func :: "link_env \<Rightarrow> string \<Rightarrow> string \<Rightarrow> u64" where
  "env_func E module func = find_func_addr (lk_lookup E) (lk_local E) (lk_remote E) module func"

fun first_func :: "link_env \<Rightarrow> string option list \<Rightarrow> string \<Rightarrow> u64 option" where
  "first_func E [] nm = None"
| "first_func E (p # ps) nm =
     (case p of None \<Rightarrow> first_func E ps nm
      | Some path \<Rightarrow> if env_func E path nm \<noteq> 0 then Some (env_func E path nm) else first_func E ps nm)"

definition resolve_symbol_addr ::
  "elf_file \<Rightarrow> dyn_info \<Rightarrow> link_env \<Rightarrow> string option list \<Rightarrow> u64 \<Rightarrow> u64 \<Rightarrow> u64 option" where
  "resolve_symbol_addr f d E needed_paths load_bias i =
     (case sym_at f d i of
        None \<Rightarrow> None
      | Some sy \<Rightarrow>
          if sy_shndx sy \<noteq> 0 then Some (load_bias + sy_value sy)
          else if sy_name sy = 0 \<or> unat (di_strsz d) \<le> sy_name sy then None
          else let nm = name_at d (sy_name sy) in
            if nm = [] then None
            else if nm = ''__register_frame'' \<or> nm = ''__deregister_frame'' then Some 0
            else case first_func E needed_paths nm of
              Some addr \<Rightarrow> Some addr
            | None \<Rightarrow>
                (case linker_dl_symbol nm of
                   None \<Rightarrow> None
                 | Some dl \<Rightarrow>
                     let addr = env_func E ''/system/bin/linker64'' dl
                     in if addr \<noteq> 0 then Some addr else None))"

end
