(* ===== verification/Csoloader.thy ===== *)
theory Csoloader
  imports Cso_Image Remote_Call
begin

text \<open>
  The acting half of \<open>ptracer/remote_csoloader.cpp\<close>: relocations written into the tracee, and
  \<open>remote_csoloader_load_and_resolve_entry\<close>, cut where the function itself has its steps:
  opening the library in the tracee, reserving the span, mapping the segments, relocating,
  setting the final protections, running the constructors, handing over the entry.  A step
  that fails returns \<open>None\<close> with the registers and the world it leaves.
\<close>

section \<open>Steps that may fail\<close>

type_synonym 'a step = "('a option \<times> regs \<times> world) run"

definition and_then :: "'a step \<Rightarrow> ('a \<Rightarrow> regs \<Rightarrow> world \<Rightarrow> 'b step) \<Rightarrow> 'b step" where
  "and_then m k =
     bind_res m (\<lambda>(r, regs, w). case r of None \<Rightarrow> Inr (None, regs, w) | Some x \<Rightarrow> k x regs w)"

lemma and_then_Some [simp]: "and_then (Inr (Some x, regs, w)) k = k x regs w"
  by (simp add: and_then_def)

lemma and_then_None [simp]: "and_then (Inr (None, regs, w)) k = Inr (None, regs, w)"
  by (simp add: and_then_def)

lemma and_then_success:
  "and_then m k = Inr (Some y, r', w') \<longleftrightarrow>
     (\<exists>x r w. m = Inr (Some x, r, w) \<and> k x r w = Inr (Some y, r', w'))"
  by (auto simp: and_then_def split: option.splits)

section \<open>Relocations\<close>

record rela =
  rl_offset :: u64
  rl_type :: u32
  rl_sym :: u32
  rl_addend :: u64

definition decode_rela :: "u8 list \<Rightarrow> rela" where
  "decode_rela b =
     \<lparr> rl_offset = of_nat (fld b 0 8), rl_type = of_nat (fld b 8 4), rl_sym = of_nat (fld b 12 4),
       rl_addend = of_nat (fld b 16 8) \<rparr>"

definition R_RELATIVE :: "arch \<Rightarrow> u32" where
  "R_RELATIVE a = (case a of Aarch64 \<Rightarrow> 1027 | X86_64 \<Rightarrow> 8)"

definition symbolic_types :: "arch \<Rightarrow> u32 list" where
  "symbolic_types a = (case a of Aarch64 \<Rightarrow> [1025, 1026, 257] | X86_64 \<Rightarrow> [6, 7, 1])"

definition write_remote_addr :: "u64 \<Rightarrow> u64 \<Rightarrow> world \<Rightarrow> bool \<times> world" where
  "write_remote_addr addr v w =
     (case write_remote addr (word_bytes v) w of (n, w1) \<Rightarrow> (n = 8, w1))"

definition read_remote_addr :: "u64 \<Rightarrow> world \<Rightarrow> u64 option" where
  "read_remote_addr addr w =
     (case read_proc (wd_tracee w) addr 8 of (n, bs) \<Rightarrow>
        if n = 8 then Some (of_nat (le_value bs)) else None)"

text \<open>The value a relocation asks for; \<open>resolve\<close> finds the address of a symbol.\<close>

definition rela_value :: "arch \<Rightarrow> (u64 \<Rightarrow> u64 option) \<Rightarrow> u64 \<Rightarrow> rela \<Rightarrow> u64 option" where
  "rela_value a resolve load_bias r =
     (if rl_type r = R_RELATIVE a then Some (load_bias + rl_addend r)
      else if rl_type r \<in> set (symbolic_types a) then
        (case resolve (ucast (rl_sym r)) of
           None \<Rightarrow> None
         | Some sym_addr \<Rightarrow> Some (if sym_addr \<noteq> 0 then sym_addr + rl_addend r else 0))
      else None)"

fun apply_rela_loop ::
  "arch \<Rightarrow> elf_file \<Rightarrow> (u64 \<Rightarrow> u64 option) \<Rightarrow> u64 \<Rightarrow> u64 \<Rightarrow> nat \<Rightarrow> nat \<Rightarrow> world \<Rightarrow> bool \<times> world" where
  "apply_rela_loop a f resolve load_bias rela_off 0 i w = (True, w)"
| "apply_rela_loop a f resolve load_bias rela_off (Suc n) i w =
     (case f (rela_off + of_nat (i * 24)) 24 of
        None \<Rightarrow> (False, w)
      | Some b \<Rightarrow>
          let r = decode_rela b in
          case rela_value a resolve load_bias r of
            None \<Rightarrow> (False, w)
          | Some v \<Rightarrow>
              (case write_remote_addr (load_bias + rl_offset r) v w of (ok, w1) \<Rightarrow>
                 if \<not> ok then (False, w1)
                 else apply_rela_loop a f resolve load_bias rela_off n (Suc i) w1))"

definition apply_rela_section ::
  "arch \<Rightarrow> elf_file \<Rightarrow> dyn_info \<Rightarrow> link_env \<Rightarrow> string option list \<Rightarrow> u64 \<Rightarrow> u64 \<Rightarrow> u64 \<Rightarrow> world \<Rightarrow>
     bool \<times> world" where
  "apply_rela_section a f d E needed load_bias rela_off rela_sz w =
     apply_rela_loop a f (resolve_symbol_addr f d E needed load_bias) load_bias rela_off
       (unat rela_sz div 24) 0 w"

text \<open>On the 64-bit architectures any entry of a REL table ends the loading.\<close>

definition apply_rel_section :: "u64 \<Rightarrow> world \<Rightarrow> bool \<times> world" where
  "apply_rel_section rel_sz w = (unat rel_sz div 16 = 0, w)"

definition apply_relocations ::
  "arch \<Rightarrow> elf_file \<Rightarrow> dyn_info \<Rightarrow> link_env \<Rightarrow> string option list \<Rightarrow> u64 \<Rightarrow> world \<Rightarrow> bool \<times> world" where
  "apply_relocations a f d E needed load_bias w =
     (case (if di_rela_sz d \<noteq> 0 \<and> di_rela_off d \<noteq> 0
            then apply_rela_section a f d E needed load_bias (di_rela_off d) (di_rela_sz d) w
            else (True, w)) of (ok1, w1) \<Rightarrow>
        if \<not> ok1 then (False, w1)
        else case (if di_rel_sz d \<noteq> 0 \<and> di_rel_off d \<noteq> 0
                   then apply_rel_section (di_rel_sz d) w1 else (True, w1)) of (ok2, w2) \<Rightarrow>
          if \<not> ok2 then (False, w2)
          else if di_jmprel_sz d \<noteq> 0 \<and> di_jmprel_off d \<noteq> 0 then
            (if di_pltrel_type d = 7
             then apply_rela_section a f d E needed load_bias (di_jmprel_off d) (di_jmprel_sz d) w2
             else if di_pltrel_type d = 17 then apply_rel_section (di_jmprel_sz d) w2
             else (False, w2))
          else (True, w2))"

section \<open>System calls of the loader\<close>

datatype sysnr = NR_openat | NR_close | NR_mmap | NR_munmap | NR_mprotect

fun sysnr_of :: "arch \<Rightarrow> sysnr \<Rightarrow> u64" where
  "sysnr_of Aarch64 NR_openat = 56" | "sysnr_of X86_64 NR_openat = 257"
| "sysnr_of Aarch64 NR_close = 57" | "sysnr_of X86_64 NR_close = 3"
| "sysnr_of Aarch64 NR_mmap = 222" | "sysnr_of X86_64 NR_mmap = 9"
| "sysnr_of Aarch64 NR_munmap = 215" | "sysnr_of X86_64 NR_munmap = 11"
| "sysnr_of Aarch64 NR_mprotect = 226" | "sysnr_of X86_64 NR_mprotect = 10"

record loader =
  ld_arch :: arch
  ld_page_size :: u64
  ld_file :: elf_file
  ld_path :: string
  ld_env :: link_env
  ld_gadget :: u64

definition remote ::
  "loader \<Rightarrow> sysnr \<Rightarrow> u64 list \<Rightarrow> regs \<Rightarrow> world \<Rightarrow> (u64 \<times> regs \<times> world) run" where
  "remote L nr args regs w = remote_syscall (ld_arch L) (ld_gadget L) (sysnr_of (ld_arch L) nr) args regs w"

text \<open>Giving up: one more system call whose result nobody reads, then failure.\<close>

definition fail_after :: "loader \<Rightarrow> sysnr \<Rightarrow> u64 list \<Rightarrow> regs \<Rightarrow> world \<Rightarrow> 'a step" where
  "fail_after L nr args regs w = bind_res (remote L nr args regs w) (\<lambda>(_, r, v). Inr (None, r, v))"

abbreviation (input) AT_FDCWD :: u64 where "AT_FDCWD \<equiv> - 100"
abbreviation (input) O_RDONLY_CLOEXEC :: u64 where "O_RDONLY_CLOEXEC \<equiv> 0x80000"
abbreviation (input) MAP_PRIVATE :: u64 where "MAP_PRIVATE \<equiv> 2"
abbreviation (input) MAP_FIXED :: u64 where "MAP_FIXED \<equiv> 16"
abbreviation (input) MAP_ANONYMOUS :: u64 where "MAP_ANONYMOUS \<equiv> 32"
abbreviation (input) MAP_FAILED :: u64 where "MAP_FAILED \<equiv> - 1"

definition align16 :: "nat \<Rightarrow> nat" where
  "align16 n = (n + 15) div 16 * 16"

text \<open>The library opened in the tracee; its path lies below the stack pointer for the call.\<close>

definition open_remote :: "loader \<Rightarrow> regs \<Rightarrow> world \<Rightarrow> u64 step" where
  "open_remote L regs w =
     (let path = c_string (ld_path L);
          remote_path = regs (REG_SP (ld_arch L)) - of_nat (align16 (length path))
      in case write_remote remote_path path w of (n, w1) \<Rightarrow>
           if n \<noteq> int (length path) then Inr (None, regs, w1)
           else bind_res (remote L NR_openat [AT_FDCWD, remote_path, O_RDONLY_CLOEXEC, 0]
                  (regs(REG_SP (ld_arch L) := remote_path)) w1) (\<lambda>(fd, regs2, w2).
             if sint fd < 0 then Inr (None, regs2, w2)
             else Inr (Some fd, regs2,
                    snd (write_remote remote_path (replicate (align16 (length path)) 0) w2))))"

definition reserve_span :: "loader \<Rightarrow> u64 \<Rightarrow> u64 \<Rightarrow> regs \<Rightarrow> world \<Rightarrow> u64 step" where
  "reserve_span L map_size fd regs w =
     bind_res (remote L NR_mmap [0x100000000, map_size, 0, MAP_PRIVATE OR MAP_ANONYMOUS, - 1, 0] regs w)
       (\<lambda>(base, regs1, w1).
         if base = 0 \<or> base = MAP_FAILED then fail_after L NR_close [fd] regs1 w1
         else if base < 0x100000000 then
           bind_res (remote L NR_munmap [base, map_size] regs1 w1)
             (\<lambda>(_, regs2, w2). fail_after L NR_close [fd] regs2 w2)
         else Inr (Some base, regs1, w1))"

text \<open>The addresses a segment is mapped at.\<close>

record seg_layout =
  sl_page :: u64
  sl_page_end :: u64
  sl_file_off :: u64
  sl_file_end :: u64
  sl_file_page_end :: u64

definition segment_layout :: "u64 \<Rightarrow> u64 \<Rightarrow> phdr \<Rightarrow> seg_layout" where
  "segment_layout ps load_bias p =
     \<lparr> sl_page = page_start ps (ph_vaddr p + load_bias),
       sl_page_end = page_end ps (ph_vaddr p + ph_memsz p + load_bias),
       sl_file_off = page_start ps (ph_offset p),
       sl_file_end = ph_vaddr p + ph_filesz p + load_bias,
       sl_file_page_end = page_end ps (ph_vaddr p + ph_filesz p + load_bias) \<rparr>"

definition map_file_part :: "loader \<Rightarrow> u64 \<Rightarrow> phdr \<Rightarrow> seg_layout \<Rightarrow> regs \<Rightarrow> world \<Rightarrow> unit step" where
  "map_file_part L fd p l regs w =
     (if ph_filesz p = 0 then Inr (Some (), regs, w)
      else bind_res (remote L NR_mmap [sl_page l, sl_file_page_end l - sl_page l, 3,
               MAP_FIXED OR MAP_PRIVATE, fd, sl_file_off l] regs w)
        (\<lambda>(addr, regs1, w1).
          if addr = 0 \<or> addr = MAP_FAILED then fail_after L NR_close [fd] regs1 w1
          else if has_perm (ucast (ph_flags p)) 2 \<and> sl_file_end l < sl_file_page_end l then
            let tail_len = unat (sl_file_page_end l - sl_file_end l) in
            case write_remote (sl_file_end l) (replicate tail_len 0) w1 of (n, w2) \<Rightarrow>
              if n \<noteq> int tail_len then fail_after L NR_close [fd] regs1 w2
              else Inr (Some (), regs1, w2)
          else Inr (Some (), regs1, w1)))"

definition map_bss_part :: "loader \<Rightarrow> u64 \<Rightarrow> seg_layout \<Rightarrow> regs \<Rightarrow> world \<Rightarrow> unit step" where
  "map_bss_part L fd l regs w =
     (if sl_page_end l \<le> sl_file_page_end l then Inr (Some (), regs, w)
      else bind_res (remote L NR_mmap [sl_file_page_end l, sl_page_end l - sl_file_page_end l, 3,
               MAP_FIXED OR MAP_PRIVATE OR MAP_ANONYMOUS, - 1, 0] regs w)
        (\<lambda>(addr, regs1, w1).
          if addr = 0 \<or> addr = MAP_FAILED then fail_after L NR_close [fd] regs1 w1
          else Inr (Some (), regs1, w1)))"

text \<open>The ELF flags X, W, R as protection bits.\<close>

definition segment_prot :: "u32 \<Rightarrow> u64" where
  "segment_prot flags =
     (if flags AND 4 \<noteq> 0 then 1 else 0) OR (if flags AND 2 \<noteq> 0 then 2 else 0) OR
     (if flags AND 1 \<noteq> 0 then 4 else 0)"

type_synonym segs = "(u64 \<times> u64 \<times> u64) list"

definition record_segment :: "phdr \<Rightarrow> seg_layout \<Rightarrow> segs \<Rightarrow> segs" where
  "record_segment p l segs =
     (if length segs < 64
      then segs @ [(sl_page l, sl_page_end l - sl_page l, segment_prot (ph_flags p))] else segs)"

fun map_segments :: "loader \<Rightarrow> u64 \<Rightarrow> u64 \<Rightarrow> phdr list \<Rightarrow> segs \<Rightarrow> regs \<Rightarrow> world \<Rightarrow> segs step" where
  "map_segments L fd load_bias [] segs regs w = Inr (Some segs, regs, w)"
| "map_segments L fd load_bias (p # ps) segs regs w =
     (if ph_type p \<noteq> PHT_LOAD then map_segments L fd load_bias ps segs regs w
      else let l = segment_layout (ld_page_size L) load_bias p in
        and_then (map_file_part L fd p l regs w) (\<lambda>_ regs1 w1.
          and_then (map_bss_part L fd l regs1 w1) (\<lambda>_ regs2 w2.
            map_segments L fd load_bias ps (record_segment p l segs) regs2 w2)))"

text \<open>The paths of the needed libraries; a walk that never ends is \<open>Blocked\<close>.\<close>

definition needed_paths :: "loader \<Rightarrow> dyn_info \<Rightarrow> string option list" where
  "needed_paths L d =
     map (\<lambda>off. if di_strsz d \<le> off then None
                else find_remote_module_path (lk_remote (ld_env L)) (name_at d (unat off)))
       (di_needed d)"

definition relocate :: "loader \<Rightarrow> phdr list \<Rightarrow> u64 \<Rightarrow> regs \<Rightarrow> world \<Rightarrow> dyn_info step" where
  "relocate L phs load_bias regs w =
     (case elf_load_dyn_info (ld_file L) phs of
        None \<Rightarrow> Inl Blocked
      | Some None \<Rightarrow> Inr (None, regs, w)
      | Some (Some d) \<Rightarrow>
          (case apply_relocations (ld_arch L) (ld_file L) d (ld_env L) (needed_paths L d) load_bias w of
             (ok, w1) \<Rightarrow> if ok then Inr (Some d, regs, w1) else Inr (None, regs, w1)))"

fun protect_segments :: "loader \<Rightarrow> u64 \<Rightarrow> u64 \<Rightarrow> segs \<Rightarrow> regs \<Rightarrow> world \<Rightarrow> unit step" where
  "protect_segments L base map_size [] regs w = Inr (Some (), regs, w)"
| "protect_segments L base map_size ((addr, len, prot) # segs) regs w =
     bind_res (remote L NR_mprotect [addr, len, prot] regs w) (\<lambda>(r, regs1, w1).
       if sint r < 0 then fail_after L NR_munmap [base, map_size] regs1 w1
       else protect_segments L base map_size segs regs1 w1)"

text \<open>Failure once constructors may have run: unmap, then put the saved registers back.\<close>

definition unmap_and_restore ::
  "loader \<Rightarrow> u64 \<Rightarrow> u64 \<Rightarrow> regs \<Rightarrow> regs \<Rightarrow> world \<Rightarrow> 'a step" where
  "unmap_and_restore L base map_size saved regs w =
     bind_res (remote L NR_munmap [base, map_size] regs w)
       (\<lambda>(_, _, w1). Inr (None, saved, snd (set_regs saved w1)))"

fun init_array_loop ::
  "loader \<Rightarrow> u64 \<Rightarrow> u64 \<Rightarrow> regs \<Rightarrow> u64 \<Rightarrow> u64 \<Rightarrow> nat \<Rightarrow> nat \<Rightarrow> regs \<Rightarrow> world \<Rightarrow> unit step" where
  "init_array_loop L base map_size saved trap arr 0 i regs w = Inr (Some (), regs, w)"
| "init_array_loop L base map_size saved trap arr (Suc n) i regs w =
     (case read_remote_addr (arr + of_nat (i * 8)) w of
        None \<Rightarrow> unmap_and_restore L base map_size saved regs w
      | Some c \<Rightarrow>
          if c = 0 \<or> c = - 1 then init_array_loop L base map_size saved trap arr n (Suc i) regs w
          else bind_res (remote_call (ld_arch L) c trap [] regs w) (\<lambda>((_, ok), regs1, w1).
            if ok then init_array_loop L base map_size saved trap arr n (Suc i) regs1 w1
            else unmap_and_restore L base map_size saved regs1 w1))"

definition run_constructors ::
  "loader \<Rightarrow> u64 \<Rightarrow> u64 \<Rightarrow> regs \<Rightarrow> u64 \<Rightarrow> dyn_info \<Rightarrow> regs \<Rightarrow> world \<Rightarrow> unit step" where
  "run_constructors L base map_size saved load_bias d regs w =
     (let trap = find_module_return_addr (lk_remote (ld_env L)) ''libc.so'' in
      if trap = 0 then fail_after L NR_munmap [base, map_size] regs w
      else and_then
        (if di_init_vaddr d = 0 then Inr (Some (), regs, w)
         else bind_res (remote_call (ld_arch L) (load_bias + di_init_vaddr d) trap [] regs w)
           (\<lambda>((_, ok), regs1, w1).
             if ok then Inr (Some (), regs1, w1)
             else unmap_and_restore L base map_size saved regs1 w1))
        (\<lambda>_ regs1 w1.
          if di_init_array_vaddr d = 0 \<or> di_init_array_sz d = 0 then Inr (Some (), regs1, w1)
          else if unat (di_init_array_sz d) mod 8 \<noteq> 0
          then unmap_and_restore L base map_size saved regs1 w1
          else init_array_loop L base map_size saved trap (load_bias + di_init_array_vaddr d)
                 (unat (di_init_array_sz d) div 8) 0 regs1 w1))"

definition hand_over_entry ::
  "loader \<Rightarrow> u64 \<Rightarrow> u64 \<Rightarrow> regs \<Rightarrow> u64 \<Rightarrow> dyn_info \<Rightarrow> regs \<Rightarrow> world \<Rightarrow> (u64 \<times> u64 \<times> u64) step" where
  "hand_over_entry L base map_size saved load_bias d regs w =
     (case find_dynsym_value (ld_file L) d ''entry'' of
        None \<Rightarrow> unmap_and_restore L base map_size saved regs w
      | Some v \<Rightarrow>
          (case set_regs saved w of (ok, w1) \<Rightarrow>
             if ok then Inr (Some (base, map_size, load_bias + v), saved, w1)
             else fail_after L NR_munmap [base, map_size] saved w1))"

text \<open>
  The whole loader: \<open>page_size\<close> is the answer of \<open>sysconf\<close>, \<open>file\<close> the library when it could be
  opened.  The result is the base, the size and the entry.
\<close>

definition remote_csoloader_load_and_resolve_entry ::
  "arch \<Rightarrow> int \<Rightarrow> elf_file option \<Rightarrow> link_env \<Rightarrow> string \<Rightarrow> regs \<Rightarrow> world \<Rightarrow> (u64 \<times> u64 \<times> u64) step" where
  "remote_csoloader_load_and_resolve_entry a page_size file E path regs w =
     (if page_size \<le> 0 then Inr (None, regs, w)
      else case file of None \<Rightarrow> Inr (None, regs, w) | Some f \<Rightarrow>
        case compute_load_layout f (of_int page_size) of None \<Rightarrow> Inr (None, regs, w)
        | Some (_, phs, min_vaddr, map_size) \<Rightarrow>
            let gadget = find_syscall_gadget a (wd_tracee w) (lk_remote E) in
            if gadget = 0 then Inr (None, regs, w)
            else let L = \<lparr> ld_arch = a, ld_page_size = of_int page_size, ld_file = f, ld_path = path,
                           ld_env = E, ld_gadget = gadget \<rparr> in
              and_then (open_remote L regs w) (\<lambda>fd regs1 w1.
              and_then (reserve_span L map_size fd regs1 w1) (\<lambda>base regs2 w2.
                let load_bias = base - min_vaddr in
                and_then (map_segments L fd load_bias phs [] regs2 w2) (\<lambda>segs regs3 w3.
                bind_res (remote L NR_close [fd] regs3 w3) (\<lambda>(_, regs4, w4).
                and_then (relocate L phs load_bias regs4 w4) (\<lambda>d regs5 w5.
                and_then (protect_segments L base map_size segs regs5 w5) (\<lambda>_ regs6 w6.
                and_then (run_constructors L base map_size regs load_bias d regs6 w6) (\<lambda>_ regs7 w7.
                  hand_over_entry L base map_size regs load_bias d regs7 w7))))))))"

end
