(* ===== verification/Remote_Properties.thy ===== *)
theory Remote_Properties
  imports Remote_Call
begin

text \<open>
  What the remote primitives promise: strings and arguments arrive where the calling
  convention wants them, a call counts as returned only at its trap, a system call leaves
  the registers as they were, and the gadget is a system call instruction of executable
  memory.
\<close>

section \<open>Memory\<close>

lemma write_remote_full:
  "write_remote a bs w = (int (length bs), w') \<longleftrightarrow>
     all_accessible (wd_tracee w) PROT_WRITE a (length bs) \<and>
     w' = w\<lparr> wd_tracee := (wd_tracee w)\<lparr> tr_mem := poke (tr_mem (wd_tracee w)) a bs \<rparr> \<rparr>"
proof -
  have "write_remote a bs w = (int (length bs), w') \<longleftrightarrow>
      (\<exists>t. write_proc (wd_tracee w) a bs = (int (length bs), t) \<and> w' = w\<lparr> wd_tracee := t \<rparr>)"
    by (cases "write_proc (wd_tracee w) a bs") (auto simp: write_remote_def)
  then show ?thesis by (simp only: write_proc_full) auto
qed

lemma stack_bytes_length [simp]: "length (stack_bytes ws) = 8 * length ws"
  unfolding stack_bytes_def by (induction ws) auto

lemma push_words_ok:
  assumes "push_words a ws regs w = (True, regs', w')"
  shows "regs' = regs(REG_SP a := regs (REG_SP a) - of_nat (8 * length ws)) \<and>
     w' = w\<lparr> wd_tracee := (wd_tracee w)\<lparr> tr_mem :=
              poke (tr_mem (wd_tracee w)) (regs' (REG_SP a)) (stack_bytes ws) \<rparr> \<rparr>"
proof -
  obtain k w1 where wr:
    "write_remote (regs (REG_SP a) - of_nat (8 * length ws)) (stack_bytes ws) w = (k, w1)"
    by fastforce
  with assms have k: "k = int (length (stack_bytes ws))" and w: "w' = w1"
    and r: "regs' = regs(REG_SP a := regs (REG_SP a) - of_nat (8 * length ws))"
    by (simp_all add: push_words_def Let_def)
  from wr show ?thesis unfolding k write_remote_full w r by simp
qed

lemma aligned_16: "((x :: u64) AND STACK_ALIGN_MASK) AND 0xf = 0"
  by (rule bit_word_eqI) (simp add: STACK_ALIGN_MASK_def bit_simps)

section \<open>Strings\<close>

lemma length_c_string: "length (c_string s) \<le> length s + 1"
  by (simp add: c_string_def length_takeWhile_le)

text \<open>
  a string pushed on the tracee's stack can be read back at the address returned, ends with
  a NUL, lies below the old stack pointer, and leaves the stack aligned; nothing at or above
  the old stack pointer changes.
\<close>

theorem push_string_exact:
  assumes "push_string a s regs w = (addr, regs', w')" "addr \<noteq> 0"
    and "length s + 16 < unat (regs (REG_SP a))"
  shows "peek (tr_mem (wd_tracee w')) addr (length (c_string s)) = c_string s \<and>
     regs' = regs(REG_SP a := addr) \<and> addr AND 0xf = 0 \<and>
     unat addr + length (c_string s) \<le> unat (regs (REG_SP a)) \<and>
     (\<forall>x. regs (REG_SP a) \<le> x \<longrightarrow> tr_mem (wd_tracee w') x = tr_mem (wd_tracee w) x)"
proof -
  let ?n = "length (c_string s)" and ?sp = "regs (REG_SP a)"
  have n: "?n \<le> length s + 1" by (rule length_c_string)
  have spb: "unat ?sp < 2 ^ 64" using unsigned_less [of ?sp, where ?'a = nat] by simp
  then have nb: "?n < 2 ^ 64" using n assms(3) by linarith
  have addr: "addr = (?sp - of_nat ?n) AND STACK_ALIGN_MASK"
    and regs': "regs' = regs(REG_SP a := addr)"
    and wr: "write_remote addr (c_string s) w = (int ?n, w')"
    using assms(1,2)
    by (auto simp: push_string_def Let_def align_stack_def split: prod.splits if_splits)
  have m: "tr_mem (wd_tracee w') = poke (tr_mem (wd_tracee w)) addr (c_string s)"
    using write_remote_full [of addr "c_string s" w w'] wr by simp
  have u: "unat (?sp - of_nat ?n) = unat ?sp - ?n"
    using n assms(3) nb by (subst unat_sub) (simp_all add: word_le_nat_alt unat_of_nat)
  have "addr \<le> ?sp - of_nat ?n" unfolding addr by (rule word_and_le2)
  then have le: "unat addr + ?n \<le> unat ?sp" using u n assms(3) by (simp add: word_le_nat_alt)
  have above: "\<not> in_region x addr ?n" if "?sp \<le> x" for x
  proof -
    have "unat addr + ?n \<le> unat x" using le that by (simp add: word_le_nat_alt)
    moreover from this have "addr \<le> x" by (simp add: word_le_nat_alt)
    ultimately show ?thesis by (simp add: in_region_def unat_sub)
  qed
  show ?thesis
    using le above nb by (simp add: m regs' poke_outside) (simp add: addr aligned_16)
qed

section \<open>The calling convention\<close>

lemma assign_other: "x \<notin> set rs \<Longrightarrow> assign rs vs regs x = regs x"
proof (induction rs arbitrary: vs regs)
  case (Cons r rs)
  then show ?case by (cases vs) (auto simp: assign_def)
qed (simp add: assign_def)

lemma assign_nth:
  "distinct rs \<Longrightarrow> i < length rs \<Longrightarrow> i < length vs \<Longrightarrow> assign rs vs regs (rs ! i) = vs ! i"
proof (induction rs arbitrary: vs regs i)
  case (Cons r rs)
  then obtain v vs' where v: "vs = v # vs'" by (cases vs) auto
  have step: "assign (r # rs) (v # vs') regs = assign rs vs' (regs(r := v))" by (simp add: assign_def)
  show ?case
  proof (cases i)
    case 0
    with Cons.prems have "assign rs vs' (regs(r := v)) r = v" by (simp add: assign_other)
    then show ?thesis by (simp add: 0 v step)
  next
    case (Suc j)
    with Cons show ?thesis by (simp add: step v)
  qed
qed simp

lemma call_regs_distinct: "distinct (call_regs a)"
  by (cases a) (simp_all add: call_regs_def distinct_map inj_on_def)

lemma call_regs_special:
  "REG_SP a \<notin> set (call_regs a)" "REG_IP a \<notin> set (call_regs a)"
  "Xreg 30 \<notin> set (call_regs Aarch64)"
  by (cases a, auto simp: call_regs_def) (cases a, auto simp: call_regs_def)

text \<open>
  what a function called in an x86-64 tracee finds: the first six arguments in their
  registers, its return address on top of the stack, the other arguments above it, and the
  stack aligned below the arguments.
\<close>

theorem call_setup_x86_64_abi:
  assumes "call_setup_x86_64 f ra args (align_stack X86_64 0 regs) w = (True, regs', w')"
    and "length args < 2 ^ 32"
  shows "regs' Rip = f \<and>
     list_all (\<lambda>i. regs' (call_regs X86_64 ! i) = args ! i) [0..<min 6 (length args)] \<and>
     peek (tr_mem (wd_tracee w')) (regs' Rsp) 8 = word_bytes ra \<and>
     peek (tr_mem (wd_tracee w')) (regs' Rsp + 8) (8 * (length args - 6)) =
       stack_bytes (drop 6 args) \<and>
     (regs' Rsp + 8 + of_nat (8 * (length args - 6))) AND 0xf = 0"
proof -
  let ?r0 = "align_stack X86_64 0 regs"
  let ?r1 = "assign (call_regs X86_64) args ?r0"
  let ?k = "8 * (length args - 6)"
  have sp1: "?r1 Rsp = regs Rsp AND STACK_ALIGN_MASK"
    using assign_other [of Rsp "call_regs X86_64" args ?r0] call_regs_special(1) [of X86_64]
    by (simp add: align_stack_def)
  obtain ok2 regs2 w2 where p2:
    "(if 6 < length args then push_words X86_64 (drop 6 args) ?r1 w else (True, ?r1, w)) =
       (ok2, regs2, w2)" by (rule prod_cases3)
  obtain ok3 regs3 w3 where p3: "push_words X86_64 [ra] regs2 w2 = (ok3, regs3, w3)"
    by (rule prod_cases3)
  have "call_setup_x86_64 f ra args ?r0 w =
      (if \<not> ok2 then (False, regs2, w2)
       else if \<not> ok3 then (False, regs3, w3) else (True, regs3(Rip := f), w3))"
    by (simp only: call_setup_x86_64_def Let_def p2 p3 prod.case REG_IP.simps)
  with assms(1) have ok: "ok2" "ok3" and r': "regs' = regs3(Rip := f)" and w': "w' = w3"
    by (simp_all split: if_splits)
  have r2: "regs2 = ?r1(Rsp := ?r1 Rsp - of_nat ?k)"
  proof (cases "6 < length args")
    case True
    with p2 ok(1) have "push_words X86_64 (drop 6 args) ?r1 w = (True, regs2, w2)" by simp
    from push_words_ok [OF this] show ?thesis by simp
  next
    case False
    with p2 show ?thesis by simp
  qed
  have m2: "tr_mem (wd_tracee w2) = poke (tr_mem (wd_tracee w)) (regs2 Rsp) (stack_bytes (drop 6 args))"
  proof (cases "6 < length args")
    case True
    with p2 ok(1) have "push_words X86_64 (drop 6 args) ?r1 w = (True, regs2, w2)" by simp
    from push_words_ok [OF this] show ?thesis by simp
  next
    case False
    with p2 show ?thesis by (simp add: stack_bytes_def)
  qed
  have q3: "regs3 = regs2(Rsp := regs2 Rsp - 8)"
    "tr_mem (wd_tracee w3) = poke (tr_mem (wd_tracee w2)) (regs3 Rsp) (word_bytes ra)"
    using push_words_ok [of X86_64 "[ra]" regs2 w2 regs3 w3] p3 ok(2) by (simp_all add: stack_bytes_def)
  have r3: "regs' = regs2(Rsp := regs2 Rsp - 8, Rip := f)" by (simp add: r' q3)
  have m3: "tr_mem (wd_tracee w') = poke (tr_mem (wd_tracee w2)) (regs' Rsp) (word_bytes ra)"
    using q3 by (simp add: w' r')
  have ip: "regs' Rip = f" by (simp add: r')
  have top: "regs' Rsp + 8 = regs2 Rsp" by (simp add: r3)
  have above: "\<not> in_region (regs2 Rsp + of_nat i) (regs' Rsp) 8" if "i < ?k" for i
  proof -
    have "regs2 Rsp + of_nat i - regs' Rsp = of_nat (8 + i)" by (simp add: r3)
    moreover have "8 + i < 2 ^ 64" using that assms(2) by simp
    ultimately show ?thesis by (simp only: in_region_def unat_of_nat) simp
  qed
  have args_in: "peek (tr_mem (wd_tracee w')) (regs2 Rsp) ?k = stack_bytes (drop 6 args)"
  proof -
    have "peek (tr_mem (wd_tracee w')) (regs2 Rsp) ?k = peek (tr_mem (wd_tracee w2)) (regs2 Rsp) ?k"
      unfolding m3 by (rule peek_poke_disjoint) (simp add: above)
    also have "\<dots> = stack_bytes (drop 6 args)"
      unfolding m2 using peek_poke_same [of "stack_bytes (drop 6 args)"] assms(2) by simp
    finally show ?thesis .
  qed
  have "peek (tr_mem (wd_tracee w')) (regs' Rsp) 8 = word_bytes ra"
    unfolding m3 using peek_poke_same [of "word_bytes ra"] by simp
  moreover have "list_all (\<lambda>i. regs' (call_regs X86_64 ! i) = args ! i) [0..<min 6 (length args)]"
  proof -
    have "regs' (call_regs X86_64 ! i) = args ! i" if "i < 6" "i < length args" for i
    proof -
      have l: "i < length (call_regs X86_64)" using that by (simp add: call_regs_def)
      then have "call_regs X86_64 ! i \<in> set (call_regs X86_64)" by simp
      then have "call_regs X86_64 ! i \<noteq> Rsp" "call_regs X86_64 ! i \<noteq> Rip"
        using call_regs_special(1,2) [of X86_64] by auto
      then show ?thesis using assign_nth [OF call_regs_distinct l that(2), of ?r0] by (simp add: r3 r2)
    qed
    then show ?thesis by (simp add: list_all_iff)
  qed
  moreover have "(regs' Rsp + 8 + of_nat ?k) AND 0xf = 0"
    by (simp only: top) (simp add: r2 sp1 aligned_16)
  ultimately show ?thesis using args_in by (simp only: top ip)
qed

text \<open>
  the same for a 64-bit ARM tracee: eight arguments in registers, the others on top of the
  stack, and the return address in the link register.
\<close>

theorem call_setup_aarch64_abi:
  assumes "call_setup_aarch64 f ra args (align_stack Aarch64 0 regs) w = (True, regs', w')"
    and "length args < 2 ^ 32"
  shows "regs' Pc = f \<and> regs' (Xreg 30) = ra \<and>
     list_all (\<lambda>i. regs' (Xreg i) = args ! i) [0..<min 8 (length args)] \<and>
     peek (tr_mem (wd_tracee w')) (regs' Sp) (8 * (length args - 8)) = stack_bytes (drop 8 args) \<and>
     (regs' Sp + of_nat (8 * (length args - 8))) AND 0xf = 0"
proof -
  let ?r0 = "align_stack Aarch64 0 regs"
  let ?r1 = "assign (call_regs Aarch64) args ?r0"
  let ?k = "8 * (length args - 8)"
  have sp1: "?r1 Sp = regs Sp AND STACK_ALIGN_MASK"
    using assign_other [of Sp "call_regs Aarch64" args ?r0] call_regs_special(1) [of Aarch64]
    by (simp add: align_stack_def)
  obtain ok2 regs2 w2 where p2:
    "(if 8 < length args then push_words Aarch64 (drop 8 args) ?r1 w else (True, ?r1, w)) =
       (ok2, regs2, w2)" by (rule prod_cases3)
  have "call_setup_aarch64 f ra args ?r0 w =
      (if \<not> ok2 then (False, regs2, w2) else (True, regs2(Xreg 30 := ra, Pc := f), w2))"
    by (simp only: call_setup_aarch64_def Let_def p2 prod.case REG_IP.simps)
  with assms(1) have ok: "ok2" and r': "regs' = regs2(Xreg 30 := ra, Pc := f)" and w': "w' = w2"
    by (simp_all split: if_splits)
  have "regs2 = ?r1(Sp := ?r1 Sp - of_nat ?k) \<and>
      tr_mem (wd_tracee w2) = poke (tr_mem (wd_tracee w)) (regs2 Sp) (stack_bytes (drop 8 args))"
  proof (cases "8 < length args")
    case True
    with p2 ok have "push_words Aarch64 (drop 8 args) ?r1 w = (True, regs2, w2)" by simp
    from push_words_ok [OF this] show ?thesis by simp
  next
    case False
    with p2 show ?thesis by (simp add: stack_bytes_def)
  qed
  then have r2: "regs2 = ?r1(Sp := ?r1 Sp - of_nat ?k)"
    and m2: "tr_mem (wd_tracee w2) = poke (tr_mem (wd_tracee w)) (regs2 Sp) (stack_bytes (drop 8 args))"
    by blast+
  have sp: "regs' Sp = regs2 Sp" by (simp add: r')
  have "peek (tr_mem (wd_tracee w')) (regs' Sp) ?k = stack_bytes (drop 8 args)"
    unfolding w' m2 sp using peek_poke_same [of "stack_bytes (drop 8 args)"] assms(2) by simp
  moreover have "regs' (Xreg i) = args ! i" if "i < 8" "i < length args" for i
  proof -
    have l: "i < length (call_regs Aarch64)" and e: "call_regs Aarch64 ! i = Xreg i"
      using that by (simp_all add: call_regs_def)
    show ?thesis using assign_nth [OF call_regs_distinct l that(2), of ?r0] that(1) e
      by (simp add: r' r2)
  qed
  then have "list_all (\<lambda>i. regs' (Xreg i) = args ! i) [0..<min 8 (length args)]"
    by (simp add: list_all_iff)
  moreover have "(regs' Sp + of_nat ?k) AND 0xf = 0"
    by (simp only: sp) (simp add: r2 sp1 aligned_16)
  ultimately show ?thesis by (simp add: r')
qed

section \<open>Returning\<close>

lemma get_regs_true: "get_regs r w = ((True, r'), w') \<Longrightarrow> r' = tr_regs (wd_tracee w')"
  by (auto simp: get_regs_def split: prod.splits if_splits)

text \<open>
  C34: a remote call counts as successful only when the tracee stopped exactly at the trap address,
  and then its result is the return register; in every other case the result is zero.
\<close>

theorem remote_call_outcome:
  assumes "remote_call a f ra args regs w = Inr ((r, ok), regs', w')"
  shows "if ok then regs' = tr_regs (wd_tracee w') \<and> regs' (REG_IP a) = ra \<and> r = regs' (REG_RET a)
         else r = 0"
proof -
  obtain ok1 r1 w1 where s1: "call_setup a f ra args (align_stack a 0 regs) w = (ok1, r1, w1)"
    by (rule prod_cases3)
  obtain ok2 w2 where s2: "set_regs r1 w1 = (ok2, w2)" by fastforce
  show ?thesis
  proof (cases "ok1 \<and> ok2")
    case False
    with assms show ?thesis
      unfolding remote_call_def s1 prod.case s2 by (auto split: if_splits)
  next
    case True
    with assms obtain st w3 where s3: "wait_for_trace a (resume (Req_cont 0) w2) = Inr (st, w3)"
      unfolding remote_call_def s1 prod.case s2 by auto
    obtain ok4 r4 w4 where s4: "get_regs r1 w3 = ((ok4, r4), w4)" by (metis surj_pair)
    have "remote_call a f ra args regs w =
        (if \<not> ok4 then Inr ((0, False), r4, w4)
         else if WIFSTOPPED st \<and> r4 (REG_IP a) = ra then Inr ((r4 (REG_RET a), True), r4, w4)
         else Inr ((0, False), r4, w4))"
      using True unfolding remote_call_def s1 prod.case s2 by (simp add: s3 s4)
    with assms s4 show ?thesis by (auto dest: get_regs_true split: if_splits)
  qed
qed

section \<open>System calls\<close>

text \<open>A world whose ptrace requests are all granted.\<close>

definition obliging :: "world \<Rightarrow> bool" where
  "obliging w \<longleftrightarrow> list_all id (wd_answers w)"

lemma ask_obliging:
  "obliging w \<Longrightarrow> ask q w = (True, snd (ask q w)) \<and> obliging (snd (ask q w))"
  by (cases "wd_answers w") (auto simp: ask_def obliging_def)

lemma get_regs_obliging:
  "obliging w \<Longrightarrow> get_regs r w = ((True, tr_regs (wd_tracee w)), snd (ask Req_getregs w))"
proof -
  assume "obliging w"
  then have a: "ask Req_getregs w = (True, snd (ask Req_getregs w))" using ask_obliging by blast
  show ?thesis unfolding get_regs_def by (subst a) simp
qed

lemma set_regs_obliging:
  "obliging w \<Longrightarrow>
     set_regs r w = (True, (snd (ask Req_setregs w))\<lparr> wd_tracee := (wd_tracee w)\<lparr> tr_regs := r \<rparr> \<rparr>)"
proof -
  assume "obliging w"
  then have a: "ask Req_setregs w = (True, snd (ask Req_setregs w))" using ask_obliging by blast
  show ?thesis unfolding set_regs_def by (subst a) simp
qed

lemma obliging_tracee [simp]: "obliging (w\<lparr> wd_tracee := t \<rparr>) = obliging w"
  "obliging (w\<lparr> wd_script := es \<rparr>) = obliging w"
  by (simp_all add: obliging_def)

lemma syscall_stop_obliging:
  "syscall_stop_loop es w = Inr (ok, w') \<Longrightarrow> obliging w \<Longrightarrow> obliging w'"
  by (induction es w rule: syscall_stop_loop.induct) (auto simp: Let_def split: if_splits)

lemma step_syscall_obliging: "step_syscall n w = Inr (ok, w') \<Longrightarrow> obliging w \<Longrightarrow> obliging w'"
proof (induction n arbitrary: w)
  case (Suc n)
  note a = ask_obliging [OF Suc.prems(2), of Req_syscall]
  obtain ok2 w2 where s: "wait_for_ptrace_syscall_stop (snd (ask Req_syscall w)) = Inr (ok2, w2)"
    and r: "(if \<not> ok2 then Inr (False, w2) else step_syscall n w2) = Inr (ok, w')"
    using Suc.prems(1) a by (auto split: prod.splits)
  have "obliging w2"
    using s a by (auto simp: wait_for_ptrace_syscall_stop_def dest: syscall_stop_obliging)
  with r Suc.IH show ?case by (auto split: if_splits)
qed simp

lemma restore_obliging:
  "obliging w \<Longrightarrow>
     restore_regs r w =
       (r, (snd (ask Req_setregs w))\<lparr> wd_tracee := (wd_tracee w)\<lparr> tr_regs := r \<rparr> \<rparr>)"
  by (simp add: restore_regs_def set_regs_obliging)

text \<open>
  C20: a remote system call leaves the tracee with the registers it had, and the caller with a
  copy of them, on every path on which ptrace obeys, also when the tracee dies between the
  two stops.
\<close>

theorem remote_syscall_transparent:
  assumes "obliging w" "remote_syscall a gadget nr args regs w = Inr (r, regs', w')"
  shows "regs' = tr_regs (wd_tracee w) \<and> tr_regs (wd_tracee w') = tr_regs (wd_tracee w) \<and> obliging w'"
proof -
  let ?saved = "tr_regs (wd_tracee w)"
  let ?w1 = "snd (ask Req_getregs w)"
  have o1: "obliging ?w1" using ask_obliging [OF assms(1)] by blast
  obtain w2 where s2: "set_regs (syscall_setup a gadget nr args regs) ?w1 = (True, w2)" and o2: "obliging w2"
    using set_regs_obliging [OF o1] ask_obliging [OF o1] by simp
  obtain ok3 w3 where s3: "step_syscall 2 w2 = Inr (ok3, w3)"
    using assms(2) by (auto simp: remote_syscall_def get_regs_obliging [OF assms(1)] s2 Let_def)
  have o3: "obliging w3" by (rule step_syscall_obliging [OF s3 o2])
  have fin: "restore_regs ?saved v = (regs', w') \<Longrightarrow> obliging v \<Longrightarrow> ?thesis" for v
    using ask_obliging [of v Req_setregs] by (auto simp: restore_obliging)
  have o4: "obliging (snd (ask Req_getregs w3))" using ask_obliging [OF o3] by blast
  show ?thesis
    using assms(2) fin [of w3] fin [of "snd (ask Req_getregs w3)"] o3 o4
    by (cases ok3)
      (simp_all add: remote_syscall_def get_regs_obliging [OF assms(1)] s2 Let_def s3
        get_regs_obliging [OF o3])
qed

text \<open>The run of a system call: entry, exit, result.\<close>

lemma remote_syscall_effect:
  assumes "obliging w" "wd_script w = Stops s1 f # Stops s2 g # es" "WIFSTOPPED s1" "WIFSTOPPED s2"
    and "t = g (f ((wd_tracee w)\<lparr> tr_regs := syscall_setup a gadget nr args regs \<rparr>))"
  shows "\<exists>w'. remote_syscall a gadget nr args regs w =
       Inr (tr_regs t (REG_RET a), tr_regs (wd_tracee w), w') \<and>
     wd_tracee w' = t\<lparr> tr_regs := tr_regs (wd_tracee w) \<rparr> \<and> wd_script w' = es \<and> obliging w'"
proof -
  let ?w1 = "snd (ask Req_getregs w)" and ?r = "syscall_setup a gadget nr args regs"
  have o1: "obliging ?w1" using ask_obliging [OF assms(1)] by blast
  define w2 where "w2 = (snd (ask Req_setregs ?w1))\<lparr> wd_tracee := (wd_tracee w)\<lparr> tr_regs := ?r \<rparr> \<rparr>"
  have s2: "set_regs ?r ?w1 = (True, w2)" using set_regs_obliging [OF o1] by (simp add: w2_def)
  have o2: "obliging w2" and sc2: "wd_script w2 = wd_script w"
    using ask_obliging [OF o1] by (simp_all add: w2_def)
  define w2' where "w2' = snd (ask Req_syscall w2)"
  have a2: "ask Req_syscall w2 = (True, w2')" and o2': "obliging w2'"
    using ask_obliging [OF o2] by (simp_all add: w2'_def)
  have st: "\<not> WIFEXITED s \<and> \<not> WIFSIGNALED s" if "WIFSTOPPED s" for s
    using WIF_exclusive that by blast
  define w3 where "w3 = w2'\<lparr> wd_tracee := f (wd_tracee w2'), wd_script := Stops s2 g # es \<rparr>"
  have p3: "wait_for_ptrace_syscall_stop w2' = Inr (True, w3)"
    using assms(2,3) st [OF assms(3)] sc2
    by (simp add: wait_for_ptrace_syscall_stop_def w2'_def w3_def Let_def)
  have o3: "obliging w3" using o2' by (simp add: w3_def obliging_def)
  define w3' where "w3' = snd (ask Req_syscall w3)"
  have a3: "ask Req_syscall w3 = (True, w3')" and o3': "obliging w3'"
    using ask_obliging [OF o3] by (simp_all add: w3'_def)
  define w4 where "w4 = w3'\<lparr> wd_tracee := g (wd_tracee w3'), wd_script := es \<rparr>"
  have p4: "wait_for_ptrace_syscall_stop w3' = Inr (True, w4)"
    using assms(4) st [OF assms(4)]
    by (simp add: wait_for_ptrace_syscall_stop_def w3'_def w4_def w3_def Let_def)
  have o4: "obliging w4" using o3' by (simp add: w4_def obliging_def)
  have two: "step_syscall 2 w2 = Inr (True, w4)"
    by (simp add: numeral_2_eq_2 a2 p3 a3 p4)
  have t4: "wd_tracee w4 = t"
    by (simp add: w4_def w3'_def w3_def w2'_def w2_def assms(5))
  let ?w5 = "snd (ask Req_getregs w4)"
  have o5: "obliging ?w5" using ask_obliging [OF o4] by blast
  have sc: "wd_script ?w5 = es" by (simp add: w4_def)
  have "remote_syscall a gadget nr args regs w =
      Inr (tr_regs t (REG_RET a), restore_regs (tr_regs (wd_tracee w)) ?w5)"
    by (simp add: remote_syscall_def get_regs_obliging [OF assms(1)] s2 two Let_def
        get_regs_obliging [OF o4] t4)
  then show ?thesis using ask_obliging [OF o5, of Req_setregs] sc
    by (simp add: restore_obliging [OF o5] t4)
qed

text \<open>
  the two stops need not be those of the system call.  When signals stop a 64-bit ARM tracee
  twice before it executes the instruction, the call was never made, and its reported result
  is its own first argument, which is not negative for most calls.
\<close>

theorem signal_stop_taken_for_result:
  assumes "obliging w" "wd_script w = Stops (stop_status s1 0) id # Stops (stop_status s2 0) id # es"
    and "args \<noteq> []"
  shows "\<exists>w'. remote_syscall Aarch64 gadget nr args regs w =
     Inr (args ! 0, tr_regs (wd_tracee w), w') \<and> wd_tracee w' = wd_tracee w"
proof -
  have st: "WIFSTOPPED (stop_status s 0)" for s
  proof -
    have "stop_status s 0 = 127 + 128 * (2 * s)" by (simp add: stop_status_def)
    then show ?thesis by (simp only: WIFSTOPPED_def WTERMSIG_def mod_mult_self2) simp
  qed
  let ?r = "syscall_setup Aarch64 gadget nr args regs"
  obtain w' where e: "remote_syscall Aarch64 gadget nr args regs w =
      Inr (?r (Xreg 0), tr_regs (wd_tracee w), w')" "wd_tracee w' = wd_tracee w"
    using remote_syscall_effect [OF assms(1,2) st st refl, of Aarch64 gadget nr args regs] by auto
  have d: "distinct (syscall_regs Aarch64)" by (simp add: syscall_regs_def distinct_map inj_on_def)
  have "assign (syscall_regs Aarch64) args q (Xreg 0) = args ! 0" for q
    using assign_nth [OF d, of 0 args q] assms(3) by (simp add: syscall_regs_def)
  then have "?r (Xreg 0) = args ! 0" by (simp add: syscall_setup_def Let_def)
  with e show ?thesis by auto
qed

section \<open>The gadget\<close>

lemma scan_insn_sound:
  "scan_insn insn buf js = Some j \<Longrightarrow> j \<in> set js \<and> take (length insn) (drop j buf) = insn"
  by (induction js) (auto split: if_splits)

lemma insn_offsets_bound: "j \<in> set (insn_offsets st n) \<Longrightarrow> 0 < st \<Longrightarrow> j + st \<le> n"
proof -
  assume "j \<in> set (insn_offsets st n)" "0 < st"
  then obtain i where i: "j = i * st" "Suc i \<le> n div st" by (auto simp: insn_offsets_def)
  then have "Suc i * st \<le> n div st * st" by (intro mult_right_mono) simp_all
  also have "n div st * st \<le> n" by (rule div_times_less_eq_dividend)
  finally show ?thesis using i(1) by simp
qed

lemma take_drop_peek:
  "j + k \<le> n \<Longrightarrow> take k (drop j (peek m x n)) = peek m (x + of_nat j) k"
  by (rule nth_equalityI) (auto simp: peek_def add.assoc)

lemma all_accessible_part:
  "all_accessible t p x n \<Longrightarrow> j + k \<le> n \<Longrightarrow> all_accessible t p (x + of_nat j) k"
proof -
  assume a: "all_accessible t p x n" "j + k \<le> n"
  have "accessible t p (x + of_nat j + of_nat i)" if "i < k" for i
  proof -
    have "j + i \<in> set [0..<n]" using a(2) that by simp
    with a(1) have "accessible t p (x + of_nat (j + i))"
      unfolding all_accessible_def list_all_iff by blast
    then show ?thesis unfolding of_nat_add by (simp only: add.assoc)
  qed
  then show ?thesis by (simp add: all_accessible_def list_all_iff)
qed

text \<open>The address \<open>g\<close> is a system call instruction inside the executable mapping \<open>m\<close>.\<close>

definition is_gadget :: "arch \<Rightarrow> tracee \<Rightarrow> u64 \<Rightarrow> map_info \<Rightarrow> bool" where
  "is_gadget a t g m \<longleftrightarrow>
     has_perm (mp_perms m) 4 \<and>
     unat (g - mp_start m) + length (svc_insn a) \<le> unat (mp_end m - mp_start m) \<and>
     peek (tr_mem t) g (length (svc_insn a)) = svc_insn a \<and>
     all_accessible t PROT_READ g (length (svc_insn a))"

lemma svc_insn_length: "0 < length (svc_insn a)" "length (svc_insn a) \<le> 4"
  by (cases a; simp add: svc_insn_def)+

lemma gadget_pass_sound:
  "gadget_pass a v t maps = Some g \<Longrightarrow>
     list_ex (\<lambda>m. str_contains (mp_path m) ''[vdso]'' = v \<and> is_gadget a t g m) maps"
proof (induction a v t maps rule: gadget_pass.induct)
  case (2 a v t m ms)
  define rs where "rs = min (unat (mp_end m - mp_start m)) (if v then 0x10000 else 0x100000 :: nat)"
  obtain n buf where rd: "read_proc t (mp_start m) rs = (n, buf)" by fastforce
  let ?insn = "svc_insn a"
  let ?scan = "scan_insn ?insn buf (insn_offsets (length ?insn) rs)"
  show ?case
  proof (cases "has_perm (mp_perms m) 4 \<and> str_contains (mp_path m) ''[vdso]'' = v \<and> n = int rs \<and> ?scan \<noteq> None")
    case False
    then have "gadget_pass a v t ms = Some g"
      using "2.prems" rd unfolding gadget_pass.simps Let_def rs_def [symmetric]
      by (auto split: if_splits option.splits)
    moreover have "gadget_pass a v t ms = Some g \<Longrightarrow> ?thesis"
      using "2.IH" rd False unfolding Let_def rs_def [symmetric]
      by (auto split: option.splits)
    ultimately show ?thesis by blast
  next
    case True
    then obtain j where j: "?scan = Some j" by auto
    have g: "g = mp_start m + of_nat j"
      using "2.prems" rd True j unfolding gadget_pass.simps Let_def rs_def [symmetric] by auto
    have acc: "all_accessible t PROT_READ (mp_start m) rs" and buf: "buf = peek (tr_mem t) (mp_start m) rs"
      using read_proc_full rd True by auto
    have jj: "j + length ?insn \<le> rs" and "take (length ?insn) (drop j buf) = ?insn"
      using scan_insn_sound [OF j] insn_offsets_bound svc_insn_length by blast+
    then have pk: "peek (tr_mem t) g (length ?insn) = ?insn"
      using take_drop_peek [OF jj] by (simp add: buf g)
    have "rs \<le> unat (mp_end m - mp_start m)" by (simp add: rs_def)
    moreover have "unat (g - mp_start m) \<le> j" by (simp add: g unat_of_nat)
    ultimately have "unat (g - mp_start m) + length ?insn \<le> unat (mp_end m - mp_start m)"
      using jj by linarith
    then have "is_gadget a t g m"
      using True pk all_accessible_part [OF acc jj] by (simp add: is_gadget_def g)
    then show ?thesis using True by simp
  qed
qed simp

text \<open>
  a gadget, when one is found, is a system call instruction inside an executable mapping of
  the tracee; it lies in the vDSO whenever a search of the vDSO alone succeeds.
\<close>

theorem find_syscall_gadget_sound:
  assumes "find_syscall_gadget a t maps = g" "g \<noteq> 0"
  shows "list_ex (is_gadget a t g) maps \<and>
     (gadget_pass a True t maps \<noteq> None \<longrightarrow>
        list_ex (\<lambda>m. str_contains (mp_path m) ''[vdso]'' \<and> is_gadget a t g m) maps)"
  using assms gadget_pass_sound [of a True t maps g] gadget_pass_sound [of a False t maps g]
  by (auto simp: find_syscall_gadget_def list_ex_iff split: option.splits)

section \<open>Waiting\<close>

lemma wait_loop_stop:
  "wait_loop a es w = Inr (st, w') \<Longrightarrow>
     WIFSTOPPED st \<and> \<not> is_seccomp_stop st \<and> (\<exists>pre f. es = pre @ Stops st f # wd_script w')"
proof (induction a es w rule: wait_loop.induct)
  case (4 a status f es w)
  show ?case
  proof (cases "is_seccomp_stop status")
    case True
    then obtain w2 where
      "tracee_skip_syscall a (w\<lparr> wd_tracee := f (wd_tracee w) \<rparr>) = Inr w2"
      "wait_loop a es (resume (Req_cont 0) w2) = Inr (st, w')"
      using "4.prems" by (auto simp: Let_def)
    from "4.IH" [OF refl True this] show ?thesis by (metis append_Cons)
  next
    case False
    with "4.prems" show ?thesis by (auto simp: Let_def split: if_splits)
  qed
next
  case (2 a es w)
  then show ?case by (metis append_Cons wait_loop.simps(2))
qed simp_all

text \<open>
  waiting for the tracee ends only at a true stop: interrupted waits are repeated, every
  seccomp event is answered by skipping its system call, a process that died ends the
  injector, and no event after the stop is consumed.
\<close>

theorem wait_for_trace_stop:
  assumes "wait_for_trace a w = Inr (st, w')"
  shows "WIFSTOPPED st \<and> \<not> is_seccomp_stop st \<and>
     (\<exists>pre f. wd_script w = pre @ Stops st f # wd_script w')"
  using assms wait_loop_stop by (auto simp: wait_for_trace_def)

section \<open>Concrete runs\<close>

text \<open>A tracee with a large accessible memory, stopped with its stack at 0x10000.\<close>

definition sample_tracee :: tracee where
  "sample_tracee = \<lparr> tr_regs = (\<lambda>_. 0x10000), tr_mem = (\<lambda>x. if x = 0x8000 then 0x0F else if x = 0x8001 then 0x05 else 0),
                     tr_prot = (\<lambda>_. Some 7) \<rparr>"

definition sample_world :: "event list \<Rightarrow> world" where
  "sample_world es =
     \<lparr> wd_tracee = sample_tracee, wd_script = es, wd_answers = [], wd_requests = [] \<rparr>"

lemma push_string_exact_witness:
  "case push_string Aarch64 ''ab'' (tr_regs sample_tracee) (sample_world []) of (addr, regs', w') \<Rightarrow>
     peek (tr_mem (wd_tracee w')) addr 3 = [97, 98, 0] \<and> addr AND 0xf = 0"
proof -
  obtain addr r w where e:
    "push_string Aarch64 ''ab'' (tr_regs sample_tracee) (sample_world []) = (addr, r, w)"
    by (rule prod_cases3)
  have "fst (push_string Aarch64 ''ab'' (tr_regs sample_tracee) (sample_world [])) \<noteq> 0" by code_simp
  then have nz: "addr \<noteq> 0" by (simp add: e)
  have l: "length ''ab'' + 16 < unat (tr_regs sample_tracee (REG_SP Aarch64))"
    by (simp add: sample_tracee_def)
  have c: "c_string ''ab'' = [97, 98, 0]" by code_simp
  from push_string_exact [OF e nz l] show ?thesis by (simp add: e c numeral_3_eq_3)
qed

lemma call_setup_x86_64_abi_witness:
  "\<exists>regs' w'. call_setup_x86_64 0x4000 0x50 [1, 2] (align_stack X86_64 0 (tr_regs sample_tracee))
       (sample_world []) = (True, regs', w') \<and>
     regs' Rip = 0x4000 \<and> peek (tr_mem (wd_tracee w')) (regs' Rsp) 8 = word_bytes 0x50"
proof -
  let ?c = "call_setup_x86_64 0x4000 0x50 [1, 2] (align_stack X86_64 0 (tr_regs sample_tracee))
    (sample_world [])"
  obtain ok r w where e: "?c = (ok, r, w)" by (rule prod_cases3)
  have "fst ?c" by code_simp
  then have t: "?c = (True, r, w)" using e by simp
  from call_setup_x86_64_abi [OF t] t show ?thesis by auto
qed

lemma call_setup_aarch64_abi_witness:
  "\<exists>regs' w'. call_setup_aarch64 0x4000 0x5000 [1, 2] (align_stack Aarch64 0 (tr_regs sample_tracee))
       (sample_world []) = (True, regs', w') \<and> regs' Pc = 0x4000 \<and> regs' (Xreg 30) = 0x5000"
proof -
  let ?c = "call_setup_aarch64 0x4000 0x5000 [1, 2] (align_stack Aarch64 0 (tr_regs sample_tracee))
    (sample_world [])"
  obtain ok r w where e: "?c = (ok, r, w)" by (rule prod_cases3)
  have "fst ?c" by code_simp
  then have t: "?c = (True, r, w)" using e by simp
  from call_setup_aarch64_abi [OF t] t show ?thesis by auto
qed

definition returns_with :: "u64 \<Rightarrow> u64 \<Rightarrow> tracee \<Rightarrow> tracee" where
  "returns_with ra r t = t\<lparr> tr_regs := (tr_regs t)(Pc := ra, Xreg 0 := r) \<rparr>"

lemma remote_call_outcome_witness:
  "\<exists>regs' w'. remote_call Aarch64 0x4000 0x5000 [] (tr_regs sample_tracee)
       (sample_world [Stops (stop_status 11 0) (returns_with 0x5000 7)]) = Inr ((7, True), regs', w') \<and>
     regs' Pc = 0x5000"
proof -
  let ?c = "remote_call Aarch64 0x4000 0x5000 [] (tr_regs sample_tracee)
    (sample_world [Stops (stop_status 11 0) (returns_with 0x5000 7)])"
  have "case ?c of Inr ((r, ok), _, _) \<Rightarrow> r = 7 \<and> ok | Inl _ \<Rightarrow> False" by code_simp
  then obtain r w where e: "?c = Inr ((7, True), r, w)" by (auto split: sum.splits)
  from remote_call_outcome [OF e] e show ?thesis by auto
qed

lemma remote_syscall_transparent_witness:
  "\<exists>r w'. remote_syscall Aarch64 0x8000 57 [3] (tr_regs sample_tracee)
       (sample_world [Stops (stop_status 5 0) id, Stops (stop_status 5 0) (returns_with 0x8004 0)]) =
       Inr (0, r, w') \<and> r = tr_regs sample_tracee"
proof -
  let ?w = "sample_world [Stops (stop_status 5 0) id, Stops (stop_status 5 0) (returns_with 0x8004 0)]"
  let ?c = "remote_syscall Aarch64 0x8000 57 [3] (tr_regs sample_tracee) ?w"
  have o: "obliging ?w" by (simp add: obliging_def sample_world_def)
  have "case ?c of Inr (x, _, _) \<Rightarrow> x = 0 | Inl _ \<Rightarrow> False" by code_simp
  then obtain r w where e: "?c = Inr (0, r, w)" by (auto split: sum.splits)
  from remote_syscall_transparent [OF o e] e show ?thesis by (auto simp: sample_world_def)
qed

lemma signal_stop_taken_for_result_witness:
  "\<exists>w'. remote_syscall Aarch64 0x8000 222 [0x100000000, 4096, 0, 34, - 1, 0] (tr_regs sample_tracee)
       (sample_world [Stops (stop_status 17 0) id, Stops (stop_status 17 0) id]) =
     Inr (0x100000000, tr_regs sample_tracee, w')"
  using signal_stop_taken_for_result [of "sample_world [Stops (stop_status 17 0) id, Stops (stop_status 17 0) id]"
      17 17 "[]" "[0x100000000, 4096, 0, 34, - 1, 0]" "0x8000" 222 "tr_regs sample_tracee"]
  by (auto simp: sample_world_def obliging_def)

definition sample_vdso :: map_info where
  "sample_vdso = \<lparr> mp_start = 0x7FFC, mp_end = 0x8010, mp_perms = 5, mp_private = True, mp_offset = 0,
                   mp_dev = 0, mp_inode = 0, mp_path = ''[vdso]'' \<rparr>"

lemma find_syscall_gadget_sound_witness:
  "find_syscall_gadget X86_64 sample_tracee [sample_vdso] = 0x8000 \<and>
   is_gadget X86_64 sample_tracee 0x8000 sample_vdso"
proof -
  have "scan_insn [15, 5] (peek (tr_mem sample_tracee) 0x7FFC 20) (insn_offsets (Suc (Suc 0)) 20) = Some 4"
    "read_proc sample_tracee 0x7FFC 20 = (20, peek (tr_mem sample_tracee) 0x7FFC 20)"
    "has_perm 5 4" "str_contains ''[vdso]'' ''[vdso]''" by code_simp+
  then have e: "find_syscall_gadget X86_64 sample_tracee [sample_vdso] = 0x8000"
    by (simp add: find_syscall_gadget_def sample_vdso_def svc_insn_def Let_def)
  with find_syscall_gadget_sound [OF e] show ?thesis by simp
qed

lemma wait_for_trace_stop_witness:
  "\<exists>w'. wait_for_trace Aarch64 (sample_world
        [Wait_interrupted, Stops (stop_status 5 7) id, Stops (stop_status 11 0) id]) =
      Inr (stop_status 11 0, w') \<and> WIFSTOPPED (stop_status 11 0)"
proof -
  let ?c = "wait_for_trace Aarch64 (sample_world
        [Wait_interrupted, Stops (stop_status 5 7) id, Stops (stop_status 11 0) id])"
  have "case ?c of Inr (st, _) \<Rightarrow> st = stop_status 11 0 | Inl _ \<Rightarrow> False" by code_simp
  then obtain w where e: "?c = Inr (stop_status 11 0, w)" by (auto split: sum.splits)
  from wait_for_trace_stop [OF e] e show ?thesis by auto
qed

end
