(* ===== verification/Inject.thy ===== *)
theory Inject
  imports Csoloader Remote_Properties
begin

text \<open>
  The injection of the library into a freshly started process (\<open>ptracer/ptracer.cpp\<close>): the
  kernel argument block and the entry point in it, the hijacked entry that stops the process
  before its first instruction, the calls made there (\<open>dlopen\<close> and \<open>dlsym\<close>, or the remote
  loader when \<open>dlopen\<close> declines, then \<open>entry\<close>), the registers put back, and the two ways to
  attach and detach.  The log messages are left out, and with them the text of \<open>dlerror\<close>,
  which is read for the log alone; the calls that fetch it are kept.
\<close>

section \<open>The kernel argument block\<close>

text \<open>
  A variable after \<open>read_proc\<close>: the bytes read, then what it held before.  \<open>stale\<close> is that
  content, by the address the code wants to read.
\<close>

type_synonym stale = "u64 \<Rightarrow> nat \<Rightarrow> u8"

definition fetch :: "stale \<Rightarrow> tracee \<Rightarrow> u64 \<Rightarrow> nat \<Rightarrow> u8 list" where
  "fetch stale t a n =
     (let bs = snd (read_proc t a n) in bs @ map (stale a) [length bs..<n])"

definition fetch_word :: "stale \<Rightarrow> tracee \<Rightarrow> u64 \<Rightarrow> u64" where
  "fetch_word stale t a = of_nat (le_value (fetch stale t a 8))"

text \<open>The count is an \<open>int\<close>; the pointer to the environment lies \<open>argc + 1\<close> pointers further.\<close>

definition envp_of :: "stale \<Rightarrow> tracee \<Rightarrow> u64 \<Rightarrow> u64" where
  "envp_of stale t sp =
     (let argc = of_nat (le_value (fetch stale t sp 4)) :: u32;
          argv = sp + 8
      in argv + 8 * scast argc + 8)"

text \<open>Past the pointers of the environment, to its null pointer.\<close>

partial_function (option) skip_env :: "stale \<Rightarrow> tracee \<Rightarrow> u64 \<Rightarrow> u64 option" where
  "skip_env stale t p =
     (if fetch_word stale t p \<noteq> 0 then skip_env stale t (p + 8) else Some p)"

abbreviation (input) AT_NULL :: u64 where "AT_NULL \<equiv> 0"
abbreviation (input) AT_ENTRY :: u64 where "AT_ENTRY \<equiv> 9"

text \<open>The entry point and where the vector keeps it; both are zero without an \<open>AT_ENTRY\<close>.\<close>

partial_function (option) find_at_entry :: "stale \<Rightarrow> tracee \<Rightarrow> u64 \<Rightarrow> (u64 \<times> u64) option" where
  "find_at_entry stale t v =
     (let buf = fetch stale t v 16;
          a_type = of_nat (le_value (take 8 buf)) :: u64;
          a_val = of_nat (le_value (drop 8 buf)) :: u64
      in if a_type = AT_NULL then Some (0, 0)
         else if a_type = AT_ENTRY then Some (a_val, v + 8)
         else find_at_entry stale t (v + 16))"

declare skip_env.simps [code]
declare find_at_entry.simps [code]

definition parse_block :: "stale \<Rightarrow> tracee \<Rightarrow> u64 \<Rightarrow> (u64 \<times> u64) option" where
  "parse_block stale t sp =
     (case skip_env stale t (envp_of stale t sp) of
        None \<Rightarrow> None
      | Some p \<Rightarrow> find_at_entry stale t (p + 8))"

section \<open>Stopping at the entry\<close>

record inject_env =
  ij_arch :: arch
  ij_page_size :: int
  ij_open :: "string \<Rightarrow> elf_file option"
  ij_lookup :: "string \<Rightarrow> string \<Rightarrow> u64 option"
  ij_local_maps :: "string list option"
  ij_maps :: "world \<Rightarrow> string list option"
  ij_stale :: stale
  ij_tmp_path :: string

definition break_addr :: "u64 \<Rightarrow> u64" where
  "break_addr entry = ((- 0x05ec1cff) AND NOT 1) OR (entry AND 1)"

text \<open>
  The process is resumed until it hits the trap.  Stops by \<open>SIGSTOP\<close> are passed over, any
  other stop ends the attempt.
\<close>

function await_trap :: "arch \<Rightarrow> world \<Rightarrow> (bool \<times> world) run" where
  "await_trap a w =
     (case ask (Req_cont 0) w of (ok, w1) \<Rightarrow>
        if \<not> ok then Inr (False, w1)
        else case wait_for_trace a w1 of
          Inl h \<Rightarrow> Inl h
        | Inr (status, w2) \<Rightarrow>
            if WIFEXITED status \<or> WIFSIGNALED status then Inr (False, w2)
            else if WIFSTOPPED status then
              (if WSTOPSIG status = SIGSEGV then Inr (True, w2)
               else if WSTOPSIG status = SIGSTOP then await_trap a w2
               else Inr (False, w2))
            else await_trap a w2)"
  by pat_completeness auto
termination
proof (relation "measure (\<lambda>(a, w). length (wd_script w))")
  have shorter: "length (wd_script w2) < length (wd_script w)"
    if asked: "(ok, w1) = ask (Req_cont 0) w" and waited: "wait_for_trace a w1 = Inr (status, w2)"
    for a ok w w1 w2 status
  proof -
    have "w1 = snd (ask (Req_cont 0) w)" using asked by (metis snd_conv)
    then have same: "wd_script w1 = wd_script w" by simp
    obtain pre f where "wd_script w1 = pre @ Stops status f # wd_script w2"
      using wait_loop_stop [of a "wd_script w1" w1 status w2] waited unfolding wait_for_trace_def by blast
    then have "length (wd_script w1) = length (pre @ Stops status f # wd_script w2)" by (rule arg_cong)
    then show ?thesis by (simp add: same)
  qed
  show "((a, w2), a, w) \<in> measure (\<lambda>(a, w). length (wd_script w))"
    if "(ok, w1) = ask (Req_cont 0) w" "\<not> \<not> ok" "wait_for_trace a w1 = Inr y" "(status, w2) = y"
      "\<not> (WIFEXITED status \<or> WIFSIGNALED status)" "WIFSTOPPED status" "WSTOPSIG status \<noteq> SIGSEGV"
      "WSTOPSIG status = SIGSTOP" for a w ok w1 y status w2
    using shorter [OF that(1), of a status w2] that(3,4) by simp
  show "((a, w2), a, w) \<in> measure (\<lambda>(a, w). length (wd_script w))"
    if "(ok, w1) = ask (Req_cont 0) w" "\<not> \<not> ok" "wait_for_trace a w1 = Inr y" "(status, w2) = y"
      "\<not> (WIFEXITED status \<or> WIFSIGNALED status)" "\<not> WIFSTOPPED status" for a w ok w1 y status w2
    using shorter [OF that(1), of a status w2] that(3,4) by simp
qed simp

declare await_trap.simps [simp del]

text \<open>
  Up to the restored entry: the registers at the trap and the entry point, or \<open>None\<close> when the
  function gives up.  \<open>!write_proc(..)\<close> is true of the result zero only, not of \<open>-1\<close>.
\<close>

definition intercept :: "inject_env \<Rightarrow> world \<Rightarrow> ((regs \<times> u64) option \<times> world) run" where
  "intercept e w =
     (case get_regs (\<lambda>_. 0) w of ((ok, regs), w1) \<Rightarrow>
        if \<not> ok then Inr (None, w1)
        else case parse_block (ij_stale e) (wd_tracee w1) (regs (REG_SP (ij_arch e))) of
          None \<Rightarrow> Inl Blocked
        | Some (entry_addr, addr_of_entry_addr) \<Rightarrow>
            if entry_addr = 0 then Inr (None, w1)
            else case write_remote addr_of_entry_addr (word_bytes (break_addr entry_addr)) w1 of (n, w2) \<Rightarrow>
              if n = 0 then Inr (None, w2)
              else bind_res (await_trap (ij_arch e) w2) (\<lambda>(ok3, w3).
                if \<not> ok3 then Inr (None, w3)
                else case get_regs regs w3 of ((ok4, regs4), w4) \<Rightarrow>
                  if \<not> ok4 then Inr (None, w4)
                  else if regs4 (REG_IP (ij_arch e)) AND NOT 1 \<noteq> break_addr entry_addr AND NOT 1
                  then Inr (None, w4)
                  else case write_remote addr_of_entry_addr (word_bytes entry_addr) w4 of (n5, w5) \<Rightarrow>
                    if n5 = 0 then Inr (None, w5) else Inr (Some (regs4, entry_addr), w5)))"

section \<open>Loading the library\<close>

abbreviation (input) R_OK :: u64 where "R_OK \<equiv> 4"
abbreviation (input) RTLD_NOW :: u64 where "RTLD_NOW \<equiv> 2"

text \<open>The span of the library in the maps: its first address and the sum of its parts.\<close>

definition library_span :: "map_info list \<Rightarrow> u64 \<times> u64" where
  "library_span maps =
     foldl (\<lambda>(start_addr, block_size) m.
         if str_contains (mp_path m) ''libzygisk.so''
         then (if start_addr = 0 then mp_start m else start_addr, block_size + (mp_end m - mp_start m))
         else (start_addr, block_size)) (0, 0) maps"

record landing =
  la_start :: u64
  la_size :: u64
  la_entry :: u64
  la_custom :: bool

definition remote_maps :: "inject_env \<Rightarrow> world \<Rightarrow> map_info list" where
  "remote_maps e w = Scan (ij_maps e w)"

definition env_at :: "inject_env \<Rightarrow> world \<Rightarrow> link_env" where
  "env_at e w = \<lparr> lk_lookup = ij_lookup e, lk_local = Scan (ij_local_maps e), lk_remote = remote_maps e w \<rparr>"

text \<open>The library was loaded by the linker of the process: its \<open>entry\<close> and its span.\<close>

definition by_linker :: "inject_env \<Rightarrow> link_env \<Rightarrow> u64 \<Rightarrow> u64 \<Rightarrow> regs \<Rightarrow> world \<Rightarrow> landing step" where
  "by_linker e E trap remote_handle regs w =
     (let dlsym_addr = env_func E ''libdl.so'' ''dlsym'' in
      if dlsym_addr = 0 then Inr (None, regs, w)
      else case push_string (ij_arch e) ''entry'' regs w of (remote_entry_str, regs1, w1) \<Rightarrow>
        bind_res (remote_call (ij_arch e) dlsym_addr trap [remote_handle, remote_entry_str] regs1 w1)
          (\<lambda>((injector_entry, ok), regs2, w2).
            if \<not> ok \<or> injector_entry = 0 then Inr (None, regs2, w2)
            else case library_span (remote_maps e w2) of (start_addr, block_size) \<Rightarrow>
              Inr (Some \<lparr> la_start = start_addr, la_size = block_size, la_entry = injector_entry,
                          la_custom = False \<rparr>, regs2, w2)))"

text \<open>Why the linker declined, for the log: a call that may fail without consequence.\<close>

definition probe_call ::
  "inject_env \<Rightarrow> link_env \<Rightarrow> string \<Rightarrow> string \<Rightarrow> u64 \<Rightarrow> u64 list \<Rightarrow> regs \<Rightarrow> world \<Rightarrow> u64 step" where
  "probe_call e E module func trap args regs w =
     (let func_addr = env_func E module func in
      if func_addr = 0 then Inr (Some 0, regs, w)
      else bind_res (remote_call (ij_arch e) func_addr trap args regs w)
        (\<lambda>((r, ok), regs1, w1). Inr (Some (if ok then r else 0), regs1, w1)))"

definition diagnose :: "inject_env \<Rightarrow> link_env \<Rightarrow> u64 \<Rightarrow> u64 \<Rightarrow> regs \<Rightarrow> world \<Rightarrow> u64 step" where
  "diagnose e E trap remote_lib_path regs w =
     and_then (probe_call e E ''libc.so'' ''access'' trap [remote_lib_path, R_OK] regs w) (\<lambda>_ regs1 w1.
     and_then (probe_call e E ''libdl.so'' ''dlerror'' trap [] regs1 w1) (\<lambda>dlerror_str_addr regs2 w2.
       if dlerror_str_addr \<noteq> 0 then probe_call e E ''libc.so'' ''strlen'' trap [dlerror_str_addr] regs2 w2
       else Inr (Some 0, regs2, w2)))"

definition by_loader ::
  "inject_env \<Rightarrow> link_env \<Rightarrow> u64 \<Rightarrow> u64 \<Rightarrow> string \<Rightarrow> regs \<Rightarrow> world \<Rightarrow> landing step" where
  "by_loader e E trap remote_lib_path lib_path regs w =
     and_then (diagnose e E trap remote_lib_path regs w) (\<lambda>_ regs1 w1.
     and_then (remote_csoloader_load_and_resolve_entry (ij_arch e) (ij_page_size e)
                 (ij_open e lib_path) E lib_path regs1 w1) (\<lambda>(rc_base, rc_size, rc_entry) regs2 w2.
       Inr (Some \<lparr> la_start = rc_base, la_size = rc_size, la_entry = rc_entry, la_custom = True \<rparr>,
            regs2, w2)))"

definition load_library :: "inject_env \<Rightarrow> string \<Rightarrow> link_env \<Rightarrow> u64 \<Rightarrow> regs \<Rightarrow> world \<Rightarrow> landing step" where
  "load_library e lib_path E trap regs w =
     (let dlopen_addr = env_func E ''libdl.so'' ''dlopen'' in
      if dlopen_addr = 0 then Inr (None, regs, w)
      else case push_string (ij_arch e) lib_path regs w of (remote_lib_path, regs1, w1) \<Rightarrow>
        if remote_lib_path = 0 then Inr (None, regs1, w1)
        else bind_res (remote_call (ij_arch e) dlopen_addr trap [remote_lib_path, RTLD_NOW] regs1 w1)
          (\<lambda>((remote_handle, ok), regs2, w2).
            if \<not> ok then Inr (None, regs2, w2)
            else if remote_handle \<noteq> 0 then by_linker e E trap remote_handle regs2 w2
            else by_loader e E trap remote_lib_path lib_path regs2 w2))"

text \<open>The call of the library's \<open>entry\<close> with its span, the module directory and how it was loaded.\<close>

definition call_entry :: "inject_env \<Rightarrow> u64 \<Rightarrow> landing \<Rightarrow> regs \<Rightarrow> world \<Rightarrow> unit step" where
  "call_entry e trap l regs w =
     (case push_string (ij_arch e) (ij_tmp_path e) regs w of (remote_tmp_path, regs1, w1) \<Rightarrow>
        bind_res (remote_call (ij_arch e) (la_entry l) trap
            [la_start l, la_size l, remote_tmp_path, if la_custom l then 1 else 0] regs1 w1)
          (\<lambda>((_, entry_succeeded), regs2, w2).
            Inr (if entry_succeeded then Some () else None, regs2, w2)))"

definition clear_btype :: "arch \<Rightarrow> regs \<Rightarrow> regs" where
  "clear_btype a regs =
     (case a of Aarch64 \<Rightarrow> regs(Pstate := regs Pstate AND NOT (push_bit 10 3)) | X86_64 \<Rightarrow> regs)"

text \<open>What is done at the entry point, with the registers \<open>regs\<close> of the trap.\<close>

definition run_injection :: "inject_env \<Rightarrow> string \<Rightarrow> regs \<Rightarrow> world \<Rightarrow> unit step" where
  "run_injection e lib_path regs w =
     (let E = env_at e w;
          trap = find_module_return_addr (lk_remote E) ''libc.so''
      in if trap = 0 then Inr (None, regs, w)
         else and_then (load_library e lib_path E trap regs w) (\<lambda>l regs1 w1.
                call_entry e trap l regs1 w1))"

definition inject_on_main :: "inject_env \<Rightarrow> string \<Rightarrow> world \<Rightarrow> (bool \<times> world) run" where
  "inject_on_main e lib_path w =
     bind_res (intercept e w) (\<lambda>(r, w1).
       case r of None \<Rightarrow> Inr (False, w1)
       | Some (regs, entry_addr) \<Rightarrow>
           let backup = regs(REG_IP (ij_arch e) := entry_addr) in
           bind_res (run_injection e lib_path (clear_btype (ij_arch e) regs) w1) (\<lambda>(injected, _, w2).
             case set_regs backup w2 of (ok, w3) \<Rightarrow> Inr (injected \<noteq> None \<and> ok, w3)))"

section \<open>Attaching and detaching\<close>

definition STOPPED_WITH :: "int \<Rightarrow> int \<Rightarrow> int \<Rightarrow> bool" where
  "STOPPED_WITH status sig event \<longleftrightarrow>
     WIFSTOPPED status \<and> WSTOPSIG status = sig \<and> WPTEVENT status = event"

text \<open>The status, or \<open>None\<close> when \<open>waitpid\<close> fails, also by an interruption.\<close>

definition wait_for_process :: "world \<Rightarrow> (int option \<times> world) run" where
  "wait_for_process w =
     (case wd_script w of
        [] \<Rightarrow> Inl Blocked
      | Stops status f # es \<Rightarrow>
          Inr (Some status, w\<lparr> wd_tracee := f (wd_tracee w), wd_script := es \<rparr>)
      | _ # es \<Rightarrow> Inr (None, w\<lparr> wd_script := es \<rparr>))"

definition perform_injection :: "inject_env \<Rightarrow> world \<Rightarrow> (bool \<times> world) run" where
  "perform_injection e w = inject_on_main e (ij_tmp_path e @ ''/lib64/libzygisk.so'') w"

definition bail_and_detach :: "int \<Rightarrow> world \<Rightarrow> (bool \<times> world) run" where
  "bail_and_detach sig w = Inr (False, snd (ask (Req_detach sig) w))"

definition detach_with_gki_workaround :: "int \<Rightarrow> world \<Rightarrow> (bool \<times> world) run" where
  "detach_with_gki_workaround sig w =
     (case ask Req_syscall w of (ok, w1) \<Rightarrow>
        if \<not> ok then bail_and_detach sig w1
        else bind_res (wait_for_process w1) (\<lambda>(s, w2).
          if s = None then bail_and_detach sig w2 else Inr (ask (Req_detach sig) w2)))"

text \<open>After the injection the process gets a \<open>SIGCONT\<close>, whose two stops are waited for.\<close>

definition continue_and_detach :: "world \<Rightarrow> (bool \<times> world) run" where
  "continue_and_detach w =
     (case ask (Req_kill SIGCONT) w of (ok1, w1) \<Rightarrow>
        if \<not> ok1 then bail_and_detach 0 w1
        else case ask (Req_cont 0) w1 of (ok2, w2) \<Rightarrow>
          if \<not> ok2 then bail_and_detach 0 w2
          else bind_res (wait_for_process w2) (\<lambda>(s3, w3).
            case s3 of None \<Rightarrow> Inr (False, w3) | Some st3 \<Rightarrow>
            if \<not> STOPPED_WITH st3 SIGTRAP PTRACE_EVENT_STOP then bail_and_detach 0 w3
            else case ask (Req_cont 0) w3 of (ok4, w4) \<Rightarrow>
              if \<not> ok4 then bail_and_detach 0 w4
              else bind_res (wait_for_process w4) (\<lambda>(s5, w5).
                case s5 of None \<Rightarrow> Inr (False, w5) | Some st5 \<Rightarrow>
                if STOPPED_WITH st5 SIGCONT 0 then detach_with_gki_workaround SIGCONT w5
                else bail_and_detach 0 w5)))"

text \<open>The result, and whether it was the request to seize that failed.\<close>

definition trace_with_seize :: "inject_env \<Rightarrow> world \<Rightarrow> ((bool \<times> bool) \<times> world) run" where
  "trace_with_seize e w =
     (case ask Req_seize w of (ok, w1) \<Rightarrow>
        if \<not> ok then Inr ((False, True), w1)
        else bind_res
          (bind_res (wait_for_process w1) (\<lambda>(s, w2).
            case s of None \<Rightarrow> Inr (False, w2) | Some status \<Rightarrow>
            if \<not> STOPPED_WITH status SIGSTOP PTRACE_EVENT_STOP then bail_and_detach 0 w2
            else bind_res (perform_injection e w2) (\<lambda>(injected, w3).
              if \<not> injected then bail_and_detach 0 w3 else continue_and_detach w3)))
          (\<lambda>(r, w4). Inr ((r, False), w4)))"

definition trace_with_attach :: "inject_env \<Rightarrow> world \<Rightarrow> (bool \<times> world) run" where
  "trace_with_attach e w =
     (case ask Req_attach w of (ok, w1) \<Rightarrow>
        if \<not> ok then Inr (False, w1)
        else bind_res (wait_for_process w1) (\<lambda>(s, w2).
          case s of None \<Rightarrow> bail_and_detach 0 w2 | Some status \<Rightarrow>
          if WIFSTOPPED status \<and> WSTOPSIG status = SIGSTOP then
            bind_res (perform_injection e (snd (ask Req_setoptions w2))) (\<lambda>(injected, w3).
              if \<not> injected then bail_and_detach 0 w3 else detach_with_gki_workaround SIGCONT w3)
          else bail_and_detach 0 w2))"

text \<open>\<open>seize_errno\<close> is the error of the request to seize, when it fails.\<close>

definition trace_zygote :: "inject_env \<Rightarrow> int \<Rightarrow> world \<Rightarrow> (bool \<times> world) run" where
  "trace_zygote e seize_errno w =
     bind_res (trace_with_seize e w) (\<lambda>((ok, seize_syscall_failed), w1).
       if ok then Inr (True, w1)
       else if \<not> seize_syscall_failed then Inr (False, w1)
       else if seize_errno = EIO then trace_with_attach e w1
       else Inr (False, w1))"

end
