(* ===== verification/Cso_Image_Properties.thy ===== *)
theory Cso_Image_Properties
  imports Cso_Image
begin

text \<open>
  What the reading half of the remote loader promises: reads are exact whatever the kernel
  delivers at a time, the span holds every segment, the walk for the last symbol ends, and
  a symbol found is a defined one of that name.
\<close>

section \<open>Reading\<close>

definition fair_read :: "pread_event \<Rightarrow> bool" where
  "fair_read e \<longleftrightarrow> (case e of Pread_interrupted \<Rightarrow> True | Pread_failed \<Rightarrow> False | Pread_at_most n \<Rightarrow> 0 < n)"

lemma take_grow:
  "take d (drop off img) @ take m (drop (off + d) img) =
     take (d + length (take m (drop (off + d) img))) (drop off img)"
proof -
  have "take (length (take m ys)) ys = take m ys" for ys :: "'a list"
    by (simp add: min_def)
  from this [of "drop (off + d) img"] show ?thesis
    by (simp only: take_add drop_drop add.commute [of off])
qed

lemma pread_loop_exact:
  "list_all fair_read es \<Longrightarrow> d \<le> len \<Longrightarrow> off + d \<le> length img \<or> d = 0 \<Longrightarrow>
     pread_loop img off len (take d (drop off img)) es =
       (if d = len then Some (take d (drop off img))
        else if off + len \<le> length img then Some (take len (drop off img)) else None)"
proof (induction es arbitrary: d)
  case Nil
  have l: "length (take d (drop off img)) = d" using Nil(3) by auto
  have g: "take d (drop off img) @ take (len - d) (drop (off + d) img) = take len (drop off img)"
    using take_add [of d "len - d" "drop off img"] Nil(2) by (simp add: add.commute)
  have k: "length (take (len - d) (drop (off + d) img)) = min (len - d) (length img - (off + d))" by simp
  have "d + min (len - d) (length img - (off + d)) < len \<longleftrightarrow> d < len \<and> \<not> off + len \<le> length img"
    using Nil(2,3) by (auto simp: min_def)
  then show ?case using Nil(2) by (simp only: pread_loop.simps Let_def l g k) auto
next
  case (Cons e es)
  have l: "length (take d (drop off img)) = d" using Cons.prems(3) by auto
  show ?case
  proof (cases "d < len")
    case False
    with l Cons.prems(2) show ?thesis by (simp del: length_take)
  next
    case True
    show ?thesis
    proof (cases e)
      case Pread_interrupted
      with Cons True l show ?thesis by (simp del: length_take)
    next
      case Pread_failed
      with Cons.prems(1) show ?thesis by (simp add: fair_read_def)
    next
      case (Pread_at_most n)
      let ?got = "take (min n (len - d)) (drop (off + d) img)"
      have n: "0 < n" using Cons.prems(1) Pread_at_most by (simp add: fair_read_def)
      have step: "pread_loop img off len (take d (drop off img)) (e # es) =
          (if ?got = [] then None
           else pread_loop img off len (take (d + length ?got) (drop off img)) es)"
        using True Pread_at_most by (simp only: pread_loop.simps l pread_event.case Let_def take_grow if_True)
      show ?thesis
      proof (cases "?got = []")
        case True
        then have "\<not> off + len \<le> length img" using n \<open>d < len\<close> by auto
        with True \<open>d < len\<close> show ?thesis by (simp only: step) simp
      next
        case False
        have "d + length ?got \<le> len" "off + (d + length ?got) \<le> length img"
          "length ?got \<noteq> 0" using True False by auto
        then have "pread_loop img off len (take (d + length ?got) (drop off img)) es =
            (if d + length ?got = len then Some (take (d + length ?got) (drop off img))
             else if off + len \<le> length img then Some (take len (drop off img)) else None)"
          using Cons.prems(1) by (intro Cons.IH) (simp_all del: length_take)
        with False True \<open>off + (d + length ?got) \<le> length img\<close> show ?thesis
          by (simp only: step if_False) (auto simp del: length_take)
      qed
    qed
  qed
qed

text \<open>
  whatever the kernel delivers at a time and however often it is interrupted, reading the
  library gives exactly the bytes asked for when the file has them, and fails otherwise.
\<close>

theorem pread_full_exact:
  assumes "list_all fair_read es"
  shows "pread_full img es off n = disk_file img off n"
  using pread_loop_exact [OF assms, of 0 n "unat off" img]
  by (simp add: pread_full_def disk_file_def)

lemma pread_full_exact_witness:
  "pread_full [1, 2, 3, 4] [Pread_at_most 1, Pread_interrupted, Pread_at_most 1] 1 3 = Some [2, 3, 4]"
  by (subst pread_full_exact) (simp_all add: fair_read_def disk_file_def)

section \<open>The span of the segments\<close>

definition loadable :: "phdr \<Rightarrow> bool" where
  "loadable p \<longleftrightarrow> ph_type p = PHT_LOAD"

lemma load_span_bounds:
  "load_span phs (lo0, hi0) = (lo, hi) \<Longrightarrow>
     lo \<le> lo0 \<and> hi0 \<le> hi \<and>
     (\<forall>p\<in>set phs. loadable p \<longrightarrow> lo \<le> ph_vaddr p \<and> ph_vaddr p + ph_memsz p \<le> hi) \<and>
     (hi = hi0 \<or> (\<exists>p\<in>set phs. loadable p \<and> hi = ph_vaddr p + ph_memsz p))"
proof (induction phs arbitrary: lo0 hi0)
  case (Cons p phs)
  show ?case
  proof (cases "loadable p")
    case False
    with Cons show ?thesis by (auto simp: loadable_def)
  next
    case True
    let ?lo = "if ph_vaddr p < lo0 then ph_vaddr p else lo0"
    let ?hi = "if hi0 < ph_vaddr p + ph_memsz p then ph_vaddr p + ph_memsz p else hi0"
    have "load_span phs (?lo, ?hi) = (lo, hi)"
      using Cons.prems True by (simp add: loadable_def Let_def)
    note i = Cons.IH [OF this]
    have "?lo \<le> lo0" "?lo \<le> ph_vaddr p" "hi0 \<le> ?hi" "ph_vaddr p + ph_memsz p \<le> ?hi" by auto
    with i True show ?thesis by (auto intro: order_trans split: if_splits)
  qed
qed simp

text \<open>A segment whose end can be rounded up to a page without overflow.\<close>

definition segment_fits :: "nat \<Rightarrow> phdr \<Rightarrow> bool" where
  "segment_fits k p \<longleftrightarrow> (loadable p \<longrightarrow> unat (ph_vaddr p) + unat (ph_memsz p) + 2 ^ k \<le> 2 ^ 64)"

lemma segment_end:
  "segment_fits k p \<Longrightarrow> loadable p \<Longrightarrow> unat (ph_vaddr p + ph_memsz p) = unat (ph_vaddr p) + unat (ph_memsz p)"
proof -
  assume "segment_fits k p" "loadable p"
  moreover have "(0::nat) < 2 ^ k" by simp
  ultimately have "unat (ph_vaddr p) + unat (ph_memsz p) < 2 ^ 64"
    unfolding segment_fits_def by linarith
  then show ?thesis by (simp add: unat_plus_simple [THEN iffD1] no_olen_add_nat)
qed

lemma rounding: "k < 64 \<Longrightarrow> page_rounding (2 ^ k) (page_start (2 ^ k)) (page_end (2 ^ k))"
  using unat_page_start [of k] unat_page_end [of k] by unfold_locales simp_all

text \<open>
  C30: the reserved span starts and ends on page boundaries, does not wrap, and holds the whole
  page range of every loadable segment.
\<close>

theorem load_layout_covers:
  assumes "compute_load_layout f (2 ^ k) = Some (eh, phs, lo, span)" "k < 64"
    and "list_all (segment_fits k) phs"
  shows "2 ^ k dvd unat lo \<and> 2 ^ k dvd unat span \<and> 0 < unat span \<and> unat lo + unat span < 2 ^ 64 \<and>
     list_all (\<lambda>p. \<not> loadable p \<or>
       unat lo \<le> unat (page_start (2 ^ k) (ph_vaddr p)) \<and>
       unat (page_end (2 ^ k) (ph_vaddr p + ph_memsz p)) \<le> unat lo + unat span) phs"
proof -
  obtain lo0 hi0 where sp: "load_span phs (- 1, 0) = (lo0, hi0)" and lt: "lo0 < hi0"
    and lo: "lo = page_start (2 ^ k) lo0" and span: "span = page_end (2 ^ k) hi0 - lo"
    using assms(1) by (auto simp: compute_load_layout_def Let_def split: option.splits prod.splits if_splits)
  note b = load_span_bounds [OF sp]
  have all: "loadable p \<Longrightarrow> p \<in> set phs \<Longrightarrow> segment_fits k p" for p
    using assms(3) by (simp add: list_all_iff)
  from b lt obtain q where q: "q \<in> set phs" "loadable q" "hi0 = ph_vaddr q + ph_memsz q" by auto
  have hi: "unat hi0 + 2 ^ k \<le> 2 ^ 64"
    using all [OF q(2,1)] q(2) segment_end [of k q] by (simp add: q(3) segment_fits_def)
  have pos: "(0::nat) < 2 ^ k" by simp
  note R = rounding [OF assms(2)]
  let ?hi = "page_end (2 ^ k) hi0"
  have l1: "unat lo \<le> unat lo0" and l2: "2 ^ k dvd unat lo"
    unfolding lo using page_rounding.down_le [OF R] page_rounding.down_aligned [OF R] by blast+
  have h1: "unat hi0 \<le> unat ?hi" and h2: "2 ^ k dvd unat ?hi" and h3: "unat ?hi < 2 ^ 64"
    using page_rounding.up_ge [OF R hi] page_rounding.up_aligned [OF R hi]
      unsigned_less [of ?hi, where ?'a = nat] by simp_all
  have ll: "unat lo0 < unat hi0" using lt by (simp add: word_less_nat_alt)
  have sz: "unat span = unat ?hi - unat lo"
    unfolding span using l1 ll h1 by (subst unat_sub) (simp_all add: word_le_nat_alt)
  have "unat lo \<le> unat (page_start (2 ^ k) (ph_vaddr p)) \<and>
      unat (page_end (2 ^ k) (ph_vaddr p + ph_memsz p)) \<le> unat ?hi"
    if p: "p \<in> set phs" "loadable p" for p
  proof
    have "unat lo0 \<le> unat (ph_vaddr p)" using b p by (auto simp: word_le_nat_alt)
    then show "unat lo \<le> unat (page_start (2 ^ k) (ph_vaddr p))"
      unfolding lo unat_page_start [OF assms(2)] by (intro mult_le_mono1 div_le_mono)
    have "unat (ph_vaddr p + ph_memsz p) \<le> unat hi0" using b p by (auto simp: word_le_nat_alt)
    then show "unat (page_end (2 ^ k) (ph_vaddr p + ph_memsz p)) \<le> unat ?hi"
      by (rule page_rounding.up_mono [OF R _ hi])
  qed
  then have "list_all (\<lambda>p. \<not> loadable p \<or>
       unat lo \<le> unat (page_start (2 ^ k) (ph_vaddr p)) \<and>
       unat (page_end (2 ^ k) (ph_vaddr p + ph_memsz p)) \<le> unat lo + unat span) phs"
    using sz l1 ll h1 by (auto simp: list_all_iff)
  then show ?thesis using sz l1 l2 ll h1 h2 h3 by (simp add: dvd_diff_nat)
qed

definition sample_segment :: phdr where
  "sample_segment = \<lparr> ph_type = 1, ph_flags = 5, ph_offset = 0, ph_vaddr = 0x1010, ph_filesz = 0x20,
                      ph_memsz = 0x2000 \<rparr>"

text \<open>A file of one loadable segment of the addresses 0x10 to 0x30.\<close>

definition sample_elf :: "u8 list" where
  "sample_elf =
     [0x7F, 0x45, 0x4C, 0x46] @ replicate 28 0 @ [64] @ replicate 23 0 @ [1] @ replicate 7 0 @
     [1, 0, 0, 0, 5, 0, 0, 0] @ replicate 8 0 @ [0x10] @ replicate 15 0 @ [0x20] @ replicate 7 0 @
     [0x20] @ replicate 15 0"

lemma load_layout_covers_witness:
  "\<exists>eh phs lo span. compute_load_layout (disk_file sample_elf) (2 ^ 12) = Some (eh, phs, lo, span) \<and>
     length phs = 1 \<and> 0 < unat span"
proof -
  have "case compute_load_layout (disk_file sample_elf) (2 ^ 12) of None \<Rightarrow> False
      | Some (eh, phs, lo, span) \<Rightarrow> phs = [\<lparr> ph_type = 1, ph_flags = 5, ph_offset = 0, ph_vaddr = 0x10,
          ph_filesz = 0x20, ph_memsz = 0x20 \<rparr>]" by code_simp
  then obtain eh phs lo span where
    e: "compute_load_layout (disk_file sample_elf) (2 ^ 12) = Some (eh, phs, lo, span)" and
    p: "phs = [\<lparr> ph_type = 1, ph_flags = 5, ph_offset = 0, ph_vaddr = 0x10,
          ph_filesz = 0x20, ph_memsz = 0x20 \<rparr>]"
    by (auto split: option.splits)
  have "list_all (segment_fits 12) phs" by (simp add: p segment_fits_def)
  from load_layout_covers [OF e _ this] e p show ?thesis by simp
qed

section \<open>The number of symbols\<close>

lemma unat_ucast_u64: "unat (ucast (y :: u32) :: u64) = unat y"
proof -
  have "unat y < 2 ^ 32" using unsigned_less [of y, where ?'a = nat] by simp
  then have "unat y < 2 ^ 64" by simp
  then show ?thesis by (simp only: unsigned_ucast_eq) (simp add: take_bit_nat_eq_self)
qed

lemma unat_add_le: "unat (x + y :: u64) \<le> unat x + unat y"
  by (simp add: unat_word_ariths(1))

lemma unat_mult_le: "unat (x * y :: u64) \<le> unat x * unat y"
  by (simp add: unat_word_ariths(2))

lemma chain_walk_step:
  assumes "length img < 2 ^ 32" "unat off + 2 ^ 32 \<le> 2 ^ 64"
    and "disk_file img (off + ucast (idx * 4)) 4 = Some bs"
  shows "unat ((idx + 1) * 4 :: u32) = unat (idx * 4) + 4"
proof -
  have i: "unat (idx * 4) < 2 ^ 32" using unsigned_less [of "idx * 4", where ?'a = nat] by simp
  have u: "unat (ucast (idx * 4) :: u64) = unat (idx * 4)"
    by (rule unat_ucast_u64)
  have "unat off + unat (ucast (idx * 4) :: u64) < 2 ^ LENGTH(64)" using assms(2) i u by simp
  then have "unat (off + ucast (idx * 4)) = unat off + unat (idx * 4)"
    using no_olen_add_nat unat_plus_simple u by metis
  with assms(1,3) have "unat (idx * 4) + 4 < 2 ^ 32" by (auto simp: disk_file_def split: if_splits)
  then have "unat (idx * 4 + 4) = unat (idx * 4) + unat (4 :: u32)"
    by (subst unat_plus_simple [THEN iffD1]) (simp_all add: no_olen_add_nat)
  then show ?thesis by (simp add: distrib_right)
qed

lemma chain_walk_ends:
  assumes "length img < 2 ^ 32" "unat off + 2 ^ 32 \<le> 2 ^ 64"
  shows "\<exists>n. chain_walk (disk_file img) off idx mx = Some n"
proof (induction "2 ^ 32 - unat (idx * 4)" arbitrary: idx mx rule: less_induct)
  case less
  have i: "unat (idx * 4) < 2 ^ 32" using unsigned_less [of "idx * 4", where ?'a = nat] by simp
  show ?case
  proof (cases "disk_file img (off + ucast (idx * 4)) 4")
    case None
    then show ?thesis by (subst chain_walk.simps) simp
  next
    case (Some bs)
    then have "2 ^ 32 - unat ((idx + 1) * 4) < 2 ^ 32 - unat (idx * 4)"
      using chain_walk_step [OF assms Some] i by linarith
    from less [OF this] Some show ?thesis by (subst chain_walk.simps) auto
  qed
qed

text \<open>
  C31: reading the dynamic section ends for every file shorter than 4 GiB, whatever its hash table
  says: the walk along the last chain cannot outrun the file.
\<close>

theorem dyn_info_terminates:
  assumes "length img < 2 ^ 32"
  shows "elf_load_dyn_info (disk_file img) phs \<noteq> None"
proof -
  have gnu: "gnu_symbol_count (disk_file img) phs v \<noteq> None" for v
  proof (cases "v = 0 \<or> vaddr_to_offset phs v = None")
    case True
    then show ?thesis by (auto simp: gnu_symbol_count_def)
  next
    case False
    then obtain off where off: "vaddr_to_offset phs v = Some off" by auto
    show ?thesis
    proof (cases "disk_file img off 16")
      case None
      with off False show ?thesis by (simp add: gnu_symbol_count_def)
    next
      case (Some h)
      let ?nb = "of_nat (fld h 0 4) :: u32" and ?bl = "of_nat (fld h 8 4) :: u32"
      let ?off = "off + 16 + ucast ?bl * 8 + ucast (?nb * 4) :: u64"
      have o: "unat off < 2 ^ 32" using Some assms by (auto simp: disk_file_def split: if_splits)
      have x: "unat (ucast (y :: u32) :: u64) < 2 ^ 32" for y
        using unsigned_less [of y, where ?'a = nat] by (simp add: unat_ucast_u64)
      have "unat ?off \<le> unat off + 16 + unat (ucast ?bl :: u64) * 8 + unat (ucast (?nb * 4) :: u64)"
        using unat_add_le [of "off + 16 + ucast ?bl * 8" "ucast (?nb * 4)"]
          unat_add_le [of "off + 16" "ucast ?bl * 8"] unat_add_le [of off 16]
          unat_mult_le [of "ucast ?bl" 8] by simp
      then have "unat ?off + 2 ^ 32 \<le> 2 ^ 64" using o x [of ?bl] x [of "?nb * 4"] by simp
      from chain_walk_ends [OF assms this] off False Some show ?thesis
        by (auto simp: gnu_symbol_count_def Let_def)
    qed
  qed
  then show ?thesis
    by (auto simp: elf_load_dyn_info_def dyn_info_of_def Let_def split: option.splits prod.splits)
qed

lemma dyn_info_terminates_witness: "elf_load_dyn_info (disk_file sample_elf) [] \<noteq> None"
  by (rule dyn_info_terminates) (simp add: sample_elf_def)

section \<open>Symbols\<close>

text \<open>The symbol \<open>i\<close> is a definition of \<open>nm\<close>.\<close>

definition is_definition :: "elf_file \<Rightarrow> dyn_info \<Rightarrow> string \<Rightarrow> u64 \<Rightarrow> bool" where
  "is_definition f d nm i \<longleftrightarrow>
     (case sym_at f d i of None \<Rightarrow> False
      | Some sy \<Rightarrow> sy_name sy \<noteq> 0 \<and> sy_name sy < unat (di_strsz d) \<and> name_at d (sy_name sy) = nm \<and>
                   sy_shndx sy \<noteq> 0)"

lemma dynsym_loop_exact:
  "dynsym_loop f d nm n i = Some v \<longleftrightarrow>
     (\<exists>k<n. (is_definition f d nm (i + of_nat k) \<and> map_option sy_value (sym_at f d (i + of_nat k)) = Some v) \<and>
        (\<forall>j<k. sym_at f d (i + of_nat j) \<noteq> None \<and> \<not> is_definition f d nm (i + of_nat j)))"
proof (induction n arbitrary: i)
  case (Suc n)
  have split: "(\<exists>k<Suc n. P k \<and> (\<forall>j<k. Q j)) \<longleftrightarrow> P 0 \<or> Q 0 \<and> (\<exists>k<n. P (Suc k) \<and> (\<forall>j<k. Q (Suc j)))"
    for P Q :: "nat \<Rightarrow> bool"
    by (subst Ex_less_Suc2, subst All_less_Suc2) auto
  show ?case
  proof (cases "sym_at f d i")
    case None
    then show ?thesis unfolding split by (simp add: is_definition_def)
  next
    case (Some sy)
    have "dynsym_loop f d nm (Suc n) i =
        (if is_definition f d nm i then Some (sy_value sy) else dynsym_loop f d nm n (i + 1))"
      using Some by (auto simp: is_definition_def not_le)
    then show ?thesis
      using Some Suc.IH [of "i + 1"] unfolding split by (auto simp: add.assoc)
  qed
qed simp

text \<open>
  the lookup of a symbol finds the first entry of the table that defines the name, provided
  every entry before it can be read, and nothing else.
\<close>

theorem find_dynsym_value_exact:
  "find_dynsym_value f d nm = Some v \<longleftrightarrow>
     (\<exists>k<unat (di_nsyms d). is_definition f d nm (of_nat k) \<and>
        map_option sy_value (sym_at f d (of_nat k)) = Some v \<and>
        (\<forall>j<k. sym_at f d (of_nat j) \<noteq> None \<and> \<not> is_definition f d nm (of_nat j)))"
  using dynsym_loop_exact [of f d nm "unat (di_nsyms d)" 0 v] by (simp add: find_dynsym_value_def)

text \<open>An address of a segment's file part is read from the file at the offset the tables give.\<close>

lemma vaddr_to_offset_sound:
  "vaddr_to_offset phs v = Some off \<Longrightarrow>
     \<exists>p\<in>set phs. loadable p \<and> ph_vaddr p \<le> v \<and> v < ph_vaddr p + ph_filesz p \<and>
       off - ph_offset p = v - ph_vaddr p"
  by (induction phs v rule: vaddr_to_offset.induct) (auto simp: loadable_def not_le not_less split: if_splits)

end
