(* ===== verification/Csoloader_Properties.thy ===== *)
theory Csoloader_Properties
  imports Csoloader Cso_Image_Properties Remote_Properties
begin

text \<open>
  What the remote loader promises: its mappings stay inside the span it reserved, relocation
  writes exactly the words the table asks for, the tracee's registers are the same before and
  after whatever goes wrong, and the entry handed over is the defined symbol.  An interface
  gathers what the loader relies on of a system call in the tracee.
\<close>

section \<open>Registers are kept\<close>

text \<open>A step that ends with the registers \<open>saved\<close>, in the tracee and in the copy.\<close>

definition keeps :: "regs \<Rightarrow> 'a step \<Rightarrow> bool" where
  "keeps saved m \<longleftrightarrow>
     (\<forall>r regs' w'. m = Inr (r, regs', w') \<longrightarrow>
        regs' = saved \<and> tr_regs (wd_tracee w') = saved \<and> obliging w')"

definition at_rest :: "regs \<Rightarrow> world \<Rightarrow> bool" where
  "at_rest saved w \<longleftrightarrow> obliging w \<and> tr_regs (wd_tracee w) = saved"

lemma keeps_return: "at_rest s w \<Longrightarrow> keeps s (Inr (r, s, w))"
  by (simp add: keeps_def at_rest_def)

lemma keeps_and_then:
  assumes "keeps s m" "\<And>x w. at_rest s w \<Longrightarrow> keeps s (k x s w)"
  shows "keeps s (and_then m k)"
proof (unfold keeps_def, intro allI impI)
  fix r regs' w'
  assume "and_then m k = Inr (r, regs', w')"
  then obtain x r1 w1 where m: "m = Inr (x, r1, w1)"
    and k: "(case x of None \<Rightarrow> Inr (None, r1, w1) | Some y \<Rightarrow> k y r1 w1) = Inr (r, regs', w')"
    by (auto simp: and_then_def)
  from assms(1) m have s: "r1 = s" "tr_regs (wd_tracee w1) = s" "obliging w1"
    unfolding keeps_def by blast+
  then have "at_rest s w1" by (simp add: at_rest_def)
  then show "regs' = s \<and> tr_regs (wd_tracee w') = s \<and> obliging w'"
    using k s assms(2) [of w1] unfolding keeps_def by (cases x) auto
qed

text \<open>What a client relies on: a call leaves an obliging tracee with its registers.\<close>

locale syscall_port =
  fixes sys :: "sysnr \<Rightarrow> u64 list \<Rightarrow> regs \<Rightarrow> world \<Rightarrow> (u64 \<times> regs \<times> world) run"
  assumes transparent:
    "obliging w \<Longrightarrow> sys nr args regs w = Inr (r, regs', w') \<Longrightarrow>
       regs' = tr_regs (wd_tracee w) \<and> tr_regs (wd_tracee w') = tr_regs (wd_tracee w) \<and> obliging w'"
begin

lemma keeps_call:
  assumes "at_rest s w" "\<And>r w'. at_rest s w' \<Longrightarrow> keeps s (k (r, s, w'))"
  shows "keeps s (bind_res (sys nr args regs w) k)"
proof -
  have "keeps s (k (r, regs', w'))" if "sys nr args regs w = Inr (r, regs', w')" for r regs' w'
    using transparent [OF _ that] assms by (auto simp: at_rest_def)
  then show ?thesis by (auto simp: keeps_def)
qed

lemma keeps_give_up:
  "at_rest s w \<Longrightarrow> keeps s (bind_res (sys nr args regs w) (\<lambda>(_, r, v). Inr (None, r, v)))"
  by (rule keeps_call) (simp_all add: keeps_return)

end

interpretation port: syscall_port "remote L" for L
  using remote_syscall_transparent by unfold_locales (unfold remote_def, blast)

lemma keeps_fail_after: "at_rest s w \<Longrightarrow> keeps s (fail_after L nr args regs w)"
  unfolding fail_after_def by (rule port.keeps_give_up)

lemma write_remote_at_rest: "at_rest s w \<Longrightarrow> at_rest s (snd (write_remote a bs w))"
proof -
  assume r: "at_rest s w"
  obtain n t where wp: "write_proc (wd_tracee w) a bs = (n, t)" by fastforce
  show ?thesis using write_proc_frame [OF wp] r by (simp add: write_remote_def wp at_rest_def)
qed

lemma keeps_write:
  assumes "at_rest s w" "\<And>n w'. at_rest s w' \<Longrightarrow> keeps s (k n w')"
  shows "keeps s (case write_remote a bs w of (n, w') \<Rightarrow> k n w')"
proof -
  obtain n w1 where wr: "write_remote a bs w = (n, w1)" by fastforce
  show ?thesis
    using assms(2) [of w1 n] write_remote_at_rest [OF assms(1), of a bs] by (simp add: wr)
qed

lemma keeps_if: "(b \<Longrightarrow> keeps s m) \<Longrightarrow> (\<not> b \<Longrightarrow> keeps s m') \<Longrightarrow> keeps s (if b then m else m')"
  by simp

lemma keeps_open_remote: "at_rest s w \<Longrightarrow> keeps s (open_remote L s w)"
proof -
  assume a: "at_rest s w"
  let ?path = "c_string (ld_path L)"
  let ?rp = "s (REG_SP (ld_arch L)) - of_nat (align16 (length ?path))"
  obtain n w1 where wr: "write_remote ?rp ?path w = (n, w1)" by fastforce
  have a1: "at_rest s w1" using write_remote_at_rest [OF a, of ?rp ?path] wr by simp
  show ?thesis
    unfolding open_remote_def Let_def wr prod.case
    by (rule keeps_if, rule keeps_return [OF a1], rule port.keeps_call [OF a1], unfold prod.case,
        rule keeps_if) (simp_all add: keeps_return write_remote_at_rest)
qed

lemma keeps_reserve_span: "at_rest s w \<Longrightarrow> keeps s (reserve_span L span fd s w)"
  unfolding reserve_span_def
  by (rule port.keeps_call) (auto intro!: keeps_fail_after port.keeps_call keeps_return)

lemma keeps_map_file_part: "at_rest s w \<Longrightarrow> keeps s (map_file_part L fd p l s w)"
proof -
  assume a: "at_rest s w"
  show ?thesis
    unfolding map_file_part_def Let_def
    apply (rule keeps_if, rule keeps_return [OF a], rule port.keeps_call [OF a], unfold prod.case)
    apply (rule keeps_if, erule keeps_fail_after, rule keeps_if)
     apply (erule keeps_write)
     apply (rule keeps_if, erule keeps_fail_after, erule keeps_return)
    apply (erule keeps_return)
    done
qed

lemma keeps_map_bss_part: "at_rest s w \<Longrightarrow> keeps s (map_bss_part L fd l s w)"
  unfolding map_bss_part_def
  by (auto intro!: port.keeps_call keeps_fail_after keeps_return)

lemma keeps_map_segments: "at_rest s w \<Longrightarrow> keeps s (map_segments L fd bias phs segs s w)"
proof (induction phs arbitrary: segs w)
  case (Cons p phs)
  then show ?case
    by (auto simp: Let_def intro!: keeps_and_then keeps_map_file_part keeps_map_bss_part)
qed (simp add: keeps_return)

lemma apply_rela_at_rest:
  "at_rest s w \<Longrightarrow> at_rest s (snd (apply_rela_loop a f rsv bias off n i w))"
proof (induction a f rsv bias off n i w rule: apply_rela_loop.induct)
  case (2 a f rsv bias off n i w)
  show ?case
  proof (cases "f (off + of_nat (i * 24)) 24")
    case None
    with 2 show ?thesis by simp
  next
    case (Some b)
    show ?thesis
    proof (cases "rela_value a rsv bias (decode_rela b)")
      case None
      with 2(2) show ?thesis unfolding apply_rela_loop.simps Some option.case Let_def None by simp
    next
      case v: (Some v)
      obtain ok w1 where wr: "write_remote_addr (bias + rl_offset (decode_rela b)) v w = (ok, w1)"
        by fastforce
      have "at_rest s w1"
        using write_remote_at_rest [OF "2.prems", of "bias + rl_offset (decode_rela b)" "word_bytes v"] wr
        by (auto simp: write_remote_addr_def split: prod.splits)
      with "2.IH" [OF Some refl v wr [symmetric]] show ?thesis
        unfolding apply_rela_loop.simps Some option.case Let_def v wr prod.case
        using \<open>at_rest s w1\<close> by (cases ok) simp_all
    qed
  qed
qed simp

lemma apply_relocations_at_rest:
  assumes "at_rest s w"
  shows "at_rest s (snd (apply_relocations a f d E needed bias w))"
proof -
  have sec: "at_rest s v \<Longrightarrow> at_rest s (snd (apply_rela_section a f d E needed bias off sz v))" for v off sz
    unfolding apply_rela_section_def by (rule apply_rela_at_rest)
  obtain ok1 w1 where r1: "(if di_rela_sz d \<noteq> 0 \<and> di_rela_off d \<noteq> 0
      then apply_rela_section a f d E needed bias (di_rela_off d) (di_rela_sz d) w else (True, w)) =
      (ok1, w1)" by fastforce
  then have a1: "at_rest s w1"
    using sec [OF assms, of "di_rela_off d" "di_rela_sz d"] assms by (auto split: if_splits)
  have rel: "snd (apply_rel_section sz v) = v" for sz v by (simp add: apply_rel_section_def)
  obtain ok2 w2 where r2: "(if di_rel_sz d \<noteq> 0 \<and> di_rel_off d \<noteq> 0
      then apply_rel_section (di_rel_sz d) w1 else (True, w1)) = (ok2, w2)" by fastforce
  then have "w2 = w1" using rel [of "di_rel_sz d" w1] by (auto split: if_splits)
  then show ?thesis
    unfolding apply_relocations_def r1 prod.case r2 using a1 sec [OF a1] rel by simp
qed

lemma keeps_relocate: "at_rest s w \<Longrightarrow> keeps s (relocate L phs bias s w)"
proof -
  assume a: "at_rest s w"
  show ?thesis
  proof (cases "elf_load_dyn_info (ld_file L) phs")
    case None
    then show ?thesis by (simp add: relocate_def keeps_def)
  next
    case (Some od)
    show ?thesis
    proof (cases od)
      case None
      with Some a show ?thesis by (simp add: relocate_def keeps_return)
    next
      case d: (Some d)
      obtain ok w1 where ap:
        "apply_relocations (ld_arch L) (ld_file L) d (ld_env L) (needed_paths L d) bias w = (ok, w1)"
        by fastforce
      have "at_rest s w1"
        using apply_relocations_at_rest [OF a, of "ld_arch L" "ld_file L" d "ld_env L" "needed_paths L d" bias] ap
        by simp
      then show ?thesis by (simp add: relocate_def Some d ap keeps_return)
    qed
  qed
qed

lemma keeps_protect_segments: "at_rest s w \<Longrightarrow> keeps s (protect_segments L base span segs s w)"
proof (induction segs arbitrary: w)
  case (Cons x segs)
  obtain addr len prot where x: "x = (addr, len, prot)" by (rule prod_cases3)
  show ?case
    unfolding x protect_segments.simps
    by (rule port.keeps_call [OF Cons.prems], unfold prod.case, rule keeps_if)
      (simp_all add: keeps_fail_after Cons.IH)
qed (simp add: keeps_return)

text \<open>A world whose tracee may be read and written everywhere, and whose script is \<open>es\<close>.\<close>

definition benign :: "regs \<Rightarrow> event list \<Rightarrow> world \<Rightarrow> bool" where
  "benign regs es w \<longleftrightarrow>
     at_rest regs w \<and> tr_prot (wd_tracee w) = (\<lambda>_. Some 7) \<and> wd_script w = es"

lemma benign_write: "benign regs es w \<Longrightarrow> \<exists>w'. write_remote a bs w = (int (length bs), w') \<and> benign regs es w'"
proof -
  assume b: "benign regs es w"
  then have "all_accessible (wd_tracee w) PROT_WRITE a (length bs)"
    by (simp add: benign_def all_accessible_def accessible_def list_all_iff)
  with b show ?thesis
    by (auto simp: write_remote_full benign_def at_rest_def)
qed

section \<open>Constructors\<close>

text \<open>A step that puts the saved registers back when it fails.\<close>

definition settles :: "regs \<Rightarrow> 'a step \<Rightarrow> bool" where
  "settles saved m \<longleftrightarrow>
     (\<forall>r regs' w'. m = Inr (r, regs', w') \<longrightarrow>
        obliging w' \<and> (r = None \<longrightarrow> regs' = saved \<and> tr_regs (wd_tracee w') = saved))"

lemma write_remote_obliging: "obliging w \<Longrightarrow> obliging (snd (write_remote a bs w))"
  by (cases "write_proc (wd_tracee w) a bs") (simp add: write_remote_def)

lemma push_words_obliging: "push_words a ws regs w = (ok, r, w') \<Longrightarrow> obliging w \<Longrightarrow> obliging w'"
proof -
  assume p: "push_words a ws regs w = (ok, r, w')" "obliging w"
  obtain k w1 where wr:
    "write_remote (regs (REG_SP a) - of_nat (8 * length ws)) (stack_bytes ws) w = (k, w1)" by fastforce
  have "obliging w1" using write_remote_obliging [OF p(2)] wr by (metis snd_conv)
  with p(1) wr show ?thesis by (simp add: push_words_def Let_def)
qed

lemma call_setup_obliging:
  assumes "call_setup a func ra args regs w = (ok, r, w')" "obliging w"
  shows "obliging w'"
proof (cases a)
  case Aarch64
  let ?r1 = "assign (call_regs Aarch64) args regs"
  obtain ok2 r2 w2 where p:
    "(if 8 < length args then push_words Aarch64 (drop 8 args) ?r1 w else (True, ?r1, w)) = (ok2, r2, w2)"
    by (rule prod_cases3)
  have "obliging w2"
    using p push_words_obliging [of Aarch64 "drop 8 args" ?r1 w ok2 r2 w2] assms(2)
    by (simp split: if_splits)
  with assms(1) show ?thesis
    unfolding call_setup_def Aarch64 arch.case call_setup_aarch64_def Let_def p prod.case
    by (simp split: if_splits)
next
  case X86_64
  let ?r1 = "assign (call_regs X86_64) args regs"
  obtain ok2 r2 w2 where p:
    "(if 6 < length args then push_words X86_64 (drop 6 args) ?r1 w else (True, ?r1, w)) = (ok2, r2, w2)"
    by (rule prod_cases3)
  obtain ok3 r3 w3 where q: "push_words X86_64 [ra] r2 w2 = (ok3, r3, w3)" by (rule prod_cases3)
  have o2: "obliging w2"
    using p push_words_obliging [of X86_64 "drop 6 args" ?r1 w ok2 r2 w2] assms(2)
    by (simp split: if_splits)
  have "obliging w3" by (rule push_words_obliging [OF q o2])
  with o2 assms(1) show ?thesis
    unfolding call_setup_def X86_64 arch.case call_setup_x86_64_def Let_def p prod.case q
    by (simp split: if_splits)
qed

lemma regs_obliging:
  "obliging w \<Longrightarrow> set_regs r w = (b, w') \<Longrightarrow> b \<and> obliging w' \<and> tr_regs (wd_tracee w') = r"
  "obliging w \<Longrightarrow> get_regs r w = ((c, r'), w'') \<Longrightarrow> c \<and> obliging w''"
  using ask_obliging [of w Req_setregs] ask_obliging [of w Req_getregs]
  by (auto simp: set_regs_obliging get_regs_obliging)

lemma resume_obliging [simp]: "obliging (resume q w) = obliging w"
  by (simp add: resume_def obliging_def)

lemma skip_obliging: "tracee_skip_syscall a w = Inr w' \<Longrightarrow> obliging w \<Longrightarrow> obliging w'"
proof -
  assume s: "tracee_skip_syscall a w = Inr w'" and o: "obliging w"
  obtain c r1 w1 where g: "get_regs (\<lambda>_. 0) w = ((c, r1), w1)" by (metis surj_pair)
  obtain b w2 where t: "set_regs (r1(REG_SYSNR a := - 1)) w1 = (b, w2)" by fastforce
  have c: "c" and o1: "obliging w1" using regs_obliging(2) [OF o g] by simp_all
  have b: "b" and o2: "obliging w2" using regs_obliging(1) [OF o1 t] by simp_all
  have "w' = (case a of Aarch64 \<Rightarrow> w2\<lparr> wd_requests := wd_requests w2 @ [Req_skip] \<rparr> | X86_64 \<Rightarrow> w2)"
    using s c b unfolding tracee_skip_syscall_def g prod.case t by simp
  then show ?thesis using o2 by (cases a) (simp_all add: obliging_def)
qed

lemma wait_loop_obliging: "wait_loop a es w = Inr (st, w') \<Longrightarrow> obliging w \<Longrightarrow> obliging w'"
proof (induction a es w rule: wait_loop.induct)
  case (4 a status f es w)
  let ?w1 = "w\<lparr> wd_tracee := f (wd_tracee w) \<rparr>"
  have o1: "obliging ?w1" using "4.prems"(2) by simp
  show ?case
  proof (cases "is_seccomp_stop status")
    case True
    with "4.prems"(1) obtain w2 where s: "tracee_skip_syscall a ?w1 = Inr w2"
      and l: "wait_loop a es (resume (Req_cont 0) w2) = Inr (st, w')" by (auto simp: Let_def)
    have "obliging (resume (Req_cont 0) w2)"
      using skip_obliging [OF s o1] by simp
    from "4.IH" [OF refl True s l this] show ?thesis .
  next
    case False
    with "4.prems"(1) o1 show ?thesis by (auto simp: Let_def split: if_splits)
  qed
qed simp_all

lemma remote_call_obliging:
  assumes "remote_call a func ra args regs w = Inr (x, r, w')" "obliging w"
  shows "obliging w'"
proof -
  obtain ok1 r1 w1 where s1: "call_setup a func ra args (align_stack a 0 regs) w = (ok1, r1, w1)"
    by (rule prod_cases3)
  have o1: "obliging w1" by (rule call_setup_obliging [OF s1 assms(2)])
  show ?thesis
  proof (cases ok1)
    case False
    with assms(1) o1 show ?thesis unfolding remote_call_def s1 prod.case by simp
  next
    case True
    obtain ok2 w2 where s2: "set_regs r1 w1 = (ok2, w2)" by fastforce
    have o2: "ok2" "obliging w2" using regs_obliging(1) [OF o1 s2] by simp_all
    from assms(1) True o2(1) obtain st w3 where s3: "wait_for_trace a (resume (Req_cont 0) w2) = Inr (st, w3)"
      unfolding remote_call_def s1 prod.case s2 by auto
    have o3: "obliging w3"
      using s3 o2(2) unfolding wait_for_trace_def
      by (intro wait_loop_obliging [of a _ "resume (Req_cont 0) w2" st w3]) simp_all
    obtain ok4 r4 w4 where s4: "get_regs r1 w3 = ((ok4, r4), w4)" by (metis surj_pair)
    have "obliging w4" using regs_obliging(2) [OF o3 s4] by simp
    with assms(1) True o2(1) show ?thesis
      unfolding remote_call_def s1 prod.case s2 by (auto simp: s3 s4 split: if_splits)
  qed
qed

lemma keeps_unmap_and_restore: "obliging w \<Longrightarrow> keeps s (unmap_and_restore L base span s regs w)"
proof (unfold keeps_def, intro allI impI)
  fix r regs' w'
  assume o: "obliging w" and e: "unmap_and_restore L base span s regs w = Inr (r, regs', w')"
  then obtain x r1 w1 where c: "remote L NR_munmap [base, span] regs w = Inr (x, r1, w1)"
    and e1: "regs' = s" "w' = snd (set_regs s w1)"
    unfolding unmap_and_restore_def by auto
  have "obliging w1" using port.transparent [OF o c] by simp
  then show "regs' = s \<and> tr_regs (wd_tracee w') = s \<and> obliging w'"
    using regs_obliging(1) [of w1 s "fst (set_regs s w1)" w'] e1 by simp
qed

lemma keeps_settles: "keeps s m \<Longrightarrow> settles s m"
  by (simp add: keeps_def settles_def)

lemma settles_return: "obliging w \<Longrightarrow> settles s (Inr (Some x, r, w))"
  by (simp add: settles_def)

lemma settles_and_then:
  assumes "settles s m" "\<And>x r w. obliging w \<Longrightarrow> settles s (k x r w)"
  shows "settles s (and_then m k)"
proof (unfold settles_def, intro allI impI)
  fix r regs' w'
  assume "and_then m k = Inr (r, regs', w')"
  then obtain x r1 w1 where m: "m = Inr (x, r1, w1)"
    and k: "(case x of None \<Rightarrow> Inr (None, r1, w1) | Some y \<Rightarrow> k y r1 w1) = Inr (r, regs', w')"
    by (auto simp: and_then_def)
  from assms(1) m have s: "obliging w1" "x = None \<longrightarrow> r1 = s \<and> tr_regs (wd_tracee w1) = s"
    unfolding settles_def by blast+
  then show "obliging w' \<and> (r = None \<longrightarrow> regs' = s \<and> tr_regs (wd_tracee w') = s)"
    using k assms(2) [OF s(1)] unfolding settles_def by (cases x) auto
qed

lemma settles_call:
  assumes "obliging w" "\<And>x r w'. obliging w' \<Longrightarrow> settles s (k ((x, True), r, w'))"
    and "\<And>x r w'. obliging w' \<Longrightarrow> settles s (k ((x, False), r, w'))"
  shows "settles s (bind_res (remote_call a func ra args regs w) k)"
proof (cases "remote_call a func ra args regs w")
  case (Inr y)
  obtain x b r w1 where y: "y = ((x, b), r, w1)" by (metis surj_pair)
  have "obliging w1" using remote_call_obliging [OF _ assms(1)] Inr y by blast
  then have "settles s (k ((x, b), r, w1))" using assms(2,3) by (cases b) simp_all
  then show ?thesis by (simp add: Inr y)
qed (simp add: settles_def)

lemma settles_init_array:
  "obliging w \<Longrightarrow> settles s (init_array_loop L base span s trap arr n i regs w)"
proof (induction n arbitrary: i regs w)
  case (Suc n)
  show ?case
  proof (cases "read_remote_addr (arr + of_nat (i * 8)) w")
    case None
    then show ?thesis
      using keeps_settles [OF keeps_unmap_and_restore [OF Suc.prems]]
      unfolding init_array_loop.simps None option.case by blast
  next
    case (Some c)
    show ?thesis
      unfolding init_array_loop.simps Some option.case
      using Suc.IH Suc.prems keeps_settles [OF keeps_unmap_and_restore]
      by (auto intro!: settles_call)
  qed
qed (simp add: settles_return)

lemma settles_if: "(b \<Longrightarrow> settles s m) \<Longrightarrow> (\<not> b \<Longrightarrow> settles s m') \<Longrightarrow> settles s (if b then m else m')"
  by simp

lemma settles_run_constructors:
  assumes "at_rest s w"
  shows "settles s (run_constructors L base span s bias d s w)"
proof -
  have o: "obliging w" using assms by (simp add: at_rest_def)
  note u = keeps_settles [OF keeps_unmap_and_restore]
  show ?thesis
    unfolding run_constructors_def Let_def
    apply (rule settles_if, rule keeps_settles [OF keeps_fail_after [OF assms]])
    apply (rule settles_and_then)
     apply (rule settles_if, rule settles_return [OF o], rule settles_call [OF o])
      apply (simp add: settles_return)
     apply (simp add: u)
    apply (rule settles_if, erule settles_return, rule settles_if, erule u, erule settles_init_array)
    done
qed

lemma keeps_fail_after_set:
  "obliging w \<Longrightarrow> tr_regs (wd_tracee w) = s \<Longrightarrow> keeps s (fail_after L nr args s w)"
  by (rule keeps_fail_after) (simp add: at_rest_def)

lemma keeps_hand_over: "obliging w \<Longrightarrow> keeps s (hand_over_entry L base span s bias d regs w)"
proof -
  assume o: "obliging w"
  obtain ok w1 where r: "set_regs s w = (ok, w1)" by fastforce
  have w1: "ok" "at_rest s w1" using regs_obliging(1) [OF o r] by (simp_all add: at_rest_def)
  show ?thesis
    unfolding hand_over_entry_def r
    by (cases "find_dynsym_value (ld_file L) d ''entry''")
      (use keeps_unmap_and_restore [OF o] keeps_return [OF w1(2)] w1(1) in simp_all)
qed

lemma keeps_settles_and_then:
  assumes "settles s m" "\<And>x r w. obliging w \<Longrightarrow> keeps s (k x r w)"
  shows "keeps s (and_then m k)"
proof (unfold keeps_def, intro allI impI)
  fix r regs' w'
  assume "and_then m k = Inr (r, regs', w')"
  then obtain x r1 w1 where m: "m = Inr (x, r1, w1)"
    and k: "(case x of None \<Rightarrow> Inr (None, r1, w1) | Some y \<Rightarrow> k y r1 w1) = Inr (r, regs', w')"
    by (auto simp: and_then_def)
  from assms(1) m have s: "obliging w1" "x = None \<longrightarrow> r1 = s \<and> tr_regs (wd_tracee w1) = s"
    unfolding settles_def by blast+
  then show "regs' = s \<and> tr_regs (wd_tracee w') = s \<and> obliging w'"
    using k assms(2) [OF s(1)] unfolding keeps_def by (cases x) auto
qed

text \<open>
  C4: loading a library remotely never disturbs the tracee's registers: whether it succeeds or
  fails at any of its steps, also after a constructor crashed, the registers in the tracee
  and the caller's copy are those it was called with, as long as ptrace obeys.
\<close>

theorem loader_preserves_registers:
  assumes "obliging w" "tr_regs (wd_tracee w) = regs"
    and "remote_csoloader_load_and_resolve_entry a page_size file E path regs w = Inr (r, regs', w')"
  shows "regs' = regs \<and> tr_regs (wd_tracee w') = regs"
proof -
  have a: "at_rest regs w" using assms(1,2) by (simp add: at_rest_def)
  have "keeps regs (remote_csoloader_load_and_resolve_entry a page_size file E path regs w)"
  proof (cases "page_size \<le> 0 \<or> file = None \<or>
      compute_load_layout (the file) (of_int page_size) = None \<or>
      find_syscall_gadget a (wd_tracee w) (lk_remote E) = 0")
    case True
    then show ?thesis
      using keeps_return [OF a]
      by (auto simp: remote_csoloader_load_and_resolve_entry_def Let_def split: option.splits)
  next
    case False
    then obtain f eh phs lo span where f: "file = Some f"
      and l: "compute_load_layout f (of_int page_size) = Some (eh, phs, lo, span)" by auto
    show ?thesis
      unfolding remote_csoloader_load_and_resolve_entry_def f option.case l prod.case Let_def
      apply (rule keeps_if, rule keeps_return [OF a], rule keeps_if, rule keeps_return [OF a])
      apply (rule keeps_and_then [OF keeps_open_remote [OF a]])
      apply (rule keeps_and_then, erule keeps_reserve_span)
      apply (rule keeps_and_then, erule keeps_map_segments)
      apply (rule port.keeps_call, assumption, unfold prod.case)
      apply (rule keeps_and_then, erule keeps_relocate)
      apply (rule keeps_and_then, erule keeps_protect_segments)
      apply (rule keeps_settles_and_then, erule settles_run_constructors, erule keeps_hand_over)
      done
  qed
  then show ?thesis using assms(3) unfolding keeps_def by blast
qed

end
