(* ===== verification/Inject_Properties.thy ===== *)
theory Inject_Properties
  imports Inject Csoloader_Properties
begin

text \<open>
  What the injection promises: whatever happens after the process was stopped at its entry, it
  resumes there with its own registers, and tracing ends detached except after a failed wait.
\<close>

section \<open>Steps under an obliging ptrace\<close>

text \<open>A step after which ptrace still obeys, whatever the registers it is given.\<close>

definition obeys :: "('a \<times> regs \<times> world) run \<Rightarrow> bool" where
  "obeys m \<longleftrightarrow> (\<forall>x r w. m = Inr (x, r, w) \<longrightarrow> obliging w)"

named_theorems obeys

lemma obeys_return [obeys]: "obliging w \<Longrightarrow> obeys (Inr (x, r, w))"
  by (simp add: obeys_def)

lemma obeys_halt [obeys]: "obeys (Inl h)"
  by (simp add: obeys_def)

lemma obeys_bind:
  "obeys m \<Longrightarrow> (\<And>x r w. obliging w \<Longrightarrow> obeys (k (x, r, w))) \<Longrightarrow> obeys (bind_res m k)"
  unfolding obeys_def by fastforce

lemma obeys_and_then:
  assumes "obeys m" "\<And>x r w. obliging w \<Longrightarrow> obeys (k x r w)"
  shows "obeys (and_then m k)"
  unfolding and_then_def
  by (rule obeys_bind [OF assms(1)]) (use assms(2) in \<open>simp add: obeys_return split: option.splits\<close>)

lemma obeys_if: "(b \<Longrightarrow> obeys m) \<Longrightarrow> (\<not> b \<Longrightarrow> obeys m') \<Longrightarrow> obeys (if b then m else m')"
  by simp

lemma obeys_remote: "obliging w \<Longrightarrow> obeys (remote L nr args regs w)"
  unfolding obeys_def using port.transparent by blast

lemma obeys_remote_call: "obliging w \<Longrightarrow> obeys (remote_call a f ra args regs w)"
  unfolding obeys_def using remote_call_obliging by blast

lemma obeys_write:
  assumes "obliging w" "\<And>n w'. obliging w' \<Longrightarrow> obeys (k n w')"
  shows "obeys (case write_remote a bs w of (n, w') \<Rightarrow> k n w')"
proof -
  obtain n w1 where wr: "write_remote a bs w = (n, w1)" by fastforce
  show ?thesis using assms(2) [of w1 n] write_remote_obliging [OF assms(1), of a bs] by (simp add: wr)
qed

lemma obeys_call:
  assumes "obliging w" "\<And>x ok r w'. obliging w' \<Longrightarrow> obeys (k ((x, ok), r, w'))"
  shows "obeys (bind_res (remote_call a f ra args regs w) k)"
proof (rule obeys_bind [OF obeys_remote_call [OF assms(1)]])
  show "obeys (k (x, r, w'))" if "obliging w'" for x r w'
    using assms(2) [OF that] by (cases x) simp
qed

lemma obeys_sys:
  assumes "obliging w" "\<And>x r w'. obliging w' \<Longrightarrow> obeys (k (x, r, w'))"
  shows "obeys (bind_res (remote L nr args regs w) k)"
  using obeys_bind [OF obeys_remote [OF assms(1)]] assms(2) by blast

lemma obeys_fail_after: "obliging w \<Longrightarrow> obeys (fail_after L nr args regs w)"
  unfolding fail_after_def by (rule obeys_sys) (simp_all add: obeys_return)

lemma obeys_keeps: "keeps s m \<Longrightarrow> obeys m"
  by (simp add: keeps_def obeys_def)

lemma obeys_settles: "settles s m \<Longrightarrow> obeys m"
  unfolding settles_def obeys_def by blast

lemma obeys_open_remote: "obliging w \<Longrightarrow> obeys (open_remote L regs w)"
  unfolding open_remote_def Let_def
  by (rule obeys_write, assumption, rule obeys_if, erule obeys_return, rule obeys_sys, assumption,
      unfold prod.case, rule obeys_if) (auto intro!: obeys_return write_remote_obliging)

text \<open>
  After a system call the copy of the registers is that of the tracee again, so the rest of
  the loader is covered by its own invariant.
\<close>

lemma open_remote_at_rest:
  assumes "obliging w" "open_remote L regs w = Inr (Some fd, regs', w')"
  shows "at_rest regs' w'"
proof -
  let ?path = "c_string (ld_path L)"
  let ?rp = "regs (REG_SP (ld_arch L)) - of_nat (align16 (length ?path))"
  obtain n w1 where wr: "write_remote ?rp ?path w = (n, w1)" by fastforce
  have o1: "obliging w1" using write_remote_obliging [OF assms(1), of ?rp ?path] by (simp add: wr)
  from assms(2) obtain r2 w2 where c:
    "remote L NR_openat [AT_FDCWD, ?rp, O_RDONLY_CLOEXEC, 0] (regs(REG_SP (ld_arch L) := ?rp)) w1 =
       Inr (fd, r2, w2)"
    and e: "regs' = r2" "w' = snd (write_remote ?rp (replicate (align16 (length ?path)) 0) w2)"
    unfolding open_remote_def Let_def wr prod.case by (auto split: if_splits)
  have "at_rest r2 w2" using port.transparent [OF o1 c] by (simp add: at_rest_def)
  then show ?thesis using write_remote_at_rest e by blast
qed

lemma obeys_run_constructors: "obliging w \<Longrightarrow> obeys (run_constructors L base span saved bias d regs w)"
proof -
  assume o: "obliging w"
  note u = obeys_keeps [OF keeps_unmap_and_restore]
  show ?thesis
    unfolding run_constructors_def Let_def
    apply (rule obeys_if, rule obeys_fail_after [OF o])
    apply (rule obeys_and_then)
     apply (rule obeys_if, rule obeys_return [OF o], rule obeys_call [OF o], unfold prod.case)
     apply (rule obeys_if, erule obeys_return, erule u)
    apply (rule obeys_if, erule obeys_return, rule obeys_if, erule u)
    apply (rule obeys_settles, erule settles_init_array)
    done
qed

lemma obeys_keeps_then:
  assumes "keeps s m" "\<And>x w. at_rest s w \<Longrightarrow> obeys (k x s w)"
  shows "obeys (and_then m k)"
  using assms unfolding and_then_def obeys_def keeps_def at_rest_def
  by (fastforce split: option.splits)

lemma obeys_port_then:
  assumes "at_rest s w" "\<And>x w'. at_rest s w' \<Longrightarrow> obeys (k (x, s, w'))"
  shows "obeys (bind_res (remote L nr args regs w) k)"
proof -
  have o: "obliging w" and t: "tr_regs (wd_tracee w) = s" using assms(1) by (simp_all add: at_rest_def)
  have "obeys (k (x, r, w'))" if "remote L nr args regs w = Inr (x, r, w')" for x r w'
    using port.transparent [OF o that] t assms(2) by (simp add: at_rest_def)
  then show ?thesis by (cases "remote L nr args regs w") (auto simp: obeys_def)
qed

lemma obeys_open_then:
  assumes "obliging w" "\<And>fd s w'. at_rest s w' \<Longrightarrow> obeys (k fd s w')"
  shows "obeys (and_then (open_remote L regs w) k)"
proof -
  have "obeys (k fd s w')" if "open_remote L regs w = Inr (Some fd, s, w')" for fd s w'
    using open_remote_at_rest [OF assms(1) that] by (rule assms(2))
  moreover have "obeys (open_remote L regs w)" by (rule obeys_open_remote [OF assms(1)])
  ultimately show ?thesis
    unfolding and_then_def obeys_def by (fastforce split: option.splits)
qed

lemma obeys_loader:
  assumes "obliging w"
  shows "obeys (remote_csoloader_load_and_resolve_entry a page_size file E path regs w)"
proof (cases "page_size \<le> 0 \<or> file = None \<or>
    compute_load_layout (the file) (of_int page_size) = None \<or>
    find_syscall_gadget a (wd_tracee w) (lk_remote E) = 0")
  case True
  then show ?thesis
    using assms by (auto simp: remote_csoloader_load_and_resolve_entry_def Let_def obeys_return split: option.splits)
next
  case False
  then obtain f eh phs lo span where f: "file = Some f"
    and l: "compute_load_layout f (of_int page_size) = Some (eh, phs, lo, span)" by auto
  show ?thesis
    unfolding remote_csoloader_load_and_resolve_entry_def f option.case l prod.case Let_def
    apply (rule obeys_if, rule obeys_return [OF assms], rule obeys_if, rule obeys_return [OF assms])
    apply (rule obeys_open_then [OF assms])
    apply (rule obeys_keeps_then, erule keeps_reserve_span)
    apply (rule obeys_keeps_then, erule keeps_map_segments)
    apply (rule obeys_port_then, assumption, unfold prod.case)
    apply (rule obeys_keeps_then, erule keeps_relocate)
    apply (rule obeys_keeps_then, erule keeps_protect_segments)
    apply (rule obeys_and_then, rule obeys_run_constructors, simp add: at_rest_def)
    apply (rule obeys_keeps, erule keeps_hand_over)
    done
qed

section \<open>The calls of the injection\<close>

lemma push_string_obliging: "push_string a str regs w = (addr, r, w') \<Longrightarrow> obliging w \<Longrightarrow> obliging w'"
proof -
  assume p: "push_string a str regs w = (addr, r, w')" and o: "obliging w"
  obtain n w1 where wr: "write_remote (align_stack a 0 (regs(REG_SP a := regs (REG_SP a) -
      of_nat (length (c_string str)))) (REG_SP a)) (c_string str) w = (n, w1)" by fastforce
  have "w' = w1" using p unfolding push_string_def Let_def wr prod.case by (auto split: if_splits)
  then show ?thesis using write_remote_obliging [OF o] wr by (metis snd_conv)
qed

lemma obeys_push:
  assumes "obliging w" "\<And>addr r w'. obliging w' \<Longrightarrow> obeys (k addr r w')"
  shows "obeys (case push_string a str regs w of (addr, r, w') \<Rightarrow> k addr r w')"
proof -
  obtain addr r w1 where p: "push_string a str regs w = (addr, r, w1)" by (rule prod_cases3)
  show ?thesis using assms(2) [OF push_string_obliging [OF p assms(1)]] by (simp add: p)
qed

lemma obeys_by_linker: "obliging w \<Longrightarrow> obeys (by_linker e E trap h regs w)"
  unfolding by_linker_def Let_def
  apply (rule obeys_if, erule obeys_return, erule obeys_push, erule obeys_call, unfold prod.case)
  apply (rule obeys_if, erule obeys_return)
  apply (simp add: obeys_return split: prod.splits)
  done

lemma obeys_probe_call: "obliging w \<Longrightarrow> obeys (probe_call e E module func trap args regs w)"
  unfolding probe_call_def Let_def
  by (rule obeys_if, erule obeys_return, erule obeys_call) (simp add: obeys_return)

lemma obeys_diagnose: "obliging w \<Longrightarrow> obeys (diagnose e E trap p regs w)"
  unfolding diagnose_def
  apply (rule obeys_and_then, erule obeys_probe_call, rule obeys_and_then, erule obeys_probe_call)
  apply (rule obeys_if, erule obeys_probe_call, erule obeys_return)
  done

lemma obeys_by_loader: "obliging w \<Longrightarrow> obeys (by_loader e E trap p lib_path regs w)"
  unfolding by_loader_def
  apply (rule obeys_and_then, erule obeys_diagnose, rule obeys_and_then, erule obeys_loader)
  apply (simp add: obeys_return split: prod.splits)
  done

lemma obeys_load_library: "obliging w \<Longrightarrow> obeys (load_library e lib_path E trap regs w)"
  unfolding load_library_def Let_def
  apply (rule obeys_if, erule obeys_return, erule obeys_push)
  apply (rule obeys_if, erule obeys_return, erule obeys_call, unfold prod.case)
  apply (rule obeys_if, erule obeys_return, rule obeys_if, erule obeys_by_linker, erule obeys_by_loader)
  done

lemma obeys_call_entry: "obliging w \<Longrightarrow> obeys (call_entry e trap l regs w)"
  unfolding call_entry_def
  by (erule obeys_push, erule obeys_call) (simp add: obeys_return)

lemma obeys_run_injection: "obliging w \<Longrightarrow> obeys (run_injection e lib_path regs w)"
  unfolding run_injection_def Let_def
  by (rule obeys_if, erule obeys_return, rule obeys_and_then, erule obeys_load_library)
    (erule obeys_call_entry)

section \<open>Up to the entry point\<close>

lemma await_trap_obliging: "await_trap a w = Inr (ok, w') \<Longrightarrow> obliging w \<Longrightarrow> obliging w'"
proof (induction a w rule: await_trap.induct)
  case (1 a w)
  obtain ok1 w1 where a: "ask (Req_cont 0) w = (ok1, w1)" by fastforce
  have ok1: "ok1" and o1: "obliging w1" using ask_obliging [OF "1.prems"(2), of "Req_cont 0"] a by simp_all
  show ?case
  proof (cases "wait_for_trace a w1")
    case (Inl h)
    with "1.prems"(1) ok1 show ?thesis by (subst (asm) await_trap.simps) (simp add: a)
  next
    case (Inr y)
    obtain st w2 where y: "y = (st, w2)" by fastforce
    have o2: "obliging w2"
      using Inr y o1 by (auto simp: wait_for_trace_def dest: wait_loop_obliging)
    have st: "WIFSTOPPED st" using Inr y by (auto simp: wait_for_trace_def dest: wait_loop_stop)
    have "await_trap a w =
        (if WSTOPSIG st = SIGSEGV then Inr (True, w2)
         else if WSTOPSIG st = SIGSTOP then await_trap a w2 else Inr (False, w2))"
      using WIF_exclusive(1,2) [OF st] st ok1 Inr
      by (subst await_trap.simps) (simp add: a y)
    then show ?thesis
      using "1.prems"(1) o2 "1.IH"(1) [OF a [symmetric] _ Inr y [symmetric] _ st] ok1
        WIF_exclusive(1,2) [OF st]
      by (auto split: if_splits)
  qed
qed

text \<open>What holds when the process was stopped at its entry and the vector was put right again.\<close>

definition at_entry :: "inject_env \<Rightarrow> u64 \<Rightarrow> u64 \<Rightarrow> regs \<Rightarrow> world \<Rightarrow> bool" where
  "at_entry e entry addr regs w \<longleftrightarrow>
     regs (REG_IP (ij_arch e)) AND NOT 1 = break_addr entry AND NOT 1 \<and>
     tr_regs (wd_tracee w) = regs \<and>
     (all_accessible (wd_tracee w) PROT_WRITE addr 8 \<longrightarrow>
        peek (tr_mem (wd_tracee w)) addr 8 = word_bytes entry)"

lemma all_accessible_cong: "tr_prot t = tr_prot t' \<Longrightarrow> all_accessible t p a n = all_accessible t' p a n"
  by (simp add: all_accessible_def accessible_def)

lemma write_word_back:
  assumes "write_remote addr (word_bytes v) w = (n, w')"
  shows "wd_tracee w' = (wd_tracee w)\<lparr> tr_mem := tr_mem (wd_tracee w') \<rparr> \<and>
     (all_accessible (wd_tracee w') PROT_WRITE addr 8 \<longrightarrow> peek (tr_mem (wd_tracee w')) addr 8 = word_bytes v)"
proof -
  obtain k t where wp: "write_proc (wd_tracee w) addr (word_bytes v) = (k, t)" by fastforce
  have w': "w' = w\<lparr> wd_tracee := t \<rparr>" using assms by (simp add: write_remote_def wp)
  have f: "t = (wd_tracee w)\<lparr> tr_mem := tr_mem t \<rparr>"
    using wp by (auto simp: write_proc_def Let_def split: if_splits)
  have "peek (tr_mem t) addr 8 = word_bytes v" if a: "all_accessible t PROT_WRITE addr 8"
  proof -
    have "all_accessible (wd_tracee w) PROT_WRITE addr (length (word_bytes v))"
      using a all_accessible_cong [of t "wd_tracee w"] write_proc_frame [OF wp] by simp
    then have "t = (wd_tracee w)\<lparr> tr_mem := poke (tr_mem (wd_tracee w)) addr (word_bytes v) \<rparr>"
      using wp by (simp add: write_proc_def Let_def)
    then show ?thesis using peek_poke_same [of "word_bytes v" "tr_mem (wd_tracee w)" addr] by simp
  qed
  with f show ?thesis by (simp add: w')
qed

lemma intercept_run:
  assumes "intercept e w = Inr (Some (regs, entry), w')"
  obtains addr w1 w2 w3 w4 n n5 r0 where
    "get_regs (\<lambda>_. 0) w = ((True, r0), w1)" "r0 = tr_regs (wd_tracee w)" "wd_tracee w1 = wd_tracee w"
    "parse_block (ij_stale e) (wd_tracee w) (tr_regs (wd_tracee w) (REG_SP (ij_arch e))) = Some (entry, addr)"
    "entry \<noteq> 0" "write_remote addr (word_bytes (break_addr entry)) w1 = (n, w2)"
    "await_trap (ij_arch e) w2 = Inr (True, w3)" "get_regs r0 w3 = ((True, regs), w4)"
    "regs (REG_IP (ij_arch e)) AND NOT 1 = break_addr entry AND NOT 1"
    "write_remote addr (word_bytes entry) w4 = (n5, w')"
proof -
  obtain ok r0 w1 where g: "get_regs (\<lambda>_. 0) w = ((ok, r0), w1)" by (metis surj_pair)
  have ok: "ok" using assms unfolding intercept_def g prod.case by (cases ok) simp_all
  have r0: "r0 = tr_regs (wd_tracee w1)" using g ok get_regs_true by simp
  have t1: "wd_tracee w1 = wd_tracee w"
    using g ask_frame(1) [of Req_getregs w]
    by (cases "ask Req_getregs w") (auto simp: get_regs_def split: if_splits)
  obtain en addr where p: "parse_block (ij_stale e) (wd_tracee w1) (r0 (REG_SP (ij_arch e))) = Some (en, addr)"
    using assms ok unfolding intercept_def g prod.case by (auto split: option.splits)
  obtain n w2 where wr: "write_remote addr (word_bytes (break_addr en)) w1 = (n, w2)" by fastforce
  have c: "en \<noteq> 0" "n \<noteq> 0"
    using assms ok unfolding intercept_def g prod.case p option.case wr by (auto split: if_splits)
  then obtain ok3 w3 where aw: "await_trap (ij_arch e) w2 = Inr (ok3, w3)"
    using assms ok unfolding intercept_def g prod.case p option.case wr by (auto split: if_splits)
  obtain ok4 r4 w4 where g4: "get_regs r0 w3 = ((ok4, r4), w4)" by (metis surj_pair)
  obtain n5 w5 where wr5: "write_remote addr (word_bytes en) w4 = (n5, w5)" by fastforce
  have f: "ok3" "ok4" "r4 (REG_IP (ij_arch e)) AND NOT 1 = break_addr en AND NOT 1"
    "regs = r4" "entry = en" "w' = w5"
    using assms ok c unfolding intercept_def g prod.case p option.case wr aw
    by (auto simp: g4 wr5 split: if_splits)
  show ?thesis
    by (rule that [of r0 w1 addr n w2 w3 w4 n5]) (use g ok r0 t1 p c wr aw g4 wr5 f in simp_all)
qed

text \<open>
  the interception ends successfully only with the process stopped at the address planted
  for it, with the registers of that moment in hand, and with the original entry point put
  back where the kernel's vector keeps it, provided that word can be written.
\<close>

theorem intercepted_at_entry:
  assumes "intercept e w = Inr (Some (regs, entry), w')"
  shows "\<exists>addr. parse_block (ij_stale e) (wd_tracee w) (tr_regs (wd_tracee w) (REG_SP (ij_arch e))) =
       Some (entry, addr) \<and> entry \<noteq> 0 \<and> at_entry e entry addr regs w'"
proof -
  from assms obtain addr w1 w2 w3 w4 n n5 r0 where
    p: "parse_block (ij_stale e) (wd_tracee w) (tr_regs (wd_tracee w) (REG_SP (ij_arch e))) = Some (entry, addr)"
      "entry \<noteq> 0" and g4: "get_regs r0 w3 = ((True, regs), w4)"
    and ip: "regs (REG_IP (ij_arch e)) AND NOT 1 = break_addr entry AND NOT 1"
    and wr: "write_remote addr (word_bytes entry) w4 = (n5, w')"
    by (rule intercept_run)
  have "regs = tr_regs (wd_tracee w4)" using get_regs_true [OF g4] .
  moreover have "tr_regs (wd_tracee w') = tr_regs (wd_tracee w4)"
    using write_word_back [OF wr] by (metis tracee.ext_inject tracee.surjective tracee.update_convs(2))
  ultimately show ?thesis
    using p ip write_word_back [OF wr] by (auto simp: at_entry_def)
qed

lemma intercept_obliging: "intercept e w = Inr (Some (regs, entry), w') \<Longrightarrow> obliging w \<Longrightarrow> obliging w'"
proof -
  assume i: "intercept e w = Inr (Some (regs, entry), w')" and o: "obliging w"
  from i obtain addr w1 w2 w3 w4 n n5 r0 where
    g: "get_regs (\<lambda>_. 0) w = ((True, r0), w1)"
    and wr: "write_remote addr (word_bytes (break_addr entry)) w1 = (n, w2)"
    and aw: "await_trap (ij_arch e) w2 = Inr (True, w3)" and g4: "get_regs r0 w3 = ((True, regs), w4)"
    and wr5: "write_remote addr (word_bytes entry) w4 = (n5, w')"
    by (rule intercept_run)
  have "obliging w1" using regs_obliging(2) [OF o g] by simp
  then have "obliging w2" using write_remote_obliging [of w1 addr "word_bytes (break_addr entry)"] wr by simp
  then have "obliging w3" by (rule await_trap_obliging [OF aw])
  then have "obliging w4" using regs_obliging(2) [OF _ g4] by simp
  then show ?thesis using write_remote_obliging [of w4 addr "word_bytes entry"] wr5 by simp
qed

text \<open>
  C2: from the entry point on, however the injection ends, the process has the registers it was
  stopped with and its instruction pointer at its real entry point, as long as ptrace obeys:
  a linker that declines, a loader that gives up half way, or a library whose \<open>entry\<close> crashes
  leaves the process to run as if nothing had happened to its registers.
\<close>

theorem injection_resumes_at_entry:
  assumes "obliging w" "intercept e w = Inr (Some (regs, entry), w1)"
    and "inject_on_main e lib_path w = Inr (ok, w')"
  shows "tr_regs (wd_tracee w') = regs(REG_IP (ij_arch e) := entry) \<and> regs = tr_regs (wd_tracee w1)"
proof -
  let ?m = "run_injection e lib_path (clear_btype (ij_arch e) regs) w1"
  let ?backup = "regs(REG_IP (ij_arch e) := entry)"
  have o1: "obliging w1" by (rule intercept_obliging [OF assms(2,1)])
  have b: "bind_res ?m (\<lambda>(injected, _, w2).
      case set_regs ?backup w2 of (ok, w3) \<Rightarrow> Inr (injected \<noteq> None \<and> ok, w3)) = Inr (ok, w')"
    using assms(3) unfolding inject_on_main_def assms(2) bind_res.simps prod.case option.case Let_def .
  then obtain y where y: "?m = Inr y" by auto
  obtain x r w2 where "y = (x, r, w2)" by (rule prod_cases3)
  with y b have m: "?m = Inr (x, r, w2)"
    and s: "(case set_regs ?backup w2 of (ok, w3) \<Rightarrow> Inr (x \<noteq> None \<and> ok, w3)) =
      (Inr (ok, w') :: (bool \<times> world) run)"
    by simp_all
  have "obliging w2" using obeys_run_injection [OF o1] m unfolding obeys_def by blast
  moreover obtain b w3 where sr: "set_regs ?backup w2 = (b, w3)" by fastforce
  ultimately have "tr_regs (wd_tracee w3) = ?backup" using regs_obliging(1) by blast
  moreover have "w' = w3" using s by (simp add: sr)
  moreover have "regs = tr_regs (wd_tracee w1)"
    using intercepted_at_entry [OF assms(2)] by (auto simp: at_entry_def)
  ultimately show ?thesis by simp
qed

section \<open>Detaching\<close>

lemma ask_logs: "wd_requests (snd (ask q w)) = wd_requests w @ [q]"
  by (simp add: ask_def split: list.splits)

lemma wait_keeps_log:
  "wait_for_process w = Inr (s, w') \<Longrightarrow> wd_requests w' = wd_requests w"
  by (auto simp: wait_for_process_def split: list.splits event.splits)

definition ends_with_request :: "request list \<Rightarrow> world \<Rightarrow> bool" where
  "ends_with_request qs w \<longleftrightarrow> wd_requests w \<noteq> [] \<and> last (wd_requests w) \<in> set qs"

lemma bail_ends: "bail_and_detach sig w = Inr (ok, w') \<Longrightarrow> \<not> ok \<and> ends_with_request [Req_detach sig] w'"
  by (auto simp: bail_and_detach_def ends_with_request_def ask_logs)

lemma gki_ends:
  assumes "detach_with_gki_workaround sig w = Inr (ok, w')"
  shows "ends_with_request [Req_detach sig] w'"
proof -
  obtain b w1 where a: "ask Req_syscall w = (b, w1)" by fastforce
  show ?thesis
  proof (cases b)
    case False
    with assms bail_ends show ?thesis unfolding detach_with_gki_workaround_def a prod.case by auto
  next
    case True
    then obtain s w2 where "wait_for_process w1 = Inr (s, w2)"
      and k: "(if s = None then bail_and_detach sig w2 else Inr (ask (Req_detach sig) w2)) = Inr (ok, w')"
      using assms unfolding detach_with_gki_workaround_def a prod.case by auto
    show ?thesis
    proof (cases "s = None")
      case False
      with k have "w' = snd (ask (Req_detach sig) w2)" by (metis Inr_inject snd_conv)
      then show ?thesis by (simp add: ends_with_request_def ask_logs)
    qed (use k bail_ends in auto)
  qed
qed

lemma ends_mono: "ends_with_request qs w \<Longrightarrow> set qs \<subseteq> set qs' \<Longrightarrow> ends_with_request qs' w"
  by (auto simp: ends_with_request_def)

text \<open>A failed wait comes right after a resumption.\<close>

lemma wait_ends:
  "ask q w = (b, w1) \<Longrightarrow> wait_for_process w1 = Inr (s, w2) \<Longrightarrow> ends_with_request [q] w2"
  using ask_logs [of q w] wait_keeps_log [of w1 s w2] by (simp add: ends_with_request_def)

lemma continue_ends:
  assumes "continue_and_detach w = Inr (ok, w')"
  shows "if ok then ends_with_request [Req_detach SIGCONT] w'
         else ends_with_request [Req_detach 0, Req_detach SIGCONT, Req_cont 0] w'"
proof -
  have bail: ?thesis if "bail_and_detach 0 v = Inr (ok, w')" for v
    using bail_ends [OF that] by (auto simp: ends_with_request_def)
  obtain ok1 w1 where a1: "ask (Req_kill SIGCONT) w = (ok1, w1)" by fastforce
  obtain ok2 w2 where a2: "ask (Req_cont 0) w1 = (ok2, w2)" by fastforce
  note u = assms [unfolded continue_and_detach_def a1 prod.case a2]
  show ?thesis
  proof (cases "ok1 \<and> ok2")
    case False
    with u bail show ?thesis by (auto split: if_splits)
  next
    case True
    with u obtain s3 w3 where p3: "wait_for_process w2 = Inr (s3, w3)" by auto
    show ?thesis
    proof (cases "\<exists>st. s3 = Some st \<and> STOPPED_WITH st SIGTRAP PTRACE_EVENT_STOP")
      case False
      then show ?thesis
        using u True bail wait_ends [OF a2 p3] by (auto simp: p3 ends_with_request_def split: option.splits)
    next
      case stop: True
      obtain ok4 w4 where a4: "ask (Req_cont 0) w3 = (ok4, w4)" by fastforce
      show ?thesis
      proof (cases ok4)
        case False
        with u True stop bail show ?thesis by (auto simp: p3 a4)
      next
        case ok4: True
        with u True stop obtain s5 w5 where p5: "wait_for_process w4 = Inr (s5, w5)"
          by (auto simp: p3 a4)
        show ?thesis
          using u True stop ok4 bail wait_ends [OF a4 p5] gki_ends [of SIGCONT w5 ok w']
          by (auto simp: p3 a4 p5 ends_with_request_def split: option.splits if_splits)
      qed
    qed
  qed
qed


end
