(* ===== verification/Kernel_Block.thy ===== *)
theory Kernel_Block
  imports Inject
begin

text \<open>
  The words a kernel puts on the stack of a new process, and that the injector finds the entry
  point in them.
\<close>

section \<open>The kernel argument block\<close>

text \<open>The words \<open>ws\<close> lie at \<open>a\<close> and can be read.\<close>

definition words_at :: "tracee \<Rightarrow> u64 \<Rightarrow> u64 list \<Rightarrow> bool" where
  "words_at t a ws \<longleftrightarrow>
     all_accessible t PROT_READ a (8 * length ws) \<and> peek (tr_mem t) a (8 * length ws) = stack_bytes ws"

lemma stack_bytes_append: "stack_bytes (xs @ ys) = stack_bytes xs @ stack_bytes ys"
  by (simp add: stack_bytes_def)

lemma peek_append: "peek m a (i + k) = peek m a i @ peek m (a + of_nat i) k"
  by (rule nth_equalityI) (auto simp: peek_def nth_append not_less add.assoc dest: le_Suc_ex)

lemma words_at_append:
  assumes "words_at t a (xs @ ys)"
  shows "words_at t a xs \<and> words_at t (a + of_nat (8 * length xs)) ys"
proof -
  let ?i = "8 * length xs" and ?k = "8 * length ys"
  have l: "8 * length (xs @ ys) = ?i + ?k" by simp
  have acc: "all_accessible t PROT_READ a (?i + ?k)"
    and pk: "peek (tr_mem t) a (?i + ?k) = stack_bytes xs @ stack_bytes ys"
    using assms unfolding words_at_def l stack_bytes_append by simp_all
  have "peek (tr_mem t) a ?i = stack_bytes xs \<and> peek (tr_mem t) (a + of_nat ?i) ?k = stack_bytes ys"
    using pk unfolding peek_append by (simp del: of_nat_mult)
  moreover have "all_accessible t PROT_READ (a + of_nat 0) ?i"
    by (rule all_accessible_part [OF acc]) simp
  moreover have "all_accessible t PROT_READ (a + of_nat ?i) ?k"
    by (rule all_accessible_part [OF acc]) simp
  ultimately show ?thesis by (simp add: words_at_def)
qed

lemma words_at_Cons:
  "words_at t a (x # xs) \<Longrightarrow> words_at t a [x] \<and> words_at t (a + 8) xs"
  using words_at_append [of t a "[x]" xs] by simp

lemma fetch_words: "words_at t a ws \<Longrightarrow> fetch stale t a (8 * length ws) = stack_bytes ws"
  unfolding words_at_def
  by (simp add: fetch_def read_proc_def Let_def)

lemma word_of_bytes: "of_nat (le_value (word_bytes v)) = v"
proof -
  have "unat v < 256 ^ 8" using unsigned_less [of v, where ?'a = nat] by simp
  then show ?thesis by (simp add: word_bytes_def le_value_le_bytes)
qed

lemma fetch_one_word: "words_at t a [x] \<Longrightarrow> fetch_word stale t a = x"
  using fetch_words [of t a "[x]" stale] word_of_bytes [of x]
  by (simp add: fetch_word_def stack_bytes_def)

lemma skip_env_words:
  "words_at t a (env @ 0 # rest) \<Longrightarrow> 0 \<notin> set env \<Longrightarrow>
     skip_env stale t a = Some (a + of_nat (8 * length env))"
proof (induction env arbitrary: a)
  case Nil
  then have "fetch_word stale t a = 0" using words_at_Cons fetch_one_word by fastforce
  then show ?case by (subst skip_env.simps) simp
next
  case (Cons x env)
  have w: "words_at t a [x]" "words_at t (a + 8) (env @ 0 # rest)"
    using words_at_Cons [of t a x "env @ 0 # rest"] Cons.prems(1) by simp_all
  have "fetch_word stale t a \<noteq> 0" using fetch_one_word [OF w(1)] Cons.prems(2) by auto
  with Cons.IH [OF w(2)] Cons.prems(2) show ?case
    by (subst skip_env.simps) (simp add: algebra_simps)
qed

text \<open>The auxiliary vector as words.\<close>

definition aux_words :: "(u64 \<times> u64) list \<Rightarrow> u64 list" where
  "aux_words aux = concat (map (\<lambda>(a_type, a_val). [a_type, a_val]) aux)"

lemma length_aux_words [simp]: "length (aux_words aux) = 2 * length aux"
  unfolding aux_words_def by (induction aux) auto

lemma find_at_entry_step:
  assumes "words_at t a (ty # v # rest)"
  shows "find_at_entry stale t a =
    (if ty = AT_NULL then Some (0, 0) else if ty = AT_ENTRY then Some (v, a + 8)
     else find_at_entry stale t (a + 16)) \<and> words_at t (a + 16) rest"
proof -
  have w: "words_at t a [ty, v]" "words_at t (a + 16) rest"
    using words_at_append [of t a "[ty, v]" rest] assms by simp_all
  have "fetch stale t a 16 = word_bytes ty @ word_bytes v"
    using fetch_words [OF w(1), of stale] by (simp add: stack_bytes_def)
  then show ?thesis
    using w(2) by (subst find_at_entry.simps) (simp add: Let_def word_of_bytes)
qed

lemma find_at_entry_words:
  "words_at t a (aux_words aux @ AT_ENTRY # entry # rest) \<Longrightarrow> AT_NULL \<notin> fst ` set aux \<Longrightarrow>
     AT_ENTRY \<notin> fst ` set aux \<Longrightarrow>
     find_at_entry stale t a = Some (entry, a + of_nat (16 * length aux) + 8)"
proof (induction aux arbitrary: a)
  case Nil
  then show ?case using find_at_entry_step [of t a AT_ENTRY entry rest stale] by (simp add: aux_words_def)
next
  case (Cons x aux)
  obtain ty v where x: "x = (ty, v)" by fastforce
  have "aux_words (x # aux) = ty # v # aux_words aux" by (simp add: aux_words_def x)
  with Cons.prems(1) have "words_at t a (ty # v # (aux_words aux @ AT_ENTRY # entry # rest))" by simp
  from find_at_entry_step [OF this, of stale] Cons.IH [of "a + 16"] Cons.prems(2,3) show ?case
    by (auto simp: x algebra_simps)
qed

lemma take_le_bytes: "take k (le_bytes (k + m) v) = le_bytes k v"
  by (induction k arbitrary: v) auto

lemma argc_words:
  assumes "words_at t a [of_nat n]" "n < 2 ^ 31"
  shows "of_nat (le_value (fetch stale t a 4)) = (of_nat n :: u32)"
proof -
  have acc: "all_accessible t PROT_READ a 8" and pk: "peek (tr_mem t) a 8 = word_bytes (of_nat n)"
    using assms(1) by (simp_all add: words_at_def stack_bytes_def)
  have "fetch stale t a 4 = take 4 (peek (tr_mem t) a 8)"
    using all_accessible_part [OF acc, of 0 4] take_drop_peek [of 0 4 8 "tr_mem t" a]
    by (simp add: fetch_def read_proc_def Let_def)
  also have "\<dots> = le_bytes 4 n"
    using assms(2) take_le_bytes [of 4 4 n] unfolding pk by (simp add: word_bytes_def unat_of_nat)
  finally show ?thesis using assms(2) by (simp add: le_value_le_bytes)
qed

text \<open>
  C24: the words a kernel puts at the stack pointer of a new process (the count, that many
  arguments and a null pointer, the environment and a null pointer, the auxiliary vector) are
  read for what they are: the entry point is that of the vector, with the address of its word.
\<close>

theorem kernel_block_parsed:
  assumes "words_at t sp (of_nat (length args) # args @ 0 # env @ 0 # aux_words aux @ AT_ENTRY # entry # rest)"
    and "length args < 2 ^ 31" "0 \<notin> set env" "AT_NULL \<notin> fst ` set aux" "AT_ENTRY \<notin> fst ` set aux"
  shows "parse_block stale t sp =
     Some (entry, sp + of_nat (8 * (length args + length env + 2 * length aux + 4)))"
proof -
  let ?tail = "aux_words aux @ AT_ENTRY # entry # rest"
  let ?envp = "sp + 8 * of_nat (length args) + 16"
  have w: "words_at t sp [of_nat (length args)]" "words_at t (sp + 8) (args @ 0 # env @ 0 # ?tail)"
    using words_at_Cons [OF assms(1)] by simp_all
  have "words_at t (sp + 8 + of_nat (8 * length args)) (0 # env @ 0 # ?tail)"
    using words_at_append [OF w(2)] by blast
  then have we: "words_at t ?envp (env @ 0 # ?tail)"
    using words_at_Cons by (fastforce simp: algebra_simps)
  have "scast (of_nat (length args) :: u32) = (of_nat (length args) :: u64)"
    using assms(2) by (simp add: scast_eq signed_of_nat signed_take_bit_int_eq_self)
  then have e: "envp_of stale t sp = ?envp"
    using argc_words [OF w(1) assms(2)] by (simp add: envp_of_def Let_def algebra_simps)
  have s: "skip_env stale t ?envp = Some (?envp + of_nat (8 * length env))"
    by (rule skip_env_words [OF we assms(3)])
  have "words_at t (?envp + of_nat (8 * length env)) (0 # ?tail)"
    using words_at_append [OF we] by blast
  then have "words_at t (?envp + of_nat (8 * length env) + 8) ?tail" using words_at_Cons by blast
  from find_at_entry_words [OF this assms(4,5), of stale] show ?thesis
    unfolding parse_block_def e s option.case by (simp add: algebra_simps)
qed

end
