(* ===== verification/Cso_Load_Properties.thy ===== *)
theory Cso_Load_Properties
  imports Csoloader_Properties
begin

text \<open>
  What the remote loader does to the tracee's memory: where it maps, what it relocates, what it
  hands over, and the failures it does not notice.
\<close>

section \<open>Mappings stay inside the reservation\<close>

lemma page_start_shift:
  assumes "k < 64" "2 ^ k dvd unat base" "unat base + d < 2 ^ 64"
  shows "unat (page_start (2 ^ k) (base + of_nat d)) = unat base + d div 2 ^ k * 2 ^ k"
proof -
  from assms(2) obtain m where m: "unat base = 2 ^ k * m" by (elim dvdE)
  have "unat (base + of_nat d) = unat base + d"
    using assms(3) by (simp add: unat_word_ariths(1) unat_of_nat)
  then show ?thesis
    by (simp add: unat_page_start [OF assms(1)] m algebra_simps)
qed

lemma page_end_shift:
  assumes "k < 64" "2 ^ k dvd unat base" "unat base + d + 2 ^ k \<le> 2 ^ 64"
  shows "unat (page_end (2 ^ k) (base + of_nat d)) = unat base + (d + (2 ^ k - 1)) div 2 ^ k * 2 ^ k"
proof -
  from assms(2) obtain m where m: "unat base = 2 ^ k * m" by (elim dvdE)
  have p: "(0::nat) < 2 ^ k" by simp
  then have l: "unat base + d < 2 ^ 64" using assms(3) by linarith
  then have u: "unat (base + of_nat d) = unat base + d"
    by (simp add: unat_word_ariths(1) unat_of_nat)
  have "unat (page_end (2 ^ k) (base + of_nat d)) = (unat base + d + (2 ^ k - 1)) div 2 ^ k * 2 ^ k"
    using unat_page_end [OF assms(1), of "base + of_nat d"] assms(3) u by simp
  also have "\<dots> = (2 ^ k * m + (d + (2 ^ k - 1))) div 2 ^ k * 2 ^ k" by (simp add: m add.assoc)
  also have "\<dots> = unat base + (d + (2 ^ k - 1)) div 2 ^ k * 2 ^ k"
    by (simp add: m algebra_simps)
  finally show ?thesis .
qed

text \<open>Everything the loader maps for \<open>p\<close> lies between \<open>base\<close> and \<open>base + span\<close>.\<close>

definition mapped_inside :: "u64 \<Rightarrow> u64 \<Rightarrow> seg_layout \<Rightarrow> bool" where
  "mapped_inside base span l \<longleftrightarrow>
     unat base \<le> unat (sl_page l) \<and> unat (sl_page_end l) \<le> unat base + unat span \<and>
     unat (sl_file_page_end l) \<le> unat (sl_page_end l) \<and>
     unat (sl_page l) \<le> unat (sl_page_end l)"


section \<open>Failed mappings\<close>

text \<open>
  the loader takes only \<open>-1\<close> for a failed mapping, but a system call reports the error \<open>e\<close> as
  \<open>-e\<close>: a reservation the kernel refused with any error but \<open>EPERM\<close> counts as one at the top of
  the address space, and the loading goes on with it.
\<close>

theorem refused_reservation_accepted:
  assumes "obliging w" "wd_script w = Stops s1 f # Stops s2 g # es" "WIFSTOPPED s1" "WIFSTOPPED s2"
    and "tr_regs (g (f ((wd_tracee w)\<lparr> tr_regs := syscall_setup (ld_arch L) (ld_gadget L)
           (sysnr_of (ld_arch L) NR_mmap)
           [0x100000000, span, 0, 34, - 1, 0] regs \<rparr>))) (REG_RET (ld_arch L)) = - of_nat e"
    and "2 \<le> e" "e < 4096"
  shows "\<exists>w'. reserve_span L span fd regs w = Inr (Some (- of_nat e), tr_regs (wd_tracee w), w')"
proof -
  let ?args = "[0x100000000, span, 0, 34, - 1, 0] :: u64 list"
  obtain w' where r: "remote_syscall (ld_arch L) (ld_gadget L) (sysnr_of (ld_arch L) NR_mmap) ?args regs w =
      Inr (- of_nat e, tr_regs (wd_tracee w), w')"
    using remote_syscall_effect [OF assms(1-4) refl, of "ld_arch L" "ld_gadget L"
        "sysnr_of (ld_arch L) NR_mmap" ?args regs] assms(5) by auto
  have u: "unat (- of_nat e :: u64) = 2 ^ 64 - e"
  proof -
    have "(of_nat (2 ^ 64) :: u64) = 0" by simp
    then have "(- of_nat e :: u64) = of_nat (2 ^ 64 - e)"
      using assms(7) by (subst of_nat_diff) simp_all
    then show ?thesis using assms(6,7) by (simp only: unat_of_nat) simp
  qed
  have "(- of_nat e :: u64) \<noteq> 0" "(- of_nat e :: u64) \<noteq> - 1" "\<not> (- of_nat e :: u64) < 0x100000000"
  proof -
    have "unat (of_nat e :: u64) = e" using assms(7) by (simp add: unat_of_nat)
    then show "(- of_nat e :: u64) \<noteq> 0" "(- of_nat e :: u64) \<noteq> - 1" using assms(6) by auto
    show "\<not> (- of_nat e :: u64) < 0x100000000" using u assms(7) by (simp add: word_less_nat_alt)
  qed
  then show ?thesis
    unfolding reserve_span_def remote_def using r by simp
qed

section \<open>Relocation\<close>

text \<open>The entries of a table, each with the value it asks for.\<close>

definition rela_write ::
  "arch \<Rightarrow> elf_file \<Rightarrow> (u64 \<Rightarrow> u64 option) \<Rightarrow> u64 \<Rightarrow> u64 \<Rightarrow> nat \<Rightarrow> (u64 \<times> u64) option" where
  "rela_write a f rsv bias off i =
     (case f (off + of_nat (i * 24)) 24 of
        None \<Rightarrow> None
      | Some b \<Rightarrow> map_option (\<lambda>v. (bias + rl_offset (decode_rela b), v)) (rela_value a rsv bias (decode_rela b)))"

definition store_words :: "(u64 \<times> u64) list \<Rightarrow> (u64 \<Rightarrow> u8) \<Rightarrow> u64 \<Rightarrow> u8" where
  "store_words ws m = foldl (\<lambda>m (x, v). poke m x (word_bytes v)) m ws"

lemma write_remote_addr_ok:
  "write_remote_addr x v w = (True, w') \<Longrightarrow>
     w' = w\<lparr> wd_tracee := (wd_tracee w)\<lparr> tr_mem := poke (tr_mem (wd_tracee w)) x (word_bytes v) \<rparr> \<rparr>"
proof -
  assume a: "write_remote_addr x v w = (True, w')"
  obtain n w1 where wr: "write_remote x (word_bytes v) w = (n, w1)" by fastforce
  with a have "n = int (length (word_bytes v))" "w' = w1" by (simp_all add: write_remote_addr_def)
  with wr write_remote_full [of x "word_bytes v" w w1] show ?thesis by simp
qed

lemma apply_rela_loop_exact:
  "apply_rela_loop a f rsv bias off n i w = (True, w') \<Longrightarrow>
     \<exists>ws. map (rela_write a f rsv bias off) [i..<i + n] = map Some ws \<and>
       w' = w\<lparr> wd_tracee := (wd_tracee w)\<lparr> tr_mem := store_words ws (tr_mem (wd_tracee w)) \<rparr> \<rparr>"
proof (induction n arbitrary: i w)
  case 0
  then show ?case by (intro exI [of _ "[]"]) (simp add: store_words_def)
next
  case (Suc n)
  then obtain b where b: "f (off + of_nat (i * 24)) 24 = Some b"
    by (cases "f (off + of_nat (i * 24)) 24") (simp_all only: apply_rela_loop.simps option.case prod.inject simp_thms)
  let ?r = "decode_rela b"
  from Suc.prems obtain v where v: "rela_value a rsv bias ?r = Some v"
    unfolding apply_rela_loop.simps b option.case Let_def by (cases "rela_value a rsv bias ?r") simp_all
  obtain ok w1 where wr: "write_remote_addr (bias + rl_offset ?r) v w = (ok, w1)" by fastforce
  have ok: "ok" and l: "apply_rela_loop a f rsv bias off n (Suc i) w1 = (True, w')"
    using Suc.prems unfolding apply_rela_loop.simps b option.case Let_def v wr prod.case
    by (simp_all split: if_splits)
  have w1: "w1 = w\<lparr> wd_tracee := (wd_tracee w)\<lparr> tr_mem :=
      poke (tr_mem (wd_tracee w)) (bias + rl_offset ?r) (word_bytes v) \<rparr> \<rparr>"
    using write_remote_addr_ok [of "bias + rl_offset ?r" v w w1] wr ok by simp
  from Suc.IH [OF l] obtain ws where ws: "map (rela_write a f rsv bias off) [Suc i..<Suc i + n] = map Some ws"
    "w' = w1\<lparr> wd_tracee := (wd_tracee w1)\<lparr> tr_mem := store_words ws (tr_mem (wd_tracee w1)) \<rparr> \<rparr>" by auto
  have h: "rela_write a f rsv bias off i = Some (bias + rl_offset ?r, v)"
    unfolding rela_write_def b option.case v by simp
  have u: "[i..<i + Suc n] = i # [Suc i..<Suc i + n]" by (simp add: upt_rec)
  show ?case
    by (rule exI [of _ "(bias + rl_offset ?r, v) # ws"], unfold u list.map)
      (use ws h w1 in \<open>simp add: store_words_def\<close>)
qed

definition apart :: "u64 \<Rightarrow> u64 \<Rightarrow> bool" where
  "apart x y \<longleftrightarrow> 8 \<le> unat (x - y) \<and> 8 \<le> unat (y - x)"

lemma apart_outside: "apart x y \<Longrightarrow> i < 8 \<Longrightarrow> \<not> in_region (y + of_nat i) x 8"
proof
  assume a: "apart x y" and i: "i < 8" and r: "in_region (y + of_nat i) x 8"
  have z: "y - x \<noteq> 0" using a by (auto simp: apart_def)
  have "unat (x - y) + unat (y - x) = 2 ^ 64"
  proof -
    have "unat x < 2 ^ 64" "unat y < 2 ^ 64" "unat x \<noteq> unat y"
      using z unsigned_less [of x, where ?'a = nat] unsigned_less [of y, where ?'a = nat]
        word_unat_eq_iff [of x y] by simp_all
    then show ?thesis by (auto simp: unat_sub_if' word_le_nat_alt)
  qed
  then have c: "unat (y - x) + 8 \<le> 2 ^ 64" using a by (simp add: apart_def)
  have "y + of_nat i - x = (y - x) + of_nat i" by simp
  then have "unat (y + of_nat i - x) = unat ((y - x) + of_nat i)" by (rule arg_cong)
  also have "\<dots> = (unat (y - x) + i) mod 2 ^ 64"
    unfolding unat_word_ariths(1) unat_of_nat using i by simp
  also have "\<dots> = unat (y - x) + i" using c i by simp
  finally show False using r a by (simp add: in_region_def apart_def)
qed

lemma store_words_outside:
  "list_all (\<lambda>(t, _). \<not> in_region x t 8) ws \<Longrightarrow> store_words ws m x = m x"
proof (induction ws arbitrary: m)
  case (Cons p ws)
  obtain t v where p: "p = (t, v)" by fastforce
  have "store_words (p # ws) m = store_words ws (poke m t (word_bytes v))"
    by (simp add: store_words_def p)
  with Cons show ?case by (simp add: p poke_outside)
qed (simp add: store_words_def)

lemma store_words_at:
  "sorted_wrt (\<lambda>p q. apart (fst p) (fst q)) ws \<Longrightarrow> (t, v) \<in> set ws \<Longrightarrow>
     peek (store_words ws m) t 8 = word_bytes v"
proof (induction ws arbitrary: m)
  case (Cons p ws)
  obtain t1 v1 where p: "p = (t1, v1)" by fastforce
  have step: "store_words (p # ws) m = store_words ws (poke m t1 (word_bytes v1))"
    by (simp add: store_words_def p)
  show ?case
  proof (cases "(t, v) \<in> set ws")
    case True
    with Cons show ?thesis by (simp add: step)
  next
    case False
    with Cons.prems(2) have tv: "t = t1" "v = v1" by (auto simp: p)
    have "\<not> in_region (t + of_nat i) t' 8" if "i < 8" "(t', v') \<in> set ws" for i t' v'
    proof -
      have "apart t t'" using Cons.prems(1) that(2) tv(1) by (auto simp: p)
      then have "apart t' t" by (auto simp: apart_def)
      then show ?thesis using apart_outside that(1) by blast
    qed
    then have "peek (store_words ws m') t 8 = peek m' t 8" for m'
      unfolding peek_def by (auto intro!: store_words_outside simp: list_all_iff)
    then show ?thesis
      using peek_poke_same [of "word_bytes v1" m t1] by (simp add: step tv)
  qed
qed simp


section \<open>The entry\<close>

text \<open>
  C13: a load that succeeds hands over a base above 4 GiB, the size of the span, and as entry the
  load address of a symbol that the library's own table defines under the name \<open>entry\<close>.
\<close>

theorem loaded_entry:
  assumes "remote_csoloader_load_and_resolve_entry a ps file E path regs w = Inr (Some (base, span, entry), regs', w')"
  shows "\<exists>f eh phs lo d k. file = Some f \<and>
     compute_load_layout f (of_int ps) = Some (eh, phs, lo, span) \<and>
     elf_load_dyn_info f phs = Some (Some d) \<and> is_definition f d ''entry'' (of_nat k) \<and>
     map_option (\<lambda>sy. base - lo + sy_value sy) (sym_at f d (of_nat k)) = Some entry \<and>
     0x100000000 \<le> base \<and> base \<noteq> - 1"
proof -
  have ps: "\<not> ps \<le> 0" using assms by (auto simp: remote_csoloader_load_and_resolve_entry_def)
  from assms ps obtain f where f: "file = Some f"
    by (cases "file") (auto simp: remote_csoloader_load_and_resolve_entry_def)
  from assms ps f obtain eh phs lo span' where l: "compute_load_layout f (of_int ps) = Some (eh, phs, lo, span')"
    by (cases "compute_load_layout f (of_int ps)") (auto simp: remote_csoloader_load_and_resolve_entry_def)
  let ?g = "find_syscall_gadget a (wd_tracee w) (lk_remote E)"
  let ?L = "\<lparr> ld_arch = a, ld_page_size = of_int ps, ld_file = f, ld_path = path, ld_env = E, ld_gadget = ?g \<rparr>"
  have g: "?g \<noteq> 0"
    using assms ps unfolding remote_csoloader_load_and_resolve_entry_def f option.case l prod.case Let_def
    by (auto split: if_splits)
  from assms ps g obtain fd r1 w1 b r2 w2 d r5 w5 r7 w7 where
    res: "reserve_span ?L span' fd r1 w1 = Inr (Some b, r2, w2)" and
    rel: "\<exists>r4 w4. relocate ?L phs (b - lo) r4 w4 = Inr (Some d, r5, w5)" and
    ho: "hand_over_entry ?L b span' regs (b - lo) d r7 w7 = Inr (Some (base, span, entry), regs', w')"
    unfolding remote_csoloader_load_and_resolve_entry_def f option.case l prod.case Let_def
    by (clarsimp simp: and_then_success) blast
  have d: "elf_load_dyn_info f phs = Some (Some d)"
  proof -
    from rel obtain r4 w4 where r: "relocate ?L phs (b - lo) r4 w4 = Inr (Some d, r5, w5)" by blast
    then obtain d' where d': "elf_load_dyn_info f phs = Some (Some d')"
      by (simp add: relocate_def split: option.splits)
    obtain ok w4' where "apply_relocations a f d' E (needed_paths ?L d') (b - lo) w4 = (ok, w4')"
      by fastforce
    with r d' show ?thesis by (simp add: relocate_def split: if_splits)
  qed
  obtain v where v: "find_dynsym_value f d ''entry'' = Some v"
    using ho by (cases "find_dynsym_value f d ''entry''")
      (auto simp: hand_over_entry_def unmap_and_restore_def)
  have out: "base = b" "span = span'" "entry = b - lo + v"
    using ho v by (auto simp: hand_over_entry_def fail_after_def split: prod.splits if_splits)
  have b: "0x100000000 \<le> b" "b \<noteq> - 1"
    using res by (auto simp: reserve_span_def fail_after_def split: if_splits)
  from v obtain k where "is_definition f d ''entry'' (of_nat k)"
    "map_option sy_value (sym_at f d (of_nat k)) = Some v"
    unfolding find_dynsym_value_exact by auto
  with f l d out b show ?thesis by auto
qed

end
