(* ===== verification/Cso_Runs.thy ===== *)
theory Cso_Runs
  imports Cso_Load_Properties "HOL-Library.Code_Target_Nat"
begin

text \<open>
  Concrete runs of the remote loader: a small library of one segment that defines \<open>entry\<close>, loaded
  into a tracee that answers every system call, and the properties at these runs.
\<close>

text \<open>
  The parts of the file by their offsets: the headers, one loadable segment of 0x200 bytes, the
  dynamic section, the hash table of one bucket, two symbols and the string table.
\<close>

definition entry_parts :: "(u64 \<times> u8 list) list" where
  "entry_parts =
     [(0, [127, 69, 76, 70, 0, 0, 0, 0, 0, 0, 0, 0, 0, 0, 0, 0, 0, 0, 0, 0, 0, 0, 0, 0, 0, 0, 0,
       0, 0, 0, 0, 0, 64, 0, 0, 0, 0, 0, 0, 0, 0, 0, 0, 0, 0, 0, 0, 0, 0, 0, 0, 0, 0, 0, 0, 0, 2,
       0, 0, 0, 0, 0, 0, 0]),
      (64, [1, 0, 0, 0, 4, 0, 0, 0, 0, 0, 0, 0, 0, 0, 0, 0, 0, 0, 0, 0, 0, 0, 0, 0, 0, 0, 0, 0, 0,
       0, 0, 0, 0, 2, 0, 0, 0, 0, 0, 0, 0, 2, 0, 0, 0, 0, 0, 0, 0, 0, 0, 0, 0, 0, 0, 0, 2, 0, 0, 0,
       4, 0, 0, 0, 176, 0, 0, 0, 0, 0, 0, 0, 176, 0, 0, 0, 0, 0, 0, 0, 0, 0, 0, 0, 0, 0, 0, 0, 80,
       0, 0, 0, 0, 0, 0, 0, 80, 0, 0, 0, 0, 0, 0, 0, 0, 0, 0, 0, 0, 0, 0, 0]),
      (176, [6, 0, 0, 0, 0, 0, 0, 0, 24, 1, 0, 0, 0, 0, 0, 0, 5, 0, 0, 0, 0, 0, 0, 0, 72, 1, 0, 0,
       0, 0, 0, 0, 10, 0, 0, 0, 0, 0, 0, 0, 7, 0, 0, 0, 0, 0, 0, 0, 245, 254, 255, 111, 0, 0, 0, 0,
       0, 1, 0, 0, 0, 0, 0, 0, 0, 0, 0, 0, 0, 0, 0, 0, 0, 0, 0, 0, 0, 0, 0, 0]),
      (256, [1, 0, 0, 0, 1, 0, 0, 0, 0, 0, 0, 0, 0, 0, 0, 0]),
      (272, [1, 0, 0, 0]),
      (276, [1, 0, 0, 0]),
      (280, [0, 0, 0, 0, 0, 0, 0, 0, 0, 0, 0, 0, 0, 0, 0, 0, 0, 0, 0, 0, 0, 0, 0, 0]),
      (304, [1, 0, 0, 0, 18, 0, 1, 0, 32, 0, 0, 0, 0, 0, 0, 0, 0, 0, 0, 0, 0, 0, 0, 0]),
      (328, [0, 101, 110, 116, 114, 121, 0])]"

definition entry_file :: elf_file where
  "entry_file off n =
     (case map_of entry_parts off of Some b \<Rightarrow> if length b = n then Some b else None | None \<Rightarrow> None)"

definition sample_libc :: map_info where
  "sample_libc = \<lparr> mp_start = 0x5000, mp_end = 0x6000, mp_perms = 1, mp_private = True, mp_offset = 0,
                   mp_dev = 0, mp_inode = 9, mp_path = ''/lib/libc.so'' \<rparr>"

definition sample_env :: link_env where
  "sample_env = \<lparr> lk_lookup = (\<lambda>_ _. None), lk_local = [], lk_remote = [sample_vdso, sample_libc] \<rparr>"

text \<open>A system call that returns \<open>r\<close>, as its two stops.\<close>

definition answers :: "u64 \<Rightarrow> event list" where
  "answers r = [Stops (stop_status 5 0) id,
                Stops (stop_status 5 0) (\<lambda>t. t\<lparr> tr_regs := (tr_regs t)(Rax := r) \<rparr>)]"

text \<open>The answers to openat, the two mmap, close and mprotect.\<close>

definition load_script :: "event list" where
  "load_script = answers 5 @ answers 0x200000000 @ answers 0x200000000 @ answers 0 @ answers 0"

definition load_run :: "(u64 \<times> u64 \<times> u64) step" where
  "load_run = remote_csoloader_load_and_resolve_entry X86_64 4096 (Some entry_file) sample_env
     ''/x'' (tr_regs sample_tracee) (sample_world load_script)"

definition entry_phs :: "phdr list" where
  "entry_phs =
     [\<lparr> ph_type = 1, ph_flags = 4, ph_offset = 0, ph_vaddr = 0, ph_filesz = 0x200, ph_memsz = 0x200 \<rparr>,
      \<lparr> ph_type = 2, ph_flags = 4, ph_offset = 176, ph_vaddr = 176, ph_filesz = 80, ph_memsz = 80 \<rparr>]"

definition entry_dyn :: dyn_info where
  "entry_dyn =
     \<lparr> di_symtab_off = 0x118, di_strtab_off = 0x148, di_rel_off = 0, di_rel_sz = 0, di_rela_off = 0,
       di_rela_sz = 0, di_jmprel_off = 0, di_jmprel_sz = 0, di_pltrel_type = 0, di_syment = 24,
       di_strsz = 7, di_nsyms = 2, di_strtab = [0, 101, 110, 116, 114, 121, 0], di_needed = [],
       di_init_vaddr = 0, di_init_array_vaddr = 0, di_init_array_sz = 0 \<rparr>"

lemma entry_layout:
  "map_option snd (compute_load_layout entry_file 4096) = Some (entry_phs, 0, 4096)"
  by code_simp

lemma entry_dyn_info: "elf_load_dyn_info entry_file entry_phs = Some (Some entry_dyn)"
  by code_simp

lemma entry_symbol: "find_dynsym_value entry_file entry_dyn ''entry'' = Some 0x20"
  by code_simp

lemma entry_gadget: "find_syscall_gadget X86_64 sample_tracee (lk_remote sample_env) = 0x8000"
  by code_simp

lemma benign_call:
  assumes "benign regs (answers r @ es) w" "ld_arch L = X86_64"
  shows "\<exists>w'. remote L nr args regs0 w = Inr (r, regs, w') \<and> benign regs es w'"
proof -
  have st: "WIFSTOPPED (stop_status 5 0)" by code_simp
  have o: "obliging w" and sc: "wd_script w = Stops (stop_status 5 0) id #
      Stops (stop_status 5 0) (\<lambda>t. t\<lparr> tr_regs := (tr_regs t)(Rax := r) \<rparr>) # es"
    using assms(1) by (simp_all add: benign_def at_rest_def answers_def)
  from remote_syscall_effect [OF o sc st st refl, of X86_64 "ld_gadget L" "sysnr_of X86_64 nr" args regs0]
  show ?thesis using assms by (auto simp: remote_def benign_def at_rest_def)
qed

lemma benign_open:
  assumes "benign regs (answers fd @ es) w" "ld_arch L = X86_64" "\<not> sint fd < 0"
  shows "\<exists>w'. open_remote L regs w = Inr (Some fd, regs, w') \<and> benign regs es w'"
proof -
  let ?path = "c_string (ld_path L)"
  let ?rp = "regs (REG_SP (ld_arch L)) - of_nat (align16 (length ?path))"
  obtain w1 where w1: "write_remote ?rp ?path w = (int (length ?path), w1)" "benign regs (answers fd @ es) w1"
    using benign_write [OF assms(1)] by blast
  obtain w2 where w2: "remote L NR_openat [AT_FDCWD, ?rp, O_RDONLY_CLOEXEC, 0]
      (regs(REG_SP (ld_arch L) := ?rp)) w1 = Inr (fd, regs, w2)" "benign regs es w2"
    using benign_call [OF w1(2) assms(2)] by blast
  obtain w3 where w3: "write_remote ?rp (replicate (align16 (length ?path)) 0) w2 =
      (int (length (replicate (align16 (length ?path)) (0 :: u8))), w3)" "benign regs es w3"
    using benign_write [OF w2(2)] by blast
  show ?thesis
    unfolding open_remote_def Let_def w1(1) prod.case using assms(3) w2(1) w3 by simp
qed

definition run_loader :: loader where
  "run_loader = \<lparr> ld_arch = X86_64, ld_page_size = 4096, ld_file = entry_file, ld_path = ''/x'',
                  ld_env = sample_env, ld_gadget = 0x8000 \<rparr>"

lemma run_call:
  assumes "benign regs (answers r @ es) w"
  shows "\<exists>w'. remote run_loader nr args regs0 w = Inr (r, regs, w') \<and> benign regs es w'"
  by (rule benign_call [OF assms]) (simp add: run_loader_def)

definition run_segs :: segs where
  "run_segs = [(0x200000000, 4096, 1)]"

lemma run_map_segments:
  assumes "benign regs (answers 0x200000000 @ es) w"
  shows "\<exists>w'. map_segments run_loader 5 0x200000000 entry_phs [] regs w = Inr (Some run_segs, regs, w') \<and>
     benign regs es w'"
proof -
  let ?p = "entry_phs ! 0"
  let ?l = "\<lparr> sl_page = 0x200000000, sl_page_end = 0x200001000, sl_file_off = 0,
              sl_file_end = 0x200000200, sl_file_page_end = 0x200001000 \<rparr>"
  have l: "segment_layout 4096 0x200000000 ?p = ?l" by code_simp
  obtain w1 where w1: "remote run_loader NR_mmap [0x200000000, 4096, 3, MAP_FIXED OR MAP_PRIVATE, 5, 0] regs w =
      Inr (0x200000000, regs, w1)" "benign regs es w1"
    using run_call [OF assms] by blast
  have f: "map_file_part run_loader 5 ?p ?l regs w = Inr (Some (), regs, w1)"
    using w1(1) by (simp add: map_file_part_def entry_phs_def has_perm_def)
  have b: "map_bss_part run_loader 5 ?l regs w1 = Inr (Some (), regs, w1)"
    by (simp add: map_bss_part_def)
  have r: "record_segment ?p ?l [] = run_segs" by code_simp
  have e: "entry_phs = [?p, entry_phs ! 1]" "ph_type ?p = 1" "ph_type (entry_phs ! 1) = 2"
    by (simp_all add: entry_phs_def)
  show ?thesis
    by (subst e(1)) (use w1(2) l f b r e(2,3) in \<open>simp add: Let_def run_loader_def\<close>)
qed

lemma load_run_result:
  "\<exists>w'. load_run = Inr (Some (0x200000000, 4096, 0x200000020), tr_regs sample_tracee, w')"
proof -
  let ?r = "tr_regs sample_tracee" and ?L = run_loader
  let ?w = "sample_world load_script"
  obtain eh where lay: "compute_load_layout entry_file 4096 = Some (eh, entry_phs, 0, 4096)"
    using entry_layout by auto
  have "benign ?r load_script ?w"
    by (simp add: benign_def at_rest_def obliging_def sample_world_def sample_tracee_def)
  then obtain w1 where w1: "open_remote ?L ?r ?w = Inr (Some 5, ?r, w1)"
    "benign ?r (answers 0x200000000 @ answers 0x200000000 @ answers 0 @ answers 0) w1"
    using benign_open [of ?r 5 _ ?w ?L] by (auto simp: load_script_def run_loader_def)
  from run_call [OF w1(2)] obtain w2 where
    m2: "remote ?L NR_mmap [0x100000000, 4096, 0, MAP_PRIVATE OR MAP_ANONYMOUS, - 1, 0] ?r w1 =
      Inr (0x200000000, ?r, w2)"
    and b2: "benign ?r (answers 0x200000000 @ answers 0 @ answers 0) w2" by blast
  have w2: "reserve_span ?L 4096 5 ?r w1 = Inr (Some 0x200000000, ?r, w2)"
    unfolding reserve_span_def m2 by simp
  from run_map_segments [OF b2] obtain w3 where
    w3: "map_segments ?L 5 0x200000000 entry_phs [] ?r w2 = Inr (Some run_segs, ?r, w3)"
    "benign ?r (answers 0 @ answers 0) w3" by auto
  obtain w4 where w4: "remote ?L NR_close [5] ?r w3 = Inr (0, ?r, w4)" "benign ?r (answers 0) w4"
    using run_call [OF w3(2)] by blast
  have w5: "relocate ?L entry_phs 0x200000000 ?r w4 = Inr (Some entry_dyn, ?r, w4)"
    using entry_dyn_info by (simp add: relocate_def run_loader_def apply_relocations_def entry_dyn_def)
  have "benign ?r (answers 0 @ []) w4" using w4(2) by simp
  from run_call [OF this] obtain w6 where m6: "remote ?L NR_mprotect [0x200000000, 4096, 1] ?r w4 = Inr (0, ?r, w6)"
    and b6: "benign ?r [] w6"
    by blast
  have w6: "protect_segments ?L 0x200000000 4096 run_segs ?r w4 = Inr (Some (), ?r, w6)"
    by (simp add: run_segs_def m6)
  have w7: "run_constructors ?L 0x200000000 4096 ?r 0x200000000 entry_dyn ?r w6 = Inr (Some (), ?r, w6)"
    by (simp add: run_constructors_def run_loader_def sample_env_def sample_libc_def sample_vdso_def
        find_module_return_addr_def has_perm_def ends_with_def entry_dyn_def)
  obtain w8 where w8: "hand_over_entry ?L 0x200000000 4096 ?r 0x200000000 entry_dyn ?r w6 =
      Inr (Some (0x200000000, 4096, 0x200000020), ?r, w8)"
    using entry_symbol b6
    by (auto simp: hand_over_entry_def run_loader_def benign_def at_rest_def set_regs_obliging)
  have "load_run = Inr (Some (0x200000000, 4096, 0x200000020), ?r, w8)"
    using w1(1) w2 w3(1) w4(1) w5 w6 w7 w8 entry_gadget
    by (simp add: load_run_def remote_csoloader_load_and_resolve_entry_def lay Let_def
        sample_world_def run_loader_def)
  then show ?thesis by blast
qed

lemma loader_preserves_registers_witness:
  "\<exists>w'. load_run = Inr (Some (0x200000000, 4096, 0x200000020), tr_regs sample_tracee, w') \<and>
     tr_regs (wd_tracee w') = tr_regs sample_tracee"
proof -
  obtain w' where r: "load_run = Inr (Some (0x200000000, 4096, 0x200000020), tr_regs sample_tracee, w')"
    using load_run_result by blast
  have "obliging (sample_world load_script)"
    "tr_regs (wd_tracee (sample_world load_script)) = tr_regs sample_tracee"
    by (simp_all add: obliging_def sample_world_def)
  from loader_preserves_registers [OF this r [unfolded load_run_def]] r show ?thesis by blast
qed

lemma loaded_entry_witness:
  "\<exists>w'. load_run = Inr (Some (0x200000000, 4096, 0x200000020), tr_regs sample_tracee, w') \<and>
     find_dynsym_value entry_file entry_dyn ''entry'' = Some 0x20 \<and> (0x100000000 :: u64) \<le> 0x200000000"
proof -
  obtain w' where r: "load_run = Inr (Some (0x200000000, 4096, 0x200000020), tr_regs sample_tracee, w')"
    using load_run_result by blast
  from loaded_entry [OF r [unfolded load_run_def]] have "(0x100000000 :: u64) \<le> 0x200000000" by blast
  with r entry_symbol show ?thesis by blast
qed


lemma refused_reservation_accepted_witness:
  "\<exists>w'. reserve_span run_loader 4096 5 (tr_regs sample_tracee) (sample_world (answers (- 12))) =
     Inr (Some (- 12), tr_regs sample_tracee, w')"
proof -
  let ?f = "\<lambda>t. t\<lparr> tr_regs := (tr_regs t)(Rax := - 12) \<rparr>"
  have st: "WIFSTOPPED (stop_status 5 0)" by code_simp
  have o: "obliging (sample_world (answers (- 12)))" by (simp add: obliging_def sample_world_def)
  have sc: "wd_script (sample_world (answers (- 12))) = Stops (stop_status 5 0) id # Stops (stop_status 5 0) ?f # []"
    by (simp add: sample_world_def answers_def)
  from refused_reservation_accepted [OF o sc st st, where L = run_loader and span = 4096 and
      regs = "tr_regs sample_tracee" and e = 12 and fd = 5]
  show ?thesis by (simp add: run_loader_def sample_world_def)
qed

text \<open>One relative entry of a 64-bit ARM library: the word at 0x30 becomes the bias plus five.\<close>

definition rela_file :: elf_file where
  "rela_file off n =
     (if n = 24 then Some [0x30, 0, 0, 0, 0, 0, 0, 0, 3, 4, 0, 0, 0, 0, 0, 0, 5, 0, 0, 0, 0, 0, 0, 0] else None)"


lemma find_dynsym_value_exact_witness:
  "\<exists>k<2. is_definition entry_file entry_dyn ''entry'' (of_nat k)"
proof -
  from find_dynsym_value_exact [of entry_file entry_dyn "''entry''" "0x20"] entry_symbol
  show ?thesis by (auto simp: entry_dyn_def)
qed

end
