(* ===== verification/Inject_Runs.thy ===== *)
theory Inject_Runs
  imports Inject_Properties Kernel_Block Cso_Runs
begin

text \<open>
  Whole runs of the injection: a process that plays along is injected and resumes at its entry;
  one that stops for another reason is let go.  Concrete processes show that the properties
  apply.
\<close>

section \<open>A process that plays along\<close>

lemma benign_ask: "benign r es w \<Longrightarrow> \<exists>w'. ask q w = (True, w') \<and> benign r es w'"
  using ask_obliging [of w q] by (auto simp: benign_def at_rest_def)

lemma benign_get: "benign r es w \<Longrightarrow> \<exists>w'. get_regs r0 w = ((True, r), w') \<and> benign r es w'"
  using ask_obliging [of w Req_getregs] by (auto simp: benign_def at_rest_def get_regs_obliging)

lemma benign_set: "benign r es w \<Longrightarrow> \<exists>w'. set_regs r' w = (True, w') \<and> benign r' es w'"
  using ask_obliging [of w Req_setregs] by (auto simp: benign_def at_rest_def set_regs_obliging)

definition sets :: "regs \<Rightarrow> tracee \<Rightarrow> tracee" where
  "sets r t = t\<lparr> tr_regs := r \<rparr>"

text \<open>The process stops by a signal, with these registers.\<close>

abbreviation (input) halts_with :: "regs \<Rightarrow> event" where
  "halts_with r \<equiv> Stops (stop_status SIGSEGV 0) (sets r)"

lemma segv_status: "WIFSTOPPED (stop_status 11 0)" "\<not> is_seccomp_stop (stop_status 11 0)"
  "WSTOPSIG (stop_status 11 0) = 11"
  by code_simp+

lemma sigstop_status: "WIFSTOPPED (stop_status 19 0)" "\<not> is_seccomp_stop (stop_status 19 0)"
  "WSTOPSIG (stop_status 19 0) = 19"
  by code_simp+

lemma benign_wait:
  assumes "benign r0 (halts_with r # es) w"
  shows "\<exists>w'. wait_for_trace a w = Inr (stop_status 11 0, w') \<and> benign r es w'"
  using assms segv_status
  by (simp add: wait_for_trace_def benign_def at_rest_def sets_def Let_def)

lemma benign_push_words:
  "benign r es w \<Longrightarrow> \<exists>regs' w'. push_words a ws regs w = (True, regs', w') \<and> benign r es w'"
  using benign_write [of r es w "regs (REG_SP a) - of_nat (8 * length ws)" "stack_bytes ws"]
  by (auto simp: push_words_def Let_def)

lemma benign_call_setup:
  assumes "benign r es w"
  shows "\<exists>regs' w'. call_setup a f ra args regs w = (True, regs', w') \<and> benign r es w'"
proof (cases a)
  case Aarch64
  let ?r1 = "assign (call_regs Aarch64) args regs"
  obtain r2 w2 where p: "(if 8 < length args then push_words Aarch64 (drop 8 args) ?r1 w else (True, ?r1, w)) =
      (True, r2, w2)" "benign r es w2"
    using benign_push_words [OF assms] assms by (metis (full_types))
  then show ?thesis
    unfolding call_setup_def Aarch64 arch.case call_setup_aarch64_def Let_def p(1) prod.case by auto
next
  case X86_64
  let ?r1 = "assign (call_regs X86_64) args regs"
  obtain r2 w2 where p: "(if 6 < length args then push_words X86_64 (drop 6 args) ?r1 w else (True, ?r1, w)) =
      (True, r2, w2)" "benign r es w2"
    using benign_push_words [OF assms] assms by (metis (full_types))
  obtain r3 w3 where q: "push_words X86_64 [ra] r2 w2 = (True, r3, w3)" "benign r es w3"
    using benign_push_words [OF p(2)] by blast
  show ?thesis
    unfolding call_setup_def X86_64 arch.case call_setup_x86_64_def Let_def p(1) prod.case q(1)
    using q(2) by auto
qed

lemma benign_remote_call:
  assumes "benign r0 (halts_with r # es) w" "r (REG_IP a) = ra"
  shows "\<exists>w'. remote_call a f ra args regs w = Inr ((r (REG_RET a), True), r, w') \<and> benign r es w'"
proof -
  obtain r1 w1 where s1: "call_setup a f ra args (align_stack a 0 regs) w = (True, r1, w1)"
    and b1: "benign r0 (halts_with r # es) w1" using benign_call_setup [OF assms(1)] by blast
  obtain w2 where s2: "set_regs r1 w1 = (True, w2)" and b2: "benign r1 (halts_with r # es) w2"
    using benign_set [OF b1] by blast
  have "benign r1 (halts_with r # es) (resume (Req_cont 0) w2)"
    using b2 by (simp add: benign_def at_rest_def resume_def obliging_def)
  then obtain w3 where s3: "wait_for_trace a (resume (Req_cont 0) w2) = Inr (stop_status 11 0, w3)"
    and b3: "benign r es w3" using benign_wait by blast
  obtain w4 where s4: "get_regs r1 w3 = ((True, r), w4)" and b4: "benign r es w4"
    using benign_get [OF b3] by blast
  show ?thesis
    using b4 assms(2) segv_status(1) unfolding remote_call_def s1 prod.case s2 by (simp add: s3 s4)
qed

lemma benign_push:
  assumes "benign r es w"
  shows "\<exists>regs' w'. push_string a str regs w = ((regs (REG_SP a) - of_nat (length (c_string str))) AND STACK_ALIGN_MASK,
    regs', w') \<and> benign r es w'"
proof -
  let ?a = "(regs (REG_SP a) - of_nat (length (c_string str))) AND STACK_ALIGN_MASK"
  obtain w1 where "write_remote ?a (c_string str) w = (int (length (c_string str)), w1)" "benign r es w1"
    using benign_write [OF assms] by blast
  then show ?thesis by (simp add: push_string_def align_stack_def Let_def)
qed

lemma aligned_nonzero:
  assumes "16 \<le> unat x"
  shows "(x :: u64) AND STACK_ALIGN_MASK \<noteq> 0"
proof
  assume z: "x AND STACK_ALIGN_MASK = 0"
  have "x = (x AND STACK_ALIGN_MASK) OR (x AND 0xf)"
    by (rule bit_word_eqI) (auto simp: STACK_ALIGN_MASK_def bit_simps)
  then have "x = x AND 0xf" using z by simp
  then have "x \<le> 0xf" by (metis word_and_le1)
  then show False using assms by (simp add: word_le_nat_alt)
qed

lemma benign_await_trap:
  "benign r0 (replicate n (Stops (stop_status SIGSTOP 0) id) @ halts_with r # es) w \<Longrightarrow>
     \<exists>w'. await_trap a w = Inr (True, w') \<and> benign r es w'"
proof (induction n arbitrary: w)
  case 0
  obtain w1 where a: "ask (Req_cont 0) w = (True, w1)" and b: "benign r0 (halts_with r # es) w1"
    using benign_ask 0 by fastforce
  obtain w2 where s: "wait_for_trace a w1 = Inr (stop_status 11 0, w2)" and b2: "benign r es w2"
    using benign_wait [OF b] by blast
  show ?case
    using b2 segv_status WIF_exclusive(1,2) [OF segv_status(1)]
    by (subst await_trap.simps) (simp add: a s)
next
  case (Suc n)
  let ?es = "replicate n (Stops (stop_status SIGSTOP 0) id) @ halts_with r # es"
  obtain w1 where a: "ask (Req_cont 0) w = (True, w1)"
    and b: "benign r0 (Stops (stop_status SIGSTOP 0) id # ?es) w1"
    using benign_ask [OF Suc.prems [unfolded replicate_Suc append_Cons]] by blast
  have s: "wait_for_trace a w1 = Inr (stop_status 19 0, w1\<lparr> wd_script := ?es \<rparr>)"
    using b sigstop_status by (simp add: wait_for_trace_def benign_def Let_def)
  have "benign r0 ?es (w1\<lparr> wd_script := ?es \<rparr>)" using b by (simp add: benign_def at_rest_def)
  from Suc.IH [OF this] show ?case
    using sigstop_status WIF_exclusive(1,2) [OF sigstop_status(1)]
    by (subst await_trap.simps) (simp add: a s)
qed


lemma benign_intercept:
  assumes "benign r0 (replicate n (Stops (stop_status SIGSTOP 0) id) @ halts_with r # es) w"
    and "parse_block (ij_stale e) (wd_tracee w) (r0 (REG_SP (ij_arch e))) = Some (entry, addr)"
    and "entry \<noteq> 0" "r (REG_IP (ij_arch e)) = break_addr entry"
  shows "\<exists>w'. intercept e w = Inr (Some (r, entry), w') \<and> benign r es w'"
proof -
  let ?es = "replicate n (Stops (stop_status SIGSTOP 0) id) @ halts_with r # es"
  let ?w1 = "snd (ask Req_getregs w)"
  have g: "get_regs (\<lambda>_. 0) w = ((True, r0), ?w1)" and b1: "benign r0 ?es ?w1"
    using assms(1) ask_obliging [of w Req_getregs]
    by (simp_all add: benign_def at_rest_def get_regs_obliging)
  obtain w2 where w2: "write_remote addr (word_bytes (break_addr entry)) ?w1 = (8, w2)"
    and b2: "benign r0 ?es w2" using benign_write [OF b1, of addr "word_bytes (break_addr entry)"] by auto
  obtain w3 where w3: "await_trap (ij_arch e) w2 = Inr (True, w3)" and b3: "benign r es w3"
    using benign_await_trap [OF b2] by blast
  obtain w4 where w4: "get_regs r0 w3 = ((True, r), w4)" and b4: "benign r es w4"
    using benign_get [OF b3] by blast
  obtain w5 where w5: "write_remote addr (word_bytes entry) w4 = (8, w5)" and b5: "benign r es w5"
    using benign_write [OF b4, of addr "word_bytes entry"] by auto
  have "intercept e w = Inr (Some (r, entry), w5)"
    using assms(2-4) unfolding intercept_def g prod.case by (simp add: w2 w3 w4 w5)
  with b5 show ?thesis by blast
qed

text \<open>
  What the tracee does: the stop of the seizure, perhaps stops by \<open>SIGSTOP\<close>, the trap, a stop
  at the trap address of \<open>libc\<close> for each of the three calls, the two stops of \<open>SIGCONT\<close>, and the
  stop of a system call.
\<close>

definition cooperative_script :: "nat \<Rightarrow> regs \<Rightarrow> regs \<Rightarrow> regs \<Rightarrow> regs \<Rightarrow> event list" where
  "cooperative_script n trapped opened found entered =
     Stops (stop_status SIGSTOP PTRACE_EVENT_STOP) id #
     replicate n (Stops (stop_status SIGSTOP 0) id) @
     [halts_with trapped, halts_with opened, halts_with found, halts_with entered,
      Stops (stop_status SIGTRAP PTRACE_EVENT_STOP) id, Stops (stop_status SIGCONT 0) id,
      Stops (stop_status SIGTRAP 0) id]"

lemma benign_stop:
  "benign r (Stops st id # es) w \<Longrightarrow> \<exists>w'. wait_for_process w = Inr (Some st, w') \<and> benign r es w'"
  by (simp add: wait_for_process_def benign_def at_rest_def)

lemma benign_continue:
  assumes "benign r [Stops (stop_status SIGTRAP PTRACE_EVENT_STOP) id, Stops (stop_status SIGCONT 0) id,
      Stops (stop_status SIGTRAP 0) id] w"
  shows "\<exists>w'. continue_and_detach w = Inr (True, w') \<and> benign r [] w'"
proof -
  let ?s5 = "Stops (stop_status SIGTRAP PTRACE_EVENT_STOP) id" and ?s6 = "Stops (stop_status SIGCONT 0) id"
    and ?s7 = "Stops (stop_status SIGTRAP 0) id"
  have st: "STOPPED_WITH (stop_status SIGTRAP PTRACE_EVENT_STOP) SIGTRAP PTRACE_EVENT_STOP"
    "STOPPED_WITH (stop_status SIGCONT 0) SIGCONT 0" by code_simp+
  obtain w1 where a1: "ask (Req_kill SIGCONT) w = (True, w1)" and b1: "benign r [?s5, ?s6, ?s7] w1"
    using benign_ask [OF assms] by blast
  obtain w2 where a2: "ask (Req_cont 0) w1 = (True, w2)" and b2: "benign r [?s5, ?s6, ?s7] w2"
    using benign_ask [OF b1] by blast
  obtain w3 where p3: "wait_for_process w2 = Inr (Some (stop_status SIGTRAP PTRACE_EVENT_STOP), w3)"
    and b3: "benign r [?s6, ?s7] w3" using benign_stop [OF b2] by blast
  obtain w4 where a4: "ask (Req_cont 0) w3 = (True, w4)" and b4: "benign r [?s6, ?s7] w4"
    using benign_ask [OF b3] by blast
  obtain w5 where p5: "wait_for_process w4 = Inr (Some (stop_status SIGCONT 0), w5)"
    and b5: "benign r [?s7] w5" using benign_stop [OF b4] by blast
  obtain w6 where a6: "ask Req_syscall w5 = (True, w6)" and b6: "benign r [?s7] w6"
    using benign_ask [OF b5] by blast
  obtain w7 where p7: "wait_for_process w6 = Inr (Some (stop_status SIGTRAP 0), w7)"
    and b7: "benign r [] w7" using benign_stop [OF b6] by blast
  obtain w8 where a8: "ask (Req_detach SIGCONT) w7 = (True, w8)" and b8: "benign r [] w8"
    using benign_ask [OF b7] by blast
  have "detach_with_gki_workaround SIGCONT w5 = Inr (True, w8)"
    unfolding detach_with_gki_workaround_def a6 prod.case by (simp add: p7 a8)
  then have "continue_and_detach w = Inr (True, w8)"
    unfolding continue_and_detach_def a1 prod.case a2 by (simp add: p3 a4 p5 st)
  with b8 show ?thesis by blast
qed

lemma benign_run_injection:
  assumes "benign r0 (halts_with r1 # halts_with r2 # halts_with r3 # es) w"
    and "trap = find_module_return_addr (lk_remote (env_at e w)) ''libc.so''" "trap \<noteq> 0"
    and "env_func (env_at e w) ''libdl.so'' ''dlopen'' \<noteq> 0" "env_func (env_at e w) ''libdl.so'' ''dlsym'' \<noteq> 0"
    and "length lib_path + 17 \<le> unat (regs (REG_SP (ij_arch e)))"
    and "r1 (REG_IP (ij_arch e)) = trap" "r2 (REG_IP (ij_arch e)) = trap" "r3 (REG_IP (ij_arch e)) = trap"
    and "r1 (REG_RET (ij_arch e)) \<noteq> 0" "r2 (REG_RET (ij_arch e)) \<noteq> 0"
  shows "\<exists>w' r'. run_injection e lib_path regs w = Inr (Some (), r', w') \<and> benign r3 es w'"
proof -
  let ?a = "ij_arch e" and ?E = "env_at e w"
  let ?n = "length (c_string lib_path)" and ?sp = "regs (REG_SP (ij_arch e))"
  have "?n \<le> length lib_path + 1" by (rule length_c_string)
  moreover have "unat ?sp < 2 ^ 64" using unsigned_less [of ?sp, where ?'a = nat] by simp
  ultimately have "unat (?sp - of_nat ?n) = unat ?sp - ?n"
    using assms(6) by (subst unat_sub) (simp_all add: word_le_nat_alt unat_of_nat)
  then have nz: "(?sp - of_nat ?n) AND STACK_ALIGN_MASK \<noteq> 0"
    using aligned_nonzero [of "?sp - of_nat ?n"] assms(6) \<open>?n \<le> length lib_path + 1\<close> by simp
  obtain s1 w1 where p1: "push_string ?a lib_path regs w = ((?sp - of_nat ?n) AND STACK_ALIGN_MASK, s1, w1)"
    and b1: "benign r0 (halts_with r1 # halts_with r2 # halts_with r3 # es) w1"
    using benign_push [OF assms(1)] by blast
  obtain w2 where c2: "remote_call ?a (env_func ?E ''libdl.so'' ''dlopen'') trap
      [(?sp - of_nat ?n) AND STACK_ALIGN_MASK, RTLD_NOW] s1 w1 = Inr ((r1 (REG_RET ?a), True), r1, w2)"
    and b2: "benign r1 (halts_with r2 # halts_with r3 # es) w2"
    using benign_remote_call [OF b1 assms(7)] by blast
  obtain str s3 w3 where p3: "push_string ?a ''entry'' r1 w2 = (str, s3, w3)"
    and b3: "benign r1 (halts_with r2 # halts_with r3 # es) w3" using benign_push [OF b2] by blast
  obtain w4 where c4: "remote_call ?a (env_func ?E ''libdl.so'' ''dlsym'') trap [r1 (REG_RET ?a), str] s3 w3 =
      Inr ((r2 (REG_RET ?a), True), r2, w4)"
    and b4: "benign r2 (halts_with r3 # es) w4" using benign_remote_call [OF b3 assms(8)] by blast
  obtain st sz where sp: "library_span (remote_maps e w4) = (st, sz)" by fastforce
  let ?l = "\<lparr> la_start = st, la_size = sz, la_entry = r2 (REG_RET ?a), la_custom = False \<rparr>"
  have lib: "by_linker e ?E trap (r1 (REG_RET ?a)) r1 w2 = Inr (Some ?l, r2, w4)"
    using assms(5,11) unfolding by_linker_def Let_def p3 prod.case by (simp add: c4 sp)
  have load: "load_library e lib_path ?E trap regs w = Inr (Some ?l, r2, w4)"
    using assms(4,10) nz lib unfolding load_library_def Let_def p1 prod.case by (simp add: c2)
  obtain tmp s5 w5 where p5: "push_string ?a (ij_tmp_path e) r2 w4 = (tmp, s5, w5)"
    and b5: "benign r2 (halts_with r3 # es) w5" using benign_push [OF b4] by blast
  obtain w6 where c6: "remote_call ?a (r2 (REG_RET ?a)) trap [st, sz, tmp, 0] s5 w5 =
      Inr ((r3 (REG_RET ?a), True), r3, w6)"
    and b6: "benign r3 es w6" using benign_remote_call [OF b5 assms(9)] by blast
  have "call_entry e trap ?l r2 w4 = Inr (Some (), r3, w6)"
    unfolding call_entry_def p5 prod.case by (simp add: c6)
  then have "run_injection e lib_path regs w = Inr (Some (), r3, w6)"
    using assms(3) load unfolding run_injection_def Let_def assms(2) [symmetric] by simp
  with b6 show ?thesis by blast
qed


text \<open>
  C5: a process that plays along is injected and let go: seized at its start, stopped at its
  entry after any number of \<open>SIGSTOP\<close>, it runs \<open>dlopen\<close>, \<open>dlsym\<close> and the library's \<open>entry\<close>;
  the attempt succeeds, and the process goes on with the registers it was trapped with and its
  instruction pointer at its real entry point, detached with \<open>SIGCONT\<close>.
\<close>

theorem cooperative_process_injected:
  assumes a_def: "a = ij_arch e" and E_def: "E = env_at e w"
    and trap_def: "trap = find_module_return_addr (lk_remote E) ''libc.so''"
    and "benign r0 (cooperative_script n trapped opened found entered) w"
    and "ij_maps e = (\<lambda>_. maps)"
    and "parse_block (ij_stale e) (wd_tracee w) (r0 (REG_SP a)) = Some (entry, addr)" "entry \<noteq> 0"
    and "trap \<noteq> 0" "env_func E ''libdl.so'' ''dlopen'' \<noteq> 0" "env_func E ''libdl.so'' ''dlsym'' \<noteq> 0"
    and "trapped (REG_IP a) = break_addr entry"
    and "length (ij_tmp_path e) + 64 \<le> unat (trapped (REG_SP a))"
    and "list_all (\<lambda>r. r (REG_IP a) = trap) [opened, found, entered]"
    and "opened (REG_RET a) \<noteq> 0" "found (REG_RET a) \<noteq> 0"
  shows "\<exists>w'. trace_zygote e seize_errno w = Inr (True, w') \<and>
     tr_regs (wd_tracee w') = trapped(REG_IP a := entry) \<and>
     ends_with_request [Req_detach SIGCONT] w' \<and> wd_script w' = []"
proof -
  let ?tail = "[Stops (stop_status SIGTRAP PTRACE_EVENT_STOP) id, Stops (stop_status SIGCONT 0) id,
      Stops (stop_status SIGTRAP 0) id]"
  let ?calls = "halts_with opened # halts_with found # halts_with entered # ?tail"
  let ?es = "replicate n (Stops (stop_status SIGSTOP 0) id) @ halts_with trapped # ?calls"
  let ?first = "Stops (stop_status SIGSTOP PTRACE_EVENT_STOP) id"
  have b: "benign r0 (?first # ?es) w" using assms(4) by (simp only: cooperative_script_def append_Cons append_Nil)
  define w1 where "w1 = snd (ask Req_seize w)"
  have a1: "ask Req_seize w = (True, w1)" and b1: "benign r0 (?first # ?es) w1" and t1: "wd_tracee w1 = wd_tracee w"
    using b ask_obliging [of w Req_seize] by (simp_all add: w1_def benign_def at_rest_def)
  define w2 where "w2 = w1\<lparr> wd_script := ?es \<rparr>"
  have p2: "wait_for_process w1 = Inr (Some (stop_status SIGSTOP PTRACE_EVENT_STOP), w2)"
    and b2: "benign r0 ?es w2" and t2: "wd_tracee w2 = wd_tracee w"
    using b1 t1 by (simp_all add: wait_for_process_def benign_def at_rest_def w2_def)
  have pb: "parse_block (ij_stale e) (wd_tracee w2) (r0 (REG_SP (ij_arch e))) = Some (entry, addr)"
    using assms(6) by (simp only: t2 a_def)
  obtain w3 where i3: "intercept e w2 = Inr (Some (trapped, entry), w3)" and b3: "benign trapped ?calls w3"
    using benign_intercept [OF b2 pb assms(7)] assms(11) by (auto simp: a_def)
  have E: "env_at e w3 = E" using assms(5) by (simp add: E_def env_at_def remote_maps_def)
  let ?path = "ij_tmp_path e @ ''/lib64/libzygisk.so''"
  have ip: "opened (REG_IP a) = trap" "found (REG_IP a) = trap" "entered (REG_IP a) = trap"
    using assms(13) by simp_all
  have sp: "clear_btype (ij_arch e) trapped (REG_SP (ij_arch e)) = trapped (REG_SP a)"
    by (simp add: clear_btype_def a_def split: arch.split)
  obtain w4 r4 where run: "run_injection e ?path (clear_btype (ij_arch e) trapped) w3 = Inr (Some (), r4, w4)"
    and b4: "benign entered ?tail w4"
    using benign_run_injection [OF b3, of trap e ?path "clear_btype (ij_arch e) trapped"] assms(8-10,12,14,15) ip
    unfolding E sp trap_def a_def by auto
  let ?backup = "trapped(REG_IP (ij_arch e) := entry)"
  obtain w5 where s5: "set_regs ?backup w4 = (True, w5)" and b5: "benign ?backup ?tail w5"
    using benign_set [OF b4] by blast
  have inj: "perform_injection e w2 = Inr (True, w5)"
    unfolding perform_injection_def inject_on_main_def i3 bind_res.simps prod.case option.case Let_def run s5
    by simp
  obtain w6 where c6: "continue_and_detach w5 = Inr (True, w6)" and b6: "benign ?backup [] w6"
    using benign_continue [OF b5] by blast
  have st: "STOPPED_WITH (stop_status SIGSTOP PTRACE_EVENT_STOP) SIGSTOP PTRACE_EVENT_STOP" by code_simp
  have "trace_with_seize e w = Inr ((True, False), w6)"
    unfolding trace_with_seize_def a1 prod.case by (simp add: p2 st inj c6)
  then have "trace_zygote e seize_errno w = Inr (True, w6)" by (simp add: trace_zygote_def)
  moreover have "ends_with_request [Req_detach SIGCONT] w6" using continue_ends [OF c6] by simp
  ultimately show ?thesis using b6 by (auto simp: benign_def at_rest_def a_def)
qed

section \<open>An attempt given up before the entry\<close>

lemma other_stop:
  assumes "0 < sig" "sig < 128" "sig \<noteq> SIGSEGV" "sig \<noteq> SIGSTOP"
  shows "WIFSTOPPED (stop_status sig 0)" "\<not> is_seccomp_stop (stop_status sig 0)"
    "WSTOPSIG (stop_status sig 0) = sig"
proof -
  have "stop_status sig 0 = 127 + 128 * (2 * sig)" by (simp add: stop_status_def)
  then show "WIFSTOPPED (stop_status sig 0)" by (simp only: WIFSTOPPED_def WTERMSIG_def mod_mult_self2) simp
  have "stop_status sig 0 div 256 = sig" by (simp add: stop_status_def)
  moreover have "or SIGTRAP (PTRACE_EVENT_SECCOMP * 256) = (1797 :: int)" by code_simp
  ultimately show "\<not> is_seccomp_stop (stop_status sig 0)" "WSTOPSIG (stop_status sig 0) = sig"
    using assms(1,2) by (simp_all add: is_seccomp_stop_def WSTOPSIG_def WEXITSTATUS_def)
qed

text \<open>
  when a process stops by any other signal on its way to its entry point, the attempt is
  given up and the process let go with its registers, but with the planted address still in
  the place of its entry point: it crashes when its linker jumps there.
\<close>

theorem abandoned_with_hijacked_entry:
  assumes "obliging w"
    and "wd_script w = [Stops (stop_status SIGSTOP PTRACE_EVENT_STOP) id, Stops (stop_status sig 0) id]"
    and "0 < sig" "sig < 128" "sig \<noteq> SIGSEGV" "sig \<noteq> SIGSTOP"
    and "parse_block (ij_stale e) (wd_tracee w) (tr_regs (wd_tracee w) (REG_SP (ij_arch e))) = Some (entry, addr)"
    and "entry \<noteq> 0" "all_accessible (wd_tracee w) PROT_WRITE addr 8"
  shows "\<exists>w'. trace_zygote e seize_errno w = Inr (False, w') \<and> ends_with_request [Req_detach 0] w' \<and>
     tr_regs (wd_tracee w') = tr_regs (wd_tracee w) \<and>
     peek (tr_mem (wd_tracee w')) addr 8 = word_bytes (break_addr entry)"
proof -
  let ?a = "ij_arch e" and ?s2 = "Stops (stop_status sig 0) id"
  define w1 where "w1 = snd (ask Req_seize w)"
  have a1: "ask Req_seize w = (True, w1)" and o1: "obliging w1" using ask_obliging [OF assms(1)] by (simp_all add: w1_def)
  define w2 where "w2 = w1\<lparr> wd_script := [?s2] \<rparr>"
  have t1: "wd_tracee w1 = wd_tracee w" by (simp add: w1_def)
  have p2: "wait_for_process w1 = Inr (Some (stop_status SIGSTOP PTRACE_EVENT_STOP), w2)"
    using assms(2) by (simp add: wait_for_process_def w1_def w2_def)
  have o2: "obliging w2" and t2: "wd_tracee w2 = wd_tracee w" using o1 t1 by (simp_all add: w2_def)
  define w3 where "w3 = snd (ask Req_getregs w2)"
  let ?r = "tr_regs (wd_tracee w)" and ?bs = "word_bytes (break_addr entry)"
  have g3: "get_regs (\<lambda>_. 0) w2 = ((True, ?r), w3)" using get_regs_obliging [OF o2] t2 by (simp add: w3_def)
  have o3: "obliging w3" and t3: "wd_tracee w3 = wd_tracee w" and s3: "wd_script w3 = [?s2]"
    using ask_obliging [OF o2] t2 by (simp_all add: w3_def) (simp add: w2_def)
  define w4 where "w4 = w3\<lparr> wd_tracee := (wd_tracee w)\<lparr> tr_mem := poke (tr_mem (wd_tracee w)) addr ?bs \<rparr> \<rparr>"
  have wr: "write_remote addr ?bs w3 = (8, w4)"
    using write_remote_full [of addr ?bs w3 w4] assms(9) by (simp add: t3 w4_def)
  define w5 where "w5 = snd (ask (Req_cont 0) w4)"
  have a5: "ask (Req_cont 0) w4 = (True, w5)" using ask_obliging [of w4] o3 by (simp add: w4_def w5_def)
  have s5: "wd_script w5 = [?s2]" using s3 by (simp add: w5_def w4_def)
  let ?w6 = "w5\<lparr> wd_script := [] \<rparr>"
  note st = other_stop [OF assms(3-6)]
  have "wait_for_trace ?a w5 = Inr (stop_status sig 0, ?w6)"
    using st by (simp add: wait_for_trace_def s5 Let_def)
  then have "await_trap ?a w4 = Inr (False, ?w6)"
    using st WIF_exclusive(1,2) [OF st(1)] assms(5,6) by (subst await_trap.simps) (simp add: a5)
  then have "intercept e w2 = Inr (None, ?w6)"
    using assms(7,8) unfolding intercept_def g3 prod.case by (simp add: t3 wr)
  then have inj: "perform_injection e w2 = Inr (False, ?w6)"
    by (simp add: perform_injection_def inject_on_main_def)
  have stw: "STOPPED_WITH (stop_status SIGSTOP PTRACE_EVENT_STOP) SIGSTOP PTRACE_EVENT_STOP" by code_simp
  let ?w7 = "snd (ask (Req_detach 0) ?w6)"
  have "trace_zygote e seize_errno w = Inr (False, ?w7)"
    by (simp add: trace_zygote_def trace_with_seize_def a1 p2 stw inj bail_and_detach_def)
  moreover have "wd_tracee ?w7 = (wd_tracee w)\<lparr> tr_mem := poke (tr_mem (wd_tracee w)) addr ?bs \<rparr>"
    by (simp add: w5_def w4_def)
  ultimately show ?thesis
    using peek_poke_same [of ?bs "tr_mem (wd_tracee w)" addr] by (simp add: ends_with_request_def ask_logs)
qed

lemma word_bytes_nonempty: "word_bytes v \<noteq> []"
  using length_word_bytes [of v] by (metis list.size(3) zero_neq_numeral)

text \<open>
  A planted address that could not be written is not noticed: the injector resumes the
  process and waits for a trap that cannot come.
\<close>

theorem unplanted_trap_awaited:
  assumes "obliging w" "wd_script w = []"
    and "parse_block (ij_stale e) (wd_tracee w) (tr_regs (wd_tracee w) (REG_SP (ij_arch e))) = Some (entry, addr)"
    and "entry \<noteq> 0" "\<not> accessible (wd_tracee w) PROT_WRITE addr"
  shows "inject_on_main e lib_path w = Inl Blocked"
proof -
  let ?w1 = "snd (ask Req_getregs w)" and ?bs = "word_bytes (break_addr entry)"
  have g: "get_regs (\<lambda>_. 0) w = ((True, tr_regs (wd_tracee w)), ?w1)" by (rule get_regs_obliging [OF assms(1)])
  have o1: "obliging ?w1" using ask_obliging [OF assms(1)] by blast
  have "reachable_bytes (wd_tracee w) PROT_WRITE addr 8 = 0"
    using assms(5) by (simp add: reachable_bytes_def upt_rec)
  then have wr: "write_remote addr ?bs ?w1 = (- 1, ?w1)"
    using word_bytes_nonempty by (simp add: write_remote_def write_proc_def Let_def)
  obtain w2 where a: "ask (Req_cont 0) ?w1 = (True, w2)" and "w2 = snd (ask (Req_cont 0) ?w1)"
    using ask_obliging [OF o1, of "Req_cont 0"] by blast
  then have "wd_script w2 = []" using assms(2) by simp
  then have "await_trap (ij_arch e) ?w1 = Inl Blocked"
    by (subst await_trap.simps) (simp add: a wait_for_trace_def)
  then show ?thesis
    using assms(3,4) unfolding inject_on_main_def intercept_def g prod.case by (simp add: wr)
qed

section \<open>Concrete processes\<close>

text \<open>A process with one argument, one environment variable and two entries in its vector.\<close>

definition sample_block :: "u64 list" where
  "sample_block = [1, 0x7000, 0, 0x7100, 0, 6, 4096, 9, 0x4000, 0, 0]"

definition fresh_process :: tracee where
  "fresh_process = \<lparr> tr_regs = (\<lambda>_. 0x10000), tr_mem = poke (\<lambda>_. 0) 0x10000 (stack_bytes sample_block),
                     tr_prot = (\<lambda>_. Some 7) \<rparr>"

lemma fresh_block: "words_at fresh_process 0x10000 sample_block"
proof -
  have "all_accessible fresh_process PROT_READ 0x10000 (8 * length sample_block)"
    by (simp add: all_accessible_def accessible_def fresh_process_def list_all_iff)
  then show ?thesis
    using peek_poke_same [of "stack_bytes sample_block" "\<lambda>_. 0" "0x10000"]
    by (simp add: words_at_def fresh_process_def sample_block_def)
qed

lemma kernel_block_parsed_witness:
  "words_at fresh_process 0x10000 sample_block \<and>
   parse_block (\<lambda>_ _. 0) fresh_process 0x10000 = Some (0x4000, 0x10040)"
proof -
  have "sample_block = of_nat (length [0x7000 :: u64]) # [0x7000] @ 0 # [0x7100] @ 0 # aux_words [(6, 4096)] @
      AT_ENTRY # 0x4000 # [0, 0]" by (simp add: sample_block_def aux_words_def)
  with fresh_block have "words_at fresh_process 0x10000 (of_nat (length [0x7000 :: u64]) # [0x7000] @ 0 #
      [0x7100] @ 0 # aux_words [(6, 4096)] @ AT_ENTRY # 0x4000 # [0, 0])" by simp
  from kernel_block_parsed [OF this, of "\<lambda>_ _. 0"] fresh_block show ?thesis by simp
qed

definition process_maps :: "string list" where
  "process_maps =
     [''5000-6000 r--p 00000000 00:00 9 /system/lib64/libc.so'',
      ''8000-9000 r--p 00000000 00:00 10 /system/lib64/libdl.so'']"

definition fresh_env :: "string list option \<Rightarrow> inject_env" where
  "fresh_env maps =
     \<lparr> ij_arch = Aarch64, ij_page_size = 4096, ij_open = (\<lambda>_. None), ij_lookup = (\<lambda>_ _. Some 0x8100),
       ij_local_maps = maps, ij_maps = (\<lambda>_. maps), ij_stale = (\<lambda>_ _. 0), ij_tmp_path = ''/t'' \<rparr>"

definition fresh_world :: "event list \<Rightarrow> world" where
  "fresh_world es =
     \<lparr> wd_tracee = fresh_process, wd_script = es, wd_answers = [], wd_requests = [] \<rparr>"

lemma fresh_world_benign: "benign (\<lambda>_. 0x10000) es (fresh_world es)"
  by (simp add: benign_def at_rest_def obliging_def fresh_world_def fresh_process_def)

lemma fresh_parse: "parse_block stale fresh_process 0x10000 = Some (0x4000, 0x10040)"
proof -
  have "words_at fresh_process 0x10000 (of_nat (length [0x7000 :: u64]) # [0x7000] @ 0 #
      [0x7100] @ 0 # aux_words [(6, 4096)] @ AT_ENTRY # 0x4000 # [0, 0])"
    using fresh_block by (simp add: sample_block_def aux_words_def)
  from kernel_block_parsed [OF this, of stale] show ?thesis by simp
qed

definition trapped_regs :: "u64 \<Rightarrow> regs" where
  "trapped_regs ip = (\<lambda>r. if r = Pc then ip else 0x10000)"

lemma process_libc: "find_module_return_addr (Scan (Some process_maps)) ''libc.so'' = 0x5000"
  by code_simp

lemma process_libdl:
  "find_func_addr (\<lambda>_ _. Some 0x8100) (Scan (Some process_maps)) (Scan (Some process_maps)) ''libdl.so'' f = 0x8100"
proof -
  have "find_module_base (Scan (Some process_maps)) ''libdl.so'' = 0x8000" by code_simp
  then show ?thesis by (simp add: find_func_addr_def)
qed

lemma fresh_intercept:
  "\<exists>w1. intercept (fresh_env maps) (fresh_world [halts_with (trapped_regs (break_addr 0x4000))]) =
     Inr (Some (trapped_regs (break_addr 0x4000), 0x4000), w1)"
proof -
  let ?e = "fresh_env maps" and ?t = "trapped_regs (break_addr 0x4000)"
  let ?w = "fresh_world [halts_with ?t]"
  have b: "benign (\<lambda>_. 0x10000) (replicate 0 (Stops (stop_status SIGSTOP 0) id) @ halts_with ?t # []) ?w"
    using fresh_world_benign by simp
  have t: "wd_tracee ?w = fresh_process" by (simp add: fresh_world_def)
  have pb: "parse_block (ij_stale ?e) (wd_tracee ?w) 0x10000 = Some (0x4000, 0x10040)"
    unfolding t by (rule fresh_parse)
  have ip: "?t (REG_IP (ij_arch ?e)) = break_addr 0x4000" by (simp add: fresh_env_def trapped_regs_def)
  show ?thesis using benign_intercept [OF b pb _ ip] by auto
qed

lemma cooperative_process_injected_witness:
  "\<exists>w'. trace_zygote (fresh_env (Some process_maps)) 0
       (fresh_world (cooperative_script 2 (trapped_regs (break_addr 0x4000)) (trapped_regs 0x5000)
          (trapped_regs 0x5000) (trapped_regs 0x5000))) = Inr (True, w') \<and>
     tr_regs (wd_tracee w') = (trapped_regs (break_addr 0x4000))(Pc := 0x4000)"
proof -
  let ?e = "fresh_env (Some process_maps)" and ?t = "trapped_regs (break_addr 0x4000)"
    and ?r = "trapped_regs 0x5000"
  let ?w = "fresh_world (cooperative_script 2 ?t ?r ?r ?r)"
  let ?E = "env_at ?e ?w"
  have E: "?E = \<lparr> lk_lookup = (\<lambda>_ _. Some 0x8100), lk_local = Scan (Some process_maps),
      lk_remote = Scan (Some process_maps) \<rparr>"
    by (simp add: env_at_def remote_maps_def fresh_env_def)
  have a: "ij_arch ?e = Aarch64" and m: "ij_maps ?e = (\<lambda>_. Some process_maps)"
    by (simp_all add: fresh_env_def)
  have pb: "parse_block (ij_stale ?e) (wd_tracee ?w) 0x10000 = Some (0x4000, 0x10040)"
    using fresh_parse by (simp add: fresh_world_def)
  have libc: "find_module_return_addr (lk_remote ?E) ''libc.so'' = 0x5000"
    unfolding E using process_libc by simp
  have libdl: "env_func ?E ''libdl.so'' f \<noteq> 0" for f
    unfolding E env_func_def using process_libdl by simp
  have sp: "length (ij_tmp_path ?e) + 64 \<le> unat (?t (REG_SP Aarch64))" "?t (REG_IP Aarch64) = break_addr 0x4000"
    by (simp_all add: fresh_env_def trapped_regs_def)
  have r: "list_all (\<lambda>r. r (REG_IP Aarch64) = 0x5000) [?r, ?r, ?r]" "?r (REG_RET Aarch64) \<noteq> 0"
    by (simp_all add: trapped_regs_def)
  have "\<exists>w'. trace_zygote ?e 0 ?w = Inr (True, w') \<and>
     tr_regs (wd_tracee w') = ?t(REG_IP Aarch64 := 0x4000) \<and>
     ends_with_request [Req_detach SIGCONT] w' \<and> wd_script w' = []"
    by (rule cooperative_process_injected [OF a [symmetric] refl libc [symmetric] fresh_world_benign m pb
          _ _ libdl libdl sp(2,1) r(1) r(2) r(2)]) simp_all
  then show ?thesis by auto
qed

text \<open>The process stopped at its entry, in a place without \<open>libc\<close>: the injection is given up.\<close>

lemma injection_resumes_at_entry_witness:
  "\<exists>w'. inject_on_main (fresh_env None) ''/x''
       (fresh_world [halts_with (trapped_regs (break_addr 0x4000))]) = Inr (False, w') \<and>
     tr_regs (wd_tracee w') = (trapped_regs (break_addr 0x4000))(Pc := 0x4000)"
proof -
  let ?e = "fresh_env None" and ?t = "trapped_regs (break_addr 0x4000)"
  let ?w = "fresh_world [halts_with ?t]"
  have a: "ij_arch ?e = Aarch64" by (simp add: fresh_env_def)
  obtain w1 where i: "intercept ?e ?w = Inr (Some (?t, 0x4000), w1)"
    using fresh_intercept by blast
  have "find_module_return_addr [] ''libc.so'' = 0" by code_simp
  then have r: "run_injection ?e ''/x'' regs w1 = Inr (None, regs, w1)" for regs
    by (simp add: run_injection_def env_at_def remote_maps_def fresh_env_def Scan_def)
  obtain b w' where "set_regs (?t(REG_IP (ij_arch ?e) := 0x4000)) w1 = (b, w')" by fastforce
  then have m: "inject_on_main ?e ''/x'' ?w = Inr (False, w')"
    by (simp add: inject_on_main_def i r Let_def)
  moreover have "obliging ?w" by (simp add: fresh_world_def obliging_def)
  ultimately show ?thesis using injection_resumes_at_entry [OF _ i m] by (simp add: a)
qed

lemma intercepted_at_entry_witness:
  "\<exists>w'. intercept (fresh_env None) (fresh_world [halts_with (trapped_regs (break_addr 0x4000))]) =
       Inr (Some (trapped_regs (break_addr 0x4000), 0x4000), w') \<and>
     tr_regs (wd_tracee w') = trapped_regs (break_addr 0x4000)"
proof -
  let ?e = "fresh_env None" and ?t = "trapped_regs (break_addr 0x4000)"
  let ?w = "fresh_world [halts_with ?t]"
  have a: "ij_arch ?e = Aarch64" by (simp add: fresh_env_def)
  obtain w1 where i: "intercept ?e ?w = Inr (Some (?t, 0x4000), w1)"
    using fresh_intercept by blast
  with intercepted_at_entry [OF i] show ?thesis by (auto simp: at_entry_def)
qed


lemma abandoned_with_hijacked_entry_witness:
  "\<exists>w'. trace_zygote (fresh_env None) 0 (fresh_world
        [Stops (stop_status SIGSTOP PTRACE_EVENT_STOP) id, Stops (stop_status 7 0) id]) = Inr (False, w') \<and>
     peek (tr_mem (wd_tracee w')) 0x10040 8 = word_bytes (break_addr 0x4000)"
proof -
  let ?w = "fresh_world [Stops (stop_status SIGSTOP PTRACE_EVENT_STOP) id, Stops (stop_status 7 0) id]"
  have "all_accessible (wd_tracee ?w) PROT_WRITE 0x10040 8"
    by (simp add: all_accessible_def accessible_def fresh_world_def fresh_process_def list_all_iff)
  moreover have "tr_regs (wd_tracee ?w) (REG_SP (ij_arch (fresh_env None))) = 0x10000" "wd_tracee ?w = fresh_process"
    by (simp_all add: fresh_world_def fresh_process_def)
  ultimately show ?thesis
    using abandoned_with_hijacked_entry [where w = ?w and sig = 7 and e = "fresh_env None" and
        entry = "0x4000" and addr = "0x10040" and seize_errno = 0] fresh_parse
    by (auto simp: fresh_world_def obliging_def)
qed

end
