(* ===== verification/Spec2Isabelle.thy ===== *)
theory Spec2Isabelle
  imports Monitor_Properties Elf_Lookup Sanitize_Lines Seccomp_Filter Atexit Daemon_Properties
    Jni_Properties Hotplug Solist_Properties Plt_Properties Entry Inject_Runs
begin

text \<open>
  Verification library of the OnyxZygisk loader (\<open>src/loader/src\<close>).

  \<^bold>\<open>The program\<close>

  OnyxZygisk runs third-party modules inside every Android application.  Three processes work
  together.  The \<^emph>\<open>monitor\<close> (\<open>ptracer monitor\<close>) seizes init, watches every fork and exec with
  ptrace, and starts the daemon; when a process becomes zygote it hands the process over, stopped,
  to an \<^emph>\<open>injector\<close> (\<open>ptracer trace\<close>).  The injector resumes it up to its entry point, loads
  \<open>libzygisk.so\<close> with the system linker or with its own remote ELF loader, and detaches.  The
  \<^emph>\<open>injected library\<close> hooks functions of zygote in the linkage tables and in the JNI method
  tables; when an application or the system server is forked it asks the daemon for the modules and
  the flags of the process, runs the modules before and after specialization, puts the mount
  namespace in order, and then removes its hooks and its traces and unmaps itself.

  All definitions are for the two 64-bit builds.  What is not code of the repository (Linux, the
  dynamic linker, the Java VM, modules, the daemon in Rust) is a parameter: a record of answers or a
  finite script of events, arbitrary unless a theorem names the law it needs.  Code that ends a
  process abnormally gives \<open>Inl\<close> of a \<open>fault\<close>.

  \<^bold>\<open>Foundations\<close>

  \<^item> \<open>Prelude\<close>: machine integers, C strings, little-endian reads, faults, the collections of
    simplification rules.  \<open>Os\<close>: wait statuses, the kernel of the monitor as functions of the
    history of calls.  \<open>Transitions\<close>: reachability and the contract of an inductive invariant, as a
    locale.  \<open>Paging\<close>: page rounding, with its locale interpreted on the masks of the code.

  \<^bold>\<open>Monitor\<close> (\<open>ptracer/monitor_impl.cpp\<close>, \<open>zygote_abi.cpp\<close>, \<open>event_loop.cpp\<close>, \<open>main.cpp\<close>)

  \<^item> \<open>Zygote_Abi\<close>: the record of one architecture and the crash-loop counter.  \<open>Monitor\<close>: the state of
    \<open>AppMonitor\<close>, requests, status file.  \<open>Monitor_Socket\<close>: the control socket byte by byte with its
    persistent buffer, and the specification of its messages.  \<open>Monitor_Sigchld\<close>: what happens to every
    reaped status.  \<open>Monitor_Run\<close>: start-up, the event loop, and the monitor as a step relation.
    \<open>Cli\<close>: the command line.
  \<^item> \<open>Monitor_Properties\<close>: invariants over all reachable states for every kernel and every sequence of
    messages and statuses, the socket handler as a refinement of the message format, the sequence of
    calls of a hand-over, the exact condition of an injection, and that no stopped process is
    forgotten.

  \<^bold>\<open>Injector\<close> (\<open>ptracer/utils.cpp\<close>, \<open>ptracer.cpp\<close>, \<open>remote_csoloader.cpp\<close>)

  \<^item> \<open>Remote\<close>: registers, memory and protections of the tracee, \<open>MapInfo\<close>.  \<open>Remote_Call\<close>: strings on
    its stack, remote calls and system calls over a script of events.  \<open>Cso_Image\<close>: reading the
    library file.  \<open>Csoloader\<close>: mapping, relocating and starting it in the tracee.  \<open>Inject\<close>: parsing
    the kernel's argument block, the trap at the entry point, both ways of loading, attaching and
    detaching.
  \<^item> \<open>Remote_Properties\<close>: the calling conventions, transparency of system calls, when a call counts as
    returned.  \<open>Cso_Image_Properties\<close>, \<open>Csoloader_Properties\<close>, \<open>Cso_Load_Properties\<close>: exact reads under
    short and interrupted \<open>pread\<close>, the span covers every segment, mappings inside the reservation,
    relocation writes exactly the words asked for, registers restored on every path.  \<open>Kernel_Block\<close>:
    the argument block of every well-formed process.  \<open>Inject_Properties\<close>: however the injection goes,
    the process goes on at its entry point with its registers.  \<open>Cso_Runs\<close>, \<open>Inject_Runs\<close>: concrete runs,
    and that a process which plays along is injected.

  \<^bold>\<open>Injected library: start\<close> (\<open>entry.cpp\<close>, \<open>ptrace_clear.cpp\<close>, \<open>common/files.cpp\<close>, \<open>common/misc.cpp\<close>)

  \<^item> \<open>Text_Input\<close>: lines and decimal numbers as the monitor and the descriptor guard read them, and
    that the guard runs over the open descriptors.  \<open>Entry\<close>: the entry point the loader calls, through
    the daemon, the hooks, the record list and the two filters; that zygote survives the calls of
    \<open>exit_group\<close> it makes, and that the tracer never sees the event they are made for.

  \<^bold>\<open>Injected library: talking to the daemon\<close> (\<open>common/\<close>)

  \<^item> \<open>Socket_Io\<close>: exact reads and writes under short, interrupted and failing calls, received
    descriptors.  \<open>Wire_Format\<close>: codecs and their laws as locales, interpreted on the reads and writes of
    the code.  \<open>Daemon_Link\<close>, \<open>Daemon_Properties\<close>: every request of \<open>daemon.cpp\<close>, its frames and
    replies.  \<open>Elf_Image\<close>, \<open>Elf_Lookup\<close>: the ELF reader with the lookup contract as a locale,
    interpreted on the GNU, System V and linear lookups.

  \<^bold>\<open>Injected library: modules and hooks\<close> (\<open>injector/\<close>)

  \<^item> \<open>Module_Api\<close>: the API table and PLT requests.  \<open>Fd_Guard\<close>: the specialization context and its file
    descriptors.  \<open>Specialize\<close>: loading, running and unloading modules.  \<open>Hotplug\<close>: modules
    loaded into the running system server.  \<open>Hooks\<close>: the replaced functions, their registration and
    removal, the mount namespace, self-unmapping.  \<open>Jni_Hooks\<close>: the 27 generated wrappers.
  \<^item> \<open>Specialize_Properties\<close>, \<open>Hook_Properties\<close>, \<open>Jni_Properties\<close>: order and selection of modules, no
    descriptor leaks into an application, the namespace policy, unmapping only after every hook is
    gone, wrappers typed by their signatures and calling their own original.

  \<^bold>\<open>Injected library: hiding\<close> (\<open>injector/clean.cpp\<close>, \<open>solist.cpp\<close>, \<open>fossil.cpp\<close>, \<open>unmount.cpp\<close>,
  \<open>seccomp.cpp\<close>, \<open>atexit.cpp\<close>)

  \<^item> \<open>Sanitize\<close>, \<open>Sanitize_Lines\<close>: the filters of read buffers, index by index, and as functions of
    lines.  \<open>Fossil\<close>: the argument vector on init's stack.  \<open>Mount_Traces\<close>: which mounts are undone.
    \<open>Seccomp_Filter\<close>: the event filter on an interpreter of its machine.  \<open>Atexit\<close>: compaction of the
    exit handlers.  \<open>Soinfo_Layout\<close>, \<open>Solist\<close>, \<open>Solist_Properties\<close>: the record list of the dynamic
    linker, in memory.  \<open>Vm\<close>: an address space of bytes with protection, backing file and name;
    \<open>Clean\<close>, \<open>Clean_Properties\<close>: the sweep that makes mappings anonymous.

  \<^bold>\<open>Injected library: linkage tables\<close> (\<open>external/lsplt\<close>: \<open>elf_util.cc\<close>, \<open>lsplt.cc\<close>)

  \<^item> \<open>Plt_Elf\<close>: the reader of loaded images and its three symbol lookups, which interpret the locales
    \<open>symbol_source\<close> and \<open>lookup_chain\<close>.  \<open>Plt_Elf_Properties\<close>: the slots found for a symbol are those
    the relocation tables list.  \<open>Plt_Hooks\<close>: requests, the table of hooked libraries, the pristine
    copy kept aside by remapping, restoring, merging a new scan, giving up the copies.
    \<open>Plt_Properties\<close>: the pristine library is never lost, hooking and restoring is the identity, a
    scan forgets no hooked library.  \<open>Hooks\<close> and \<open>Module_Api\<close> use the library through its interface,
    the answers to registrations and commits.

  \<^bold>\<open>Bounds and fuel\<close>

  Loops over data are structural or have a measure.  Loops that wait for another party consume a
  finite schedule or script (of socket calls, of stops of the tracee, of signals): every run of the
  program that ends is such a schedule, and running out of it is a party that stays silent, which has
  its own result (\<open>Blocked\<close>, \<open>None\<close>).  Loops over foreign memory that may be cyclic (the
  record list of the linker, the symbol chains) are \<open>partial_function (option)\<close>, and their
  termination on well-formed data is proved.

  \<^bold>\<open>Not modelled\<close>

  \<^item> The 32-bit branches, the text of log messages, C++ allocation failure, and the mutexes of
    \<open>lsplt.cc\<close> and \<open>Hotplug\<close>'s worker (each operation is one step).  Reading an address that is not
    mapped is outside the model of loaded images.
  \<^item> Generated or vendored code: \<open>external/lsplt/.../syscall.hpp\<close> (system call stubs),
    \<open>external/csoloader\<close> (an empty submodule), \<open>gen_jni_hooks.py\<close> (its output is modelled).
  \<^item> \<open>injector/android_util.hpp\<close>: wrappers over JNI whose behaviour is the Java VM's; the decisions
    taken on their results are in \<open>Hooks\<close>.
  \<^item> The daemon \<open>zygiskd\<close> (Rust; its reply formats are in \<open>Daemon_Link\<close>), the web interface, the
    module scripts and the build files.
\<close>

end
